(* ===== verification/Prelude.thy ===== *)
theory Prelude
  imports Main "HOL-Library.Word" "HOL-Library.Char_ord" "HOL-Library.List_Lexorder"
begin

text \<open>
  The vocabulary every component of the development shares:
  \<^item> Go values: 64-bit integers, identifiers and instants;
  \<^item> a program as a function from a world to a Go result (an error or a value) and
    the next world, with the few ways the Go code chains calls;
  \<^item> the inversion rules for those combinators, collected in \<open>run_elims\<close>, and
    \<open>keeps\<close>, the statement that a program leaves a predicate of the world alone.
\<close>

section \<open>Collections of facts\<close>

named_theorems run_elims \<open>inversion of a run of a program that returned\<close>

named_theorems run_simps \<open>evaluation of the program combinators\<close>

named_theorems keeps_intros \<open>programs that leave a predicate of the world alone\<close>

section \<open>Go values\<close>

type_synonym int64 = "64 word"

text \<open>An identifier drawn by \<open>uuid.New\<close>, kept in its text form.\<close>

type_synonym uuid = string

text \<open>An instant, \<open>time.Time\<close>, or a \<open>time.Duration\<close>, in nanoseconds.\<close>

type_synonym time = int

text \<open>Go compares \<open>int64\<close> values as signed numbers; addition and subtraction wrap.\<close>

abbreviation i64_less :: "int64 \<Rightarrow> int64 \<Rightarrow> bool" where
  "i64_less a b \<equiv> sint a < sint b"

abbreviation i64_le :: "int64 \<Rightarrow> int64 \<Rightarrow> bool" where
  "i64_le a b \<equiv> sint a \<le> sint b"

lemma sint_i64_inject: "sint (a::int64) = sint b \<longleftrightarrow> a = b"
  by (rule word_eq_iff_signed[symmetric])

lemma sint_i64_eq_0 [simp]: "sint (a::int64) = 0 \<longleftrightarrow> a = 0"
  by (rule signed_eq_0_iff)

lemma sint_i64_bounds: "- (2 ^ 63) \<le> sint (a::int64) \<and> sint a < 2 ^ 63"
  using sint_range_size[of a] by (simp add: word_size)

lemma sint_i64_add:
  assumes "- (2 ^ 63) \<le> sint (a::int64) + sint b" and "sint a + sint b < 2 ^ 63"
  shows "sint (a + b) = sint a + sint b"
proof -
  have "sint (a + b) = signed_take_bit 63 (sint a + sint b)"
    by (simp add: sint_word_ariths)
  then show ?thesis
    using assms by (simp add: signed_take_bit_int_eq_self)
qed

lemma sint_i64_sub:
  assumes "- (2 ^ 63) \<le> sint (a::int64) - sint b" and "sint a - sint b < 2 ^ 63"
  shows "sint (a - b) = sint a - sint b"
proof -
  have "sint (a - b) = signed_take_bit 63 (sint a - sint b)"
    by (simp add: sint_word_ariths)
  then show ?thesis
    using assms by (simp add: signed_take_bit_int_eq_self)
qed

text \<open>Between non-negative values a difference never wraps.\<close>

lemma sint_i64_sub_nonneg:
  "0 \<le> sint (a::int64) \<Longrightarrow> 0 \<le> sint b \<Longrightarrow> sint (a - b) = sint a - sint b"
  using sint_i64_bounds[of a] sint_i64_bounds[of b] by (intro sint_i64_sub) auto

text \<open>Nor does a sum that stays below some \<open>int64\<close> value.\<close>

lemma sint_i64_add_bounded:
  assumes "0 \<le> sint (a::int64)" and "0 \<le> sint b" and "sint a + sint b \<le> sint (c::int64)"
  shows "sint (a + b) = sint a + sint b"
  using assms sint_i64_bounds[of c] by (intro sint_i64_add) auto

section \<open>Programs\<close>

text \<open>
  A Go function that may fail and touches the world. \<open>Inl\<close> is the returned error.
  The type of errors is fixed in theory \<open>Errors\<close>; here it is a parameter.
\<close>

type_synonym ('w, 'e, 'a) gprog = "'w \<Rightarrow> ('e + 'a) \<times> 'w"

definition ret :: "'a \<Rightarrow> ('w, 'e, 'a) gprog" where
  "ret x = (\<lambda>w. (Inr x, w))"

definition throw :: "'e \<Rightarrow> ('w, 'e, 'a) gprog" where
  "throw e = (\<lambda>w. (Inl e, w))"

text \<open>\<open>x, err := m(); if err != nil { return err }\<close>, then the rest.\<close>

definition bnd :: "('w, 'e, 'a) gprog \<Rightarrow> ('a \<Rightarrow> ('w, 'e, 'b) gprog) \<Rightarrow> ('w, 'e, 'b) gprog" where
  "bnd m f = (\<lambda>w. case m w of (Inl e, w') \<Rightarrow> (Inl e, w') | (Inr x, w') \<Rightarrow> f x w')"

text \<open>\<open>x, err := m()\<close> where the caller looks at \<open>err\<close> itself.\<close>

definition attempt :: "('w, 'e, 'a) gprog \<Rightarrow> ('w, 'e, 'e + 'a) gprog" where
  "attempt m = (\<lambda>w. case m w of (r, w') \<Rightarrow> (Inr r, w'))"

text \<open>\<open>if err := m(); err != nil { return g(err) }\<close>.\<close>

definition map_err :: "('e \<Rightarrow> 'e) \<Rightarrow> ('w, 'e, 'a) gprog \<Rightarrow> ('w, 'e, 'a) gprog" where
  "map_err g m = (\<lambda>w. case m w of (Inl e, w') \<Rightarrow> (Inl (g e), w') | (Inr x, w') \<Rightarrow> (Inr x, w'))"

text \<open>An early return of an error when a guard holds.\<close>

definition fail_if :: "bool \<Rightarrow> 'e \<Rightarrow> ('w, 'e, unit) gprog" where
  "fail_if b e = (if b then throw e else ret ())"

text \<open>A value or an error computed without touching the world.\<close>

definition of_sum :: "'e + 'a \<Rightarrow> ('w, 'e, 'a) gprog" where
  "of_sum r = (\<lambda>w. (r, w))"

lemmas prog_defs = ret_def throw_def bnd_def attempt_def map_err_def fail_if_def of_sum_def

lemma run_ret [simp]: "ret x w = (Inr x, w)"
  by (simp add: ret_def)

lemma run_throw [simp]: "throw e w = (Inl e, w)"
  by (simp add: throw_def)

lemma run_of_sum [simp]: "of_sum r w = (r, w)"
  by (simp add: of_sum_def)

lemma run_fail_if [run_simps]: "fail_if b e w = (if b then Inl e else Inr (), w)"
  by (simp add: fail_if_def)

lemma run_bnd [run_simps]:
  "bnd m f w = (case m w of (Inl e, w') \<Rightarrow> (Inl e, w') | (Inr x, w') \<Rightarrow> f x w')"
  by (simp add: bnd_def)

lemma run_attempt [run_simps]: "attempt m w = (Inr (fst (m w)), snd (m w))"
  by (simp add: attempt_def split: prod.splits)

lemma run_map_err [run_simps]:
  "map_err g m w = (case m w of (Inl e, w') \<Rightarrow> (Inl (g e), w') | (Inr x, w') \<Rightarrow> (Inr x, w'))"
  by (simp add: map_err_def)

text \<open>Inversion: what a returned value, or a returned error, says of the parts.\<close>

lemma bnd_okE [run_elims]:
  assumes "bnd m f w = (Inr y, w')"
  obtains x w1 where "m w = (Inr x, w1)" and "f x w1 = (Inr y, w')"
  using assms by (auto simp: bnd_def split: prod.splits sum.splits)

lemma bnd_errE [run_elims]:
  assumes "bnd m f w = (Inl e, w')"
  obtains (first) "m w = (Inl e, w')"
  | (second) x w1 where "m w = (Inr x, w1)" and "f x w1 = (Inl e, w')"
  using assms by (auto simp: bnd_def split: prod.splits sum.splits)

lemma map_err_okE [run_elims]:
  assumes "map_err g m w = (Inr x, w')"
  obtains "m w = (Inr x, w')"
  using assms by (auto simp: map_err_def split: prod.splits sum.splits)

lemma map_err_errE [run_elims]:
  assumes "map_err g m w = (Inl e, w')"
  obtains e0 where "m w = (Inl e0, w')" and "e = g e0"
  using assms by (auto simp: map_err_def split: prod.splits sum.splits)

lemma attempt_okE [run_elims]:
  assumes "attempt m w = (Inr r, w')"
  obtains "m w = (r, w')"
  using assms by (auto simp: attempt_def split: prod.splits)

lemma attempt_errE [run_elims]:
  assumes "attempt m w = (Inl e, w')"
  obtains "False"
  using assms by (auto simp: attempt_def split: prod.splits)

lemma fail_if_okE [run_elims]:
  assumes "fail_if b e w = (Inr u, w')"
  obtains "\<not> b" and "w' = w"
  using assms by (auto simp: fail_if_def split: if_splits)

lemma fail_if_errE [run_elims]:
  assumes "fail_if b e w = (Inl e', w')"
  obtains "b" and "e' = e" and "w' = w"
  using assms by (auto simp: fail_if_def split: if_splits)

lemma bnd_ok_step: "m w = (Inr x, w1) \<Longrightarrow> bnd m f w = f x w1"
  by (simp add: bnd_def)

lemma map_err_ok_step: "m w = (Inr x, w1) \<Longrightarrow> map_err g m w = (Inr x, w1)"
  by (simp add: map_err_def)

lemma bnd_ret [simp]: "bnd (ret x) f = f x"
  by (simp add: bnd_def ret_def)

lemma bnd_assoc: "bnd (bnd m f) g = bnd m (\<lambda>x. bnd (f x) g)"
  by (rule ext) (simp add: bnd_def split: prod.splits sum.splits)

section \<open>Programs that leave a predicate alone\<close>

definition keeps :: "('w \<Rightarrow> bool) \<Rightarrow> ('w, 'e, 'a) gprog \<Rightarrow> bool" where
  "keeps P m \<longleftrightarrow> (\<forall>w. P w \<longrightarrow> P (snd (m w)))"

lemma keepsI: "(\<And>w r w'. P w \<Longrightarrow> m w = (r, w') \<Longrightarrow> P w') \<Longrightarrow> keeps P m"
  unfolding keeps_def by (metis prod.collapse)

lemma keepsD: "keeps P m \<Longrightarrow> m w = (r, w') \<Longrightarrow> P w \<Longrightarrow> P w'"
  unfolding keeps_def by (metis snd_conv)

lemma keeps_ret [keeps_intros]: "keeps P (ret x)"
  by (simp add: keeps_def)

text \<open>A step that simplification has run.\<close>

lemma keeps_Pair [keeps_intros]: "keeps P (Pair r)"
  by (simp add: keeps_def)

lemma keeps_throw [keeps_intros]: "keeps P (throw e)"
  by (simp add: keeps_def)

lemma keeps_of_sum [keeps_intros]: "keeps P (of_sum r)"
  by (simp add: keeps_def)

lemma keeps_fail_if [keeps_intros]: "keeps P (fail_if b e)"
  by (simp add: keeps_def run_simps)

lemma keeps_bnd [keeps_intros]:
  assumes "keeps P m" and "\<And>x. keeps P (f x)"
  shows "keeps P (bnd m f)"
  using assms unfolding keeps_def by (auto simp: bnd_def split: prod.splits sum.splits)

text \<open>The same, when the rest relies on what is known of the value.\<close>

lemma keeps_bnd_post:
  assumes "keeps P m" and "\<And>w x w'. P w \<Longrightarrow> m w = (Inr x, w') \<Longrightarrow> Q x" and "\<And>x. Q x \<Longrightarrow> keeps P (f x)"
  shows "keeps P (bnd m f)"
proof (rule keepsI)
  fix w r w' assume P: "P w" and run: "bnd m f w = (r, w')"
  obtain r1 w1 where m: "m w = (r1, w1)" by (cases "m w")
  with P assms(1) have "P w1" by (auto dest: keepsD)
  show "P w'"
  proof (cases r1)
    case (Inl e)
    with m run \<open>P w1\<close> show ?thesis by (simp add: bnd_def)
  next
    case (Inr x)
    with m P have "Q x" by (auto intro: assms(2))
    from assms(3)[OF this] Inr m run \<open>P w1\<close> show ?thesis by (auto simp: bnd_def dest: keepsD)
  qed
qed

lemma keeps_bnd_value:
  assumes "keeps P m" and "\<And>w x w'. m w = (Inr x, w') \<Longrightarrow> Q x" and "\<And>x. Q x \<Longrightarrow> keeps P (f x)"
  shows "keeps P (bnd m f)"
  using assms by (rule keeps_bnd_post)

lemma keeps_attempt [keeps_intros]: "keeps P m \<Longrightarrow> keeps P (attempt m)"
  by (simp add: keeps_def run_simps)

lemma keeps_map_err [keeps_intros]: "keeps P m \<Longrightarrow> keeps P (map_err g m)"
  unfolding keeps_def by (auto simp: map_err_def split: prod.splits sum.splits)

lemma keeps_if [keeps_intros]:
  "(b \<Longrightarrow> keeps P m) \<Longrightarrow> (\<not> b \<Longrightarrow> keeps P n) \<Longrightarrow> keeps P (if b then m else n)"
  by simp

lemma keeps_case_sum [keeps_intros]:
  "(\<And>e. keeps P (f e)) \<Longrightarrow> (\<And>x. keeps P (g x)) \<Longrightarrow> keeps P (case r of Inl e \<Rightarrow> f e | Inr x \<Rightarrow> g x)"
  by (cases r) simp_all

lemma keeps_case_option [keeps_intros]:
  "keeps P m \<Longrightarrow> (\<And>x. keeps P (g x)) \<Longrightarrow> keeps P (case r of None \<Rightarrow> m | Some x \<Rightarrow> g x)"
  by (cases r) simp_all

lemma keeps_case_prod [keeps_intros]:
  "(\<And>x y. keeps P (f x y)) \<Longrightarrow> keeps P (case r of (x, y) \<Rightarrow> f x y)"
  by (cases r) simp_all

section \<open>Lists and options\<close>

lemma find_None_append [simp]: "find P (xs @ ys) = None \<longleftrightarrow> find P xs = None \<and> find P ys = None"
  by (auto simp: find_None_iff)

lemma find_append: "find P (xs @ ys) = (case find P xs of None \<Rightarrow> find P ys | Some x \<Rightarrow> Some x)"
  by (induction xs) auto

lemma find_SomeD: "find P xs = Some x \<Longrightarrow> P x \<and> x \<in> set xs"
  by (induction xs) (auto split: if_splits)

text \<open>A key selects one element.\<close>

lemma filter_key_unique: "distinct (map k xs) \<Longrightarrow> x \<in> set xs \<Longrightarrow> filter (\<lambda>y. k y = k x) xs = [x]"
proof (induction xs)
  case (Cons z xs)
  show ?case
  proof (cases "x = z")
    case True
    with Cons.prems(1) have "filter (\<lambda>y. k y = k x) xs = []" by (auto simp: filter_empty_conv image_iff)
    with True show ?thesis by simp
  next
    case False
    with Cons show ?thesis by (auto simp: image_iff)
  qed
qed simp

end
