(* ===== verification/Errors.thy ===== *)
theory Errors
  imports Prelude
begin

text \<open>
  Go errors. The packages declare their errors with \<open>errors.New\<close> in files
  \<open>errors.go\<close>; callers wrap them with \<open>fmt.Errorf("...: %w", err)\<close> and test
  them with \<open>errors.Is\<close>, which walks the chain. \<open>sentinel\<close> has one constructor
  for each declared error, \<open>goerr\<close> the ways an error value is built, \<open>errors_Is\<close>
  and \<open>Error\<close> the two ways the code looks at one.
\<close>

section \<open>Declared errors\<close>

datatype sentinel =
    Eventstore_ErrEventAlreadyStored
  | Order_ErrNotFound | Order_ErrAlreadyExists | Order_ErrInvalidStatus | Order_ErrOnHold
  | Order_ErrInFinalStatus | Order_ErrInvalidQuery | Order_ErrEventAlreadyStored
  | Dispute_ErrAlreadyExists | Dispute_ErrEventAlreadyStored
  | Payment_ErrNotFound | Payment_ErrAlreadyExists | Payment_ErrInvalidStatus
  | Payment_ErrRefundExceedsAmount
  | Transaction_ErrNotFound | Transaction_ErrAlreadyCaptured | Transaction_ErrDuplicateIdempotency
  | Transaction_ErrPurchaseIdempotencyConflict | Transaction_ErrRefundExceedsAmount
  | Transaction_ErrNotRefundable | Transaction_ErrStatusChanged | Transaction_ErrInvalidTransition
  | Product_ErrNotFound | Product_ErrSlugConflict | Product_ErrInvalidSlug | Product_ErrSlugRemoval
  | Product_ErrFieldsLocked | Product_ErrArchived | Product_ErrEmptyUpdate | Product_ErrLimitTooLarge
  | Purchase_ErrProductArchived | Purchase_ErrIdempotencyConflict
  | Purchase_ErrCapturePartiallyApplied
  | Inbox_ErrAlreadyExists
  | Apiclient_ErrNotFound | Apiclient_ErrConflict | Apiclient_ErrInvalidStatus
  | Apiclient_ErrServiceUnavailable | Apiclient_ErrBadRequest
  | Messaging_ErrMaxRetriesExceeded
  | Pgx_ErrNoRows
  | Context_Canceled

fun sentinel_text :: "sentinel \<Rightarrow> string" where
  "sentinel_text Eventstore_ErrEventAlreadyStored = ''event already stored''"
| "sentinel_text Order_ErrNotFound = ''order not found''"
| "sentinel_text Order_ErrAlreadyExists = ''order already exists''"
| "sentinel_text Order_ErrInvalidStatus = ''invalid status transition''"
| "sentinel_text Order_ErrOnHold = ''order is on hold''"
| "sentinel_text Order_ErrInFinalStatus = ''order is in final status''"
| "sentinel_text Order_ErrInvalidQuery = ''invalid orders query''"
| "sentinel_text Order_ErrEventAlreadyStored = ''event already stored''"
| "sentinel_text Dispute_ErrAlreadyExists = ''dispute already exists''"
| "sentinel_text Dispute_ErrEventAlreadyStored = ''event already stored''"
| "sentinel_text Payment_ErrNotFound = ''payment not found''"
| "sentinel_text Payment_ErrAlreadyExists = ''payment already exists''"
| "sentinel_text Payment_ErrInvalidStatus = ''invalid payment status transition''"
| "sentinel_text Payment_ErrRefundExceedsAmount = ''refund amount exceeds remaining balance''"
| "sentinel_text Transaction_ErrNotFound = ''transaction not found''"
| "sentinel_text Transaction_ErrAlreadyCaptured = ''transaction already captured''"
| "sentinel_text Transaction_ErrDuplicateIdempotency = ''duplicate idempotency key''"
| "sentinel_text Transaction_ErrPurchaseIdempotencyConflict = ''purchase idempotency key already used''"
| "sentinel_text Transaction_ErrRefundExceedsAmount = ''refund amount exceeds remaining balance''"
| "sentinel_text Transaction_ErrNotRefundable = ''transaction is not in a refundable state''"
| "sentinel_text Transaction_ErrStatusChanged = ''transaction status was changed by another operation''"
| "sentinel_text Transaction_ErrInvalidTransition = ''invalid status transition''"
| "sentinel_text Product_ErrNotFound = ''product not found''"
| "sentinel_text Product_ErrSlugConflict = ''slug already exists for this merchant''"
| "sentinel_text Product_ErrInvalidSlug = ''invalid slug format''"
| "sentinel_text Product_ErrSlugRemoval = ''slug cannot be removed after creation''"
| "sentinel_text Product_ErrFieldsLocked = ''pricing fields are locked after first purchase''"
| "sentinel_text Product_ErrArchived = ''cannot modify archived product''"
| "sentinel_text Product_ErrEmptyUpdate = ''update has no fields to change''"
| "sentinel_text Product_ErrLimitTooLarge = ''list limit exceeds maximum''"
| "sentinel_text Purchase_ErrProductArchived = ''product is archived''"
| "sentinel_text Purchase_ErrIdempotencyConflict = ''idempotency key reused with different request body''"
| "sentinel_text Purchase_ErrCapturePartiallyApplied = ''authorize succeeded but capture failed; manual recovery required''"
| "sentinel_text Inbox_ErrAlreadyExists = ''inbox message already exists''"
| "sentinel_text Apiclient_ErrNotFound = ''resource not found''"
| "sentinel_text Apiclient_ErrConflict = ''conflict''"
| "sentinel_text Apiclient_ErrInvalidStatus = ''invalid status transition''"
| "sentinel_text Apiclient_ErrServiceUnavailable = ''api service unavailable''"
| "sentinel_text Apiclient_ErrBadRequest = ''bad request''"
| "sentinel_text Messaging_ErrMaxRetriesExceeded = ''max retries exceeded''"
| "sentinel_text Pgx_ErrNoRows = ''no rows in result set''"
| "sentinel_text Context_Canceled = ''context canceled''"

section \<open>Error values\<close>

text \<open>A server error of PostgreSQL as the driver reports it: SQLSTATE, constraint, message.\<close>

datatype pg_error = PgError (Code: string) (ConstraintName: string) (Message: string)

text \<open>
  \<open>Wrapped p e q\<close> is \<open>fmt.Errorf("p%wq", e)\<close>, \<open>ErrText s\<close> an error made of
  a text only, \<open>Joined\<close> is \<open>errors.Join\<close>.
\<close>

datatype goerr =
    Sentinel sentinel
  | ErrText string
  | Wrapped string goerr string
  | Joined goerr goerr
  | PgErr pg_error

fun errors_Is :: "goerr \<Rightarrow> sentinel \<Rightarrow> bool" where
  "errors_Is (Sentinel s) t = (s = t)"
| "errors_Is (ErrText s) t = False"
| "errors_Is (Wrapped p e q) t = errors_Is e t"
| "errors_Is (Joined e f) t = (errors_Is e t \<or> errors_Is f t)"
| "errors_Is (PgErr e) t = False"

text \<open>\<open>errors.As\<close> with a \<open>*pgconn.PgError\<close> target: the first one in the chain.\<close>

fun errors_As_pg :: "goerr \<Rightarrow> pg_error option" where
  "errors_As_pg (Sentinel s) = None"
| "errors_As_pg (ErrText s) = None"
| "errors_As_pg (Wrapped p e q) = errors_As_pg e"
| "errors_As_pg (Joined e f) = (case errors_As_pg e of Some x \<Rightarrow> Some x | None \<Rightarrow> errors_As_pg f)"
| "errors_As_pg (PgErr e) = Some e"

text \<open>The method \<open>Error\<close>: the text of an error, as \<open>%w\<close> and \<open>%v\<close> print it.\<close>

fun Error :: "goerr \<Rightarrow> string" where
  "Error (Sentinel s) = sentinel_text s"
| "Error (ErrText s) = s"
| "Error (Wrapped p e q) = p @ Error e @ q"
| "Error (Joined e f) = Error e @ ''
'' @ Error f"
| "Error (PgErr e) = ''ERROR: '' @ Message e @ '' (SQLSTATE '' @ Code e @ '')''"

text \<open>The usual wrapping, \<open>fmt.Errorf("msg: %w", err)\<close>.\<close>

abbreviation wrap :: "string \<Rightarrow> goerr \<Rightarrow> goerr" where
  "wrap msg e \<equiv> Wrapped (msg @ '': '') e ''''"

type_synonym ('w, 'a) prog = "('w, goerr, 'a) gprog"

end
