(* ===== verification/Postgres.thy ===== *)
theory Postgres
  imports Errors
begin

text \<open>
  The database layer, \<open>pkg/postgres\<close>: the world a service runs in, SQL statements with
  the constraints of the migrations, and \<open>InTransaction\<close>.

  PostgreSQL and the driver are not part of the repository. What they decide is the
  environment of a run: whether statement \<open>n\<close> fails and with which error (\<open>fault\<close>;
  lost connections, serialization failures of \<open>RepeatableRead\<close>, and the like), what a
  commit answers, what the clock shows and which identifiers \<open>uuid.New\<close> draws. Every
  call to the environment takes the next tick, so two calls may be answered differently.
  What a statement does to the rows is the SQL text of the repository.
\<close>

section \<open>The world of a service\<close>

record env =
  fault :: "nat \<Rightarrow> goerr option"
  commit_err :: "nat \<Rightarrow> bool \<Rightarrow> goerr option"
  clock :: "nat \<Rightarrow> time"
  fresh :: "nat \<Rightarrow> uuid"

text \<open>
  \<open>trace\<close> holds, oldest first, the effects outside the database: calls to other
  systems and the goroutines started.
\<close>

record ('d, 'x) world =
  data :: 'd
  in_tx :: bool
  tx_failed :: bool
  ticks :: nat
  trace :: "'x list"

abbreviation tick :: "('d, 'x) world \<Rightarrow> ('d, 'x) world" where
  "tick w \<equiv> w\<lparr>ticks := Suc (ticks w)\<rparr>"

definition init_world :: "'d \<Rightarrow> ('d, 'x) world" where
  "init_world d = \<lparr>data = d, in_tx = False, tx_failed = False, ticks = 0, trace = []\<rparr>"

text \<open>An answer of the environment: \<open>time.Now\<close>, \<open>uuid.New\<close>, a call to another system.\<close>

definition ask :: "(nat \<Rightarrow> 'a) \<Rightarrow> (('d, 'x) world, 'a) prog" where
  "ask g = (\<lambda>w. (Inr (g (ticks w)), tick w))"

definition call :: "(nat \<Rightarrow> goerr + 'a) \<Rightarrow> (('d, 'x) world, 'a) prog" where
  "call g = (\<lambda>w. (g (ticks w), tick w))"

definition emit :: "'x \<Rightarrow> (('d, 'x) world, unit) prog" where
  "emit x = (\<lambda>w. (Inr (), w\<lparr>trace := trace w @ [x]\<rparr>))"

abbreviation time_Now :: "('b) env_scheme \<Rightarrow> (('d, 'x) world, time) prog" where
  "time_Now env \<equiv> ask (clock env)"

abbreviation uuid_New :: "('b) env_scheme \<Rightarrow> (('d, 'x) world, uuid) prog" where
  "uuid_New env \<equiv> ask (fresh env)"

section \<open>Statements and transactions\<close>

text \<open>
  One statement. Once a statement of a transaction has failed, the server refuses the
  later ones until the transaction ends (SQLSTATE 25P02).
\<close>

definition pg_in_failed_tx :: goerr where
  "pg_in_failed_tx = PgErr (PgError ''25P02'' '''' ''current transaction is aborted, commands ignored until end of transaction block'')"

definition sql :: "('b) env_scheme \<Rightarrow> ('d \<Rightarrow> goerr + 'a \<times> 'd) \<Rightarrow> (('d, 'x) world, 'a) prog" where
  "sql env stmt = (\<lambda>w.
     if tx_failed w then (Inl pg_in_failed_tx, tick w)
     else case fault env (ticks w) of
       Some e \<Rightarrow> (Inl e, (tick w)\<lparr>tx_failed := in_tx w\<rparr>)
     | None \<Rightarrow> (case stmt (data w) of
         Inl e \<Rightarrow> (Inl e, (tick w)\<lparr>tx_failed := in_tx w\<rparr>)
       | Inr (x, d) \<Rightarrow> (Inr x, (tick w)\<lparr>data := d\<rparr>)))"

datatype iso_level = ReadCommitted | RepeatableRead

definition begin_tx :: "('b) env_scheme \<Rightarrow> (('d, 'x) world, unit) prog" where
  "begin_tx env = (\<lambda>w. case fault env (ticks w) of
       Some e \<Rightarrow> (Inl e, tick w)
     | None \<Rightarrow> (Inr (), (tick w)\<lparr>in_tx := True, tx_failed := False\<rparr>))"

definition rollback :: "'d \<Rightarrow> ('d, 'x) world \<Rightarrow> ('d, 'x) world" where
  "rollback d w = w\<lparr>data := d, in_tx := False, tx_failed := False\<rparr>"

text \<open>
  The end of a transaction. A transaction in which a statement failed is rolled back by
  the server whatever the driver answers to \<open>Commit\<close>.
\<close>

definition commit_tx :: "('b) env_scheme \<Rightarrow> 'd \<Rightarrow> (('d, 'x) world, unit) prog" where
  "commit_tx env d0 = (\<lambda>w. case commit_err env (ticks w) (tx_failed w) of
       Some e \<Rightarrow> (Inl e, tick w)
     | None \<Rightarrow> (Inr (), (if tx_failed w then rollback d0 (tick w)
                        else (tick w)\<lparr>in_tx := False\<rparr>)))"

text \<open>
  What the driver documents: committing a transaction that the server has marked as
  failed is an error (\<open>ErrTxCommitRollback\<close>).
\<close>

definition commit_reports_rollback :: "('b) env_scheme \<Rightarrow> bool" where
  "commit_reports_rollback env \<longleftrightarrow> (\<forall>n. commit_err env n True \<noteq> None)"

text \<open>\<open>Postgres.InTransaction\<close>: commit when \<open>fn\<close> succeeds, roll back otherwise.\<close>

definition InTransaction ::
  "('b) env_scheme \<Rightarrow> iso_level \<Rightarrow> (('d, 'x) world, 'a) prog \<Rightarrow> (('d, 'x) world, 'a) prog" where
  "InTransaction env lvl fn = (\<lambda>w.
     case begin_tx env w of
       (Inl e, w1) \<Rightarrow> (Inl (wrap ''start transaction'' e), w1)
     | (Inr _, w1) \<Rightarrow> (case fn w1 of
         (Inl e, w2) \<Rightarrow> (Inl e, rollback (data w) w2)
       | (Inr x, w2) \<Rightarrow> (case commit_tx env (data w) w2 of
           (Inl e, w3) \<Rightarrow> (Inl (wrap ''failed to commit transaction'' e), rollback (data w) w3)
         | (Inr _, w3) \<Rightarrow> (Inr x, w3))))"

definition IsPgErrorUniqueViolation :: "goerr \<Rightarrow> bool" where
  "IsPgErrorUniqueViolation err = (case errors_As_pg err of
      Some pgErr \<Rightarrow> Code pgErr = ''23505'' | None \<Rightarrow> False)"

section \<open>Tables and their constraints\<close>

text \<open>
  A table is the list of its rows. Its schema names the unique indexes (with the relation
  "these two rows have the same key") and the \<open>CHECK\<close> constraints.
\<close>

record 'r schema =
  uniques :: "(string \<times> ('r \<Rightarrow> 'r \<Rightarrow> bool)) list"
  checks :: "(string \<times> ('r \<Rightarrow> bool)) list"

fun clashes :: "('r \<Rightarrow> 'r \<Rightarrow> bool) \<Rightarrow> 'r list \<Rightarrow> bool" where
  "clashes c [] = False"
| "clashes c (r # rs) = (list_ex (c r) rs \<or> clashes c rs)"

definition unique_violation :: "string \<Rightarrow> goerr" where
  "unique_violation n = PgErr (PgError ''23505'' n
     (''duplicate key value violates unique constraint \"'' @ n @ ''\"''))"

definition check_violation :: "string \<Rightarrow> goerr" where
  "check_violation n = PgErr (PgError ''23514'' n
     (''new row violates check constraint \"'' @ n @ ''\"''))"

definition foreign_key_violation :: "string \<Rightarrow> goerr" where
  "foreign_key_violation n = PgErr (PgError ''23503'' n
     (''insert or update violates foreign key constraint \"'' @ n @ ''\"''))"

definition enforce :: "'r schema \<Rightarrow> 'r list \<Rightarrow> goerr + 'r list" where
  "enforce sch rows =
    (case find (\<lambda>(n, ok). list_ex (\<lambda>r. \<not> ok r) rows) (checks sch) of
       Some (n, _) \<Rightarrow> Inl (check_violation n)
     | None \<Rightarrow> (case find (\<lambda>(n, c). clashes c rows) (uniques sch) of
         Some (n, _) \<Rightarrow> Inl (unique_violation n)
       | None \<Rightarrow> Inr rows))"

definition rows_ok :: "'r schema \<Rightarrow> 'r list \<Rightarrow> bool" where
  "rows_ok sch rows \<longleftrightarrow> list_all (\<lambda>(n, ok). list_all ok rows) (checks sch)
     \<and> list_all (\<lambda>(n, c). \<not> clashes c rows) (uniques sch)"

text \<open>\<open>INSERT\<close>, and \<open>UPDATE ... SET f WHERE p\<close> with the number of affected rows.\<close>

definition sql_insert :: "'r schema \<Rightarrow> 'r \<Rightarrow> 'r list \<Rightarrow> goerr + unit \<times> 'r list" where
  "sql_insert sch r rows =
    (case enforce sch (rows @ [r]) of Inl e \<Rightarrow> Inl e | Inr rows' \<Rightarrow> Inr ((), rows'))"

definition set_where :: "('r \<Rightarrow> bool) \<Rightarrow> ('r \<Rightarrow> 'r) \<Rightarrow> 'r list \<Rightarrow> 'r list" where
  "set_where p f rows = map (\<lambda>r. if p r then f r else r) rows"

definition sql_update :: "'r schema \<Rightarrow> ('r \<Rightarrow> bool) \<Rightarrow> ('r \<Rightarrow> 'r) \<Rightarrow> 'r list \<Rightarrow> goerr + nat \<times> 'r list" where
  "sql_update sch p f rows =
    (case enforce sch (set_where p f rows) of
       Inl e \<Rightarrow> Inl e
     | Inr rows' \<Rightarrow> Inr (length (filter p rows), rows'))"

text \<open>A statement on one table of the database, and a query.\<close>

definition in_table ::
  "('d \<Rightarrow> 'r list) \<Rightarrow> (('r list \<Rightarrow> 'r list) \<Rightarrow> 'd \<Rightarrow> 'd)
   \<Rightarrow> ('r list \<Rightarrow> goerr + 'a \<times> 'r list) \<Rightarrow> 'd \<Rightarrow> goerr + 'a \<times> 'd" where
  "in_table get upd stmt d = (case stmt (get d) of
      Inl e \<Rightarrow> Inl e | Inr (x, rows) \<Rightarrow> Inr (x, upd (\<lambda>_. rows) d))"

definition query :: "('d \<Rightarrow> 'r list) \<Rightarrow> ('r \<Rightarrow> bool) \<Rightarrow> 'd \<Rightarrow> goerr + 'r list \<times> 'd" where
  "query get p d = Inr (filter p (get d), d)"

text \<open>\<open>QueryRow\<close> followed by \<open>Scan\<close>: the first row, or \<open>ErrNoRows\<close>.\<close>

definition query_row :: "('d \<Rightarrow> 'r list) \<Rightarrow> ('r \<Rightarrow> bool) \<Rightarrow> 'd \<Rightarrow> goerr + 'r option \<times> 'd" where
  "query_row get p d = Inr (find p (get d), d)"

definition scan_one :: "'r option \<Rightarrow> goerr + 'r" where
  "scan_one o' = (case o' of Some r \<Rightarrow> Inr r | None \<Rightarrow> Inl (Sentinel Pgx_ErrNoRows))"

section \<open>What the layer guarantees\<close>

lemma in_table_ok:
  "in_table get upd stmt d = Inr (x, d') \<longleftrightarrow>
     (\<exists>rows. stmt (get d) = Inr (x, rows) \<and> d' = upd (\<lambda>_. rows) d)"
  by (auto simp: in_table_def split: sum.splits prod.splits)

lemma in_table_err: "in_table get upd stmt d = Inl e \<longleftrightarrow> stmt (get d) = Inl e"
  by (auto simp: in_table_def split: sum.splits prod.splits)

lemma run_ask [run_simps]: "ask g w = (Inr (g (ticks w)), tick w)"
  by (simp add: ask_def)

lemma run_call [run_simps]: "call g w = (g (ticks w), tick w)"
  by (simp add: call_def)

lemma run_emit [run_simps]: "emit x w = (Inr (), w\<lparr>trace := trace w @ [x]\<rparr>)"
  by (simp add: emit_def)

lemma ask_okE [run_elims]:
  assumes "ask g w = (Inr x, w')"
  obtains "x = g (ticks w)" and "w' = tick w"
  using assms by (simp add: ask_def)

lemma ask_errE [run_elims]:
  assumes "ask g w = (Inl e, w')"
  obtains "False"
  using assms by (simp add: ask_def)

lemma call_E [run_elims]:
  assumes "call g w = (r, w')"
  obtains "g (ticks w) = r" and "w' = tick w"
  using assms by (simp add: call_def)

lemma emit_okE [run_elims]:
  assumes "emit x w = (Inr u, w')"
  obtains "w' = w\<lparr>trace := trace w @ [x]\<rparr>"
  using assms by (simp add: emit_def)

lemma emit_errE [run_elims]:
  assumes "emit x w = (Inl e, w')"
  obtains "False"
  using assms by (simp add: emit_def)

lemma sql_okE [run_elims]:
  assumes "sql env stmt w = (Inr x, w')"
  obtains d where "stmt (data w) = Inr (x, d)" and "w' = (tick w)\<lparr>data := d\<rparr>"
    and "\<not> tx_failed w" and "fault env (ticks w) = None"
  using assms by (auto simp: sql_def split: if_splits option.splits sum.splits prod.splits)

text \<open>A failed statement leaves the rows alone, and marks an open transaction as failed.\<close>

lemma sql_errE [run_elims]:
  assumes "sql env stmt w = (Inl e, w')"
  obtains "data w' = data w" and "trace w' = trace w" and "in_tx w' = in_tx w"
    and "tx_failed w' = (tx_failed w \<or> in_tx w)"
    and "stmt (data w) = Inl e \<or> fault env (ticks w) = Some e
         \<or> (tx_failed w \<and> e = pg_in_failed_tx)"
  using assms by (auto simp: sql_def split: if_splits option.splits sum.splits prod.splits)

lemma InTransaction_okE [run_elims]:
  assumes "InTransaction env lvl fn w = (Inr x, w')"
  obtains w1 w2 where "fn w1 = (Inr x, w2)"
    and "w1 = (tick w)\<lparr>in_tx := True, tx_failed := False\<rparr>"
    and "trace w' = trace w2" and "\<not> in_tx w'"
    and "data w' = (if tx_failed w2 then data w else data w2)"
    and "tx_failed w2 \<Longrightarrow> commit_err env (ticks w2) True = None"
    and "\<not> tx_failed w'"
  using assms
  by (auto simp: InTransaction_def begin_tx_def commit_tx_def rollback_def
      split: prod.splits sum.splits option.splits if_splits)

lemma InTransaction_errE [run_elims]:
  assumes "InTransaction env lvl fn w = (Inl e, w')"
  obtains
    (start) e0 where "fault env (ticks w) = Some e0" and "e = wrap ''start transaction'' e0"
      and "data w' = data w" and "trace w' = trace w"
  | (body) w2 where "fn ((tick w)\<lparr>in_tx := True, tx_failed := False\<rparr>) = (Inl e, w2)"
      and "data w' = data w" and "trace w' = trace w2"
  | (commit) x w2 e0 where "fn ((tick w)\<lparr>in_tx := True, tx_failed := False\<rparr>) = (Inr x, w2)"
      and "commit_err env (ticks w2) (tx_failed w2) = Some e0"
      and "e = wrap ''failed to commit transaction'' e0"
      and "data w' = data w" and "trace w' = trace w2"
  using assms
  by (auto simp: InTransaction_def begin_tx_def commit_tx_def rollback_def
      split: prod.splits sum.splits option.splits if_splits)

text \<open>Atomicity: a transaction that returns an error has changed no row.\<close>

lemma InTransaction_err_data:
  assumes "InTransaction env lvl fn w = (Inl e, w')"
  shows "data w' = data w"
  using assms by (rule InTransaction_errE) auto

lemma InTransaction_reported:
  assumes "InTransaction env lvl fn w = (Inr x, w')" and "commit_reports_rollback env"
  obtains w2 where "fn ((tick w)\<lparr>in_tx := True, tx_failed := False\<rparr>) = (Inr x, w2)"
    and "\<not> tx_failed w2" and "data w' = data w2" and "trace w' = trace w2"
  using assms(1)
proof (rule InTransaction_okE)
  fix w1 w2
  assume "fn w1 = (Inr x, w2)" and "w1 = (tick w)\<lparr>in_tx := True, tx_failed := False\<rparr>"
    and "trace w' = trace w2" and "data w' = (if tx_failed w2 then data w else data w2)"
    and "tx_failed w2 \<Longrightarrow> commit_err env (ticks w2) True = None"
  moreover from this assms(2) have "\<not> tx_failed w2"
    unfolding commit_reports_rollback_def by blast
  ultimately show thesis by (intro that) auto
qed

text \<open>
  A body whose success leaves no failed statement behind is committed: what it
  establishes about the rows and the trace holds of the transaction.
\<close>

lemma InTransaction_post:
  assumes "InTransaction env lvl fn w = (Inr x, w')"
    and "\<And>w1 w2. fn w1 = (Inr x, w2) \<Longrightarrow> \<not> tx_failed w2 \<and> Q (data w1) (trace w1) (data w2) (trace w2)"
  shows "Q (data w) (trace w) (data w') (trace w')"
  using assms(1)
proof (rule InTransaction_okE)
  fix w1 w2
  assume "fn w1 = (Inr x, w2)" and "w1 = (tick w)\<lparr>in_tx := True, tx_failed := False\<rparr>"
    and "trace w' = trace w2" and "data w' = (if tx_failed w2 then data w else data w2)"
  with assms(2)[of w1 w2] show ?thesis by simp
qed

subsection \<open>Predicates of the rows\<close>

abbreviation keeps_data :: "('d \<Rightarrow> bool) \<Rightarrow> (('d, 'x) world, 'a) prog \<Rightarrow> bool" where
  "keeps_data I m \<equiv> keeps (\<lambda>w. I (data w)) m"

lemma keeps_data_ask [keeps_intros]: "keeps_data I (ask g)"
  by (simp add: keeps_def run_simps)

lemma keeps_data_call [keeps_intros]: "keeps_data I (call g)"
  by (simp add: keeps_def run_simps)

lemma keeps_data_emit [keeps_intros]: "keeps_data I (emit x)"
  by (simp add: keeps_def run_simps)

lemma keeps_data_sql:
  assumes "\<And>d x d'. I d \<Longrightarrow> stmt d = Inr (x, d') \<Longrightarrow> I d'"
  shows "keeps_data I (sql env stmt)"
  using assms
  by (auto simp: keeps_def sql_def split: option.splits sum.splits prod.splits)

lemma keeps_data_InTransaction [keeps_intros]:
  assumes "keeps_data I fn"
  shows "keeps_data I (InTransaction env lvl fn)"
proof (rule keepsI)
  fix w r w' assume I: "I (data w)" and run: "InTransaction env lvl fn w = (r, w')"
  show "I (data w')"
  proof (cases r)
    case (Inl e)
    with run have "data w' = data w" by (auto dest: InTransaction_err_data)
    with I show ?thesis by simp
  next
    case (Inr x)
    with run have "InTransaction env lvl fn w = (Inr x, w')" by simp
    then show ?thesis
      by (rule InTransaction_okE) (use I keepsD[OF assms] in \<open>auto split: if_splits\<close>)
  qed
qed

subsection \<open>Predicates of the trace\<close>

abbreviation keeps_trace :: "('x list \<Rightarrow> bool) \<Rightarrow> (('d, 'x) world, 'a) prog \<Rightarrow> bool" where
  "keeps_trace P m \<equiv> keeps (\<lambda>w. P (trace w)) m"

lemma keeps_trace_ask [keeps_intros]: "keeps_trace P (ask g)"
  by (simp add: keeps_def run_simps)

lemma keeps_trace_call [keeps_intros]: "keeps_trace P (call g)"
  by (simp add: keeps_def run_simps)

lemma keeps_trace_emit: "(\<And>es. P es \<Longrightarrow> P (es @ [e])) \<Longrightarrow> keeps_trace P (emit e)"
  by (simp add: keeps_def run_simps)

lemma keeps_trace_sql [keeps_intros]: "keeps_trace P (sql env stmt)"
  by (auto simp: keeps_def sql_def split: option.splits sum.splits prod.splits)

lemma keeps_trace_InTransaction [keeps_intros]:
  assumes "keeps_trace P fn"
  shows "keeps_trace P (InTransaction env lvl fn)"
proof (rule keepsI)
  fix w r w' assume P: "P (trace w)" and run: "InTransaction env lvl fn w = (r, w')"
  show "P (trace w')"
  proof (cases r)
    case (Inl e)
    from run[unfolded this] show ?thesis
      by (rule InTransaction_errE) (use P keepsD[OF assms] in auto)
  next
    case (Inr x)
    from run[unfolded this] show ?thesis
      by (rule InTransaction_okE) (use P keepsD[OF assms] in auto)
  qed
qed

subsection \<open>Outside transactions\<close>

text \<open>Single statements open no transaction, and their failure is not remembered.\<close>

abbreviation keeps_calm :: "(('d, 'x) world, 'a) prog \<Rightarrow> bool" where
  "keeps_calm m \<equiv> keeps (\<lambda>w. \<not> in_tx w \<and> \<not> tx_failed w) m"

lemma keeps_calm_steps [keeps_intros]:
  "keeps_calm (ask g)" "keeps_calm (call h)" "keeps_calm (emit e)"
  by (simp_all add: keeps_def run_simps)

lemma keeps_calm_sql [keeps_intros]: "keeps_calm (sql env stmt)"
  by (auto simp: keeps_def sql_def split: option.splits sum.splits prod.splits)

section \<open>What the constraints guarantee\<close>

lemma rows_ok_find:
  "rows_ok sch rows \<longleftrightarrow>
     find (\<lambda>(n, ok). list_ex (\<lambda>r. \<not> ok r) rows) (checks sch) = None
     \<and> find (\<lambda>(n, c). clashes c rows) (uniques sch) = None"
  by (auto simp: rows_ok_def find_None_iff list_all_iff list_ex_iff)

lemma enforce_ok: "enforce sch rows = Inr rows' \<longleftrightarrow> rows' = rows \<and> rows_ok sch rows"
  by (auto simp: enforce_def rows_ok_find split: option.splits)

lemma enforce_err:
  assumes "enforce sch rows = Inl e"
  obtains (check) n where "n \<in> fst ` set (checks sch)" and "e = check_violation n"
  | (unique) n c where "(n, c) \<in> set (uniques sch)" and "clashes c rows" and "e = unique_violation n"
proof (cases "find (\<lambda>(n, ok). list_ex (\<lambda>r. \<not> ok r) rows) (checks sch)")
  case (Some p)
  with assms show thesis
    by (auto simp: enforce_def image_iff split: prod.splits dest!: find_SomeD intro!: check)
next
  case None
  with assms show thesis
    by (auto simp: enforce_def split: option.splits prod.splits dest!: find_SomeD intro!: unique)
qed

lemma sql_insert_ok:
  "sql_insert sch r rows = Inr (u, rows') \<longleftrightarrow> rows' = rows @ [r] \<and> rows_ok sch (rows @ [r])"
proof (cases "rows_ok sch (rows @ [r])")
  case True
  then have "enforce sch (rows @ [r]) = Inr (rows @ [r])" by (simp add: enforce_ok)
  with True show ?thesis by (auto simp: sql_insert_def)
next
  case False
  then have "enforce sch (rows @ [r]) \<noteq> Inr x" for x by (simp add: enforce_ok)
  with False show ?thesis by (auto simp: sql_insert_def split: sum.splits)
qed

lemma sql_insert_err: "sql_insert sch r rows = Inl e \<longleftrightarrow> enforce sch (rows @ [r]) = Inl e"
  by (auto simp: sql_insert_def split: sum.splits)

lemma sql_update_err:
  "sql_update sch p f rows = Inl e \<longleftrightarrow> enforce sch (set_where p f rows) = Inl e"
  by (auto simp: sql_update_def split: sum.splits)

lemma sql_update_ok:
  "sql_update sch p f rows = Inr (n, rows') \<longleftrightarrow>
     n = length (filter p rows) \<and> rows' = set_where p f rows \<and> rows_ok sch (set_where p f rows)"
proof (cases "rows_ok sch (set_where p f rows)")
  case True
  then have "enforce sch (set_where p f rows) = Inr (set_where p f rows)"
    by (simp add: enforce_ok)
  with True show ?thesis by (auto simp: sql_update_def)
next
  case False
  then have "enforce sch (set_where p f rows) \<noteq> Inr r" for r
    by (simp add: enforce_ok)
  with False show ?thesis by (auto simp: sql_update_def split: sum.splits)
qed

lemma clashes_append:
  "clashes c (xs @ ys) \<longleftrightarrow> clashes c xs \<or> clashes c ys \<or> (\<exists>x\<in>set xs. \<exists>y\<in>set ys. c x y)"
  by (induction xs) (auto simp: list_ex_iff)

lemma clashes_snoc: "clashes c (xs @ [y]) \<longleftrightarrow> clashes c xs \<or> (\<exists>x\<in>set xs. c x y)"
  by (simp add: clashes_append)

text \<open>A key column without clashes identifies a row.\<close>

lemma no_clash_key:
  "\<not> clashes (\<lambda>a b. k a = k b) rows \<longleftrightarrow> distinct (map k rows)"
  by (induction rows) (auto simp: list_ex_iff image_iff)

lemma set_where_keys: "(\<And>r. k (f r) = k r) \<Longrightarrow> map k (set_where p f rows) = map k rows"
  by (simp add: set_where_def)

lemma set_set_where: "set (set_where p f rows) = (\<lambda>r. if p r then f r else r) ` set rows"
  by (simp add: set_where_def)

lemma length_set_where [simp]: "length (set_where p f rows) = length rows"
  by (simp add: set_where_def)

lemma set_where_Nil [simp]: "set_where p f [] = []"
  by (simp add: set_where_def)

lemma set_where_none: "filter p rows = [] \<Longrightarrow> set_where p f rows = rows"
  by (induction rows) (auto simp: set_where_def split: if_splits)

lemma clashes_map: "clashes c (map g rows) = clashes (\<lambda>a b. c (g a) (g b)) rows"
  by (induction rows) (simp_all add: list_ex_iff)

lemma clashes_set_where:
  assumes "\<And>a b. c (if p a then f a else a) (if p b then f b else b) = c a b"
  shows "clashes c (set_where p f rows) = clashes c rows"
  using assms by (simp add: set_where_def clashes_map)

text \<open>An update that touches no key and writes checked values keeps the table in order.\<close>

lemma rows_ok_set_where:
  assumes "rows_ok sch rows"
    and "\<And>n c a b. (n, c) \<in> set (uniques sch) \<Longrightarrow> c (if p a then f a else a) (if p b then f b else b) = c a b"
    and "\<And>n ok r. (n, ok) \<in> set (checks sch) \<Longrightarrow> r \<in> set rows \<Longrightarrow> ok r \<Longrightarrow> p r \<Longrightarrow> ok (f r)"
  shows "rows_ok sch (set_where p f rows)"
proof -
  have "clashes c (set_where p f rows) = clashes c rows" if "(n, c) \<in> set (uniques sch)" for n c
    by (rule clashes_set_where) (rule assms(2)[OF that])
  moreover have "list_all ok (set_where p f rows)" if "(n, ok) \<in> set (checks sch)" for n ok
    using assms(1) assms(3)[OF that] that by (auto simp: rows_ok_def list_all_iff set_set_where)
  ultimately show ?thesis using assms(1) unfolding rows_ok_def list_all_iff by fast
qed

section \<open>Runs without failures\<close>

text \<open>An environment in which the database works.\<close>

definition healthy :: "('b) env_scheme \<Rightarrow> bool" where
  "healthy env \<longleftrightarrow> (\<forall>n. fault env n = None) \<and> (\<forall>n. commit_err env n False = None)"

lemma sql_run:
  assumes "healthy env" and "\<not> tx_failed w"
  shows "sql env stmt w = (case stmt (data w) of
      Inl e \<Rightarrow> (Inl e, (tick w)\<lparr>tx_failed := in_tx w\<rparr>) | Inr (x, d) \<Rightarrow> (Inr x, (tick w)\<lparr>data := d\<rparr>))"
  using assms by (simp add: sql_def healthy_def split: sum.splits)

lemma InTransaction_run:
  assumes "healthy env" and "fn ((tick w)\<lparr>in_tx := True, tx_failed := False\<rparr>) = (r, w2)"
    and "(\<exists>x. r = Inr x) \<Longrightarrow> \<not> tx_failed w2"
  shows "InTransaction env lvl fn w = (r, case r of
      Inl e \<Rightarrow> rollback (data w) w2 | Inr x \<Rightarrow> (tick w2)\<lparr>in_tx := False\<rparr>)"
  using assms
  by (auto simp: InTransaction_def begin_tx_def commit_tx_def healthy_def split: sum.splits)

end
