(* ===== verification/GoStd.thy ===== *)
theory GoStd
  imports Complex_Main Errors
begin

text \<open>
  What the services use of the Go standard library: decimal printing of integers,
  \<open>time.Format(time.RFC3339)\<close>, and \<open>encoding/json\<close>, whose documents are kept as
  trees. A struct is encoded field by field with the names of its tags; decoding finds
  each field by its name, leaves a missing one at its zero value, and fails when a value
  has another type than the field. Of two members with one name the last counts.
\<close>

section \<open>Decimal numbers\<close>

definition digit :: "nat \<Rightarrow> char" where
  "digit d = ''0123456789'' ! (d mod 10)"

fun show_nat :: "nat \<Rightarrow> string" where
  "show_nat n = (if n < 10 then [digit n] else show_nat (n div 10) @ [digit n])"

declare show_nat.simps [simp del]

definition show_int :: "int \<Rightarrow> string" where
  "show_int i = (if i < 0 then CHR ''-'' # show_nat (nat (- i)) else show_nat (nat i))"

text \<open>Reading the digits back.\<close>

fun digit_value :: "string \<Rightarrow> char \<Rightarrow> nat" where
  "digit_value [] c = 0"
| "digit_value (d # ds) c = (if c = d then 0 else Suc (digit_value ds c))"

definition read_nat :: "string \<Rightarrow> nat" where
  "read_nat s = foldl (\<lambda>n c. 10 * n + digit_value ''0123456789'' c) 0 s"

lemma less_ten_cases:
  "(n::nat) < 10 \<Longrightarrow> n \<in> {0, 1, 2, 3, 4, 5, 6, 7, 8, 9}"
  by auto

lemma digit_value_digit: "n < 10 \<Longrightarrow> digit_value ''0123456789'' (digit n) = n"
  by (drule less_ten_cases) (auto simp: digit_def)

lemma read_show_nat: "read_nat (show_nat n) = n"
proof (induction n rule: show_nat.induct)
  case (1 n)
  have d: "digit_value ''0123456789'' (digit n) = n mod 10"
    using digit_value_digit[of "n mod 10"] by (simp add: digit_def)
  show ?case
  proof (cases "n < 10")
    case True
    then show ?thesis using d by (subst show_nat.simps) (simp add: read_nat_def)
  next
    case False
    with 1 d have "read_nat (show_nat n) = 10 * (n div 10) + n mod 10"
      by (subst show_nat.simps) (simp add: read_nat_def)
    then show ?thesis by simp
  qed
qed

lemma show_nat_inj [simp]: "show_nat m = show_nat n \<longleftrightarrow> m = n"
  by (metis read_show_nat)

lemma digit_not_hyphen: "digit n \<noteq> CHR ''-''"
  using less_ten_cases[of "n mod 10"] by (auto simp: digit_def)

lemma show_nat_chars: "c \<in> set (show_nat n) \<Longrightarrow> \<exists>d. c = digit d"
  by (induction n rule: show_nat.induct) (subst (asm) show_nat.simps, auto split: if_splits)

lemma show_nat_no_hyphen: "CHR ''-'' \<notin> set (show_nat n)"
  using show_nat_chars digit_not_hyphen by metis

lemma show_int_inj [simp]: "show_int i = show_int j \<longleftrightarrow> i = j"
proof -
  have "\<not> CHR ''-'' # s = show_nat n" for s n
    using show_nat_no_hyphen[of n] by (metis list.set_intros(1))
  then show ?thesis
    by (auto simp: show_int_def eq_nat_nat_iff dest: sym split: if_splits)
qed

section \<open>Time\<close>

text \<open>The civil date of a day number (day 0 is 1970-01-01), in the proleptic Gregorian calendar.\<close>

definition civil_from_days :: "int \<Rightarrow> int \<times> int \<times> int" where
  "civil_from_days z0 =
    (let z = z0 + 719468; era = z div 146097; doe = z - era * 146097;
         yoe = (doe - doe div 1460 + doe div 36524 - doe div 146096) div 365;
         doy = doe - (365 * yoe + yoe div 4 - yoe div 100); mp = (5 * doy + 2) div 153;
         d = doy - (153 * mp + 2) div 5 + 1; m = (if mp < 10 then mp + 3 else mp - 9)
     in (yoe + era * 400 + (if m \<le> 2 then 1 else 0), m, d))"

definition pad :: "nat \<Rightarrow> int \<Rightarrow> string" where
  "pad n i = (let s = show_int i in replicate (n - length s) CHR ''0'' @ s)"

text \<open>\<open>t.UTC().Format(time.RFC3339)\<close>: fractions of a second are dropped.\<close>

definition format_RFC3339 :: "time \<Rightarrow> string" where
  "format_RFC3339 t =
    (let secs = t div 1000000000; days = secs div 86400; sod = secs mod 86400;
         (y, m, d) = civil_from_days days
     in pad 4 y @ ''-'' @ pad 2 m @ ''-'' @ pad 2 d @ ''T'' @ pad 2 (sod div 3600) @ '':''
        @ pad 2 (sod div 60 mod 60) @ '':'' @ pad 2 (sod mod 60) @ ''Z'')"

section \<open>JSON\<close>

text \<open>\<open>JFloat\<close> is a number written by a \<open>float64\<close>; finite floats are kept as rationals.\<close>

datatype json =
    JNull
  | JBool bool
  | JNum int
  | JFloat rat
  | JStr string
  | JArr "json list"
  | JObj "(string \<times> json) list"

text \<open>The tag \<open>omitempty\<close> on a string field.\<close>

definition omitempty :: "string \<Rightarrow> string \<Rightarrow> (string \<times> json) list" where
  "omitempty name s = (if s = '''' then [] else [(name, JStr s)])"

text \<open>The error is the text \<open>encoding/json\<close> gives for a value of the wrong type.\<close>

definition unmarshal_type_error :: "string \<Rightarrow> goerr" where
  "unmarshal_type_error name = ErrText (''json: cannot unmarshal value into field '' @ name)"

definition fields_of :: "json \<Rightarrow> goerr + (string \<times> json) list" where
  "fields_of j = (case j of
      JObj fs \<Rightarrow> Inr fs | JNull \<Rightarrow> Inr [] | _ \<Rightarrow> Inl (ErrText ''json: cannot unmarshal value into struct''))"

definition str_field :: "(string \<times> json) list \<Rightarrow> string \<Rightarrow> goerr + string" where
  "str_field fs name = (case map_of (rev fs) name of
      None \<Rightarrow> Inr '''' | Some JNull \<Rightarrow> Inr '''' | Some (JStr s) \<Rightarrow> Inr s
    | Some _ \<Rightarrow> Inl (unmarshal_type_error name))"

text \<open>A number that does not fit the field is a type error, too.\<close>

definition int64_field :: "(string \<times> json) list \<Rightarrow> string \<Rightarrow> goerr + int64" where
  "int64_field fs name = (case map_of (rev fs) name of
      None \<Rightarrow> Inr 0 | Some JNull \<Rightarrow> Inr 0
    | Some (JNum i) \<Rightarrow> (if - (2 ^ 63) \<le> i \<and> i < 2 ^ 63 then Inr (word_of_int i)
                        else Inl (unmarshal_type_error name))
    | Some _ \<Rightarrow> Inl (unmarshal_type_error name))"

definition bool_field :: "(string \<times> json) list \<Rightarrow> string \<Rightarrow> goerr + bool" where
  "bool_field fs name = (case map_of (rev fs) name of
      None \<Rightarrow> Inr False | Some JNull \<Rightarrow> Inr False | Some (JBool b) \<Rightarrow> Inr b
    | Some _ \<Rightarrow> Inl (unmarshal_type_error name))"

definition float_field :: "(string \<times> json) list \<Rightarrow> string \<Rightarrow> goerr + rat" where
  "float_field fs name = (case map_of (rev fs) name of
      None \<Rightarrow> Inr 0 | Some JNull \<Rightarrow> Inr 0 | Some (JNum i) \<Rightarrow> Inr (of_int i) | Some (JFloat x) \<Rightarrow> Inr x
    | Some _ \<Rightarrow> Inl (unmarshal_type_error name))"

text \<open>
  A \<open>map[string]string\<close>, the entries in the order of the keys, in which \<open>json.Marshal\<close>
  writes them; \<open>None\<close> is the nil map.
\<close>

type_synonym go_map = "(string \<times> string) list option"

definition json_map :: "go_map \<Rightarrow> json" where
  "json_map m = (case m of None \<Rightarrow> JNull | Some es \<Rightarrow> JObj (map (\<lambda>(k, v). (k, JStr v)) es))"

text \<open>Reading a key of a map; a missing key, or a nil map, gives the empty string.\<close>

definition map_get :: "go_map \<Rightarrow> string \<Rightarrow> string" where
  "map_get m k = (case m of None \<Rightarrow> '''' | Some es \<Rightarrow> (case map_of es k of None \<Rightarrow> '''' | Some v \<Rightarrow> v))"

definition json_int64 :: "int64 \<Rightarrow> json" where
  "json_int64 a = JNum (sint a)"

text \<open>Sequencing of results outside any world.\<close>

definition bind_sum :: "'e + 'a \<Rightarrow> ('a \<Rightarrow> 'e + 'b) \<Rightarrow> 'e + 'b" where
  "bind_sum r f = (case r of Inl e \<Rightarrow> Inl e | Inr x \<Rightarrow> f x)"

lemma bind_sum_simps [simp]: "bind_sum (Inl e) f = Inl e" "bind_sum (Inr x) f = f x"
  by (simp_all add: bind_sum_def)

lemma bind_sum_ok: "bind_sum r f = Inr y \<longleftrightarrow> (\<exists>x. r = Inr x \<and> f x = Inr y)"
  by (auto simp: bind_sum_def split: sum.splits)

lemma int64_field_marshal:
  "map_of (rev fs) name = Some (json_int64 a) \<Longrightarrow> int64_field fs name = Inr a"
  using sint_i64_bounds[of a] by (simp add: int64_field_def json_int64_def)

lemma str_field_marshal: "map_of (rev fs) name = Some (JStr s) \<Longrightarrow> str_field fs name = Inr s"
  by (simp add: str_field_def)

lemma str_field_missing: "map_of (rev fs) name = None \<Longrightarrow> str_field fs name = Inr ''''"
  by (simp add: str_field_def)

end
