(* ===== verification/Http.thy ===== *)
theory Http
  imports Postgres GoStd
begin

text \<open>
  What the controllers share: a reply, the parts of a \<open>gin.Context\<close> they read, and the
  small pieces of the Go standard library between a request and its reply.

  gin, its validator and \<open>google/uuid\<close> are not part of the repository: the outcome of
  \<open>ShouldBindJSON\<close> and the function \<open>uuid.Parse\<close> are arguments of the handlers.
\<close>

section \<open>Replies\<close>

record reply =
  rp_code :: int
  rp_body :: json

definition reply_JSON :: "int \<Rightarrow> json \<Rightarrow> ('w, goerr, reply) gprog" where
  "reply_JSON c b = ret \<lparr>rp_code = c, rp_body = b\<rparr>"

text \<open>\<open>gin.H{"error": msg}\<close>.\<close>

definition error_body :: "string \<Rightarrow> json" where
  "error_body msg = JObj [(''error'', JStr msg)]"

definition json_opt_string :: "string option \<Rightarrow> json" where
  "json_opt_string s = (case s of None \<Rightarrow> JNull | Some x \<Rightarrow> JStr x)"

text \<open>The part of \<open>gin.Context\<close> that handlers read; \<open>ctx_merchant\<close> is what a middleware stored.\<close>

record gin_ctx =
  header :: "string \<Rightarrow> string"
  param :: "string \<Rightarrow> string"
  query_arg :: "string \<Rightarrow> string"
  ctx_merchant :: "string option"

lemma run_reply_JSON [run_simps]: "reply_JSON c b w = (Inr \<lparr>rp_code = c, rp_body = b\<rparr>, w)"
  by (simp add: reply_JSON_def)

lemma keeps_reply_JSON [keeps_intros]: "keeps P (reply_JSON c b)"
  by (simp add: keeps_def run_simps)

text \<open>
  A handler that calls the service and turns its answer into a reply: the shape
  \<open>result, err := svc(); if err != nil { ...; return }; c.JSON(...)\<close>.
\<close>

definition respond ::
  "('w, goerr, 'a) gprog \<Rightarrow> (goerr \<Rightarrow> reply) \<Rightarrow> ('a \<Rightarrow> reply) \<Rightarrow> ('w, goerr, reply) gprog" where
  "respond m on_err on_ok =
     bnd (attempt m) (\<lambda>r. case r of Inl err \<Rightarrow> ret (on_err err) | Inr x \<Rightarrow> ret (on_ok x))"

lemma run_respond:
  "respond m f g w = (case m w of (Inl e, w') \<Rightarrow> (Inr (f e), w') | (Inr x, w') \<Rightarrow> (Inr (g x), w'))"
  by (simp add: respond_def run_simps split: prod.splits sum.splits)

lemma respond_E:
  assumes "respond m f g w = (Inr rep, w')"
  obtains (refused) e where "m w = (Inl e, w')" and "rep = f e"
  | (served) x where "m w = (Inr x, w')" and "rep = g x"
  using assms by (auto simp: run_respond split: prod.splits sum.splits)

lemma keeps_respond [keeps_intros]: "keeps P m \<Longrightarrow> keeps P (respond m f g)"
  unfolding respond_def by (intro keeps_intros)

section \<open>Standard library\<close>

text \<open>\<open>time.Time\<close> is marshalled in RFC 3339 with the fraction of the second, without trailing zeros.\<close>

definition format_RFC3339Nano :: "time \<Rightarrow> string" where
  "format_RFC3339Nano t =
    (let ns = t mod 1000000000; s = format_RFC3339 t;
         fraction = rev (dropWhile (\<lambda>c. c = CHR ''0'') (rev (pad 9 ns)))
     in if ns = 0 then s else butlast s @ ''.'' @ fraction @ ''Z'')"

definition json_time :: "time \<Rightarrow> json" where
  "json_time t = JStr (format_RFC3339Nano t)"

definition json_opt_time :: "time option \<Rightarrow> json" where
  "json_opt_time t = (case t of None \<Rightarrow> JNull | Some x \<Rightarrow> json_time x)"

text \<open>\<open>strconv.Atoi\<close>: an optional sign and decimal digits, within 64 bits.\<close>

definition is_digit :: "char \<Rightarrow> bool" where
  "is_digit c \<longleftrightarrow> CHR ''0'' \<le> c \<and> c \<le> CHR ''9''"

definition Atoi :: "string \<Rightarrow> goerr + int" where
  "Atoi s =
    (let (sign, digits) = (case s of c # cs \<Rightarrow> (if c = CHR ''-'' then (- 1, cs)
                             else if c = CHR ''+'' then (1, cs) else (1, s)) | [] \<Rightarrow> (1, []));
         n = sign * int (read_nat digits)
     in if digits = [] \<or> \<not> list_all is_digit digits
        then Inl (ErrText (''strconv.Atoi: parsing \"'' @ s @ ''\": invalid syntax''))
        else if n < - (2 ^ 63) \<or> 2 ^ 63 \<le> n
        then Inl (ErrText (''strconv.Atoi: parsing \"'' @ s @ ''\": value out of range''))
        else Inr n)"

end
