(* ===== verification/GoTime.thy ===== *)
theory GoTime
  imports Http
begin

text \<open>
  Decoding of JSON values the services exchange: instants in RFC 3339 as
  \<open>time.Time.UnmarshalJSON\<close> accepts them, and string maps. A \<open>time.Time\<close> is kept as its
  instant; the zone it was written in is not.
\<close>

section \<open>Instants\<close>

text \<open>The zero value of \<open>time.Time\<close>, the first instant of year 1.\<close>

definition zero_time :: time where
  "zero_time = - 62135596800000000000"

definition days_from_civil :: "int \<Rightarrow> int \<Rightarrow> int \<Rightarrow> int" where
  "days_from_civil y m d =
    (let y' = (if m \<le> 2 then y - 1 else y); era = y' div 400; yoe = y' - era * 400;
         mp = (m + 9) mod 12; doy = (153 * mp + 2) div 5 + d - 1;
         doe = yoe * 365 + yoe div 4 - yoe div 100 + doy
     in era * 146097 + doe - 719468)"

definition leap_year :: "int \<Rightarrow> bool" where
  "leap_year y \<longleftrightarrow> y mod 4 = 0 \<and> (y mod 100 \<noteq> 0 \<or> y mod 400 = 0)"

definition days_in_month :: "int \<Rightarrow> int \<Rightarrow> int" where
  "days_in_month y m =
    (if m = 2 then (if leap_year y then 29 else 28) else if m \<in> {4, 6, 9, 11} then 30 else 31)"

definition digits_at :: "string \<Rightarrow> nat \<Rightarrow> nat \<Rightarrow> int option" where
  "digits_at s i n =
    (let t = take n (drop i s)
     in if length t = n \<and> list_all is_digit t then Some (int (read_nat t)) else None)"

definition char_at :: "string \<Rightarrow> nat \<Rightarrow> char \<Rightarrow> bool" where
  "char_at s i c \<longleftrightarrow> take 1 (drop i s) = [c]"

text \<open>The fraction of the second in nanoseconds, and what follows; digits after the ninth are dropped.\<close>

definition parse_fraction :: "string \<Rightarrow> int \<times> string" where
  "parse_fraction s =
    (case s of c # cs \<Rightarrow>
       let ds = takeWhile is_digit cs in
       if c = CHR ''.'' \<and> ds \<noteq> []
       then (int (read_nat (take 9 (ds @ replicate 9 CHR ''0''))), dropWhile is_digit cs) else (0, s)
     | [] \<Rightarrow> (0, s))"

text \<open>The zone, as seconds east of UTC.\<close>

definition parse_zone :: "string \<Rightarrow> int option" where
  "parse_zone s =
    (if s = ''Z'' then Some 0
     else case (digits_at s 1 2, digits_at s 4 2) of
         (Some h, Some m) \<Rightarrow>
           if length s = 6 \<and> char_at s 3 CHR '':'' \<and> h \<le> 23 \<and> m \<le> 59
           then (if char_at s 0 CHR ''+'' then Some (h * 3600 + m * 60)
                 else if char_at s 0 CHR ''-'' then Some (- (h * 3600 + m * 60)) else None)
           else None
       | _ \<Rightarrow> None)"

definition parse_RFC3339 :: "string \<Rightarrow> goerr + time" where
  "parse_RFC3339 s =
    (let bad = Inl (ErrText (''parsing time \"'' @ s @ ''\" as \"2006-01-02T15:04:05Z07:00\"''));
         (ns, zone) = parse_fraction (drop 19 s)
     in case (digits_at s 0 4, digits_at s 5 2, digits_at s 8 2,
              digits_at s 11 2, digits_at s 14 2, digits_at s 17 2, parse_zone zone) of
         (Some y, Some mo, Some d, Some h, Some mi, Some se, Some off) \<Rightarrow>
           if char_at s 4 CHR ''-'' \<and> char_at s 7 CHR ''-'' \<and> char_at s 10 CHR ''T''
              \<and> char_at s 13 CHR '':'' \<and> char_at s 16 CHR '':''
              \<and> 1 \<le> mo \<and> mo \<le> 12 \<and> 1 \<le> d \<and> d \<le> days_in_month y mo \<and> h \<le> 23 \<and> mi \<le> 59 \<and> se \<le> 59
           then Inr ((days_from_civil y mo d * 86400 + h * 3600 + mi * 60 + se - off) * 1000000000 + ns)
           else bad
       | _ \<Rightarrow> bad)"

section \<open>Fields\<close>

definition opt_time_field :: "(string \<times> json) list \<Rightarrow> string \<Rightarrow> goerr + time option" where
  "opt_time_field fs name = (case map_of (rev fs) name of
      None \<Rightarrow> Inr None | Some JNull \<Rightarrow> Inr None
    | Some (JStr s) \<Rightarrow> bind_sum (parse_RFC3339 s) (\<lambda>t. Inr (Some t))
    | Some _ \<Rightarrow> Inl (ErrText ''Time.UnmarshalJSON: input is not a JSON string''))"

definition time_field :: "(string \<times> json) list \<Rightarrow> string \<Rightarrow> goerr + time" where
  "time_field fs name = bind_sum (opt_time_field fs name) (\<lambda>t.
     Inr (case t of None \<Rightarrow> zero_time | Some x \<Rightarrow> x))"

text \<open>\<open>json.RawMessage\<close>: the value as it is; a missing one is the nil slice.\<close>

definition raw_field :: "(string \<times> json) list \<Rightarrow> string \<Rightarrow> json option" where
  "raw_field fs name = map_of (rev fs) name"

text \<open>A \<open>map[string]string\<close>; the entries are kept in the order of the keys.\<close>

fun map_insert :: "string \<Rightarrow> string \<Rightarrow> (string \<times> string) list \<Rightarrow> (string \<times> string) list" where
  "map_insert k v [] = [(k, v)]"
| "map_insert k v ((l, u) # es) =
    (if k = l then (k, v) # es else if k < l then (k, v) # (l, u) # es else (l, u) # map_insert k v es)"

fun read_map :: "(string \<times> json) list \<Rightarrow> (string \<times> string) list \<Rightarrow> (string \<times> string) list option" where
  "read_map [] acc = Some acc"
| "read_map ((k, JStr s) # fs) acc = read_map fs (map_insert k s acc)"
| "read_map ((k, JNull) # fs) acc = read_map fs (map_insert k '''' acc)"
| "read_map ((k, _) # fs) acc = None"

definition json_to_map :: "json \<Rightarrow> goerr + go_map" where
  "json_to_map j = (case j of
      JNull \<Rightarrow> Inr None
    | JObj es \<Rightarrow> (case read_map es [] of
          Some m \<Rightarrow> Inr (Some m) | None \<Rightarrow> Inl (unmarshal_type_error ''map''))
    | _ \<Rightarrow> Inl (unmarshal_type_error ''map''))"

definition map_field :: "(string \<times> json) list \<Rightarrow> string \<Rightarrow> goerr + go_map" where
  "map_field fs name = (case map_of (rev fs) name of None \<Rightarrow> Inr None | Some j \<Rightarrow> json_to_map j)"

text \<open>Go maps have each key once; the order of the keys is the one \<open>json.Marshal\<close> writes.\<close>

definition sorted_map :: "(string \<times> string) list \<Rightarrow> bool" where
  "sorted_map es \<longleftrightarrow> sorted_wrt (<) (map fst es)"

lemma map_insert_last:
  "\<forall>l\<in>set (map fst acc). l < k \<Longrightarrow> map_insert k v acc = acc @ [(k, v)]"
  by (induction acc) (auto simp: less_not_sym)

lemma read_map_written:
  "sorted_wrt (<) (map fst (acc @ es)) \<Longrightarrow>
   read_map (map (\<lambda>(k, v). (k, JStr v)) es) acc = Some (acc @ es)"
proof (induction es arbitrary: acc)
  case (Cons e es)
  obtain k v where e: "e = (k, v)" by (cases e)
  from Cons.prems e have "\<forall>l\<in>set (map fst acc). l < k" by (auto simp: sorted_wrt_append)
  then have "map_insert k v acc = acc @ [(k, v)]" by (rule map_insert_last)
  with Cons e show ?case by simp
qed simp

text \<open>A map survives being written and read.\<close>

lemma json_map_roundtrip:
  "(\<And>es. m = Some es \<Longrightarrow> sorted_map es) \<Longrightarrow> json_to_map (json_map m) = Inr m"
  by (cases m) (simp_all add: json_to_map_def json_map_def sorted_map_def read_map_written)

end
