(* ===== verification/GoTimeFacts.thy ===== *)
theory GoTimeFacts
  imports GoTime
begin

text \<open>
  Instants survive being written and read: the civil calendar of \<open>GoStd\<close> and \<open>GoTime\<close> are
  inverse to each other, and so are \<open>format_RFC3339Nano\<close> and \<open>parse_RFC3339\<close> on the years
  that \<open>time.Time.MarshalJSON\<close> accepts.
\<close>

section \<open>The calendar\<close>

lemma div_step: "0 \<le> a \<Longrightarrow> a < 2 * n \<Longrightarrow> (n * k + a) div n = k + (if n \<le> a then 1 else 0)" for a n k :: int
proof -
  assume a: "0 \<le> a" "a < 2 * n"
  then have "n \<noteq> 0" by auto
  then have "(n * k + a) div n = k + a div n" by simp
  moreover have "a div n = (if n \<le> a then 1 else 0)"
    using a by (auto simp: int_div_pos_eq[of a n 1 "a - n"])
  ultimately show ?thesis by simp
qed

text \<open>A day of the 400 years: centuries, groups of four years, years, days; the last one of a group may be a leap day.\<close>

lemma day_split:
  fixes doe :: int
  assumes "0 \<le> doe" and "doe < 146097"
  obtains c q r t where "doe = 36524 * c + 1461 * q + 365 * r + t"
    and "0 \<le> c" "c \<le> 3" "0 \<le> q" "q \<le> 24" "0 \<le> r" "r \<le> 3" "0 \<le> t" "t \<le> 365"
    and "t = 365 \<longrightarrow> r = 3 \<and> (q = 24 \<longrightarrow> c = 3)"
proof -
  define c where "c = (if doe = 146096 then 3 else doe div 36524)"
  define d1 where "d1 = doe - 36524 * c"
  have c: "0 \<le> c" "c \<le> 3" "0 \<le> d1" "d1 \<le> 36524" "d1 = 36524 \<Longrightarrow> c = 3"
    using assms by (auto simp: c_def d1_def split: if_splits)
  define q where "q = d1 div 1461"
  define d2 where "d2 = d1 - 1461 * q"
  have q: "0 \<le> q" "q \<le> 24" "0 \<le> d2" "d2 \<le> 1460" "d2 = 1460 \<and> q = 24 \<Longrightarrow> d1 = 36524"
    using c by (auto simp: q_def d2_def)
  define r where "r = (if d2 = 1460 then 3 else d2 div 365)"
  define t where "t = d2 - 365 * r"
  have r: "0 \<le> r" "r \<le> 3" "0 \<le> t" "t \<le> 365" "t = 365 \<Longrightarrow> r = 3 \<and> d2 = 1460"
    using q by (auto simp: r_def t_def split: if_splits)
  show thesis
  proof (rule that[of c q r t])
    show "doe = 36524 * c + 1461 * q + 365 * r + t" by (simp add: d1_def d2_def t_def)
    show "t = 365 \<longrightarrow> r = 3 \<and> (q = 24 \<longrightarrow> c = 3)" using r(5) q(5) c(5) by blast
  qed (use c q r in simp_all)
qed

definition year_of_day :: "int \<Rightarrow> int" where
  "year_of_day doe = (doe - doe div 1460 + doe div 36524 - doe div 146096) div 365"

lemma year_of_day_split:
  fixes c q r t :: int
  assumes "0 \<le> c" "c \<le> 3" "0 \<le> q" "q \<le> 24" "0 \<le> r" "r \<le> 3" "0 \<le> t" "t \<le> 365"
    and leap: "t = 365 \<longrightarrow> r = 3 \<and> (q = 24 \<longrightarrow> c = 3)" and doe: "doe = 36524 * c + 1461 * q + 365 * r + t"
  shows "year_of_day doe = 100 * c + 4 * q + r"
proof -
  let ?A = "24 * c + q + 365 * r + t" and ?B = "1461 * q + 365 * r + t"
  have e: "doe = 1460 * (25 * c + q) + ?A" "doe = 36524 * c + ?B" using doe by simp_all
  have b: "0 \<le> ?A" "?A < 2 * 1460" "0 \<le> ?B" "?B < 2 * 36524" using assms by auto
  have d1: "doe div 1460 = 25 * c + q + (if 1460 \<le> ?A then 1 else 0)"
    unfolding e(1) by (rule div_step[OF b(1,2)])
  have d2: "doe div 36524 = c + (if 36524 \<le> ?B then 1 else 0)"
    unfolding e(2) by (rule div_step[OF b(3,4)])
  have d3: "doe div 146096 = (if 146096 \<le> doe then 1 else 0)"
    using div_step[of doe 146096 0] assms by auto
  have full: "36524 \<le> ?B \<longleftrightarrow> t = 365 \<and> q = 24" using assms by auto
  have last_day: "146096 \<le> doe \<longleftrightarrow> t = 365 \<and> q = 24" using assms by auto
  have "1460 \<le> ?A" if "t = 365" using leap assms that by auto
  moreover have "\<not> 1460 \<le> ?A" if "t = 0" using assms that by auto
  ultimately have "0 \<le> t - (if 1460 \<le> ?A then 1 else 0) \<and> t - (if 1460 \<le> ?A then 1 else 0) \<le> 364"
    using assms(7,8) by (cases "t = 0"; cases "t = 365") simp_all
  moreover have "doe - doe div 1460 + doe div 36524 - doe div 146096
      = 365 * (100 * c + 4 * q + r) + (t - (if 1460 \<le> ?A then 1 else 0))"
    unfolding d1 d2 d3 full last_day using doe by simp
  ultimately show ?thesis
    unfolding year_of_day_def by (simp add: int_div_pos_eq)
qed

text \<open>The month and the day of the month, counted from the first of March.\<close>

definition month_of :: "int \<Rightarrow> int" where
  "month_of doy = (5 * doy + 2) div 153"

lemma month_bounds:
  assumes "0 \<le> doy" and "doy \<le> 365"
  shows "0 \<le> month_of doy" and "month_of doy \<le> 11"
  using assms by (auto simp: month_of_def)

lemma month_day:
  assumes "0 \<le> doy" and "doy \<le> 365"
  defines "mp \<equiv> month_of doy"
  defines "m \<equiv> (if mp < 10 then mp + 3 else mp - 9)" and "d \<equiv> doy - (153 * mp + 2) div 5 + 1"
  shows "1 \<le> m \<and> m \<le> 12 \<and> 1 \<le> d \<and> (m + 9) mod 12 = mp
    \<and> d \<le> (if m = 2 then (if doy = 365 then 29 else 28) else if m \<in> {4, 6, 9, 11} then 30 else 31)"
proof -
  have mp: "153 * mp \<le> 5 * doy + 2" "5 * doy + 2 < 153 * mp + 153"
    unfolding mp_def month_of_def by presburger+
  have "mp = 0 \<or> mp = 1 \<or> mp = 2 \<or> mp = 3 \<or> mp = 4 \<or> mp = 5 \<or> mp = 6 \<or> mp = 7 \<or> mp = 8 \<or> mp = 9 \<or> mp = 10 \<or> mp = 11"
    using month_bounds[OF assms(1,2)] unfolding mp_def by presburger
  then show ?thesis using mp assms(2) unfolding m_def d_def by (elim disjE) simp_all
qed

text \<open>Every day has its date, which is a valid one.\<close>

lemma civil_roundtrip:
  assumes "civil_from_days z = (y, m, d)"
  shows "days_from_civil y m d = z" and "1 \<le> m" and "m \<le> 12" and "1 \<le> d" and "d \<le> days_in_month y m"
proof -
  let ?era = "(z + 719468) div 146097" and ?doe = "(z + 719468) mod 146097"
  have "0 \<le> ?doe" "?doe < 146097" by simp_all
  then obtain c q r t where s: "?doe = 36524 * c + 1461 * q + 365 * r + t"
    and b: "0 \<le> c" "c \<le> 3" "0 \<le> q" "q \<le> 24" "0 \<le> r" "r \<le> 3" "0 \<le> t" "t \<le> 365"
    and leap: "t = 365 \<longrightarrow> r = 3 \<and> (q = 24 \<longrightarrow> c = 3)" by (rule day_split)
  let ?yoe = "100 * c + 4 * q + r"
  have yoe: "year_of_day ?doe = ?yoe" by (rule year_of_day_split[OF b leap s])
  have "?yoe div 4 = 25 * c + q" "?yoe div 100 = c" using b by (simp_all add: int_div_pos_eq)
  then have doy: "?doe - (365 * ?yoe + ?yoe div 4 - ?yoe div 100) = t" using s by simp
  define mp where "mp = month_of t"
  have doe: "z + 719468 - ?era * 146097 = ?doe" by (rule minus_div_mult_eq_mod)
  have "(y, m, d) = (let m = (if mp < 10 then mp + 3 else mp - 9)
      in (?yoe + ?era * 400 + (if m \<le> 2 then 1 else 0), m, t - (153 * mp + 2) div 5 + 1))"
    by (simp only: assms[symmetric] civil_from_days_def Let_def doe yoe[unfolded year_of_day_def] doy mp_def month_of_def)
  then have civil: "m = (if mp < 10 then mp + 3 else mp - 9)"
    "y = ?yoe + ?era * 400 + (if m \<le> 2 then 1 else 0)" "d = t - (153 * mp + 2) div 5 + 1"
    unfolding Let_def prod.inject by (elim conjE, simp)+
  note md = month_day[OF b(7,8), folded mp_def, folded civil(1,3)]
  have yoe_range: "0 \<le> ?yoe" "?yoe < 400" using b by auto
  have y': "(if m \<le> 2 then y - 1 else y) = ?yoe + 400 * ?era" using civil(2) by auto
  have era: "(?yoe + 400 * ?era) div 400 = ?era" using yoe_range by simp
  have yoe': "?yoe + 400 * ?era - ?era * 400 = ?yoe" by simp
  have mp': "(m + 9) mod 12 = mp" using md by simp
  have "days_from_civil y m d = ?era * 146097 + (?yoe * 365 + ?yoe div 4 - ?yoe div 100
      + ((153 * mp + 2) div 5 + (t - (153 * mp + 2) div 5 + 1) - 1)) - 719468"
    by (simp only: days_from_civil_def Let_def y' era yoe' mp' civil(3))
  also have "\<dots> = ?era * 146097 + ?doe - 719468" using doy by linarith
  also have "\<dots> = z" by simp
  finally show "days_from_civil y m d = z" .
  show "1 \<le> m" "m \<le> 12" "1 \<le> d" using md by simp_all
  have "leap_year y" if "t = 365" "m = 2"
  proof -
    from leap that(1) have r: "r = 3" "q = 24 \<longrightarrow> c = 3" by simp_all
    have y: "y = 4 * (25 * c + q + 1 + 100 * ?era)" using civil(2) that(2) r(1) by simp
    have "y mod 100 \<noteq> 0 \<or> y mod 400 = 0"
    proof (cases "q = 24")
      case True
      with r(2) y have "y = 400 * (1 + ?era)" by simp
      then have "y mod 400 = 0" by simp
      then show ?thesis ..
    next
      case False
      then have "0 \<le> 4 * (q + 1)" "4 * (q + 1) < 100" using b(3,4) by simp_all
      then have m: "4 * (q + 1) mod 100 = 4 * (q + 1)" by (rule mod_pos_pos_trivial)
      have "y = 100 * (c + 4 * ?era) + 4 * (q + 1)" using y by (simp add: algebra_simps)
      then have "y mod 100 = 4 * (q + 1)" using m by (simp only: mod_mult_self4)
      moreover have "4 * (q + 1) \<noteq> 0" using b(3) by simp
      ultimately have "y mod 100 \<noteq> 0" by metis
      then show ?thesis ..
    qed
    moreover have "y mod 4 = 0" unfolding y by simp
    ultimately show ?thesis by (simp add: leap_year_def)
  qed
  with md show "d \<le> days_in_month y m" by (auto simp: days_in_month_def split: if_splits)
qed

section \<open>Digits\<close>

lemma is_digit_digit [simp]: "is_digit (digit n)"
proof -
  have "n mod 10 < 10" by simp
  then show ?thesis by (drule_tac less_ten_cases) (auto simp: digit_def is_digit_def)
qed

lemma show_nat_digits: "list_all is_digit (show_nat n)"
  by (induction n rule: show_nat.induct) (subst show_nat.simps, auto)

lemma length_show_nat: "n < 10 ^ k \<Longrightarrow> 0 < k \<Longrightarrow> length (show_nat n) \<le> k"
proof (induction n arbitrary: k rule: show_nat.induct)
  case (1 n)
  show ?case
  proof (cases "n < 10")
    case True
    then show ?thesis using 1(3) by (subst show_nat.simps) simp
  next
    case False
    then have "1 < k" using 1(2,3) by (cases k) (auto simp: not_less_eq_eq intro: ccontr)
    then obtain j where k: "k = Suc j" "0 < j" by (cases k) auto
    have "n div 10 < 10 ^ j" using 1(2) k(1) by simp
    from 1(1)[OF False this k(2)] k(1) False show ?thesis by (subst show_nat.simps) simp
  qed
qed

lemma read_nat_zeros: "read_nat (replicate k CHR ''0'' @ s) = read_nat s"
  by (induction k) (simp_all add: read_nat_def)

lemma pad_digits:
  assumes "0 \<le> i" and "i < 10 ^ n" and "0 < n"
  shows "length (pad n i) = n" and "list_all is_digit (pad n i)" and "int (read_nat (pad n i)) = i"
proof -
  have "nat i < 10 ^ n" using assms(1,2) by (simp add: nat_less_iff)
  then have l: "length (show_nat (nat i)) \<le> n" using assms(3) by (rule length_show_nat)
  have p: "pad n i = replicate (n - length (show_nat (nat i))) CHR ''0'' @ show_nat (nat i)"
    using assms(1) by (simp add: pad_def show_int_def Let_def)
  show "length (pad n i) = n" using l by (simp add: p)
  show "list_all is_digit (pad n i)" by (simp add: p show_nat_digits list_all_iff is_digit_def)
    (use show_nat_digits in \<open>auto simp: list_all_iff is_digit_def\<close>)
  show "int (read_nat (pad n i)) = i" using assms(1) by (simp add: p read_nat_zeros read_show_nat)
qed

lemma digits_at_pad:
  assumes "drop k s = pad n i @ rest" and "0 \<le> i" and "i < 10 ^ n" and "0 < n"
  shows "digits_at s k n = Some i"
  using assms(1) pad_digits[OF assms(2-4)] by (simp add: digits_at_def)

section \<open>Instants\<close>

abbreviation trimmed :: "string \<Rightarrow> string" where
  "trimmed s \<equiv> rev (dropWhile (\<lambda>c. c = CHR ''0'') (rev s))"

lemma trimmed_zeros:
  obtains k where "s = trimmed s @ replicate k CHR ''0''"
proof -
  let ?z = "takeWhile (\<lambda>c. c = CHR ''0'') (rev s)"
  have "?z = replicate (length ?z) CHR ''0''" by (rule replicate_eqI) (auto dest: set_takeWhileD)
  moreover have "s = trimmed s @ rev ?z" by (metis rev_append rev_rev_ident takeWhile_dropWhile_id)
  ultimately have "s = trimmed s @ replicate (length ?z) CHR ''0''" by (metis rev_replicate)
  then show thesis by (rule that)
qed

lemma span_until:
  "\<forall>c\<in>set f. P c \<Longrightarrow> \<not> P z \<Longrightarrow> takeWhile P (f @ z # zs) = f \<and> dropWhile P (f @ z # zs) = z # zs"
  by (induction f) auto

lemma fraction_read:
  assumes "0 < ns" and "ns < 1000000000" and z: "\<not> is_digit z"
  shows "parse_fraction (''.'' @ trimmed (pad 9 ns) @ z # zs) = (ns, z # zs)"
proof -
  have p: "length (pad 9 ns) = 9" "list_all is_digit (pad 9 ns)" "int (read_nat (pad 9 ns)) = ns"
    using assms(1,2) pad_digits[of ns 9] by simp_all
  obtain k where k: "pad 9 ns = trimmed (pad 9 ns) @ replicate k CHR ''0''" by (rule trimmed_zeros)
  let ?f = "trimmed (pad 9 ns)"

  have d: "\<forall>c\<in>set ?f. is_digit c" using p(2) k by (metis Un_iff list_all_iff set_append)
  have "?f \<noteq> []"
  proof
    assume "?f = []"
    with k have "read_nat (pad 9 ns) = read_nat []" using read_nat_zeros[of k "[]"] by simp
    with p(3) assms(1) show False by (simp add: read_nat_def)
  qed
  moreover have "take 9 (?f @ replicate 9 CHR ''0'') = pad 9 ns"
  proof -
    have l: "length ?f + k = 9" using p(1) k by (metis length_append length_replicate)
    then have "replicate 9 CHR ''0'' = replicate k CHR ''0'' @ replicate (length ?f) CHR ''0''"
      by (metis add.commute replicate_add)
    then have "?f @ replicate 9 CHR ''0'' = pad 9 ns @ replicate (length ?f) CHR ''0''" using k by (metis append.assoc)
    then show ?thesis using p(1) by simp
  qed
  moreover have "takeWhile is_digit (?f @ z # zs) = ?f" "dropWhile is_digit (?f @ z # zs) = z # zs"
    using span_until[OF d z] by simp_all
  ultimately show ?thesis using p(3) by (simp add: parse_fraction_def Let_def)
qed

lemma stamp_read:
  assumes "0 \<le> y" "y < 10000" "1 \<le> mo" "mo \<le> 12" "1 \<le> d" "d \<le> days_in_month y mo"
    and "0 \<le> h" "h \<le> 23" "0 \<le> mi" "mi \<le> 59" "0 \<le> se" "se \<le> 59"
    and "parse_fraction rest = (ns, ''Z'')"
    and "s = pad 4 y @ ''-'' @ pad 2 mo @ ''-'' @ pad 2 d @ ''T'' @ pad 2 h @ '':'' @ pad 2 mi @ '':'' @ pad 2 se @ rest"
  shows "parse_RFC3339 s = Inr ((days_from_civil y mo d * 86400 + h * 3600 + mi * 60 + se) * 1000000000 + ns)"
proof -
  have d: "d \<le> 31" using assms(6) by (auto simp: days_in_month_def split: if_splits)
  have l: "length (pad 4 y) = 4" "length (pad 2 mo) = 2" "length (pad 2 d) = 2" "length (pad 2 h) = 2"
    "length (pad 2 mi) = 2" "length (pad 2 se) = 2"
    using assms(1-12) d by (simp_all add: pad_digits)
  have at: "digits_at s 0 4 = Some y" "digits_at s 5 2 = Some mo" "digits_at s 8 2 = Some d"
    "digits_at s 11 2 = Some h" "digits_at s 14 2 = Some mi" "digits_at s 17 2 = Some se"
    using assms(1-12) d by (auto intro!: digits_at_pad simp: assms(14) l)
  have c: "char_at s 4 CHR ''-''" "char_at s 7 CHR ''-''" "char_at s 10 CHR ''T''" "char_at s 13 CHR '':''" "char_at s 16 CHR '':''"
    and r: "drop 19 s = rest" by (simp_all add: assms(14) l char_at_def)
  show ?thesis
    unfolding parse_RFC3339_def Let_def r assms(13) using assms(3-12)
    by (simp add: at c parse_zone_def)
qed

lemma format_split:
  fixes t :: time
  defines "secs \<equiv> t div 1000000000" and "ns \<equiv> t mod 1000000000"
  defines "rest \<equiv> (if ns = 0 then ''Z'' else ''.'' @ trimmed (pad 9 ns) @ ''Z'')"
  assumes "civil_from_days (secs div 86400) = (y, mo, d)"
  shows "format_RFC3339Nano t = pad 4 y @ ''-'' @ pad 2 mo @ ''-'' @ pad 2 d @ ''T'' @ pad 2 (secs mod 86400 div 3600)
    @ '':'' @ pad 2 (secs mod 86400 div 60 mod 60) @ '':'' @ pad 2 (secs mod 86400 mod 60) @ rest"
  using assms(4)
  by (simp add: format_RFC3339Nano_def format_RFC3339_def Let_def rest_def ns_def secs_def butlast_append)

text \<open>An instant that \<open>time.Time.MarshalJSON\<close> accepts is read back as it was written.\<close>

definition year_of :: "time \<Rightarrow> int" where
  "year_of t = fst (civil_from_days (t div 1000000000 div 86400))"

lemma hours_minutes_seconds:
  fixes secs :: int
  defines "sod \<equiv> secs mod 86400"
  shows "0 \<le> sod div 3600 \<and> sod div 3600 \<le> 23 \<and> 0 \<le> sod div 60 mod 60 \<and> sod div 60 mod 60 \<le> 59
    \<and> 0 \<le> sod mod 60 \<and> sod mod 60 \<le> 59
    \<and> sod div 3600 * 3600 + sod div 60 mod 60 * 60 + sod mod 60 = sod"
proof -
  have b: "0 \<le> sod" "sod < 86400" by (simp_all add: sod_def)
  then have h: "0 \<le> sod div 3600" "sod div 3600 \<le> 23"
    using zdiv_mono1[of sod 86399 3600] by (simp_all add: pos_imp_zdiv_nonneg_iff)
  have m: "0 \<le> sod div 60 mod 60" "sod div 60 mod 60 < 60" "0 \<le> sod mod 60" "sod mod 60 < 60" by simp_all
  have "sod div 3600 = sod div 60 div 60" by (simp add: zdiv_zmult2_eq[symmetric])
  then have "sod div 3600 * 3600 + sod div 60 mod 60 * 60 + sod mod 60 = sod"
    using div_mult_mod_eq[of "sod div 60" 60] div_mult_mod_eq[of sod 60] by linarith
  with h m show ?thesis by linarith
qed

lemma instant_roundtrip:
  assumes "0 \<le> year_of t" and "year_of t < 10000"
  shows "parse_RFC3339 (format_RFC3339Nano t) = Inr t"
proof -
  let ?secs = "t div 1000000000" and ?ns = "t mod 1000000000"
  let ?sod = "?secs mod 86400"
  let ?rest = "if ?ns = 0 then ''Z'' else ''.'' @ trimmed (pad 9 ?ns) @ ''Z''"
  obtain y mo d where civil: "civil_from_days (?secs div 86400) = (y, mo, d)" by (metis prod_cases3)
  note cal = civil_roundtrip[OF civil]
  have y: "0 \<le> y" "y < 10000" using assms civil by (simp_all add: year_of_def)
  have hms: "0 \<le> ?sod div 3600" "?sod div 3600 \<le> 23" "0 \<le> ?sod div 60 mod 60" "?sod div 60 mod 60 \<le> 59"
    "0 \<le> ?sod mod 60" "?sod mod 60 \<le> 59"
    and sod: "?sod div 3600 * 3600 + ?sod div 60 mod 60 * 60 + ?sod mod 60 = ?sod"
    using hours_minutes_seconds[of ?secs] by blast+
  have frac: "parse_fraction ?rest = (?ns, ''Z'')"
  proof (cases "?ns = 0")
    case True
    then show ?thesis by (simp add: parse_fraction_def)
  next
    case False
    have b: "0 \<le> ?ns" "?ns < 1000000000" by simp_all
    with False have "0 < ?ns" by linarith
    moreover have "\<not> is_digit CHR ''Z''" by (simp add: is_digit_def)
    ultimately have "parse_fraction (''.'' @ trimmed (pad 9 ?ns) @ ''Z'') = (?ns, ''Z'')" using b(2) by (intro fraction_read)
    then show ?thesis by (simp only: if_not_P[OF False])
  qed

  have "parse_RFC3339 (format_RFC3339Nano t)
      = Inr ((days_from_civil y mo d * 86400 + ?sod div 3600 * 3600 + ?sod div 60 mod 60 * 60 + ?sod mod 60) * 1000000000 + ?ns)"
    by (rule stamp_read[OF y cal(2-5) hms frac format_split[OF civil]])
  also have "days_from_civil y mo d * 86400 + ?sod div 3600 * 3600 + ?sod div 60 mod 60 * 60 + ?sod mod 60 = ?secs"
    using sod div_mult_mod_eq[of ?secs 86400] unfolding cal(1) by linarith
  also have "?secs * 1000000000 + ?ns = t" by (rule div_mult_mod_eq)
  finally show ?thesis .
qed

text \<open>A time of an object is read back from the field it was written to.\<close>

lemma time_field_marshal:
  assumes "0 \<le> year_of t" and "year_of t < 10000" and "map_of (rev fs) name = Some (json_time t)"
  shows "time_field fs name = Inr t"
  using instant_roundtrip[OF assms(1,2)] assms(3) by (simp add: time_field_def opt_time_field_def json_time_def)

end
