(* ===== verification/StatusMachine.thy ===== *)
theory StatusMachine
  imports Prelude
begin

text \<open>
  The contract of a status field. Three packages guard the status of a record by a table
  of allowed transitions. What their callers rely on is that a status never comes back
  once it was left, and that a status without successors stays. Both follow from a rank
  that every change of status increases; a package provides its rank by interpreting
  \<open>status_machine\<close>.
\<close>

text \<open>A history: the values a status takes, each allowed after the one before.\<close>

fun history :: "('s \<Rightarrow> 's \<Rightarrow> bool) \<Rightarrow> 's list \<Rightarrow> bool" where
  "history allowed [] = True"
| "history allowed [s] = True"
| "history allowed (s # t # ss) = (allowed s t \<and> history allowed (t # ss))"

lemma history_rtranclp: "history allowed (s # ss) \<Longrightarrow> allowed\<^sup>*\<^sup>* s (last (s # ss))"
proof (induction ss arbitrary: s)
  case Nil
  then show ?case by simp
next
  case (Cons t ss)
  then have "allowed s t" and "allowed\<^sup>*\<^sup>* t (last (t # ss))" by simp_all
  then show ?case by (simp add: converse_rtranclp_into_rtranclp)
qed

locale status_machine =
  fixes allowed :: "'s \<Rightarrow> 's \<Rightarrow> bool"
    and rank :: "'s \<Rightarrow> nat"
  assumes climbs: "allowed s t \<Longrightarrow> s \<noteq> t \<Longrightarrow> rank s < rank t"
begin

lemma reach_rank: "allowed\<^sup>*\<^sup>* s t \<Longrightarrow> s = t \<or> rank s < rank t"
proof (induction rule: rtranclp_induct)
  case base
  then show ?case by simp
next
  case (step t u)
  then show ?case using climbs[of t u] by (cases "t = u") auto
qed

text \<open>No way back.\<close>

lemma no_return: "allowed\<^sup>*\<^sup>* s t \<Longrightarrow> allowed\<^sup>*\<^sup>* t s \<Longrightarrow> s = t"
  using reach_rank[of s t] reach_rank[of t s] by auto

text \<open>A status without successors is final.\<close>

lemma final_stays: "(\<And>t. \<not> allowed s t) \<Longrightarrow> allowed\<^sup>*\<^sup>* s t \<Longrightarrow> t = s"
  by (erule converse_rtranclpE) auto

text \<open>A history without repetitions in a row is no longer than the ranks allow.\<close>

lemma history_length:
  "history allowed (s # ss) \<Longrightarrow> history (\<noteq>) (s # ss) \<Longrightarrow>
   length ss \<le> rank (last (s # ss)) - rank s \<and> rank s \<le> rank (last (s # ss))"
proof (induction ss arbitrary: s)
  case Nil
  then show ?case by simp
next
  case (Cons t ss)
  then have "rank s < rank t" using climbs[of s t] by auto
  with Cons.prems Cons.IH[of t] show ?case by auto
qed

lemma history_bounded:
  assumes "history allowed (s # ss)" and "history (\<noteq>) (s # ss)" and "\<And>t. rank t \<le> n"
  shows "length ss \<le> n"
  using history_length[OF assms(1,2)] assms(3)[of "last (s # ss)"] by linarith

end

end
