(* ===== verification/SgTransaction.thy ===== *)
theory SgTransaction
  imports Postgres StatusMachine
begin

text \<open>
  Silvergate, package \<open>transaction\<close>: the entities \<open>Transaction\<close> and \<open>Refund\<close> of
  \<open>entity.go\<close> and \<open>refund.go\<close>, their status constants, and the methods that change a
  status. A method with a pointer receiver returns the changed entity.
\<close>

section \<open>Status\<close>

abbreviation StatusAuthorized :: string where "StatusAuthorized \<equiv> ''authorized''"
abbreviation StatusDeclined :: string where "StatusDeclined \<equiv> ''declined''"
abbreviation StatusCapturePending :: string where "StatusCapturePending \<equiv> ''capture_pending''"
abbreviation StatusCaptured :: string where "StatusCaptured \<equiv> ''captured''"
abbreviation StatusCaptureFailed :: string where "StatusCaptureFailed \<equiv> ''capture_failed''"
abbreviation StatusVoided :: string where "StatusVoided \<equiv> ''voided''"
abbreviation StatusPartiallyRefunded :: string where
  "StatusPartiallyRefunded \<equiv> ''partially_refunded''"
abbreviation StatusRefunded :: string where "StatusRefunded \<equiv> ''refunded''"

definition validTransitions :: "string \<rightharpoonup> string list" where
  "validTransitions = [
     StatusAuthorized \<mapsto> [StatusCapturePending, StatusVoided],
     StatusCapturePending \<mapsto> [StatusCaptured, StatusCaptureFailed],
     StatusCaptured \<mapsto> [StatusPartiallyRefunded, StatusRefunded],
     StatusPartiallyRefunded \<mapsto> [StatusPartiallyRefunded, StatusRefunded]]"

definition CanTransitionTo :: "string \<Rightarrow> string \<Rightarrow> bool" where
  "CanTransitionTo s target = (case validTransitions s of
      None \<Rightarrow> False
    | Some allowed \<Rightarrow> list_ex (\<lambda>a. a = target) allowed)"

text \<open>The transition table, row by row.\<close>

lemma CanTransitionTo_iff:
  "CanTransitionTo s t \<longleftrightarrow>
     (s = StatusAuthorized \<and> (t = StatusCapturePending \<or> t = StatusVoided))
   \<or> (s = StatusCapturePending \<and> (t = StatusCaptured \<or> t = StatusCaptureFailed))
   \<or> ((s = StatusCaptured \<or> s = StatusPartiallyRefunded)
       \<and> (t = StatusPartiallyRefunded \<or> t = StatusRefunded))"
proof -
  consider "s = StatusAuthorized" | "s = StatusCapturePending" | "s = StatusCaptured"
    | "s = StatusPartiallyRefunded"
    | "s \<noteq> StatusAuthorized" "s \<noteq> StatusCapturePending" "s \<noteq> StatusCaptured"
      "s \<noteq> StatusPartiallyRefunded"
    by blast
  then show ?thesis
    by cases (simp_all add: CanTransitionTo_def validTransitions_def eq_commute[of t])
qed

definition status_rank :: "string \<Rightarrow> nat" where
  "status_rank s =
    (if s = StatusAuthorized then 0 else if s = StatusCapturePending then 1
     else if s = StatusCaptured then 2 else if s = StatusPartiallyRefunded then 3 else 4)"

interpretation tx_status: status_machine CanTransitionTo status_rank
  by unfold_locales (auto simp: CanTransitionTo_iff status_rank_def)

section \<open>Transactions\<close>

record Transaction =
  tx_ID :: uuid
  tx_MerchantID :: string
  tx_OrderRef :: string
  tx_Amount :: int64
  tx_Currency :: string
  tx_CardToken :: string
  tx_Status :: string
  tx_DeclineReason :: string
  tx_IdempotencyKey :: string
  tx_PurchaseIdempotencyKey :: string
  tx_ProductID :: "uuid option"
  tx_RefundedAmount :: int64
  tx_CreatedAt :: time
  tx_UpdatedAt :: time

definition MarkProductPurchase :: "Transaction \<Rightarrow> string \<Rightarrow> uuid \<Rightarrow> Transaction" where
  "MarkProductPurchase t idempotencyKey productID =
     t\<lparr>tx_PurchaseIdempotencyKey := idempotencyKey, tx_ProductID := Some productID\<rparr>"

definition NewAuthorized ::
  "('b) env_scheme \<Rightarrow> string \<Rightarrow> string \<Rightarrow> int64 \<Rightarrow> string \<Rightarrow> string
   \<Rightarrow> (('d, 'x) world, Transaction) prog" where
  "NewAuthorized env merchantID orderRef amount currency cardToken =
     bnd (time_Now env) (\<lambda>now. bnd (uuid_New env) (\<lambda>id.
       ret \<lparr>tx_ID = id, tx_MerchantID = merchantID, tx_OrderRef = orderRef, tx_Amount = amount,
            tx_Currency = currency, tx_CardToken = cardToken, tx_Status = StatusAuthorized,
            tx_DeclineReason = '''', tx_IdempotencyKey = '''', tx_PurchaseIdempotencyKey = '''',
            tx_ProductID = None, tx_RefundedAmount = 0, tx_CreatedAt = now, tx_UpdatedAt = now\<rparr>))"

definition NewDeclined ::
  "('b) env_scheme \<Rightarrow> string \<Rightarrow> string \<Rightarrow> int64 \<Rightarrow> string \<Rightarrow> string \<Rightarrow> string
   \<Rightarrow> (('d, 'x) world, Transaction) prog" where
  "NewDeclined env merchantID orderRef amount currency cardToken reason =
     bnd (time_Now env) (\<lambda>now. bnd (uuid_New env) (\<lambda>id.
       ret \<lparr>tx_ID = id, tx_MerchantID = merchantID, tx_OrderRef = orderRef, tx_Amount = amount,
            tx_Currency = currency, tx_CardToken = cardToken, tx_Status = StatusDeclined,
            tx_DeclineReason = reason, tx_IdempotencyKey = '''', tx_PurchaseIdempotencyKey = '''',
            tx_ProductID = None, tx_RefundedAmount = 0, tx_CreatedAt = now, tx_UpdatedAt = now\<rparr>))"

definition MarkCapturePending ::
  "('b) env_scheme \<Rightarrow> Transaction \<Rightarrow> string \<Rightarrow> (('d, 'x) world, Transaction) prog" where
  "MarkCapturePending env t idempotencyKey =
     bnd (fail_if (tx_Status t \<noteq> StatusAuthorized) (Sentinel Transaction_ErrInvalidTransition)) (\<lambda>_.
     bnd (time_Now env) (\<lambda>now.
       ret (t\<lparr>tx_Status := StatusCapturePending, tx_IdempotencyKey := idempotencyKey,
              tx_UpdatedAt := now\<rparr>)))"

definition MarkCaptured ::
  "('b) env_scheme \<Rightarrow> Transaction \<Rightarrow> (('d, 'x) world, Transaction) prog" where
  "MarkCaptured env t =
     bnd (fail_if (tx_Status t \<noteq> StatusCapturePending) (Sentinel Transaction_ErrInvalidTransition)) (\<lambda>_.
     bnd (time_Now env) (\<lambda>now. ret (t\<lparr>tx_Status := StatusCaptured, tx_UpdatedAt := now\<rparr>)))"

definition MarkCaptureFailed ::
  "('b) env_scheme \<Rightarrow> Transaction \<Rightarrow> (('d, 'x) world, Transaction) prog" where
  "MarkCaptureFailed env t =
     bnd (fail_if (tx_Status t \<noteq> StatusCapturePending) (Sentinel Transaction_ErrInvalidTransition)) (\<lambda>_.
     bnd (time_Now env) (\<lambda>now. ret (t\<lparr>tx_Status := StatusCaptureFailed, tx_UpdatedAt := now\<rparr>)))"

definition MarkVoided ::
  "('b) env_scheme \<Rightarrow> Transaction \<Rightarrow> (('d, 'x) world, Transaction) prog" where
  "MarkVoided env t =
     bnd (fail_if (tx_Status t \<noteq> StatusAuthorized) (Sentinel Transaction_ErrInvalidTransition)) (\<lambda>_.
     bnd (time_Now env) (\<lambda>now. ret (t\<lparr>tx_Status := StatusVoided, tx_UpdatedAt := now\<rparr>)))"

lemmas mark_defs = MarkCapturePending_def MarkCaptured_def MarkCaptureFailed_def MarkVoided_def

section \<open>Refunds\<close>

abbreviation RefundStatusPending :: string where "RefundStatusPending \<equiv> ''refund_pending''"
abbreviation RefundStatusDone :: string where "RefundStatusDone \<equiv> ''refunded''"
abbreviation RefundStatusFailed :: string where "RefundStatusFailed \<equiv> ''refund_failed''"

record Refund =
  rf_ID :: uuid
  rf_TransactionID :: uuid
  rf_Amount :: int64
  rf_Status :: string
  rf_IdempotencyKey :: string
  rf_CreatedAt :: time
  rf_UpdatedAt :: time

definition NewRefundPending ::
  "('b) env_scheme \<Rightarrow> uuid \<Rightarrow> int64 \<Rightarrow> string \<Rightarrow> (('d, 'x) world, Refund) prog" where
  "NewRefundPending env txID amount idempotencyKey =
     bnd (time_Now env) (\<lambda>now. bnd (uuid_New env) (\<lambda>id.
       ret \<lparr>rf_ID = id, rf_TransactionID = txID, rf_Amount = amount, rf_Status = RefundStatusPending,
            rf_IdempotencyKey = idempotencyKey, rf_CreatedAt = now, rf_UpdatedAt = now\<rparr>))"

definition MarkRefunded :: "('b) env_scheme \<Rightarrow> Refund \<Rightarrow> (('d, 'x) world, Refund) prog" where
  "MarkRefunded env r =
     bnd (time_Now env) (\<lambda>now. ret (r\<lparr>rf_Status := RefundStatusDone, rf_UpdatedAt := now\<rparr>))"

definition MarkFailed :: "('b) env_scheme \<Rightarrow> Refund \<Rightarrow> (('d, 'x) world, Refund) prog" where
  "MarkFailed env r =
     bnd (time_Now env) (\<lambda>now. ret (r\<lparr>rf_Status := RefundStatusFailed, rf_UpdatedAt := now\<rparr>))"

section \<open>Lemmas\<close>

lemma NewAuthorized_run:
  "NewAuthorized env m oref a c ctok w =
     (Inr \<lparr>tx_ID = fresh env (Suc (ticks w)), tx_MerchantID = m, tx_OrderRef = oref, tx_Amount = a,
           tx_Currency = c, tx_CardToken = ctok, tx_Status = StatusAuthorized,
           tx_DeclineReason = '''', tx_IdempotencyKey = '''', tx_PurchaseIdempotencyKey = '''',
           tx_ProductID = None, tx_RefundedAmount = 0, tx_CreatedAt = clock env (ticks w),
           tx_UpdatedAt = clock env (ticks w)\<rparr>, tick (tick w))"
  by (simp add: NewAuthorized_def run_simps)

lemma NewDeclined_run:
  "NewDeclined env m oref a c ctok why w =
     (Inr \<lparr>tx_ID = fresh env (Suc (ticks w)), tx_MerchantID = m, tx_OrderRef = oref, tx_Amount = a,
           tx_Currency = c, tx_CardToken = ctok, tx_Status = StatusDeclined,
           tx_DeclineReason = why, tx_IdempotencyKey = '''', tx_PurchaseIdempotencyKey = '''',
           tx_ProductID = None, tx_RefundedAmount = 0, tx_CreatedAt = clock env (ticks w),
           tx_UpdatedAt = clock env (ticks w)\<rparr>, tick (tick w))"
  by (simp add: NewDeclined_def run_simps)

lemma NewRefundPending_run:
  "NewRefundPending env i a k w =
     (Inr \<lparr>rf_ID = fresh env (Suc (ticks w)), rf_TransactionID = i, rf_Amount = a,
           rf_Status = RefundStatusPending, rf_IdempotencyKey = k,
           rf_CreatedAt = clock env (ticks w), rf_UpdatedAt = clock env (ticks w)\<rparr>, tick (tick w))"
  by (simp add: NewRefundPending_def run_simps)

lemma MarkCapturePending_run:
  "MarkCapturePending env t k w =
     (if tx_Status t = StatusAuthorized
      then (Inr (t\<lparr>tx_Status := StatusCapturePending, tx_IdempotencyKey := k,
                  tx_UpdatedAt := clock env (ticks w)\<rparr>), tick w)
      else (Inl (Sentinel Transaction_ErrInvalidTransition), w))"
  by (simp add: MarkCapturePending_def run_simps)

lemma MarkVoided_run:
  "MarkVoided env t w =
     (if tx_Status t = StatusAuthorized
      then (Inr (t\<lparr>tx_Status := StatusVoided, tx_UpdatedAt := clock env (ticks w)\<rparr>), tick w)
      else (Inl (Sentinel Transaction_ErrInvalidTransition), w))"
  by (simp add: MarkVoided_def run_simps)

lemma MarkRefunded_run:
  "MarkRefunded env r w =
     (Inr (r\<lparr>rf_Status := RefundStatusDone, rf_UpdatedAt := clock env (ticks w)\<rparr>), tick w)"
  by (simp add: MarkRefunded_def run_simps)

lemma MarkFailed_run:
  "MarkFailed env r w =
     (Inr (r\<lparr>rf_Status := RefundStatusFailed, rf_UpdatedAt := clock env (ticks w)\<rparr>), tick w)"
  by (simp add: MarkFailed_def run_simps)

lemmas entity_runs = NewAuthorized_run NewDeclined_run NewRefundPending_run
  MarkCapturePending_run MarkVoided_run MarkRefunded_run MarkFailed_run

end
