(* ===== verification/SgProduct.thy ===== *)
theory SgProduct
  imports Postgres
begin

text \<open>
  Silvergate, package \<open>product\<close>: the entity of \<open>entity.go\<close>, the slug format, and the
  validated partial update of \<open>update.go\<close>.
\<close>

section \<open>Products\<close>

abbreviation StatusActive :: string where "StatusActive \<equiv> ''active''"
abbreviation StatusArchived :: string where "StatusArchived \<equiv> ''archived''"

record Product =
  pr_ID :: uuid
  pr_MerchantID :: string
  pr_Slug :: "string option"
  pr_Name :: string
  pr_Description :: string
  pr_Price :: int64
  pr_Currency :: string
  pr_Status :: string
  pr_FirstPurchasedAt :: "time option"
  pr_CreatedAt :: time
  pr_UpdatedAt :: time

definition product_New ::
  "('b) env_scheme \<Rightarrow> string \<Rightarrow> string \<Rightarrow> string \<Rightarrow> int64 \<Rightarrow> string \<Rightarrow> string option
   \<Rightarrow> (('d, 'x) world, Product) prog" where
  "product_New env merchantID name description price currency slug =
     bnd (time_Now env) (\<lambda>now. bnd (uuid_New env) (\<lambda>id.
       ret \<lparr>pr_ID = id, pr_MerchantID = merchantID, pr_Slug = slug, pr_Name = name,
            pr_Description = description, pr_Price = price, pr_Currency = currency,
            pr_Status = StatusActive, pr_FirstPurchasedAt = None, pr_CreatedAt = now,
            pr_UpdatedAt = now\<rparr>))"

definition LockedAfterPurchase_FieldNames :: "string list" where
  "LockedAfterPurchase_FieldNames = [''slug'', ''price'', ''currency'']"

definition LockedFields :: "Product \<Rightarrow> string list" where
  "LockedFields p = (case pr_FirstPurchasedAt p of
      None \<Rightarrow> [] | Some _ \<Rightarrow> LockedAfterPurchase_FieldNames)"

definition IsArchived :: "Product \<Rightarrow> bool" where
  "IsArchived p \<longleftrightarrow> pr_Status p = StatusArchived"

section \<open>Slugs\<close>

text \<open>The regular expression \<open>^[a-z0-9](-?[a-z0-9])*$\<close>, group by group.\<close>

definition slug_char :: "char \<Rightarrow> bool" where
  "slug_char c \<longleftrightarrow> (CHR ''a'' \<le> c \<and> c \<le> CHR ''z'') \<or> (CHR ''0'' \<le> c \<and> c \<le> CHR ''9'')"

fun slug_groups :: "string \<Rightarrow> bool" where
  "slug_groups [] = True"
| "slug_groups (c # cs) =
     (if c = CHR ''-'' then (case cs of [] \<Rightarrow> False | d # ds \<Rightarrow> slug_char d \<and> slug_groups ds)
      else slug_char c \<and> slug_groups cs)"

definition slugRegex :: "string \<Rightarrow> bool" where
  "slugRegex s = (case s of [] \<Rightarrow> False | c # cs \<Rightarrow> slug_char c \<and> slug_groups cs)"

definition ValidateSlug :: "string \<Rightarrow> goerr + unit" where
  "ValidateSlug s =
    (if length s < 1 \<or> length s > 64 then Inl (Sentinel Product_ErrInvalidSlug)
     else if \<not> slugRegex s then Inl (Sentinel Product_ErrInvalidSlug)
     else Inr ())"

section \<open>Partial updates\<close>

record UpdateRequest =
  ur_Name :: "string option"
  ur_Description :: "string option"
  ur_Slug :: "string option"
  ur_Price :: "int64 option"
  ur_Currency :: "string option"

record InfoUpdate =
  iu_Name :: "string option"
  iu_Description :: "string option"

record LockedAfterPurchase =
  lp_Slug :: "string option"
  lp_Price :: "int64 option"
  lp_Currency :: "string option"

record Update =
  up_Info :: "InfoUpdate option"
  up_Locked :: "LockedAfterPurchase option"

text \<open>The two groups of a request: absent when no field of the group is set.\<close>

definition info_group :: "UpdateRequest \<Rightarrow> InfoUpdate option" where
  "info_group req =
    (if ur_Name req \<noteq> None \<or> ur_Description req \<noteq> None
     then Some \<lparr>iu_Name = ur_Name req, iu_Description = ur_Description req\<rparr> else None)"

definition locked_group :: "UpdateRequest \<Rightarrow> LockedAfterPurchase option" where
  "locked_group req =
    (if ur_Slug req \<noteq> None \<or> ur_Price req \<noteq> None \<or> ur_Currency req \<noteq> None
     then Some \<lparr>lp_Slug = ur_Slug req, lp_Price = ur_Price req, lp_Currency = ur_Currency req\<rparr>
     else None)"

definition NewUpdate :: "UpdateRequest \<Rightarrow> Product \<Rightarrow> goerr + Update" where
  "NewUpdate req p =
    (let upd = \<lparr>up_Info = info_group req, up_Locked = locked_group req\<rparr> in
     if up_Info upd = None \<and> up_Locked upd = None then Inl (Sentinel Product_ErrEmptyUpdate)
     else if IsArchived p then Inl (Sentinel Product_ErrArchived)
     else if up_Locked upd \<noteq> None \<and> pr_FirstPurchasedAt p \<noteq> None
       then Inl (Sentinel Product_ErrFieldsLocked)
     else case Option.bind (up_Locked upd) lp_Slug of
       None \<Rightarrow> Inr upd
     | Some slug \<Rightarrow>
         if slug = '''' then Inl (Sentinel Product_ErrSlugRemoval)
         else (case ValidateSlug slug of Inl err \<Rightarrow> Inl err | Inr _ \<Rightarrow> Inr upd))"

section \<open>Lemmas\<close>

lemma product_New_run:
  "product_New env m n d p cur s w =
     (Inr \<lparr>pr_ID = fresh env (Suc (ticks w)), pr_MerchantID = m, pr_Slug = s, pr_Name = n,
           pr_Description = d, pr_Price = p, pr_Currency = cur, pr_Status = StatusActive,
           pr_FirstPurchasedAt = None, pr_CreatedAt = clock env (ticks w),
           pr_UpdatedAt = clock env (ticks w)\<rparr>, tick (tick w))"
  by (simp add: product_New_def run_simps)

text \<open>No two hyphens in a row, and none at the end.\<close>

fun hyphens_ok :: "string \<Rightarrow> bool" where
  "hyphens_ok [] = True"
| "hyphens_ok [c] = (c \<noteq> CHR ''-'')"
| "hyphens_ok (c # d # cs) = (\<not> (c = CHR ''-'' \<and> d = CHR ''-'') \<and> hyphens_ok (d # cs))"

lemma slug_char_not_hyphen: "slug_char c \<Longrightarrow> c \<noteq> CHR ''-''"
  by (auto simp: slug_char_def)

lemma slug_groups_iff:
  "slug_groups cs \<longleftrightarrow> list_all (\<lambda>c. slug_char c \<or> c = CHR ''-'') cs \<and> hyphens_ok cs"
proof (induction cs rule: slug_groups.induct)
  case 1
  then show ?case by simp
next
  case (2 c cs)
  show ?case
  proof (cases "c = CHR ''-''")
    case True
    show ?thesis
    proof (cases cs)
      case Nil
      with True show ?thesis by simp
    next
      case (Cons d ds)
      have "hyphens_ok (d # ds) = (d \<noteq> CHR ''-'' \<and> hyphens_ok ds)" if "slug_char d"
        using slug_char_not_hyphen[OF that] by (cases ds) auto
      with True Cons 2 show ?thesis by (auto dest: slug_char_not_hyphen)
    qed
  next
    case False
    with 2 have "slug_groups cs \<longleftrightarrow> list_all (\<lambda>c. slug_char c \<or> c = CHR ''-'') cs \<and> hyphens_ok cs"
      by simp
    moreover have "hyphens_ok (c # cs) = hyphens_ok cs" using False by (cases cs) auto
    ultimately show ?thesis using False by auto
  qed
qed

text \<open>The validated updates: what acceptance says of the product and of the payload.\<close>

lemma NewUpdate_okE:
  assumes "NewUpdate req p = Inr upd"
  obtains "up_Info upd = info_group req" and "up_Locked upd = locked_group req"
    and "info_group req \<noteq> None \<or> locked_group req \<noteq> None"
    and "\<not> IsArchived p" and "locked_group req \<noteq> None \<Longrightarrow> pr_FirstPurchasedAt p = None"
    and "\<And>s. ur_Slug req = Some s \<Longrightarrow> s \<noteq> '''' \<and> ValidateSlug s = Inr ()"
  using assms
  by (auto simp: NewUpdate_def Let_def locked_group_def split: if_splits option.splits sum.splits)

end
