(* ===== verification/SgDatabase.thy ===== *)
theory SgDatabase
  imports SgTransaction SgProduct
begin

text \<open>
  Silvergate's schema (the migrations) and package \<open>transactionrepo\<close>: what each method
  of \<open>PgTransactionRepo\<close> does to the tables, which errors it maps and which it wraps.
  Columns that may be \<open>NULL\<close> are options; a product row has the columns of the entity.
\<close>

section \<open>Tables\<close>

record tx_row =
  t_id :: uuid
  t_merchant_id :: string
  t_order_ref :: string
  t_amount :: int64
  t_currency :: string
  t_card_token :: string
  t_status :: string
  t_decline_reason :: "string option"
  t_idempotency_key :: "string option"
  t_purchase_idempotency_key :: "string option"
  t_product_id :: "uuid option"
  t_refunded_amount :: int64
  t_created_at :: time
  t_updated_at :: time

record refund_row =
  r_id :: uuid
  r_transaction_id :: uuid
  r_amount :: int64
  r_status :: string
  r_idempotency_key :: "string option"
  r_created_at :: time
  r_updated_at :: time

record sg_data =
  transactions :: "tx_row list"
  refunds :: "refund_row list"
  products :: "Product list"

definition tx_statuses :: "string list" where
  "tx_statuses = [StatusAuthorized, StatusDeclined, StatusCapturePending, StatusCaptured,
     StatusCaptureFailed, StatusVoided, StatusPartiallyRefunded, StatusRefunded]"

definition refund_statuses :: "string list" where
  "refund_statuses = [RefundStatusPending, RefundStatusDone, RefundStatusFailed]"

text \<open>Unique indexes \<open>WHERE key IS NOT NULL\<close> hold between rows whose key is set.\<close>

definition transactions_schema :: "tx_row schema" where
  "transactions_schema = \<lparr>
     uniques = [
       (''transactions_pkey'', \<lambda>a b. t_id a = t_id b),
       (''idx_transactions_idempotency'', \<lambda>a b. t_idempotency_key a \<noteq> None
          \<and> t_idempotency_key a = t_idempotency_key b \<and> t_merchant_id a = t_merchant_id b),
       (''idx_transactions_purchase_idempotency'', \<lambda>a b. t_purchase_idempotency_key a \<noteq> None
          \<and> t_purchase_idempotency_key a = t_purchase_idempotency_key b
          \<and> t_merchant_id a = t_merchant_id b)],
     checks = [
       (''transactions_currency_check'', \<lambda>r. length (t_currency r) = 3),
       (''transactions_status_check'', \<lambda>r. t_status r \<in> set tx_statuses),
       (''chk_refunded_amount_non_negative'', \<lambda>r. 0 \<le> sint (t_refunded_amount r))]\<rparr>"

definition refunds_schema :: "refund_row schema" where
  "refunds_schema = \<lparr>
     uniques = [
       (''refunds_pkey'', \<lambda>a b. r_id a = r_id b),
       (''idx_refunds_idempotency'', \<lambda>a b. r_idempotency_key a \<noteq> None
          \<and> r_idempotency_key a = r_idempotency_key b \<and> r_transaction_id a = r_transaction_id b)],
     checks = [
       (''refunds_amount_check'', \<lambda>r. 0 < sint (r_amount r)),
       (''refunds_status_check'', \<lambda>r. r_status r \<in> set refund_statuses)]\<rparr>"

definition products_schema :: "Product schema" where
  "products_schema = \<lparr>
     uniques = [
       (''products_pkey'', \<lambda>a b. pr_ID a = pr_ID b),
       (''idx_products_slug'', \<lambda>a b. pr_Slug a \<noteq> None \<and> pr_Slug a = pr_Slug b
          \<and> pr_MerchantID a = pr_MerchantID b)],
     checks = [
       (''products_price_check'', \<lambda>r. 0 < sint (pr_Price r)),
       (''products_currency_check'', \<lambda>r. length (pr_Currency r) = 3)]\<rparr>"

text \<open>The foreign keys: \<open>transactions.product_id\<close> and \<open>refunds.transaction_id\<close>.\<close>

definition insert_transaction :: "tx_row \<Rightarrow> sg_data \<Rightarrow> goerr + unit \<times> sg_data" where
  "insert_transaction r d =
    (if t_product_id r \<noteq> None \<and> t_product_id r \<notin> Some ` set (map pr_ID (products d))
     then Inl (foreign_key_violation ''transactions_product_id_fkey'')
     else in_table transactions transactions_update (sql_insert transactions_schema r) d)"

definition insert_refund :: "refund_row \<Rightarrow> sg_data \<Rightarrow> goerr + unit \<times> sg_data" where
  "insert_refund r d =
    (if r_transaction_id r \<notin> set (map t_id (transactions d))
     then Inl (foreign_key_violation ''refunds_transaction_id_fkey'')
     else in_table refunds refunds_update (sql_insert refunds_schema r) d)"

definition update_transactions ::
  "(tx_row \<Rightarrow> bool) \<Rightarrow> (tx_row \<Rightarrow> tx_row) \<Rightarrow> sg_data \<Rightarrow> goerr + nat \<times> sg_data" where
  "update_transactions p f = in_table transactions transactions_update (sql_update transactions_schema p f)"

definition update_refunds ::
  "(refund_row \<Rightarrow> bool) \<Rightarrow> (refund_row \<Rightarrow> refund_row) \<Rightarrow> sg_data \<Rightarrow> goerr + nat \<times> sg_data" where
  "update_refunds p f = in_table refunds refunds_update (sql_update refunds_schema p f)"

section \<open>PgTransactionRepo\<close>

definition nilIfEmpty :: "string \<Rightarrow> string option" where
  "nilIfEmpty s = (if s = '''' then None else Some s)"

definition mapUniqueViolation :: "goerr \<Rightarrow> goerr option" where
  "mapUniqueViolation err = (case errors_As_pg err of
      None \<Rightarrow> None
    | Some pgErr \<Rightarrow>
        if Code pgErr \<noteq> ''23505'' then None
        else if ConstraintName pgErr = ''idx_transactions_purchase_idempotency''
          then Some (Sentinel Transaction_ErrPurchaseIdempotencyConflict)
        else Some (Sentinel Transaction_ErrDuplicateIdempotency))"

text \<open>\<open>if mapped := mapUniqueViolation(err); mapped != nil { return mapped }\<close>, else wrap.\<close>

definition mapped_or_wrapped :: "string \<Rightarrow> goerr \<Rightarrow> goerr" where
  "mapped_or_wrapped msg err = (case mapUniqueViolation err of
      Some mapped \<Rightarrow> mapped | None \<Rightarrow> wrap msg err)"

definition tx_to_row :: "Transaction \<Rightarrow> tx_row" where
  "tx_to_row tx = \<lparr>t_id = tx_ID tx, t_merchant_id = tx_MerchantID tx, t_order_ref = tx_OrderRef tx,
     t_amount = tx_Amount tx, t_currency = tx_Currency tx, t_card_token = tx_CardToken tx,
     t_status = tx_Status tx, t_decline_reason = nilIfEmpty (tx_DeclineReason tx),
     t_idempotency_key = nilIfEmpty (tx_IdempotencyKey tx),
     t_purchase_idempotency_key = nilIfEmpty (tx_PurchaseIdempotencyKey tx),
     t_product_id = tx_ProductID tx, t_refunded_amount = 0,
     t_created_at = tx_CreatedAt tx, t_updated_at = tx_UpdatedAt tx\<rparr>"

definition txrepo_Create ::
  "('b) env_scheme \<Rightarrow> Transaction \<Rightarrow> ((sg_data, 'x) world, unit) prog" where
  "txrepo_Create env tx =
     map_err (mapped_or_wrapped ''exec insert'') (sql env (insert_transaction (tx_to_row tx)))"

definition string_or_empty :: "string option \<Rightarrow> string" where
  "string_or_empty s = (case s of None \<Rightarrow> '''' | Some x \<Rightarrow> x)"

definition scan_tx_row :: "tx_row \<Rightarrow> Transaction" where
  "scan_tx_row r = \<lparr>tx_ID = t_id r, tx_MerchantID = t_merchant_id r, tx_OrderRef = t_order_ref r,
     tx_Amount = t_amount r, tx_Currency = t_currency r, tx_CardToken = t_card_token r,
     tx_Status = t_status r, tx_DeclineReason = string_or_empty (t_decline_reason r),
     tx_IdempotencyKey = string_or_empty (t_idempotency_key r),
     tx_PurchaseIdempotencyKey = string_or_empty (t_purchase_idempotency_key r),
     tx_ProductID = t_product_id r, tx_RefundedAmount = t_refunded_amount r,
     tx_CreatedAt = t_created_at r, tx_UpdatedAt = t_updated_at r\<rparr>"

definition scan_tx_err :: "goerr \<Rightarrow> goerr" where
  "scan_tx_err err = (if errors_Is err Pgx_ErrNoRows then Sentinel Transaction_ErrNotFound
     else wrap ''scan transaction'' err)"

definition scanTransaction ::
  "((sg_data, 'x) world, tx_row option) prog \<Rightarrow> ((sg_data, 'x) world, Transaction) prog" where
  "scanTransaction row =
     map_err scan_tx_err (bnd row (\<lambda>r. bnd (of_sum (scan_one r)) (\<lambda>x. ret (scan_tx_row x))))"

definition txrepo_GetByID ::
  "('b) env_scheme \<Rightarrow> uuid \<Rightarrow> ((sg_data, 'x) world, Transaction) prog" where
  "txrepo_GetByID env txid = scanTransaction (sql env (query_row transactions (\<lambda>r. t_id r = txid)))"

text \<open>\<open>FOR UPDATE\<close> locks the row until the end of the transaction; it reads the same row.\<close>

definition txrepo_GetByIDForUpdate ::
  "('b) env_scheme \<Rightarrow> uuid \<Rightarrow> ((sg_data, 'x) world, Transaction) prog" where
  "txrepo_GetByIDForUpdate env txid =
     scanTransaction (sql env (query_row transactions (\<lambda>r. t_id r = txid)))"

definition txrepo_GetByPurchaseIdempotencyKey ::
  "('b) env_scheme \<Rightarrow> string \<Rightarrow> string \<Rightarrow> ((sg_data, 'x) world, Transaction) prog" where
  "txrepo_GetByPurchaseIdempotencyKey env merchantID key =
     scanTransaction (sql env (query_row transactions
       (\<lambda>r. t_merchant_id r = merchantID \<and> t_purchase_idempotency_key r = Some key)))"

definition mark_row :: "string \<Rightarrow> string option \<Rightarrow> time \<Rightarrow> tx_row \<Rightarrow> tx_row" where
  "mark_row status key now r = r\<lparr>t_status := status, t_idempotency_key := key, t_updated_at := now\<rparr>"

definition txrepo_UpdateStatus ::
  "('b) env_scheme \<Rightarrow> Transaction \<Rightarrow> ((sg_data, 'x) world, unit) prog" where
  "txrepo_UpdateStatus env tx =
     bnd (map_err (mapped_or_wrapped ''exec update'')
       (sql env (update_transactions (\<lambda>r. t_id r = tx_ID tx)
         (mark_row (tx_Status tx) (nilIfEmpty (tx_IdempotencyKey tx)) (tx_UpdatedAt tx))))) (\<lambda>affected.
     fail_if (affected = 0) (Sentinel Transaction_ErrNotFound))"

definition txrepo_CompareAndUpdateStatus ::
  "('b) env_scheme \<Rightarrow> uuid \<Rightarrow> string \<Rightarrow> string \<Rightarrow> ((sg_data, 'x) world, unit) prog" where
  "txrepo_CompareAndUpdateStatus env txid expected next =
     bnd (time_Now env) (\<lambda>now.
     bnd (map_err (wrap ''exec compare-and-update'')
       (sql env (update_transactions (\<lambda>r. t_id r = txid \<and> t_status r = expected)
         (\<lambda>r. r\<lparr>t_status := next, t_updated_at := now\<rparr>)))) (\<lambda>affected.
     fail_if (affected = 0) (Sentinel Transaction_ErrStatusChanged)))"

definition txrepo_UpdateRefund ::
  "('b) env_scheme \<Rightarrow> Transaction \<Rightarrow> ((sg_data, 'x) world, unit) prog" where
  "txrepo_UpdateRefund env tx =
     bnd (map_err (wrap ''exec update refund'')
       (sql env (update_transactions (\<lambda>r. t_id r = tx_ID tx)
         (\<lambda>r. r\<lparr>t_status := tx_Status tx, t_refunded_amount := tx_RefundedAmount tx,
               t_updated_at := tx_UpdatedAt tx\<rparr>)))) (\<lambda>_. ret ())"

definition refund_to_row :: "Refund \<Rightarrow> refund_row" where
  "refund_to_row refund = \<lparr>r_id = rf_ID refund, r_transaction_id = rf_TransactionID refund,
     r_amount = rf_Amount refund, r_status = rf_Status refund,
     r_idempotency_key = nilIfEmpty (rf_IdempotencyKey refund),
     r_created_at = rf_CreatedAt refund, r_updated_at = rf_UpdatedAt refund\<rparr>"

definition txrepo_CreateRefund ::
  "('b) env_scheme \<Rightarrow> Refund \<Rightarrow> ((sg_data, 'x) world, unit) prog" where
  "txrepo_CreateRefund env refund =
     map_err (mapped_or_wrapped ''exec insert refund'') (sql env (insert_refund (refund_to_row refund)))"

definition txrepo_UpdateRefundStatus ::
  "('b) env_scheme \<Rightarrow> Refund \<Rightarrow> ((sg_data, 'x) world, unit) prog" where
  "txrepo_UpdateRefundStatus env refund =
     bnd (map_err (wrap ''exec update refund status'')
       (sql env (update_refunds (\<lambda>r. r_id r = rf_ID refund)
         (\<lambda>r. r\<lparr>r_status := rf_Status refund, r_updated_at := rf_UpdatedAt refund\<rparr>)))) (\<lambda>_. ret ())"

text \<open>
  \<open>CASE WHEN refunded_amount - $1 <= 0 THEN 'captured' ELSE 'partially_refunded' END\<close>.
  PostgreSQL raises an error when a \<open>BIGINT\<close> difference is out of range; between the
  non-negative amounts of the table and of a refund it is in range.
\<close>

definition release :: "int64 \<Rightarrow> time \<Rightarrow> tx_row \<Rightarrow> tx_row" where
  "release amount now r = r\<lparr>
     t_refunded_amount := t_refunded_amount r - amount,
     t_status := (if i64_le (t_refunded_amount r - amount) 0 then StatusCaptured
                  else StatusPartiallyRefunded),
     t_updated_at := now\<rparr>"

definition txrepo_ReleaseRefundAmount ::
  "('b) env_scheme \<Rightarrow> uuid \<Rightarrow> int64 \<Rightarrow> ((sg_data, 'x) world, unit) prog" where
  "txrepo_ReleaseRefundAmount env txID amount =
     bnd (time_Now env) (\<lambda>now.
     bnd (map_err (wrap ''release refund amount'')
       (sql env (update_transactions (\<lambda>r. t_id r = txID) (release amount now)))) (\<lambda>_. ret ()))"

section \<open>What the statements do\<close>

lemma tick_data [simp]: "(tick w)\<lparr>data := data w\<rparr> = tick w"
  by (cases w) simp

lemma update_transactions_ok:
  "update_transactions p f d = Inr (n, d') \<longleftrightarrow>
     n = length (filter p (transactions d)) \<and> d' = d\<lparr>transactions := set_where p f (transactions d)\<rparr>
     \<and> rows_ok transactions_schema (set_where p f (transactions d))"
  by (auto simp: update_transactions_def in_table_ok sql_update_ok)

lemma update_refunds_ok:
  "update_refunds p f d = Inr (n, d') \<longleftrightarrow>
     n = length (filter p (refunds d)) \<and> d' = d\<lparr>refunds := set_where p f (refunds d)\<rparr>
     \<and> rows_ok refunds_schema (set_where p f (refunds d))"
  by (auto simp: update_refunds_def in_table_ok sql_update_ok)

lemma insert_transaction_ok:
  "insert_transaction r d = Inr (u, d') \<longleftrightarrow>
     (t_product_id r = None \<or> t_product_id r \<in> Some ` pr_ID ` set (products d))
     \<and> d' = d\<lparr>transactions := transactions d @ [r]\<rparr>
     \<and> rows_ok transactions_schema (transactions d @ [r])"
  by (auto simp: insert_transaction_def in_table_ok sql_insert_ok)

lemma insert_refund_ok:
  "insert_refund r d = Inr (u, d') \<longleftrightarrow>
     r_transaction_id r \<in> t_id ` set (transactions d)
     \<and> d' = d\<lparr>refunds := refunds d @ [r]\<rparr> \<and> rows_ok refunds_schema (refunds d @ [r])"
  by (auto simp: insert_refund_def in_table_ok sql_insert_ok)

section \<open>What the methods do\<close>

lemma find_idD: "find (\<lambda>r. k r = i) rows = Some r \<Longrightarrow> k r = i"
  by (induction rows) (auto split: if_splits)

lemma scanTransaction_okE [run_elims]:
  assumes "scanTransaction (sql env (query_row transactions p)) w = (Inr tx, w')"
  obtains r where "find p (transactions (data w)) = Some r" and "tx = scan_tx_row r"
    and "w' = tick w" and "\<not> tx_failed w"
  using assms
  by (auto simp: scanTransaction_def query_row_def scan_one_def elim!: run_elims
      split: option.splits)

lemma txrepo_Get_okE [run_elims]:
  "txrepo_GetByID env i w = (Inr tx, w') \<Longrightarrow>
    (\<And>r. find (\<lambda>r. t_id r = i) (transactions (data w)) = Some r \<Longrightarrow> tx = scan_tx_row r
      \<Longrightarrow> w' = tick w \<Longrightarrow> \<not> tx_failed w \<Longrightarrow> thesis) \<Longrightarrow> thesis"
  "txrepo_GetByIDForUpdate env i w = (Inr tx, w') \<Longrightarrow>
    (\<And>r. find (\<lambda>r. t_id r = i) (transactions (data w)) = Some r \<Longrightarrow> tx = scan_tx_row r
      \<Longrightarrow> w' = tick w \<Longrightarrow> \<not> tx_failed w \<Longrightarrow> thesis) \<Longrightarrow> thesis"
  "txrepo_GetByPurchaseIdempotencyKey env m k w = (Inr tx, w') \<Longrightarrow>
    (\<And>r. find (\<lambda>r. t_merchant_id r = m \<and> t_purchase_idempotency_key r = Some k)
        (transactions (data w)) = Some r \<Longrightarrow> tx = scan_tx_row r
      \<Longrightarrow> w' = tick w \<Longrightarrow> \<not> tx_failed w \<Longrightarrow> thesis) \<Longrightarrow> thesis"
  by (auto simp: txrepo_GetByID_def txrepo_GetByIDForUpdate_def
      txrepo_GetByPurchaseIdempotencyKey_def elim!: scanTransaction_okE)

lemma txrepo_Create_okE [run_elims]:
  assumes "txrepo_Create env tx w = (Inr u, w')"
  obtains "w' = (tick w)\<lparr>data := (data w)\<lparr>transactions := transactions (data w) @ [tx_to_row tx]\<rparr>\<rparr>"
    and "\<not> tx_failed w" and "rows_ok transactions_schema (transactions (data w) @ [tx_to_row tx])"
    and "tx_ProductID tx = None \<or> tx_ProductID tx \<in> Some ` pr_ID ` set (products (data w))"
  using assms
  by (auto simp: txrepo_Create_def insert_transaction_ok tx_to_row_def elim!: run_elims)

lemma txrepo_UpdateStatus_okE [run_elims]:
  assumes "txrepo_UpdateStatus env tx w = (Inr u, w')"
  obtains rows where "rows = set_where (\<lambda>r. t_id r = tx_ID tx)
      (mark_row (tx_Status tx) (nilIfEmpty (tx_IdempotencyKey tx)) (tx_UpdatedAt tx)) (transactions (data w))"
    and "w' = (tick w)\<lparr>data := (data w)\<lparr>transactions := rows\<rparr>\<rparr>"
    and "\<not> tx_failed w" and "rows_ok transactions_schema rows"
    and "\<exists>r\<in>set (transactions (data w)). t_id r = tx_ID tx"
  using assms
  by (auto simp: txrepo_UpdateStatus_def update_transactions_ok filter_empty_conv elim!: run_elims)

lemma txrepo_CompareAndUpdateStatus_okE [run_elims]:
  assumes "txrepo_CompareAndUpdateStatus env i expected nxt w = (Inr u, w')"
  obtains rows where "rows = set_where (\<lambda>r. t_id r = i \<and> t_status r = expected)
      (\<lambda>r. r\<lparr>t_status := nxt, t_updated_at := clock env (ticks w)\<rparr>) (transactions (data w))"
    and "w' = (tick (tick w))\<lparr>data := (data w)\<lparr>transactions := rows\<rparr>\<rparr>"
    and "\<not> tx_failed w" and "rows_ok transactions_schema rows"
    and "\<exists>r\<in>set (transactions (data w)). t_id r = i \<and> t_status r = expected"
  using assms
  by (auto simp: txrepo_CompareAndUpdateStatus_def update_transactions_ok filter_empty_conv
      elim!: run_elims)

lemma txrepo_UpdateRefund_okE [run_elims]:
  assumes "txrepo_UpdateRefund env tx w = (Inr u, w')"
  obtains rows where "rows = set_where (\<lambda>r. t_id r = tx_ID tx)
      (\<lambda>r. r\<lparr>t_status := tx_Status tx, t_refunded_amount := tx_RefundedAmount tx,
            t_updated_at := tx_UpdatedAt tx\<rparr>) (transactions (data w))"
    and "w' = (tick w)\<lparr>data := (data w)\<lparr>transactions := rows\<rparr>\<rparr>"
    and "\<not> tx_failed w" and "rows_ok transactions_schema rows"
  using assms
  by (auto simp: txrepo_UpdateRefund_def update_transactions_ok elim!: run_elims)

lemma txrepo_CreateRefund_okE [run_elims]:
  assumes "txrepo_CreateRefund env rf w = (Inr u, w')"
  obtains "w' = (tick w)\<lparr>data := (data w)\<lparr>refunds := refunds (data w) @ [refund_to_row rf]\<rparr>\<rparr>"
    and "\<not> tx_failed w" and "rows_ok refunds_schema (refunds (data w) @ [refund_to_row rf])"
    and "rf_TransactionID rf \<in> t_id ` set (transactions (data w))"
  using assms
  by (auto simp: txrepo_CreateRefund_def insert_refund_ok refund_to_row_def elim!: run_elims)

lemma txrepo_UpdateRefundStatus_okE [run_elims]:
  assumes "txrepo_UpdateRefundStatus env rf w = (Inr u, w')"
  obtains rows where "rows = set_where (\<lambda>r. r_id r = rf_ID rf)
      (\<lambda>r. r\<lparr>r_status := rf_Status rf, r_updated_at := rf_UpdatedAt rf\<rparr>) (refunds (data w))"
    and "w' = (tick w)\<lparr>data := (data w)\<lparr>refunds := rows\<rparr>\<rparr>"
    and "\<not> tx_failed w" and "rows_ok refunds_schema rows"
  using assms
  by (auto simp: txrepo_UpdateRefundStatus_def update_refunds_ok elim!: run_elims)

lemma txrepo_ReleaseRefundAmount_okE [run_elims]:
  assumes "txrepo_ReleaseRefundAmount env i a w = (Inr u, w')"
  obtains rows where "rows = set_where (\<lambda>r. t_id r = i) (release a (clock env (ticks w)))
      (transactions (data w))"
    and "w' = (tick (tick w))\<lparr>data := (data w)\<lparr>transactions := rows\<rparr>\<rparr>"
    and "\<not> tx_failed w" and "rows_ok transactions_schema rows"
  using assms
  by (auto simp: txrepo_ReleaseRefundAmount_def update_transactions_ok elim!: run_elims)

section \<open>The methods leave the trace alone\<close>

lemma scanTransaction_trace: "keeps_trace P row \<Longrightarrow> keeps_trace P (scanTransaction row)"
  unfolding scanTransaction_def by (intro keeps_intros)

lemma txrepo_trace [keeps_intros]:
  "keeps_trace P (txrepo_Create env tx)"
  "keeps_trace P (txrepo_GetByID env i)"
  "keeps_trace P (txrepo_GetByIDForUpdate env i)"
  "keeps_trace P (txrepo_GetByPurchaseIdempotencyKey env m k)"
  "keeps_trace P (txrepo_UpdateStatus env tx)"
  "keeps_trace P (txrepo_CompareAndUpdateStatus env i s t)"
  "keeps_trace P (txrepo_UpdateRefund env tx)"
  "keeps_trace P (txrepo_CreateRefund env rf)"
  "keeps_trace P (txrepo_UpdateRefundStatus env rf)"
  "keeps_trace P (txrepo_ReleaseRefundAmount env i a)"
  unfolding txrepo_Create_def txrepo_GetByID_def txrepo_GetByIDForUpdate_def
    txrepo_GetByPurchaseIdempotencyKey_def txrepo_UpdateStatus_def
    txrepo_CompareAndUpdateStatus_def txrepo_UpdateRefund_def txrepo_CreateRefund_def
    txrepo_UpdateRefundStatus_def txrepo_ReleaseRefundAmount_def
  by (intro keeps_intros scanTransaction_trace)+

lemma entity_trace [keeps_intros]:
  "keeps_trace P (NewAuthorized env m oref a cur ctok)"
  "keeps_trace P (NewDeclined env m oref a cur ctok why)"
  "keeps_trace P (NewRefundPending env i a k)"
  "keeps_trace P (MarkCapturePending env tx k)"
  "keeps_trace P (MarkVoided env tx)"
  unfolding NewAuthorized_def NewDeclined_def NewRefundPending_def MarkCapturePending_def MarkVoided_def
  by (intro keeps_intros)+

end
