(* ===== verification/SgWebhook.thy ===== *)
theory SgWebhook
  imports Complex_Main SgDatabase GoStd
begin

text \<open>
  Silvergate's neighbours: the acquirer (\<open>internal/acquirer\<close>, an interface and a mock
  bank) and the merchant's callback URL (\<open>internal/webhooksender\<close>). Both answer through
  the environment; each call is recorded in the trace, with the request it carried.
\<close>

section \<open>The acquirer\<close>

record AuthResult =
  ar_Approved :: bool
  ar_DeclineReason :: string

text \<open>\<open>SettleResult\<close>, \<open>VoidResult\<close> and \<open>RefundResult\<close> have the same two fields.\<close>

record BankResult =
  br_Success :: bool
  br_Reason :: string

text \<open>The body of a webhook, the struct \<open>Event\<close> of \<open>sender.go\<close>.\<close>

record Event =
  ev_Event :: string
  ev_TransactionID :: string
  ev_RefundID :: string
  ev_OrderID :: string
  ev_MerchantID :: string
  ev_Status :: string
  ev_Amount :: int64
  ev_Currency :: string
  ev_Timestamp :: string

datatype sg_effect =
    AcqAuthorize int64 string string
  | AcqSettle string int64
  | AcqVoid string
  | AcqRefund string int64
  | Post string json
  | GoSettle Transaction int64
  | GoRefund Transaction Refund
  | GoVoidWebhook Transaction

text \<open>The environment of silvergate: \<open>http_Do\<close> answers a request with its status code.\<close>

record senv = env +
  acq_Authorize :: "nat \<Rightarrow> int64 \<Rightarrow> string \<Rightarrow> string \<Rightarrow> goerr + AuthResult"
  acq_Settle :: "nat \<Rightarrow> string \<Rightarrow> int64 \<Rightarrow> goerr + BankResult"
  acq_Void :: "nat \<Rightarrow> string \<Rightarrow> goerr + BankResult"
  acq_Refund :: "nat \<Rightarrow> string \<Rightarrow> int64 \<Rightarrow> goerr + BankResult"
  http_Do :: "nat \<Rightarrow> string \<Rightarrow> json \<Rightarrow> goerr + int"

type_synonym 'a sg = "((sg_data, sg_effect) world, 'a) prog"

definition Authorize_call :: "('b) senv_scheme \<Rightarrow> int64 \<Rightarrow> string \<Rightarrow> string \<Rightarrow> AuthResult sg" where
  "Authorize_call env amount currency cardToken =
     bnd (emit (AcqAuthorize amount currency cardToken)) (\<lambda>_.
       call (\<lambda>n. acq_Authorize env n amount currency cardToken))"

definition Settle_call :: "('b) senv_scheme \<Rightarrow> string \<Rightarrow> int64 \<Rightarrow> BankResult sg" where
  "Settle_call env txID amount =
     bnd (emit (AcqSettle txID amount)) (\<lambda>_. call (\<lambda>n. acq_Settle env n txID amount))"

definition Void_call :: "('b) senv_scheme \<Rightarrow> string \<Rightarrow> BankResult sg" where
  "Void_call env txID = bnd (emit (AcqVoid txID)) (\<lambda>_. call (\<lambda>n. acq_Void env n txID))"

definition Refund_call :: "('b) senv_scheme \<Rightarrow> string \<Rightarrow> int64 \<Rightarrow> BankResult sg" where
  "Refund_call env txID amount =
     bnd (emit (AcqRefund txID amount)) (\<lambda>_. call (\<lambda>n. acq_Refund env n txID amount))"

subsection \<open>The mock bank\<close>

text \<open>
  \<open>MockAcquirer\<close> draws from \<open>math/rand\<close>; the draws are the functions \<open>rnd_float\<close> (the
  float64 in \<open>[0,1)\<close> as a rational) and \<open>rnd_int\<close>. Rates are finite float64 values,
  whose order is that of the rationals. The delay before an answer is not modelled.
\<close>

record MockAcquirer =
  mk_AuthApproveRate :: rat
  mk_SettleSuccessRate :: rat

definition declineReasons :: "string list" where
  "declineReasons =
     [''insufficient_funds'', ''card_expired'', ''do_not_honor'', ''suspected_fraud'']"

definition Mock_Authorize ::
  "MockAcquirer \<Rightarrow> (nat \<Rightarrow> rat) \<Rightarrow> (nat \<Rightarrow> nat \<Rightarrow> nat) \<Rightarrow> nat \<Rightarrow> int64 \<Rightarrow> string \<Rightarrow> string
   \<Rightarrow> goerr + AuthResult" where
  "Mock_Authorize m rnd_float rnd_int n amount currency cardToken =
    (if rnd_float n < mk_AuthApproveRate m then Inr \<lparr>ar_Approved = True, ar_DeclineReason = ''''\<rparr>
     else Inr \<lparr>ar_Approved = False,
               ar_DeclineReason = declineReasons ! rnd_int n (length declineReasons)\<rparr>)"

definition Mock_Void :: "nat \<Rightarrow> string \<Rightarrow> goerr + BankResult" where
  "Mock_Void n txID = Inr \<lparr>br_Success = True, br_Reason = ''''\<rparr>"

definition Mock_Refund ::
  "MockAcquirer \<Rightarrow> (nat \<Rightarrow> rat) \<Rightarrow> nat \<Rightarrow> string \<Rightarrow> int64 \<Rightarrow> goerr + BankResult" where
  "Mock_Refund m rnd_float n txID amount =
    (if rnd_float n < mk_SettleSuccessRate m then Inr \<lparr>br_Success = True, br_Reason = ''''\<rparr>
     else Inr \<lparr>br_Success = False, br_Reason = ''refund_rejected''\<rparr>)"

definition Mock_Settle ::
  "MockAcquirer \<Rightarrow> (nat \<Rightarrow> rat) \<Rightarrow> nat \<Rightarrow> string \<Rightarrow> int64 \<Rightarrow> goerr + BankResult" where
  "Mock_Settle m rnd_float n txID amount =
    (if rnd_float n < mk_SettleSuccessRate m then Inr \<lparr>br_Success = True, br_Reason = ''''\<rparr>
     else Inr \<lparr>br_Success = False, br_Reason = ''settlement_rejected''\<rparr>)"

section \<open>The webhook sender\<close>

definition Event_json :: "Event \<Rightarrow> json" where
  "Event_json e = JObj (
     [(''event'', JStr (ev_Event e)), (''transaction_id'', JStr (ev_TransactionID e))]
     @ omitempty ''refund_id'' (ev_RefundID e)
     @ [(''order_id'', JStr (ev_OrderID e)), (''merchant_id'', JStr (ev_MerchantID e)),
        (''status'', JStr (ev_Status e)), (''amount'', json_int64 (ev_Amount e)),
        (''currency'', JStr (ev_Currency e)), (''timestamp'', JStr (ev_Timestamp e))])"

text \<open>The error of a callback that did not answer with a 2xx status; Go's \<open>/\<close> truncates.\<close>

definition sendEvent :: "('b) senv_scheme \<Rightarrow> string \<Rightarrow> Event \<Rightarrow> unit sg" where
  "sendEvent env callbackURL evt =
     (let body = Event_json evt in
      bnd (emit (Post callbackURL body)) (\<lambda>_.
      bnd (map_err (wrap ''send webhook'') (call (\<lambda>n. http_Do env n callbackURL body))) (\<lambda>status.
      fail_if (status div 100 \<noteq> 2) (ErrText (''webhook rejected: status '' @ show_int status)))))"

definition capture_event_name :: "string \<Rightarrow> string" where
  "capture_event_name status =
    (if status = StatusCaptured then ''transaction.captured''
     else if status = StatusCaptureFailed then ''transaction.capture_failed''
     else if status = StatusVoided then ''transaction.voided''
     else ''transaction.'' @ status)"

definition SendCaptureResult :: "('b) senv_scheme \<Rightarrow> string \<Rightarrow> Transaction \<Rightarrow> unit sg" where
  "SendCaptureResult env callbackURL tx =
     bnd (time_Now env) (\<lambda>now.
     sendEvent env callbackURL
       \<lparr>ev_Event = capture_event_name (tx_Status tx), ev_TransactionID = tx_ID tx,
        ev_RefundID = '''', ev_OrderID = tx_OrderRef tx, ev_MerchantID = tx_MerchantID tx,
        ev_Status = tx_Status tx, ev_Amount = tx_Amount tx, ev_Currency = tx_Currency tx,
        ev_Timestamp = format_RFC3339 now\<rparr>)"

definition SendRefundResult ::
  "('b) senv_scheme \<Rightarrow> string \<Rightarrow> Transaction \<Rightarrow> Refund \<Rightarrow> unit sg" where
  "SendRefundResult env callbackURL tx refund =
     bnd (time_Now env) (\<lambda>now.
     sendEvent env callbackURL
       \<lparr>ev_Event = (if rf_Status refund = RefundStatusFailed then ''transaction.refund_failed''
                    else ''transaction.refunded''),
        ev_TransactionID = tx_ID tx, ev_RefundID = rf_ID refund, ev_OrderID = tx_OrderRef tx,
        ev_MerchantID = tx_MerchantID tx, ev_Status = rf_Status refund,
        ev_Amount = rf_Amount refund, ev_Currency = tx_Currency tx,
        ev_Timestamp = format_RFC3339 now\<rparr>)"

lemmas call_defs = Authorize_call_def Settle_call_def Void_call_def Refund_call_def

section \<open>An environment for examples\<close>

text \<open>
  Nothing fails, the bank approves everything but refunds over 500, and the draws of
  \<open>uuid.New\<close> are numbered by the clock tick and a seed.
\<close>

definition demo_env :: "nat \<Rightarrow> senv" where
  "demo_env seed = \<lparr>fault = (\<lambda>n. None), commit_err = (\<lambda>n b. if b then Some (ErrText ''rolled back'') else None),
     clock = (\<lambda>n. int n), fresh = (\<lambda>n. replicate seed CHR ''i'' @ replicate n CHR ''d''),
     acq_Authorize = (\<lambda>n a cur ctok. Inr \<lparr>ar_Approved = True, ar_DeclineReason = ''''\<rparr>),
     acq_Settle = (\<lambda>n i a. Inr \<lparr>br_Success = True, br_Reason = ''''\<rparr>),
     acq_Void = (\<lambda>n i. Inr \<lparr>br_Success = True, br_Reason = ''''\<rparr>),
     acq_Refund = (\<lambda>n i a. Inr \<lparr>br_Success = i64_le a 500, br_Reason = ''''\<rparr>),
     http_Do = (\<lambda>n url body. Inr 200)\<rparr>"

end
