(* ===== verification/SgService.thy ===== *)
theory SgService
  imports SgWebhook
begin

text \<open>
  Silvergate, \<open>transaction.Service\<close> (\<open>service.go\<close>): authorisation, capture, refund and
  void, and the two goroutines that finish a capture and a refund. Starting a goroutine
  is an effect of the trace; its body is a program of its own, which the ledger (theory
  \<open>SgLedger\<close>) runs at any later time. Log lines are not modelled.
\<close>

section \<open>Authorize\<close>

record AuthRequest =
  aq_MerchantID :: string
  aq_OrderID :: string
  aq_Amount :: int64
  aq_Currency :: string
  aq_CardToken :: string
  aq_PurchaseIdempotencyKey :: string
  aq_ProductID :: "uuid option"

record AuthResponse =
  as_TransactionID :: uuid
  as_Status :: string
  as_DeclineReason :: string

text \<open>The repository argument is bound to the caller's executor: the world of the run.\<close>

definition AuthorizeInTx :: "('b) senv_scheme \<Rightarrow> AuthRequest \<Rightarrow> Transaction sg" where
  "AuthorizeInTx env req =
     bnd (map_err (wrap ''acquirer authorize'')
       (Authorize_call env (aq_Amount req) (aq_Currency req) (aq_CardToken req))) (\<lambda>result.
     bnd (if ar_Approved result
          then NewAuthorized env (aq_MerchantID req) (aq_OrderID req) (aq_Amount req)
                 (aq_Currency req) (aq_CardToken req)
          else NewDeclined env (aq_MerchantID req) (aq_OrderID req) (aq_Amount req)
                 (aq_Currency req) (aq_CardToken req) (ar_DeclineReason result)) (\<lambda>tx0.
     let tx = (if aq_PurchaseIdempotencyKey req \<noteq> '''' \<and> aq_ProductID req \<noteq> None
               then MarkProductPurchase tx0 (aq_PurchaseIdempotencyKey req) (the (aq_ProductID req))
               else tx0) in
     bnd (map_err (wrap ''save transaction'') (txrepo_Create env tx)) (\<lambda>_.
     ret tx)))"

definition Authorize :: "('b) senv_scheme \<Rightarrow> AuthRequest \<Rightarrow> AuthResponse sg" where
  "Authorize env req =
     bnd (AuthorizeInTx env req) (\<lambda>tx.
     ret \<lparr>as_TransactionID = tx_ID tx, as_Status = tx_Status tx,
          as_DeclineReason = tx_DeclineReason tx\<rparr>)"

section \<open>Capture\<close>

record CaptureRequest =
  cq_TransactionID :: uuid
  cq_Amount :: int64
  cq_IdempotencyKey :: string

record StatusResponse =
  sr_TransactionID :: uuid
  sr_Status :: string

definition capture_tx :: "('b) senv_scheme \<Rightarrow> CaptureRequest \<Rightarrow> Transaction sg" where
  "capture_tx env req =
     bnd (map_err (wrap ''get transaction'') (txrepo_GetByID env (cq_TransactionID req))) (\<lambda>tx0.
     bnd (MarkCapturePending env tx0 (cq_IdempotencyKey req)) (\<lambda>tx.
     bnd (map_err (wrap ''update transaction'') (txrepo_UpdateStatus env tx)) (\<lambda>_.
     ret tx)))"

definition Capture :: "('b) senv_scheme \<Rightarrow> CaptureRequest \<Rightarrow> StatusResponse sg" where
  "Capture env req =
     bnd (InTransaction env RepeatableRead (capture_tx env req)) (\<lambda>tx.
     bnd (emit (GoSettle tx (cq_Amount req))) (\<lambda>_.
     ret \<lparr>sr_TransactionID = tx_ID tx, sr_Status = StatusCapturePending\<rparr>))"

section \<open>Refund\<close>

record RefundRequest =
  rq_TransactionID :: uuid
  rq_Amount :: int64
  rq_IdempotencyKey :: string

record RefundResponse =
  rs_RefundID :: uuid
  rs_TransactionID :: uuid
  rs_Amount :: int64
  rs_Status :: string

definition refund_tx :: "('b) senv_scheme \<Rightarrow> RefundRequest \<Rightarrow> (Transaction \<times> Refund) sg" where
  "refund_tx env req =
     bnd (map_err (wrap ''get transaction'') (txrepo_GetByID env (rq_TransactionID req))) (\<lambda>tx.
     bnd (fail_if (tx_Status tx \<noteq> StatusCaptured \<and> tx_Status tx \<noteq> StatusPartiallyRefunded)
       (Sentinel Transaction_ErrNotRefundable)) (\<lambda>_.
     let remaining = tx_Amount tx - tx_RefundedAmount tx in
     bnd (fail_if (i64_less remaining (rq_Amount req))
       (Sentinel Transaction_ErrRefundExceedsAmount)) (\<lambda>_.
     let reserved = tx_RefundedAmount tx + rq_Amount req in
     bnd (time_Now env) (\<lambda>now.
     let tx' = tx\<lparr>tx_RefundedAmount := reserved,
                  tx_Status := (if i64_le (tx_Amount tx) reserved then StatusRefunded
                                else StatusPartiallyRefunded),
                  tx_UpdatedAt := now\<rparr> in
     bnd (map_err (wrap ''reserve refund amount'') (txrepo_UpdateRefund env tx')) (\<lambda>_.
     bnd (NewRefundPending env (tx_ID tx') (rq_Amount req) (rq_IdempotencyKey req)) (\<lambda>refund.
     bnd (map_err (wrap ''create refund'') (txrepo_CreateRefund env refund)) (\<lambda>_.
     ret (tx', refund))))))))"

definition Service_Refund :: "('b) senv_scheme \<Rightarrow> RefundRequest \<Rightarrow> RefundResponse sg" where
  "Service_Refund env req =
     bnd (InTransaction env RepeatableRead (refund_tx env req)) (\<lambda>(tx, refund).
     bnd (emit (GoRefund tx refund)) (\<lambda>_.
     ret \<lparr>rs_RefundID = rf_ID refund, rs_TransactionID = tx_ID tx, rs_Amount = rq_Amount req,
          rs_Status = RefundStatusPending\<rparr>))"

text \<open>
  The goroutine of a refund, in its atomic parts: the answer of the bank and the status
  of the refund row; the release of a reservation, tried \<open>maxRetries\<close> times; the webhook.
  \<open>time.Sleep\<close> between the tries only passes time.
\<close>

definition refund_outcome :: "('b) senv_scheme \<Rightarrow> Transaction \<Rightarrow> Refund \<Rightarrow> Refund sg" where
  "refund_outcome env tx refund =
     bnd (attempt (Refund_call env (tx_ID tx) (rf_Amount refund))) (\<lambda>answer.
     bnd (case answer of
            Inl err \<Rightarrow> MarkFailed env refund
          | Inr result \<Rightarrow> if br_Success result then MarkRefunded env refund
                         else MarkFailed env refund) (\<lambda>refund'.
     bnd (txrepo_UpdateRefundStatus env refund') (\<lambda>_.
     ret refund')))"

fun release_attempts :: "('b) senv_scheme \<Rightarrow> nat \<Rightarrow> uuid \<Rightarrow> int64 \<Rightarrow> unit sg" where
  "release_attempts env 0 txID amount = ret ()"
| "release_attempts env (Suc k) txID amount =
     bnd (attempt (txrepo_ReleaseRefundAmount env txID amount)) (\<lambda>r.
       case r of Inr _ \<Rightarrow> ret () | Inl err \<Rightarrow> release_attempts env k txID amount)"

definition maxRetries :: nat where
  "maxRetries = 3"

definition refund_release :: "('b) senv_scheme \<Rightarrow> Transaction \<Rightarrow> Refund \<Rightarrow> unit sg" where
  "refund_release env tx refund =
    (if rf_Status refund = RefundStatusFailed
     then release_attempts env maxRetries (tx_ID tx) (rf_Amount refund) else ret ())"

text \<open>A failing status update, or a failing webhook, is logged and ends the goroutine.\<close>

definition refundAsync ::
  "('b) senv_scheme \<Rightarrow> string \<Rightarrow> Transaction \<Rightarrow> Refund \<Rightarrow> unit sg" where
  "refundAsync env callbackURL tx refund0 =
     bnd (attempt (refund_outcome env tx refund0)) (\<lambda>r. case r of
         Inl err \<Rightarrow> ret ()
       | Inr refund \<Rightarrow>
           bnd (refund_release env tx refund) (\<lambda>_.
           bnd (attempt (SendRefundResult env callbackURL tx refund)) (\<lambda>_. ret ())))"

section \<open>Void\<close>

definition void_tx :: "('b) senv_scheme \<Rightarrow> uuid \<Rightarrow> Transaction sg" where
  "void_tx env txID =
     bnd (map_err (wrap ''get transaction'') (txrepo_GetByIDForUpdate env txID)) (\<lambda>tx0.
     bnd (MarkVoided env tx0) (\<lambda>tx.
     bnd (map_err (wrap ''acquirer void'') (Void_call env (tx_ID tx))) (\<lambda>result.
     bnd (fail_if (\<not> br_Success result) (ErrText (''void rejected: '' @ br_Reason result))) (\<lambda>_.
     bnd (map_err (wrap ''update transaction'') (txrepo_UpdateStatus env tx)) (\<lambda>_.
     ret tx)))))"

definition Void :: "('b) senv_scheme \<Rightarrow> uuid \<Rightarrow> StatusResponse sg" where
  "Void env txID =
     bnd (InTransaction env ReadCommitted (void_tx env txID)) (\<lambda>tx.
     bnd (emit (GoVoidWebhook tx)) (\<lambda>_.
     ret \<lparr>sr_TransactionID = tx_ID tx, sr_Status = StatusVoided\<rparr>))"

definition voidWebhook :: "('b) senv_scheme \<Rightarrow> string \<Rightarrow> Transaction \<Rightarrow> unit sg" where
  "voidWebhook env callbackURL tx =
     bnd (attempt (SendCaptureResult env callbackURL tx)) (\<lambda>_. ret ())"

section \<open>Settlement\<close>

definition settle_status :: "goerr + BankResult \<Rightarrow> string" where
  "settle_status answer = (case answer of
      Inl err \<Rightarrow> StatusCaptureFailed
    | Inr result \<Rightarrow> if br_Success result then StatusCaptured else StatusCaptureFailed)"

definition settleAsync ::
  "('b) senv_scheme \<Rightarrow> string \<Rightarrow> Transaction \<Rightarrow> int64 \<Rightarrow> unit sg" where
  "settleAsync env callbackURL tx amount =
     bnd (attempt (Settle_call env (tx_ID tx) amount)) (\<lambda>answer.
     bnd (attempt (txrepo_CompareAndUpdateStatus env (tx_ID tx) StatusCapturePending
                     (settle_status answer))) (\<lambda>r. case r of
         Inl err \<Rightarrow> ret ()
       | Inr _ \<Rightarrow> bnd (attempt (SendCaptureResult env callbackURL tx)) (\<lambda>_. ret ())))"

section \<open>What a successful call has done\<close>

lemma Mark_okE [run_elims]:
  "MarkCapturePending env t k w = (Inr t', w') \<Longrightarrow>
     (tx_Status t = StatusAuthorized \<Longrightarrow> w' = tick w \<Longrightarrow>
      t' = t\<lparr>tx_Status := StatusCapturePending, tx_IdempotencyKey := k, tx_UpdatedAt := clock env (ticks w)\<rparr>
      \<Longrightarrow> thesis) \<Longrightarrow> thesis"
  "MarkVoided env t w = (Inr t', w') \<Longrightarrow>
     (tx_Status t = StatusAuthorized \<Longrightarrow> w' = tick w \<Longrightarrow>
      t' = t\<lparr>tx_Status := StatusVoided, tx_UpdatedAt := clock env (ticks w)\<rparr>
      \<Longrightarrow> thesis) \<Longrightarrow> thesis"
  by (auto simp: entity_runs split: if_splits)

lemma scan_tx_row_simps [simp]:
  "tx_ID (scan_tx_row r) = t_id r" "tx_Status (scan_tx_row r) = t_status r"
  "tx_Amount (scan_tx_row r) = t_amount r" "tx_RefundedAmount (scan_tx_row r) = t_refunded_amount r"
  "tx_MerchantID (scan_tx_row r) = t_merchant_id r" "tx_OrderRef (scan_tx_row r) = t_order_ref r"
  "tx_Currency (scan_tx_row r) = t_currency r"
  by (simp_all add: scan_tx_row_def)

text \<open>
  The postconditions of the three transactions, as relations between the rows before and
  after. \<open>r\<close> is the row the call read; every write goes to the row with its identifier.
\<close>

definition moved ::
  "uuid \<Rightarrow> string \<Rightarrow> string option \<Rightarrow> time \<Rightarrow> tx_row \<Rightarrow> sg_data \<Rightarrow> sg_data \<Rightarrow> bool" where
  "moved i status key now r d d' \<longleftrightarrow>
     find (\<lambda>r. t_id r = i) (transactions d) = Some r \<and> t_status r = StatusAuthorized
     \<and> d' = d\<lparr>transactions := set_where (\<lambda>x. t_id x = i) (mark_row status key now) (transactions d)\<rparr>
     \<and> rows_ok transactions_schema (transactions d')"

lemma capture_tx_post:
  assumes "capture_tx env req w = (Inr tx, w')"
  shows "\<not> tx_failed w' \<and> (\<exists>r now. moved (cq_TransactionID req) StatusCapturePending
            (nilIfEmpty (cq_IdempotencyKey req)) now r (data w) (data w')
          \<and> trace w' = trace w
          \<and> tx = (scan_tx_row r)\<lparr>tx_Status := StatusCapturePending,
                tx_IdempotencyKey := cq_IdempotencyKey req, tx_UpdatedAt := now\<rparr>)"
proof -
  from assms obtain r where f: "find (\<lambda>r. t_id r = cq_TransactionID req) (transactions (data w)) = Some r"
    and st: "t_status r = StatusAuthorized"
    and tx: "tx = (scan_tx_row r)\<lparr>tx_Status := StatusCapturePending,
                tx_IdempotencyKey := cq_IdempotencyKey req, tx_UpdatedAt := clock env (ticks (tick w))\<rparr>"
    and up: "txrepo_UpdateStatus env tx (tick (tick w)) = (Inr (), w')"
    unfolding capture_tx_def by (auto elim!: bnd_okE map_err_okE txrepo_Get_okE Mark_okE)
  from up f tx show ?thesis
    by (elim txrepo_UpdateStatus_okE) (auto simp: moved_def st find_idD[OF f])
qed

lemma Capture_post:
  assumes "Capture env req w = (Inr resp, w')"
  obtains r now tx where "moved (cq_TransactionID req) StatusCapturePending
            (nilIfEmpty (cq_IdempotencyKey req)) now r (data w) (data w')"
    and "tx = (scan_tx_row r)\<lparr>tx_Status := StatusCapturePending,
                tx_IdempotencyKey := cq_IdempotencyKey req, tx_UpdatedAt := now\<rparr>"
    and "trace w' = trace w @ [GoSettle tx (cq_Amount req)]"
    and "resp = \<lparr>sr_TransactionID = t_id r, sr_Status = StatusCapturePending\<rparr>"
proof -
  from assms obtain tx w1 where run: "InTransaction env RepeatableRead (capture_tx env req) w = (Inr tx, w1)"
    and w': "w' = w1\<lparr>trace := trace w1 @ [GoSettle tx (cq_Amount req)]\<rparr>"
    and resp: "resp = \<lparr>sr_TransactionID = tx_ID tx, sr_Status = StatusCapturePending\<rparr>"
    unfolding Capture_def by (auto elim!: bnd_okE emit_okE)
  have "\<exists>r now. moved (cq_TransactionID req) StatusCapturePending
            (nilIfEmpty (cq_IdempotencyKey req)) now r (data w) (data w1)
          \<and> trace w1 = trace w
          \<and> tx = (scan_tx_row r)\<lparr>tx_Status := StatusCapturePending,
                tx_IdempotencyKey := cq_IdempotencyKey req, tx_UpdatedAt := now\<rparr>"
    by (rule InTransaction_post[OF run]) (rule capture_tx_post)
  with w' resp show thesis by (auto intro!: that)
qed

lemma nilIfEmpty_string_or_empty: "nilIfEmpty (string_or_empty k) = (if k = Some '''' then None else k)"
  by (auto simp: nilIfEmpty_def string_or_empty_def split: option.splits)

text \<open>A void also has the bank's agreement, asked for inside the transaction.\<close>

definition bank_voided :: "('b) senv_scheme \<Rightarrow> uuid \<Rightarrow> bool" where
  "bank_voided env i \<longleftrightarrow> (\<exists>n result. acq_Void env n i = Inr result \<and> br_Success result)"

lemma void_tx_post:
  assumes "void_tx env i w = (Inr tx, w')"
  shows "\<not> tx_failed w' \<and> (\<exists>r now. moved i StatusVoided
            (nilIfEmpty (string_or_empty (t_idempotency_key r))) now r (data w) (data w')
          \<and> trace w' = trace w @ [AcqVoid i] \<and> bank_voided env i
          \<and> tx = (scan_tx_row r)\<lparr>tx_Status := StatusVoided, tx_UpdatedAt := now\<rparr>)"
proof -
  have "\<exists>r result. find (\<lambda>r. t_id r = i) (transactions (data w)) = Some r
    \<and> t_status r = StatusAuthorized
    \<and> tx = (scan_tx_row r)\<lparr>tx_Status := StatusVoided, tx_UpdatedAt := clock env (ticks (tick w))\<rparr>
    \<and> acq_Void env (Suc (Suc (ticks w))) (t_id r) = Inr result \<and> br_Success result
    \<and> txrepo_UpdateStatus env tx (tick (tick (tick w)\<lparr>trace := trace w @ [AcqVoid (t_id r)]\<rparr>)) = (Inr (), w')"
    using assms unfolding void_tx_def Void_call_def
    by (auto elim!: bnd_okE map_err_okE txrepo_Get_okE Mark_okE emit_okE call_E fail_if_okE)
  then obtain r result where f: "find (\<lambda>r. t_id r = i) (transactions (data w)) = Some r"
    and st: "t_status r = StatusAuthorized"
    and tx: "tx = (scan_tx_row r)\<lparr>tx_Status := StatusVoided, tx_UpdatedAt := clock env (ticks (tick w))\<rparr>"
    and ans: "acq_Void env (Suc (Suc (ticks w))) (t_id r) = Inr result" "br_Success result"
    and up: "txrepo_UpdateStatus env tx (tick (tick (tick w)\<lparr>trace := trace w @ [AcqVoid (t_id r)]\<rparr>)) = (Inr (), w')"
    by blast
  have "bank_voided env i" using ans find_idD[OF f] by (auto simp: bank_voided_def)
  with up f tx show ?thesis
    by (elim txrepo_UpdateStatus_okE) (auto simp: moved_def st find_idD[OF f] scan_tx_row_def)
qed

lemma Void_post:
  assumes "Void env i w = (Inr resp, w')"
  obtains r now tx where "moved i StatusVoided
            (nilIfEmpty (string_or_empty (t_idempotency_key r))) now r (data w) (data w')"
    and "tx = (scan_tx_row r)\<lparr>tx_Status := StatusVoided, tx_UpdatedAt := now\<rparr>"
    and "trace w' = trace w @ [AcqVoid i, GoVoidWebhook tx]" and "bank_voided env i"
    and "resp = \<lparr>sr_TransactionID = t_id r, sr_Status = StatusVoided\<rparr>"
proof -
  from assms obtain tx w1 where run: "InTransaction env ReadCommitted (void_tx env i) w = (Inr tx, w1)"
    and w': "w' = w1\<lparr>trace := trace w1 @ [GoVoidWebhook tx]\<rparr>"
    and resp: "resp = \<lparr>sr_TransactionID = tx_ID tx, sr_Status = StatusVoided\<rparr>"
    unfolding Void_def by (auto elim!: bnd_okE emit_okE)
  have "\<exists>r now. moved i StatusVoided
            (nilIfEmpty (string_or_empty (t_idempotency_key r))) now r (data w) (data w1)
          \<and> trace w1 = trace w @ [AcqVoid i] \<and> bank_voided env i
          \<and> tx = (scan_tx_row r)\<lparr>tx_Status := StatusVoided, tx_UpdatedAt := now\<rparr>"
    by (rule InTransaction_post[OF run]) (rule void_tx_post)
  with w' resp show thesis by (auto intro!: that)
qed

text \<open>A reservation: the new total on the row, and a pending refund beside it.\<close>

definition reserve_row :: "string \<Rightarrow> int64 \<Rightarrow> time \<Rightarrow> tx_row \<Rightarrow> tx_row" where
  "reserve_row status tot now r = r\<lparr>t_status := status, t_refunded_amount := tot, t_updated_at := now\<rparr>"

definition reserved_status :: "int64 \<Rightarrow> int64 \<Rightarrow> string" where
  "reserved_status amount tot = (if i64_le amount tot then StatusRefunded else StatusPartiallyRefunded)"

definition reserves :: "RefundRequest \<Rightarrow> tx_row \<Rightarrow> time \<Rightarrow> Refund \<Rightarrow> sg_data \<Rightarrow> sg_data \<Rightarrow> bool" where
  "reserves req r now rf d d' \<longleftrightarrow>
     find (\<lambda>r. t_id r = rq_TransactionID req) (transactions d) = Some r
     \<and> (t_status r = StatusCaptured \<or> t_status r = StatusPartiallyRefunded)
     \<and> i64_le (rq_Amount req) (t_amount r - t_refunded_amount r)
     \<and> rf_TransactionID rf = rq_TransactionID req \<and> rf_Amount rf = rq_Amount req
     \<and> rf_Status rf = RefundStatusPending \<and> rf_IdempotencyKey rf = rq_IdempotencyKey req
     \<and> d' = d\<lparr>transactions := set_where (\<lambda>x. t_id x = rq_TransactionID req)
               (reserve_row (reserved_status (t_amount r) (t_refunded_amount r + rq_Amount req))
                  (t_refunded_amount r + rq_Amount req) now) (transactions d),
             refunds := refunds d @ [refund_to_row rf]\<rparr>
     \<and> rows_ok transactions_schema (transactions d') \<and> rows_ok refunds_schema (refunds d')"

lemma refund_tx_post:
  assumes "refund_tx env req w = (Inr (tx, rf), w')"
  shows "\<not> tx_failed w' \<and> (\<exists>r now. reserves req r now rf (data w) (data w') \<and> trace w' = trace w
          \<and> tx = (scan_tx_row r)\<lparr>tx_RefundedAmount := t_refunded_amount r + rq_Amount req,
              tx_Status := reserved_status (t_amount r) (t_refunded_amount r + rq_Amount req),
              tx_UpdatedAt := now\<rparr>)"
proof -
  have "\<exists>r w2 w3. find (\<lambda>r. t_id r = rq_TransactionID req) (transactions (data w)) = Some r
    \<and> (t_status r = StatusCaptured \<or> t_status r = StatusPartiallyRefunded)
    \<and> \<not> i64_less (t_amount r - t_refunded_amount r) (rq_Amount req)
    \<and> tx = (scan_tx_row r)\<lparr>tx_RefundedAmount := t_refunded_amount r + rq_Amount req,
              tx_Status := reserved_status (t_amount r) (t_refunded_amount r + rq_Amount req),
              tx_UpdatedAt := clock env (ticks (tick w))\<rparr>
    \<and> txrepo_UpdateRefund env tx (tick (tick w)) = (Inr (), w2)
    \<and> NewRefundPending env (tx_ID tx) (rq_Amount req) (rq_IdempotencyKey req) w2 = (Inr rf, w3)
    \<and> txrepo_CreateRefund env rf w3 = (Inr (), w')"
    using assms unfolding refund_tx_def reserved_status_def Let_def
    apply (elim bnd_okE map_err_okE txrepo_Get_okE ask_okE fail_if_okE)
    apply auto
    done
  then obtain r w2 w3 where f: "find (\<lambda>r. t_id r = rq_TransactionID req) (transactions (data w)) = Some r"
    and st: "t_status r = StatusCaptured \<or> t_status r = StatusPartiallyRefunded"
    and le: "\<not> i64_less (t_amount r - t_refunded_amount r) (rq_Amount req)"
    and tx: "tx = (scan_tx_row r)\<lparr>tx_RefundedAmount := t_refunded_amount r + rq_Amount req,
              tx_Status := reserved_status (t_amount r) (t_refunded_amount r + rq_Amount req),
              tx_UpdatedAt := clock env (ticks (tick w))\<rparr>"
    and up: "txrepo_UpdateRefund env tx (tick (tick w)) = (Inr (), w2)"
    and new: "NewRefundPending env (tx_ID tx) (rq_Amount req) (rq_IdempotencyKey req) w2 = (Inr rf, w3)"
    and cr: "txrepo_CreateRefund env rf w3 = (Inr (), w')"
    by blast
  from new have w3: "w3 = tick (tick w2)" and rf: "rf_TransactionID rf = tx_ID tx"
      "rf_Amount rf = rq_Amount req" "rf_Status rf = RefundStatusPending"
      "rf_IdempotencyKey rf = rq_IdempotencyKey req"
    by (auto simp: entity_runs)
  have i: "tx_ID tx = rq_TransactionID req" using tx find_idD[OF f] by simp
  from up obtain rows where rows: "rows = set_where (\<lambda>x. t_id x = rq_TransactionID req)
        (reserve_row (tx_Status tx) (tx_RefundedAmount tx) (tx_UpdatedAt tx)) (transactions (data w))"
      "w2 = (tick (tick (tick w)))\<lparr>data := (data w)\<lparr>transactions := rows\<rparr>\<rparr>" "rows_ok transactions_schema rows"
    by (rule txrepo_UpdateRefund_okE) (simp add: i reserve_row_def[abs_def])
  from cr w3 rows(2,3) show ?thesis
    by (elim txrepo_CreateRefund_okE) (use le in \<open>auto simp: reserves_def f st rf i tx rows(1) find_idD[OF f]\<close>)
qed

lemma Refund_post:
  assumes "Service_Refund env req w = (Inr resp, w')"
  obtains r now rf tx where "reserves req r now rf (data w) (data w')"
    and "tx = (scan_tx_row r)\<lparr>tx_RefundedAmount := t_refunded_amount r + rq_Amount req,
              tx_Status := reserved_status (t_amount r) (t_refunded_amount r + rq_Amount req),
              tx_UpdatedAt := now\<rparr>"
    and "trace w' = trace w @ [GoRefund tx rf]"
    and "resp = \<lparr>rs_RefundID = rf_ID rf, rs_TransactionID = t_id r, rs_Amount = rq_Amount req,
                 rs_Status = RefundStatusPending\<rparr>"
proof -
  from assms obtain tx rf w1 where
    run: "InTransaction env RepeatableRead (refund_tx env req) w = (Inr (tx, rf), w1)"
    and w': "w' = w1\<lparr>trace := trace w1 @ [GoRefund tx rf]\<rparr>"
    and resp: "resp = \<lparr>rs_RefundID = rf_ID rf, rs_TransactionID = tx_ID tx,
      rs_Amount = rq_Amount req, rs_Status = RefundStatusPending\<rparr>"
    unfolding Service_Refund_def by (auto elim!: bnd_okE emit_okE)
  have "\<exists>r now. reserves req r now rf (data w) (data w1) \<and> trace w1 = trace w
          \<and> tx = (scan_tx_row r)\<lparr>tx_RefundedAmount := t_refunded_amount r + rq_Amount req,
              tx_Status := reserved_status (t_amount r) (t_refunded_amount r + rq_Amount req),
              tx_UpdatedAt := now\<rparr>"
    by (rule InTransaction_post[OF run]) (rule refund_tx_post)
  with w' resp show thesis by (auto intro!: that)
qed

text \<open>The row that an authorisation saves.\<close>

definition authorized_as :: "AuthRequest \<Rightarrow> AuthResult \<Rightarrow> Transaction \<Rightarrow> bool" where
  "authorized_as req result tx \<longleftrightarrow>
     tx_MerchantID tx = aq_MerchantID req \<and> tx_OrderRef tx = aq_OrderID req
     \<and> tx_Amount tx = aq_Amount req \<and> tx_Currency tx = aq_Currency req
     \<and> tx_CardToken tx = aq_CardToken req \<and> tx_IdempotencyKey tx = '''' \<and> tx_RefundedAmount tx = 0
     \<and> tx_Status tx = (if ar_Approved result then StatusAuthorized else StatusDeclined)
     \<and> tx_DeclineReason tx = (if ar_Approved result then '''' else ar_DeclineReason result)
     \<and> (if aq_PurchaseIdempotencyKey req \<noteq> '''' \<and> aq_ProductID req \<noteq> None
        then tx_PurchaseIdempotencyKey tx = aq_PurchaseIdempotencyKey req
          \<and> tx_ProductID tx = aq_ProductID req
        else tx_PurchaseIdempotencyKey tx = '''' \<and> tx_ProductID tx = None)"

lemma NewTransaction_E:
  assumes "(if ar_Approved result
          then NewAuthorized env (aq_MerchantID req) (aq_OrderID req) (aq_Amount req)
                 (aq_Currency req) (aq_CardToken req)
          else NewDeclined env (aq_MerchantID req) (aq_OrderID req) (aq_Amount req)
                 (aq_Currency req) (aq_CardToken req) (ar_DeclineReason result)) w = (r, w')"
  obtains tx where "r = Inr tx" and "w' = tick (tick w)"
    and "authorized_as req result
      (if aq_PurchaseIdempotencyKey req \<noteq> '''' \<and> aq_ProductID req \<noteq> None
       then MarkProductPurchase tx (aq_PurchaseIdempotencyKey req) (the (aq_ProductID req)) else tx)"
  using assms
  by (auto simp: entity_runs authorized_as_def MarkProductPurchase_def split: if_splits)

lemma AuthorizeInTx_post:
  assumes "AuthorizeInTx env req w = (Inr tx, w')"
  shows "\<exists>result. acq_Authorize env (ticks w) (aq_Amount req) (aq_Currency req) (aq_CardToken req) = Inr result
    \<and> authorized_as req result tx
    \<and> data w' = (data w)\<lparr>transactions := transactions (data w) @ [tx_to_row tx]\<rparr>
    \<and> rows_ok transactions_schema (transactions (data w'))
    \<and> (tx_ProductID tx = None \<or> tx_ProductID tx \<in> Some ` pr_ID ` set (products (data w)))
    \<and> trace w' = trace w @ [AcqAuthorize (aq_Amount req) (aq_Currency req) (aq_CardToken req)]
    \<and> \<not> tx_failed w'"
proof -
  from assms obtain result tx0 w1 where
    ans: "acq_Authorize env (ticks w) (aq_Amount req) (aq_Currency req) (aq_CardToken req) = Inr result"
    and new: "(if ar_Approved result
          then NewAuthorized env (aq_MerchantID req) (aq_OrderID req) (aq_Amount req)
                 (aq_Currency req) (aq_CardToken req)
          else NewDeclined env (aq_MerchantID req) (aq_OrderID req) (aq_Amount req)
                 (aq_Currency req) (aq_CardToken req) (ar_DeclineReason result))
          (tick (w\<lparr>trace := trace w @ [AcqAuthorize (aq_Amount req) (aq_Currency req) (aq_CardToken req)]\<rparr>))
          = (Inr tx0, w1)"
    and tx: "tx = (if aq_PurchaseIdempotencyKey req \<noteq> '''' \<and> aq_ProductID req \<noteq> None
               then MarkProductPurchase tx0 (aq_PurchaseIdempotencyKey req) (the (aq_ProductID req))
               else tx0)"
    and cr: "txrepo_Create env tx w1 = (Inr (), w')"
    unfolding AuthorizeInTx_def Authorize_call_def Let_def
    by (elim bnd_okE map_err_okE emit_okE call_E) simp
  from new obtain as: "authorized_as req result tx" and
    w1: "w1 = tick (tick (tick (w\<lparr>trace := trace w
          @ [AcqAuthorize (aq_Amount req) (aq_Currency req) (aq_CardToken req)]\<rparr>)))"
    by (rule NewTransaction_E) (use tx in auto)
  from cr ans as w1 show ?thesis by (elim txrepo_Create_okE) auto
qed

section \<open>A failed call has changed no row\<close>

lemma sql_err_data: "sql env stmt w = (Inl e, w') \<Longrightarrow> data w' = data w"
  by (erule sql_errE)

lemma txrepo_err_data:
  "txrepo_Create env tx w = (Inl e, w') \<Longrightarrow> data w' = data w"
  "txrepo_UpdateRefundStatus env rf w = (Inl e, w') \<Longrightarrow> data w' = data w"
  "txrepo_ReleaseRefundAmount env i a w = (Inl e, w') \<Longrightarrow> data w' = data w"
  by (auto simp: txrepo_Create_def txrepo_UpdateRefundStatus_def txrepo_ReleaseRefundAmount_def
      elim!: bnd_errE map_err_errE ask_okE ask_errE dest: sql_err_data)

lemma CompareAndUpdateStatus_err_data:
  assumes "txrepo_CompareAndUpdateStatus env i expected nxt w = (Inl e, w')"
  shows "data w' = data w"
proof -
  have none: "filter p rows = [] \<Longrightarrow> d\<lparr>transactions := set_where p f rows\<rparr> = d"
    if "transactions d = rows" for p f rows and d :: sg_data
    using that by (cases d) (auto simp: set_where_none)
  show ?thesis
    using assms
    by (auto simp: txrepo_CompareAndUpdateStatus_def update_transactions_ok none
        elim!: bnd_errE map_err_errE map_err_okE ask_okE ask_errE fail_if_errE sql_okE
        dest: sql_err_data)
qed

lemma Authorize_err_data:
  assumes "Authorize env req w = (Inl e, w')"
  shows "data w' = data w"
  using assms unfolding Authorize_def AuthorizeInTx_def Authorize_call_def Let_def
  by (auto elim!: bnd_errE bnd_okE map_err_errE map_err_okE emit_okE emit_errE call_E NewTransaction_E
      dest: txrepo_err_data)

lemma Capture_err_data: "Capture env req w = (Inl e, w') \<Longrightarrow> data w' = data w"
  unfolding Capture_def by (auto elim!: bnd_errE emit_okE emit_errE dest: InTransaction_err_data)

lemma Refund_err_data: "Service_Refund env req w = (Inl e, w') \<Longrightarrow> data w' = data w"
  unfolding Service_Refund_def
  by (auto elim!: bnd_errE emit_okE emit_errE dest: InTransaction_err_data split: prod.splits)

lemma Void_err_data: "Void env i w = (Inl e, w') \<Longrightarrow> data w' = data w"
  unfolding Void_def by (auto elim!: bnd_errE emit_okE emit_errE dest: InTransaction_err_data)

section \<open>What the goroutines do\<close>

lemma sendEvent_data: "sendEvent env url evt w = (r, w') \<Longrightarrow> data w' = data w"
  by (auto simp: sendEvent_def Let_def run_simps split: sum.splits if_splits)

lemma Send_data:
  "SendCaptureResult env url tx w = (r, w') \<Longrightarrow> data w' = data w"
  "SendRefundResult env url tx rf w = (r, w') \<Longrightarrow> data w' = data w"
  by (auto simp: SendCaptureResult_def SendRefundResult_def run_simps dest: sendEvent_data)

lemma voidWebhook_data: "voidWebhook env url tx w = (r, w') \<Longrightarrow> data w' = data w"
  by (auto simp: voidWebhook_def run_simps) (metis Send_data(1) prod.collapse)

text \<open>A settlement moves a capture that is still pending, and nothing else.\<close>

definition settles :: "uuid \<Rightarrow> string \<Rightarrow> time \<Rightarrow> sg_data \<Rightarrow> sg_data \<Rightarrow> bool" where
  "settles i status now d d' \<longleftrightarrow>
     d' = d\<lparr>transactions := set_where (\<lambda>r. t_id r = i \<and> t_status r = StatusCapturePending)
              (\<lambda>r. r\<lparr>t_status := status, t_updated_at := now\<rparr>) (transactions d)\<rparr>
     \<and> rows_ok transactions_schema (transactions d')"

lemma settle_status_cases: "settle_status a = StatusCaptured \<or> settle_status a = StatusCaptureFailed"
  by (auto simp: settle_status_def split: sum.splits)

lemma settleAsync_post:
  assumes "settleAsync env url tx a w = (r, w')"
  shows "r = Inr () \<and> (data w' = data w
    \<or> (\<exists>now. settles (tx_ID tx) (settle_status (acq_Settle env (ticks w) (tx_ID tx) a)) now (data w) (data w')))"
proof -
  define w1 where "w1 = tick (w\<lparr>trace := trace w @ [AcqSettle (tx_ID tx) a]\<rparr>)"
  define st where "st = settle_status (acq_Settle env (ticks w) (tx_ID tx) a)"
  obtain r2 w2 where cas:
    "txrepo_CompareAndUpdateStatus env (tx_ID tx) StatusCapturePending st w1 = (r2, w2)"
    by (cases "txrepo_CompareAndUpdateStatus env (tx_ID tx) StatusCapturePending st w1")
  have run: "settleAsync env url tx a w = (Inr (), case r2 of Inl e \<Rightarrow> w2
      | Inr _ \<Rightarrow> snd (SendCaptureResult env url tx w2))"
    using cas by (auto simp: settleAsync_def Settle_call_def run_simps w1_def st_def split: sum.splits)
  show ?thesis
  proof (cases r2)
    case (Inl e)
    with cas have "data w2 = data w" by (auto simp: w1_def dest: CompareAndUpdateStatus_err_data)
    with assms run Inl show ?thesis by simp
  next
    case (Inr u)
    from cas[unfolded Inr] obtain now where "settles (tx_ID tx) st now (data w) (data w2)"
      by (rule txrepo_CompareAndUpdateStatus_okE) (simp add: w1_def settles_def)
    moreover from assms run Inr have r: "r = Inr ()" and w': "w' = snd (SendCaptureResult env url tx w2)"
      by simp_all
    moreover have "data w' = data w2"
      using Send_data(1)[of env url tx w2] w' by (metis prod.collapse)
    ultimately show ?thesis unfolding st_def by (metis (no_types))
  qed
qed

text \<open>The answer of the bank to a refund ends on the refund's row.\<close>

definition answers :: "Refund \<Rightarrow> string \<Rightarrow> time \<Rightarrow> Refund \<Rightarrow> sg_data \<Rightarrow> sg_data \<Rightarrow> bool" where
  "answers rf status now rf' d d' \<longleftrightarrow>
     rf' = rf\<lparr>rf_Status := status, rf_UpdatedAt := now\<rparr>
     \<and> d' = d\<lparr>refunds := set_where (\<lambda>r. r_id r = rf_ID rf)
               (\<lambda>r. r\<lparr>r_status := status, r_updated_at := now\<rparr>) (refunds d)\<rparr>
     \<and> rows_ok refunds_schema (refunds d')"

definition refund_status :: "goerr + BankResult \<Rightarrow> string" where
  "refund_status answer = (case answer of
      Inl err \<Rightarrow> RefundStatusFailed
    | Inr result \<Rightarrow> if br_Success result then RefundStatusDone else RefundStatusFailed)"

lemma refund_outcome_run:
  "refund_outcome env tx rf w =
     (let status = refund_status (acq_Refund env (ticks w) (tx_ID tx) (rf_Amount rf));
          rf' = rf\<lparr>rf_Status := status, rf_UpdatedAt := clock env (Suc (ticks w))\<rparr>;
          w1 = tick (tick (w\<lparr>trace := trace w @ [AcqRefund (tx_ID tx) (rf_Amount rf)]\<rparr>))
      in case txrepo_UpdateRefundStatus env rf' w1 of
        (Inl e, w2) \<Rightarrow> (Inl e, w2) | (Inr _, w2) \<Rightarrow> (Inr rf', w2))"
  by (auto simp: refund_outcome_def Refund_call_def run_simps entity_runs refund_status_def Let_def
      split: sum.splits prod.splits)

lemma refund_outcome_ok:
  assumes "refund_outcome env tx rf w = (Inr rf', w')"
  shows "answers rf (refund_status (acq_Refund env (ticks w) (tx_ID tx) (rf_Amount rf)))
    (clock env (Suc (ticks w))) rf' (data w) (data w')"
  using assms
  by (auto simp: refund_outcome_run Let_def answers_def split: prod.splits sum.splits
      elim!: txrepo_UpdateRefundStatus_okE)

lemma refund_outcome_err: "refund_outcome env tx rf w = (Inl e, w') \<Longrightarrow> data w' = data w"
  by (auto simp: refund_outcome_run Let_def split: prod.splits sum.splits dest!: txrepo_err_data)

definition releases :: "uuid \<Rightarrow> int64 \<Rightarrow> time \<Rightarrow> sg_data \<Rightarrow> sg_data \<Rightarrow> bool" where
  "releases i a now d d' \<longleftrightarrow>
     d' = d\<lparr>transactions := set_where (\<lambda>r. t_id r = i) (release a now) (transactions d)\<rparr>
     \<and> rows_ok transactions_schema (transactions d')"

lemma ReleaseRefundAmount_ok:
  "txrepo_ReleaseRefundAmount env i a w = (Inr u, w') \<Longrightarrow> releases i a (clock env (ticks w)) (data w) (data w')"
  by (auto simp: releases_def elim!: txrepo_ReleaseRefundAmount_okE)

text \<open>However many tries it takes, the reservation is released at most once.\<close>

lemma release_attempts_post:
  "release_attempts env n i a w = (r, w') \<Longrightarrow>
     r = Inr () \<and> (data w' = data w \<or> (\<exists>now. releases i a now (data w) (data w')))"
proof (induction n arbitrary: w)
  case 0
  then show ?case by simp
next
  case (Suc n)
  obtain r1 w1 where att: "txrepo_ReleaseRefundAmount env i a w = (r1, w1)"
    by (cases "txrepo_ReleaseRefundAmount env i a w")
  show ?case
  proof (cases r1)
    case (Inl e)
    with att have "data w1 = data w" by (auto dest: txrepo_err_data)
    with Inl att Suc.prems Suc.IH[of w1] show ?thesis by (auto simp: run_simps)
  next
    case (Inr u)
    with att Suc.prems ReleaseRefundAmount_ok[of env i a w u w1] show ?thesis
      by (auto simp: run_simps)
  qed
qed

end
