(* ===== verification/Keyset.thy ===== *)
theory Keyset
  imports Prelude "HOL-Library.Product_Lexorder"
begin

text \<open>
  The contract of keyset paging. Three repositories page through rows that have a total
  order of keys: a page is cut from the rows after a cursor, and carries the key of its
  last row as the next cursor when rows are left. What clients rely on is proved here
  once: following the cursors lists every row, once, in order.
\<close>

text \<open>Rows after a cursor; \<open>before k l\<close> when key \<open>k\<close> comes first.\<close>

fun after :: "('k \<Rightarrow> 'k \<Rightarrow> bool) \<Rightarrow> ('r \<Rightarrow> 'k) \<Rightarrow> 'k option \<Rightarrow> 'r list \<Rightarrow> 'r list" where
  "after before key None rows = rows"
| "after before key (Some k) rows = filter (\<lambda>r. before k (key r)) rows"

text \<open>Following the cursors, at most \<open>fuel\<close> pages.\<close>

fun follow :: "('c option \<Rightarrow> 'r list \<times> 'c option) \<Rightarrow> nat \<Rightarrow> 'c option \<Rightarrow> 'r list list" where
  "follow fetch 0 c = []"
| "follow fetch (Suc fuel) c = (case fetch c of
      (rows, None) \<Rightarrow> [rows] | (rows, Some k) \<Rightarrow> rows # follow fetch fuel (Some k))"

text \<open>Cursors as the client gets them, encoded.\<close>

lemma follow_encoded:
  assumes "\<And>c. ok c \<Longrightarrow> f (map_option enc c) = (fst (g c), map_option enc (snd (g c))) \<and> ok (snd (g c))"
    and "ok c"
  shows "follow f fuel (map_option enc c) = follow g fuel c"
  using assms(2)
proof (induction fuel arbitrary: c)
  case (Suc fuel)
  obtain rows nxt where g: "g c = (rows, nxt)" by (cases "g c")
  with assms(1)[OF Suc.prems] have "f (map_option enc c) = (rows, map_option enc nxt)" and "ok nxt" by simp_all
  with Suc.IH[of nxt] g show ?case by (cases nxt) simp_all
qed simp

locale keyset =
  fixes before :: "'k \<Rightarrow> 'k \<Rightarrow> bool"
    and key :: "'r \<Rightarrow> 'k"
    and listing :: "'q \<Rightarrow> 'r list"
    and fetch :: "'q \<Rightarrow> nat \<Rightarrow> 'k option \<Rightarrow> 'r list \<times> 'k option"
    and sound :: "'q \<Rightarrow> bool"
  assumes irrefl: "\<not> before k k"
    and trans: "before k l \<Longrightarrow> before l m \<Longrightarrow> before k m"
    and ordered: "sound q \<Longrightarrow> sorted_wrt (\<lambda>a b. before (key a) (key b)) (listing q)"
    and page: "sound q \<Longrightarrow> 0 < n \<Longrightarrow> fst (fetch q n c) = take n (after before key c (listing q))"
    and next_cursor: "sound q \<Longrightarrow> 0 < n \<Longrightarrow> snd (fetch q n c) =
      (if n < length (after before key c (listing q)) then Some (key (last (fst (fetch q n c)))) else None)"
begin

lemma after_sorted: "sound q \<Longrightarrow> sorted_wrt (\<lambda>a b. before (key a) (key b)) (after before key c (listing q))"
  by (cases c) (simp_all add: ordered sorted_wrt_filter)

lemma asym: "before k l \<Longrightarrow> \<not> before l k"
  using irrefl trans by blast

text \<open>The rows after the last row of a page are the rows that the page left.\<close>

lemma after_last:
  assumes "sorted_wrt (\<lambda>a b. before (key a) (key b)) (xs @ x # ys)"
  shows "filter (\<lambda>r. before (key x) (key r)) (xs @ x # ys) = ys"
proof -
  have "filter (\<lambda>r. before (key x) (key r)) xs = []"
    using assms by (simp add: filter_empty_conv sorted_wrt_append asym)
  moreover have "filter (\<lambda>r. before (key x) (key r)) ys = ys"
    using assms by (simp add: filter_id_conv sorted_wrt_append)
  ultimately show ?thesis using irrefl by simp
qed

lemma after_after:
  assumes "r \<in> set (after before key c (listing q))"
  shows "after before key (Some (key r)) (listing q)
       = filter (\<lambda>x. before (key r) (key x)) (after before key c (listing q))"
proof (cases c)
  case None
  then show ?thesis by simp
next
  case (Some l)
  with assms have "before l (key r)" by simp
  then have "(before (key r) (key x)) = (before (key r) (key x) \<and> before l (key x))" for x
    using trans by blast
  then have "filter (\<lambda>x. before (key r) (key x)) (listing q)
      = filter (\<lambda>x. before l (key x) \<and> before (key r) (key x)) (listing q)"
    by (intro filter_cong) auto
  with Some show ?thesis by (simp add: conj_commute)
qed

lemma follow_all:
  assumes "sound q" and "0 < n"
  shows "length (after before key c (listing q)) < fuel \<Longrightarrow>
    concat (follow (fetch q n) fuel c) = after before key c (listing q)
    \<and> (\<forall>p\<in>set (follow (fetch q n) fuel c). length p \<le> n)"
proof (induction fuel arbitrary: c)
  case 0
  then show ?case by simp
next
  case (Suc fuel)
  let ?rest = "after before key c (listing q)"
  obtain rows nxt where f: "fetch q n c = (rows, nxt)" by (cases "fetch q n c")
  have rows: "rows = take n ?rest" using page[OF assms, of c] f by simp
  show ?case
  proof (cases "n < length ?rest")
    case False
    with f next_cursor[OF assms, of c] have "nxt = None" by simp
    with f rows False show ?thesis by simp
  next
    case True
    with rows assms(2) have ne: "rows \<noteq> []" by auto
    from True f next_cursor[OF assms, of c] have nxt: "nxt = Some (key (last rows))" by simp
    have split: "?rest = butlast rows @ last rows # drop n ?rest"
      using append_take_drop_id[of n ?rest] ne rows by (metis append_butlast_last_id append.assoc append_Cons append_Nil)
    then have mem: "last rows \<in> set ?rest" by (metis in_set_conv_decomp)
    have "sorted_wrt (\<lambda>a b. before (key a) (key b)) (butlast rows @ last rows # drop n ?rest)"
      using after_sorted[OF assms(1), of c] unfolding split[symmetric] .
    from after_last[OF this] have
      "filter (\<lambda>r. before (key (last rows)) (key r)) ?rest = drop n ?rest"
      unfolding split[symmetric] .
    with after_after[OF mem] have
      next_rest: "after before key (Some (key (last rows))) (listing q) = drop n ?rest" by metis
    have "length (drop n ?rest) < fuel" using Suc.prems assms(2) True by simp
    then have IH: "concat (follow (fetch q n) fuel nxt) = drop n ?rest
        \<and> (\<forall>p\<in>set (follow (fetch q n) fuel nxt). length p \<le> n)"
      using Suc.IH[of nxt] unfolding nxt next_rest by blast
    have "follow (fetch q n) (Suc fuel) c = rows # follow (fetch q n) fuel nxt"
      using f nxt by simp
    with IH rows show ?thesis by simp
  qed
qed

lemma follow_lists_everything:
  assumes "sound q" and "0 < n"
  shows "concat (follow (fetch q n) (Suc (length (listing q))) None) = listing q"
  using follow_all[OF assms, of None "Suc (length (listing q))"] by simp

end

end
