(* ===== verification/GoBase64.thy ===== *)
theory GoBase64
  imports Errors
begin

text \<open>
  \<open>encoding/base64\<close>, for the two encodings that the services use: \<open>StdEncoding\<close> with padding
  and \<open>RawURLEncoding\<close> without. A character of a string is a byte. As in Go, the decoder passes
  over line breaks, and bits of the last symbol that belong to no byte are not looked at.
\<close>

section \<open>Symbols\<close>

record encoding =
  enc_alphabet :: string
  enc_padded :: bool

definition StdEncoding :: encoding where
  "StdEncoding = \<lparr>enc_alphabet = ''ABCDEFGHIJKLMNOPQRSTUVWXYZabcdefghijklmnopqrstuvwxyz0123456789+/'', enc_padded = True\<rparr>"

definition RawURLEncoding :: encoding where
  "RawURLEncoding = \<lparr>enc_alphabet = ''ABCDEFGHIJKLMNOPQRSTUVWXYZabcdefghijklmnopqrstuvwxyz0123456789-_'', enc_padded = False\<rparr>"

definition symbol :: "encoding \<Rightarrow> nat \<Rightarrow> char" where
  "symbol enc i = enc_alphabet enc ! i"

fun position :: "string \<Rightarrow> char \<Rightarrow> nat option" where
  "position [] c = None"
| "position (d # ds) c = (if c = d then Some 0 else map_option Suc (position ds c))"

definition value_of :: "encoding \<Rightarrow> char \<Rightarrow> nat option" where
  "value_of enc c = position (enc_alphabet enc) c"

definition byte :: "char \<Rightarrow> nat" where "byte c = of_char c"

definition char_of_byte :: "nat \<Rightarrow> char" where "char_of_byte n = char_of n"

lemma byte_less: "byte c < 256" by (simp add: byte_def)

lemma char_byte [simp]: "char_of_byte (byte c) = c" by (simp add: char_of_byte_def byte_def)

section \<open>Encoding\<close>

definition padding :: "encoding \<Rightarrow> nat \<Rightarrow> string" where
  "padding enc n = (if enc_padded enc then replicate n CHR ''='' else [])"

fun EncodeToString :: "encoding \<Rightarrow> string \<Rightarrow> string" where
  "EncodeToString enc [] = []"
| "EncodeToString enc [a] =
     [symbol enc (byte a div 4), symbol enc (byte a mod 4 * 16)] @ padding enc 2"
| "EncodeToString enc [a, b] =
     [symbol enc (byte a div 4), symbol enc (byte a mod 4 * 16 + byte b div 16), symbol enc (byte b mod 16 * 4)]
     @ padding enc 1"
| "EncodeToString enc (a # b # c # s) =
     [symbol enc (byte a div 4), symbol enc (byte a mod 4 * 16 + byte b div 16),
      symbol enc (byte b mod 16 * 4 + byte c div 64), symbol enc (byte c mod 64)] @ EncodeToString enc s"

section \<open>Decoding\<close>

text \<open>The bytes of two, three and four symbols.\<close>

definition bytes2 :: "nat \<Rightarrow> nat \<Rightarrow> string" where
  "bytes2 i j = [char_of_byte (i * 4 + j div 16)]"

definition bytes3 :: "nat \<Rightarrow> nat \<Rightarrow> nat \<Rightarrow> string" where
  "bytes3 i j k = [char_of_byte (i * 4 + j div 16), char_of_byte (j mod 16 * 16 + k div 4)]"

definition bytes4 :: "nat \<Rightarrow> nat \<Rightarrow> nat \<Rightarrow> nat \<Rightarrow> string" where
  "bytes4 i j k l = [char_of_byte (i * 4 + j div 16), char_of_byte (j mod 16 * 16 + k div 4), char_of_byte (k mod 4 * 64 + l)]"

definition corrupt_input :: goerr where
  "corrupt_input = ErrText ''illegal base64 data''"

fun decode_quanta :: "encoding \<Rightarrow> string \<Rightarrow> string option" where
  "decode_quanta enc [] = Some []"
| "decode_quanta enc [a] = None"
| "decode_quanta enc [a, b] =
     (if enc_padded enc then None
      else case (value_of enc a, value_of enc b) of (Some i, Some j) \<Rightarrow> Some (bytes2 i j) | _ \<Rightarrow> None)"
| "decode_quanta enc [a, b, c] =
     (if enc_padded enc then None
      else case (value_of enc a, value_of enc b, value_of enc c) of
        (Some i, Some j, Some k) \<Rightarrow> Some (bytes3 i j k) | _ \<Rightarrow> None)"
| "decode_quanta enc (a # b # c # d # s) =
     (case (value_of enc a, value_of enc b) of
        (Some i, Some j) \<Rightarrow>
          (case (value_of enc c, value_of enc d) of
             (Some k, Some l) \<Rightarrow> map_option (\<lambda>r. bytes4 i j k l @ r) (decode_quanta enc s)
           | (Some k, None) \<Rightarrow> if enc_padded enc \<and> d = CHR ''='' \<and> s = [] then Some (bytes3 i j k) else None
           | (None, _) \<Rightarrow> if enc_padded enc \<and> c = CHR ''='' \<and> d = CHR ''='' \<and> s = [] then Some (bytes2 i j) else None)
      | _ \<Rightarrow> None)"

text \<open>\<open>DecodeString\<close>: line feeds and carriage returns are skipped.\<close>

definition line_break :: "char \<Rightarrow> bool" where
  "line_break c \<longleftrightarrow> byte c = 10 \<or> byte c = 13"

definition DecodeString :: "encoding \<Rightarrow> string \<Rightarrow> goerr + string" where
  "DecodeString enc s = (case decode_quanta enc (filter (\<lambda>c. \<not> line_break c) s) of
      None \<Rightarrow> Inl corrupt_input | Some bs \<Rightarrow> Inr bs)"

section \<open>Round trip\<close>

definition codes :: "encoding \<Rightarrow> bool" where
  "codes enc \<longleftrightarrow> (\<forall>i<64. value_of enc (symbol enc i) = Some i \<and> \<not> line_break (symbol enc i)) \<and> value_of enc CHR ''='' = None"

lemma codes_list:
  "codes enc \<longleftrightarrow> list_all (\<lambda>i. value_of enc (symbol enc i) = Some i \<and> \<not> line_break (symbol enc i)) [0..<64]
    \<and> value_of enc CHR ''='' = None"
  by (auto simp: codes_def list_all_iff)

lemma std_codes: "codes StdEncoding" unfolding codes_list by code_simp

lemma url_codes: "codes RawURLEncoding" unfolding codes_list by code_simp

lemma value_of_symbol: "codes enc \<Longrightarrow> i < 64 \<Longrightarrow> value_of enc (symbol enc i) = Some i"
  by (simp add: codes_def)

text \<open>The six-bit pieces of bytes.\<close>

lemma piece_less:
  "byte a div 4 < 64" "byte a mod 4 * 16 < 64" "byte a mod 4 * 16 + byte b div 16 < 64"
  "byte b mod 16 * 4 < 64" "byte b mod 16 * 4 + byte c div 64 < 64" "byte c mod 64 < 64"
  using byte_less[of a] byte_less[of b] byte_less[of c] by linarith+

lemma joined:
  "bytes2 (byte a div 4) (byte a mod 4 * 16) = [a]"
  "bytes3 (byte a div 4) (byte a mod 4 * 16 + byte b div 16) (byte b mod 16 * 4) = [a, b]"
  "bytes4 (byte a div 4) (byte a mod 4 * 16 + byte b div 16) (byte b mod 16 * 4 + byte c div 64) (byte c mod 64) = [a, b, c]"
proof -
  have "byte b div 16 < 16" "byte c div 64 < 4" using byte_less[of b] byte_less[of c] by linarith+
  then have "byte a div 4 * 4 + (byte a mod 4 * 16) div 16 = byte a"
    "byte a div 4 * 4 + (byte a mod 4 * 16 + byte b div 16) div 16 = byte a"
    "(byte a mod 4 * 16 + byte b div 16) mod 16 * 16 + (byte b mod 16 * 4) div 4 = byte b"
    "(byte a mod 4 * 16 + byte b div 16) mod 16 * 16 + (byte b mod 16 * 4 + byte c div 64) div 4 = byte b"
    "(byte b mod 16 * 4 + byte c div 64) mod 4 * 64 + byte c mod 64 = byte c"
    by (simp_all add: div_mult_mod_eq mult.commute)
  then show "bytes2 (byte a div 4) (byte a mod 4 * 16) = [a]"
    "bytes3 (byte a div 4) (byte a mod 4 * 16 + byte b div 16) (byte b mod 16 * 4) = [a, b]"
    "bytes4 (byte a div 4) (byte a mod 4 * 16 + byte b div 16) (byte b mod 16 * 4 + byte c div 64) (byte c mod 64) = [a, b, c]"
    by (simp_all add: bytes2_def bytes3_def bytes4_def)
qed

lemma decode_encoded: "codes enc \<Longrightarrow> decode_quanta enc (EncodeToString enc s) = Some s"
proof (induction enc s rule: EncodeToString.induct)
  case (2 enc a)
  then show ?case
    by (simp add: padding_def numeral_2_eq_2 value_of_symbol piece_less joined codes_def[THEN iffD1, THEN conjunct2])
next
  case (3 enc a b)
  then show ?case
    by (simp add: padding_def numeral_2_eq_2 value_of_symbol piece_less joined codes_def[THEN iffD1, THEN conjunct2])
next
  case (4 enc a b c s)
  then show ?case by (simp add: value_of_symbol piece_less joined)
qed simp

lemma encoded_no_break: "codes enc \<Longrightarrow> filter (\<lambda>c. \<not> line_break c) (EncodeToString enc s) = EncodeToString enc s"
proof (induction enc s rule: EncodeToString.induct)
  have eq: "\<not> line_break CHR ''=''" by (simp add: line_break_def byte_def)
  {
    case (2 enc a)
    then show ?case using eq by (simp add: padding_def codes_def piece_less)
  next
    case (3 enc a b)
    then show ?case using eq by (simp add: padding_def codes_def piece_less)
  next
    case (4 enc a b c s)
    then show ?case by (simp add: codes_def piece_less)
  }
qed simp

lemma base64_roundtrip: "codes enc \<Longrightarrow> DecodeString enc (EncodeToString enc s) = Inr s"
  by (simp add: DecodeString_def encoded_no_break decode_encoded)

lemma encoded_nonempty: "s \<noteq> [] \<Longrightarrow> EncodeToString enc s \<noteq> []"
  by (cases "(enc, s)" rule: EncodeToString.cases) auto

end
