(* ===== verification/GoJson.thy ===== *)
theory GoJson
  imports Http GoBase64
begin

text \<open>
  The text of \<open>encoding/json\<close>: what \<open>json.Marshal\<close> writes for a document and what
  \<open>json.Unmarshal\<close> makes of a text before it is stored into a struct. A string is a list of
  bytes in UTF-8. How a \<open>float64\<close> is written is an argument; a number that is read with a
  fraction or an exponent is a rational, and the limit on nesting (10000) is left out.
\<close>

section \<open>UTF-8\<close>

definition byte_between :: "nat \<Rightarrow> nat \<Rightarrow> string \<Rightarrow> bool" where
  "byte_between lo hi s = (case s of [] \<Rightarrow> False | c # _ \<Rightarrow> lo \<le> byte c \<and> byte c \<le> hi)"

definition more_bytes :: "nat \<Rightarrow> string \<Rightarrow> bool" where
  "more_bytes n s \<longleftrightarrow> length (take n s) = n \<and> list_all (\<lambda>c. 128 \<le> byte c \<and> byte c \<le> 191) (take n s)"

text \<open>\<open>utf8.DecodeRune\<close>: the number of bytes of the first rune, 0 when they are none.\<close>

definition rune_size :: "string \<Rightarrow> nat" where
  "rune_size s = (case s of [] \<Rightarrow> 0 | c # r \<Rightarrow>
     let b = byte c in
     if b < 128 then 1
     else if 194 \<le> b \<and> b \<le> 223 \<and> more_bytes 1 r then 2
     else if 224 \<le> b \<and> b \<le> 239 \<and> more_bytes 2 r \<and> (b = 224 \<longrightarrow> byte_between 160 191 r) \<and> (b = 237 \<longrightarrow> byte_between 128 159 r) then 3
     else if 240 \<le> b \<and> b \<le> 244 \<and> more_bytes 3 r \<and> (b = 240 \<longrightarrow> byte_between 144 191 r) \<and> (b = 244 \<longrightarrow> byte_between 128 143 r) then 4
     else 0)"

definition utf8_bytes :: "nat \<Rightarrow> string" where
  "utf8_bytes n = map char_of_byte
     (if n < 128 then [n]
      else if n < 2048 then [192 + n div 64, 128 + n mod 64]
      else if n < 65536 then [224 + n div 4096, 128 + n div 64 mod 64, 128 + n mod 64]
      else [240 + n div 262144, 128 + n div 4096 mod 64, 128 + n div 64 mod 64, 128 + n mod 64])"

text \<open>\<open>unicode.ReplacementChar\<close>, U+FFFD.\<close>

definition replacement :: string where "replacement = utf8_bytes 65533"

section \<open>Writing\<close>

definition hex_digit :: "nat \<Rightarrow> char" where
  "hex_digit n = ''0123456789abcdef'' ! (n mod 16)"

definition escaped :: "char \<Rightarrow> string" where
  "escaped c = [CHR 0x5C, CHR ''u'', CHR ''0'', CHR ''0'', hex_digit (byte c div 16), hex_digit (byte c)]"

text \<open>A byte below 128, with the escapes that keep it out of HTML.\<close>

definition write_ascii :: "char \<Rightarrow> string" where
  "write_ascii c =
    (if c = CHR 0x22 \<or> c = CHR 0x5C then [CHR 0x5C, c]
     else if c = CHR 0x08 then [CHR 0x5C, CHR ''b''] else if c = CHR 0x0C then [CHR 0x5C, CHR ''f'']
     else if c = CHR 0x0A then [CHR 0x5C, CHR ''n''] else if c = CHR 0x0D then [CHR 0x5C, CHR ''r'']
     else if c = CHR 0x09 then [CHR 0x5C, CHR ''t'']
     else if byte c < 32 \<or> c = CHR ''<'' \<or> c = CHR ''>'' \<or> c = CHR ''&'' then escaped c
     else [c])"

text \<open>\<open>appendString\<close>; the separators U+2028 and U+2029 are written as escapes, too.\<close>

function write_bytes :: "string \<Rightarrow> string" where
  "write_bytes s =
    (let n = rune_size s in
     if s = [] then []
     else if byte (hd s) < 128 then write_ascii (hd s) @ write_bytes (tl s)
     else if n = 0 then [CHR 0x5C, CHR ''u'', CHR ''f'', CHR ''f'', CHR ''f'', CHR ''d''] @ write_bytes (tl s)
     else if take n s = utf8_bytes 8232 then [CHR 0x5C, CHR ''u'', CHR ''2'', CHR ''0'', CHR ''2'', CHR ''8''] @ write_bytes (drop n s)
     else if take n s = utf8_bytes 8233 then [CHR 0x5C, CHR ''u'', CHR ''2'', CHR ''0'', CHR ''2'', CHR ''9''] @ write_bytes (drop n s)
     else take n s @ write_bytes (drop n s))"
  by pat_completeness auto

termination write_bytes
  by (relation "measure length") (auto simp: neq_Nil_conv)

declare write_bytes.simps [simp del]

definition write_string :: "string \<Rightarrow> string" where
  "write_string s = CHR 0x22 # write_bytes s @ [CHR 0x22]"

fun commas :: "string list \<Rightarrow> string" where
  "commas [] = []"
| "commas [x] = x"
| "commas (x # y # xs) = x @ CHR '','' # commas (y # xs)"

fun write_json :: "(rat \<Rightarrow> string) \<Rightarrow> json \<Rightarrow> string" where
  "write_json fl JNull = ''null''"
| "write_json fl (JBool b) = (if b then ''true'' else ''false'')"
| "write_json fl (JNum i) = show_int i"
| "write_json fl (JFloat x) = fl x"
| "write_json fl (JStr s) = write_string s"
| "write_json fl (JArr js) = ''['' @ commas (map (write_json fl) js) @ '']''"
| "write_json fl (JObj ms) = ''{'' @ commas (map (\<lambda>(k, j). write_string k @ '':'' @ write_json fl j) ms) @ ''}''"

section \<open>Reading strings\<close>

definition hex_value :: "char \<Rightarrow> nat option" where
  "hex_value c = (let b = byte c in
     if 48 \<le> b \<and> b \<le> 57 then Some (b - 48) else if 97 \<le> b \<and> b \<le> 102 then Some (b - 87)
     else if 65 \<le> b \<and> b \<le> 70 then Some (b - 55) else None)"

definition hex4 :: "string \<Rightarrow> (nat \<times> string) option" where
  "hex4 s = (case s of
      a # b # c # d # r \<Rightarrow> (case (hex_value a, hex_value b, hex_value c, hex_value d) of
          (Some i, Some j, Some k, Some l) \<Rightarrow> Some (((i * 16 + j) * 16 + k) * 16 + l, r) | _ \<Rightarrow> None)
    | _ \<Rightarrow> None)"

text \<open>The second half of a surrogate pair, when an escape with one follows.\<close>

definition low_surrogate :: "string \<Rightarrow> (nat \<times> string) option" where
  "low_surrogate s = (if take 2 s = [CHR 0x5C, CHR ''u''] then
     (case hex4 (drop 2 s) of Some (n, r) \<Rightarrow> if 56320 \<le> n \<and> n \<le> 57343 then Some (n, r) else None | None \<Rightarrow> None)
     else None)"

definition simple_escape :: "char \<Rightarrow> char option" where
  "simple_escape e =
    (if e = CHR 0x22 \<or> e = CHR 0x5C \<or> e = CHR ''/'' then Some e
     else if e = CHR ''b'' then Some CHR 0x08 else if e = CHR ''f'' then Some CHR 0x0C
     else if e = CHR ''n'' then Some CHR 0x0A else if e = CHR ''r'' then Some CHR 0x0D
     else if e = CHR ''t'' then Some CHR 0x09 else None)"

text \<open>The escape after a backslash: its bytes and what follows.\<close>

definition read_escape :: "string \<Rightarrow> (string \<times> string) option" where
  "read_escape s = (case s of [] \<Rightarrow> None | e # r \<Rightarrow>
     if e = CHR ''u'' then (case hex4 r of None \<Rightarrow> None | Some (n, t) \<Rightarrow>
       if 55296 \<le> n \<and> n \<le> 57343 then
         (case low_surrogate t of
            Some (m, t') \<Rightarrow> if n \<le> 56319 then Some (utf8_bytes (65536 + (n - 55296) * 1024 + (m - 56320)), t')
                           else Some (replacement, t)
          | None \<Rightarrow> Some (replacement, t))
       else Some (utf8_bytes n, t))
     else map_option (\<lambda>x. ([x], r)) (simple_escape e))"

text \<open>One piece of a string: an escape, a rune, or a byte that is none.\<close>

definition read_piece :: "string \<Rightarrow> (string \<times> string) option" where
  "read_piece s = (case s of [] \<Rightarrow> None | c # r \<Rightarrow>
     if c = CHR 0x5C then read_escape r
     else if byte c < 32 then None
     else if byte c < 128 then Some ([c], r)
     else let n = rune_size s in if n = 0 then Some (replacement, r) else Some (take n s, drop n s))"

lemma hex4_shorter: "hex4 s = Some (n, r) \<Longrightarrow> length r < length s"
  by (auto simp: hex4_def split: list.splits option.splits)

lemma low_surrogate_shorter: "low_surrogate s = Some (n, r) \<Longrightarrow> length r < length s"
  by (auto simp: low_surrogate_def dest!: hex4_shorter split: if_splits option.splits)

lemma read_escape_shorter: "read_escape s = Some (p, r) \<Longrightarrow> length r < length s"
  by (auto simp: read_escape_def dest!: hex4_shorter low_surrogate_shorter split: list.splits if_splits option.splits)

lemma read_piece_shorter: "read_piece s = Some (p, r) \<Longrightarrow> length r < length s"
  by (auto simp: read_piece_def Let_def dest!: read_escape_shorter split: list.splits if_splits)

text \<open>A string up to its closing quote.\<close>

function read_string :: "string \<Rightarrow> (string \<times> string) option" where
  "read_string s =
    (if take 1 s = [CHR 0x22] then Some ([], tl s)
     else case read_piece s of None \<Rightarrow> None
       | Some (p, r) \<Rightarrow> map_option (\<lambda>(q, t). (p @ q, t)) (read_string r))"
  by pat_completeness auto

termination read_string
  by (relation "measure length") (auto dest: read_piece_shorter)

declare read_string.simps [simp del]

section \<open>Reading documents\<close>

definition skip_blanks :: "string \<Rightarrow> string" where
  "skip_blanks = dropWhile (\<lambda>c. byte c \<in> {32, 9, 10, 13})"

lemma skip_blanks_length: "length (skip_blanks s) \<le> length s"
  by (simp add: skip_blanks_def length_dropWhile_le)

definition digits_of :: "string \<Rightarrow> string \<times> string" where
  "digits_of s = (takeWhile is_digit s, dropWhile is_digit s)"

text \<open>The fraction and the exponent of a number, if it has them.\<close>

definition read_fraction :: "string \<Rightarrow> (rat option \<times> string) option" where
  "read_fraction s = (if take 1 s = ''.'' then
     (let (ds, r) = digits_of (tl s) in
      if ds = [] then None else Some (Some (of_nat (read_nat ds) / 10 ^ length ds), r))
     else Some (None, s))"

definition read_exponent :: "string \<Rightarrow> (int option \<times> string) option" where
  "read_exponent s = (if take 1 s = ''e'' \<or> take 1 s = ''E'' then
     (let neg = (take 1 (tl s) = ''-''); signed = neg \<or> take 1 (tl s) = ''+'';
          (ds, r) = digits_of (if signed then drop 2 s else tl s) in
      if ds = [] then None else Some (Some (if neg then - int (read_nat ds) else int (read_nat ds)), r))
     else Some (None, s))"

text \<open>A number begins with one zero or with a digit that is none.\<close>

definition read_number :: "string \<Rightarrow> (json \<times> string) option" where
  "read_number s =
    (let neg = (take 1 s = ''-''); s1 = (if neg then tl s else s);
         (ds, r) = (if take 1 s1 = ''0'' then (''0'', tl s1) else digits_of s1);
         i = (if neg then - int (read_nat ds) else int (read_nat ds)) in
     if ds = [] then None
     else Option.bind (read_fraction r) (\<lambda>(fr, r).
       Option.bind (read_exponent r) (\<lambda>(ex, r).
         Some (if fr = None \<and> ex = None then JNum i
               else let m = of_nat (read_nat ds) + (case fr of None \<Rightarrow> 0 | Some x \<Rightarrow> x);
                        e = (case ex of None \<Rightarrow> 0 | Some x \<Rightarrow> x);
                        x = (if e < 0 then m / 10 ^ nat (- e) else m * 10 ^ nat e)
                    in JFloat (if neg then - x else x), r))))"

definition starts :: "string \<Rightarrow> string \<Rightarrow> bool" where
  "starts p s \<longleftrightarrow> take (length p) s = p"

text \<open>Literals, strings and numbers.\<close>

definition read_scalar :: "string \<Rightarrow> (json \<times> string) option" where
  "read_scalar s =
    (if starts ''null'' s then Some (JNull, drop 4 s)
     else if starts ''true'' s then Some (JBool True, drop 4 s)
     else if starts ''false'' s then Some (JBool False, drop 5 s)
     else if starts [CHR 0x22] s then map_option (\<lambda>(x, r). (JStr x, r)) (read_string (tl s))
     else read_number s)"

lemma read_string_shorter: "read_string s = Some (p, r) \<Longrightarrow> length r < length s"
proof (induction s arbitrary: p rule: read_string.induct)
  case (1 s)
  show ?case
  proof (cases "take 1 s = [CHR 0x22]")
    case True
    then have "read_string s = Some ([], tl s)" "s \<noteq> []" by (auto simp: read_string.simps[of s])
    with "1.prems" show ?thesis by (cases s) simp_all
  next
    case False
    with "1.prems" obtain q t p' where piece: "read_piece s = Some (q, t)" and rest: "read_string t = Some (p', r)"
      by (auto simp: read_string.simps[of s] split: option.splits)
    from "1.IH"[OF False piece refl rest] read_piece_shorter[OF piece] show ?thesis by simp
  qed
qed

text \<open>
  Values, the elements of an array and the members of an object. What a value leaves over is
  never longer than what it was given; the comparisons of lengths are there for termination.
\<close>

function (sequential) read_value :: "string \<Rightarrow> (json \<times> string) option"
  and read_elements :: "string \<Rightarrow> (json list \<times> string) option"
  and read_members :: "string \<Rightarrow> ((string \<times> json) list \<times> string) option" where
  "read_value s0 =
    (let s = skip_blanks s0 in
     if starts ''['' s then
       (if starts '']'' (skip_blanks (tl s)) then Some (JArr [], tl (skip_blanks (tl s)))
        else map_option (\<lambda>(js, t). (JArr js, t)) (read_elements (tl s)))
     else if starts ''{'' s then
       (if starts ''}'' (skip_blanks (tl s)) then Some (JObj [], tl (skip_blanks (tl s)))
        else map_option (\<lambda>(ms, t). (JObj ms, t)) (read_members (tl s)))
     else read_scalar s)"
| "read_elements s =
    (case read_value s of None \<Rightarrow> None | Some (j, r0) \<Rightarrow>
      let r = skip_blanks r0 in
      if starts '','' r \<and> length r \<le> length s then map_option (\<lambda>(js, t). (j # js, t)) (read_elements (tl r))
      else if starts '']'' r then Some ([j], tl r) else None)"
| "read_members s0 =
    (let s = skip_blanks s0 in
     if starts [CHR 0x22] s then
       (case read_string (tl s) of None \<Rightarrow> None | Some (k, r0) \<Rightarrow>
         let r = skip_blanks r0 in
         if starts '':'' r then
           (case read_value (tl r) of None \<Rightarrow> None | Some (j, t0) \<Rightarrow>
             let t = skip_blanks t0 in
             if starts '','' t \<and> length t \<le> length s0 then map_option (\<lambda>(ms, u). ((k, j) # ms, u)) (read_members (tl t))
             else if starts ''}'' t then Some ([(k, j)], tl t) else None)
         else None)
     else None)"
  by pat_completeness auto

lemma starts_shorter: "starts [c] s \<Longrightarrow> length (tl s) < length s"
  by (cases s) (auto simp: starts_def)

lemma starts_skip:
  "starts [c] (skip_blanks s) \<Longrightarrow> length (tl (skip_blanks s)) < length (skip_blanks s) \<and> length (tl (skip_blanks s)) < length s"
  using starts_shorter[of c "skip_blanks s"] skip_blanks_length[of s] by simp

termination read_value
  by (relation "measure (\<lambda>x. case x of Inl s \<Rightarrow> 2 * length s | Inr (Inl s) \<Rightarrow> 2 * length s + 1 | Inr (Inr s) \<Rightarrow> 2 * length s + 1)")
    (auto dest!: starts_skip read_string_shorter)

declare read_value.simps [simp del] read_elements.simps [simp del] read_members.simps [simp del]

definition invalid_json :: goerr where "invalid_json = ErrText ''invalid JSON''"

definition Unmarshal :: "string \<Rightarrow> goerr + json" where
  "Unmarshal s = (case read_value s of
      Some (j, r) \<Rightarrow> if skip_blanks r = [] then Inr j else Inl invalid_json
    | None \<Rightarrow> Inl invalid_json)"

end
