(* ===== verification/GoJsonFacts.thy ===== *)
theory GoJsonFacts
  imports GoJson GoTimeFacts
begin

text \<open>
  What \<open>json.Marshal\<close> writes is read back by \<open>json.Unmarshal\<close>, for documents of ASCII strings
  and integers, whatever they hold.
\<close>

section \<open>Strings\<close>

definition ascii :: "string \<Rightarrow> bool" where
  "ascii s \<longleftrightarrow> list_all (\<lambda>c. byte c < 128) s"

lemma ascii_simps [simp]: "ascii []" "ascii (c # s) \<longleftrightarrow> byte c < 128 \<and> ascii s" "ascii (s @ t) \<longleftrightarrow> ascii s \<and> ascii t"
  by (simp_all add: ascii_def)

lemma hex_value_digit: "hex_value (hex_digit n) = Some (n mod 16)"
proof -
  have "list_all (\<lambda>i. hex_value (''0123456789abcdef'' ! i) = Some i) [0..<16]" by code_simp
  then have "\<forall>i<16. hex_value (''0123456789abcdef'' ! i) = Some i" by (auto simp: list_all_iff)
  then show ?thesis by (simp add: hex_digit_def)
qed

lemma utf8_ascii: "byte c < 128 \<Longrightarrow> utf8_bytes (byte c) = [c]"
  by (simp add: utf8_bytes_def)

lemma escaped_read:
  assumes "byte c < 128"
  shows "read_piece (escaped c @ r) = Some ([c], r)"
proof -
  have zero: "hex_value CHR ''0'' = Some 0" by code_simp
  have "byte c div 16 mod 16 * 16 + byte c mod 16 = byte c" using assms by simp
  then have "hex4 (CHR ''0'' # CHR ''0'' # hex_digit (byte c div 16) # hex_digit (byte c) # r) = Some (byte c, r)"
    by (simp add: hex4_def hex_value_digit zero)
  then show ?thesis using assms by (simp add: read_piece_def escaped_def read_escape_def utf8_ascii)
qed

lemma ascii_read:
  assumes "byte c < 128"
  shows "read_piece (write_ascii c @ r) = Some ([c], r)" and "take 1 (write_ascii c @ r) \<noteq> [CHR 0x22]"
proof -
  have e: "simple_escape CHR 0x22 = Some CHR 0x22" "simple_escape CHR 0x5C = Some CHR 0x5C" "simple_escape CHR ''b'' = Some CHR 0x08"
    "simple_escape CHR ''f'' = Some CHR 0x0C" "simple_escape CHR ''n'' = Some CHR 0x0A"
    "simple_escape CHR ''r'' = Some CHR 0x0D" "simple_escape CHR ''t'' = Some CHR 0x09"
    by (simp_all add: simple_escape_def)
  show "read_piece (write_ascii c @ r) = Some ([c], r)"
  proof (cases "byte c < 32 \<or> c = CHR ''<'' \<or> c = CHR ''>'' \<or> c = CHR ''&''")
    case True
    then show ?thesis
      unfolding write_ascii_def using assms
      by (simp add: escaped_read) (auto simp: read_piece_def read_escape_def e)
  next
    case False
    then show ?thesis
      unfolding write_ascii_def using assms
      by (auto simp: read_piece_def read_escape_def e byte_def)
  qed
  show "take 1 (write_ascii c @ r) \<noteq> [CHR 0x22]"
    by (simp add: write_ascii_def escaped_def)
qed

lemma read_string_written: "ascii s \<Longrightarrow> read_string (write_bytes s @ CHR 0x22 # rest) = Some (s, rest)"
proof (induction s)
  case Nil
  then show ?case by (simp add: write_bytes.simps[of "[]"] read_string.simps)
next
  case (Cons c s)
  then have "write_bytes (c # s) = write_ascii c @ write_bytes s" by (simp add: write_bytes.simps[of "c # s"])
  with Cons ascii_read[of c "write_bytes s @ CHR 0x22 # rest"] show ?case
    by (simp add: read_string.simps[of "write_ascii c @ write_bytes s @ CHR 0x22 # rest"])
qed

section \<open>Integers\<close>

text \<open>What may follow a value inside a document.\<close>

definition stops :: "string \<Rightarrow> bool" where
  "stops r \<longleftrightarrow> r = [] \<or> hd r \<in> {CHR '','', CHR '']'', CHR ''}''}"

lemma stops_not_digit: "stops (c # r) \<Longrightarrow> \<not> is_digit c"
  by (auto simp: stops_def is_digit_def)

lemma stops_no_more: "stops r \<Longrightarrow> read_fraction r = Some (None, r) \<and> read_exponent r = Some (None, r)"
  by (cases r) (auto simp: stops_def read_fraction_def read_exponent_def)

lemma digits_of_show:
  assumes "stops r"
  shows "digits_of (show_nat n @ r) = (show_nat n, r)"
proof -
  have "\<forall>c\<in>set (show_nat n). is_digit c" using show_nat_digits by (simp add: list_all_iff)
  moreover have "takeWhile is_digit r = []" "dropWhile is_digit r = r"
    using assms stops_not_digit by (cases r; auto)+
  ultimately show ?thesis by (simp add: digits_of_def takeWhile_append2 dropWhile_append2)
qed

lemma show_nat_nonempty: "show_nat n \<noteq> []"
  by (subst show_nat.simps) simp

lemma show_nat_zero: "hd (show_nat n) = CHR ''0'' \<Longrightarrow> n = 0"
proof (induction n rule: show_nat.induct)
  case (1 n)
  show ?case
  proof (cases "n < 10")
    case True
    with 1(2) show ?thesis using less_ten_cases[OF True] by (auto simp: show_nat.simps[of n] digit_def)
  next
    case False
    with 1(2) have "hd (show_nat (n div 10)) = CHR ''0''" by (simp add: show_nat.simps[of n] show_nat_nonempty)
    with 1(1) False have "n div 10 = 0" by simp
    with False show ?thesis by simp
  qed
qed

lemma show_zero: "show_nat 0 = ''0''" by (simp add: show_nat.simps digit_def)

lemma read_number_show:
  assumes "stops r"
  shows "read_number (show_int i @ r) = Some (JNum i, r)"
proof -
  have ds: "(if take 1 (show_nat n @ r) = ''0'' then (''0'', tl (show_nat n @ r)) else digits_of (show_nat n @ r)) = (show_nat n, r)" for n
  proof (cases "take 1 (show_nat n @ r) = ''0''")
    case True
    then have "n = 0" using show_nat_nonempty[of n] by (intro show_nat_zero) (cases "show_nat n"; simp)
    then show ?thesis by (simp add: show_zero)
  qed (simp add: digits_of_show assms)
  have hyphen: "take 1 (show_nat n @ r) \<noteq> ''-''" for n
    using show_nat_nonempty[of n] show_nat_no_hyphen[of n] by (cases "show_nat n") auto
  note more = stops_no_more[OF assms]
  show ?thesis
  proof (cases "i < 0")
    case True
    then show ?thesis
      using ds[of "nat (- i)"] more show_nat_nonempty[of "nat (- i)"]
      by (simp add: read_number_def show_int_def read_show_nat)
  next
    case False
    then show ?thesis
      using ds[of "nat i"] hyphen[of "nat i"] more show_nat_nonempty[of "nat i"]
      by (simp add: read_number_def show_int_def read_show_nat)
  qed
qed

section \<open>Documents\<close>

text \<open>Documents without floating point numbers whose strings are ASCII.\<close>

fun plain :: "json \<Rightarrow> bool" where
  "plain (JFloat x) = False"
| "plain (JStr s) = ascii s"
| "plain (JArr js) = list_all plain js"
| "plain (JObj ms) = list_all (\<lambda>(k, j). ascii k \<and> plain j) ms"
| "plain j = True"

lemma skip_blanks_cons: "byte c \<notin> {32, 9, 10, 13} \<Longrightarrow> skip_blanks (c # s) = c # s"
  by (simp add: skip_blanks_def)

lemma skip_blanks_nil [simp]: "skip_blanks [] = []"
  by (simp add: skip_blanks_def)

lemma skip_punctuation [simp]:
  "skip_blanks (CHR '','' # s) = CHR '','' # s" "skip_blanks (CHR '':'' # s) = CHR '':'' # s"
  "skip_blanks (CHR ''['' # s) = CHR ''['' # s" "skip_blanks (CHR '']'' # s) = CHR '']'' # s"
  "skip_blanks (CHR ''{'' # s) = CHR ''{'' # s" "skip_blanks (CHR ''}'' # s) = CHR ''}'' # s"
  "skip_blanks (CHR 0x22 # s) = CHR 0x22 # s"
  by (simp_all add: skip_blanks_def byte_def)

lemma starts_char [simp]: "starts [c] (d # s) \<longleftrightarrow> c = d" "\<not> starts [c] []"
  by (auto simp: starts_def)

text \<open>The first character of a document that was written.\<close>

definition heading :: "char \<Rightarrow> bool" where
  "heading c \<longleftrightarrow> c \<in> set [CHR ''n'', CHR ''t'', CHR ''f'', CHR 0x22, CHR ''['', CHR ''{'', CHR ''-''] \<or> is_digit c"

lemma heading_head: "heading c \<Longrightarrow> skip_blanks (c # s) = c # s \<and> c \<noteq> CHR '']'' \<and> c \<noteq> CHR ''}''"
  by (auto simp: heading_def is_digit_def skip_blanks_def byte_def less_eq_char_def)

lemma show_int_heading: "\<exists>c s. show_int i = c # s \<and> (c = CHR ''-'' \<or> is_digit c)"
proof (cases "i < 0")
  case False
  then show ?thesis using show_nat_nonempty[of "nat i"] show_nat_digits[of "nat i"]
    by (cases "show_nat (nat i)") (auto simp: show_int_def)
qed (simp add: show_int_def)

lemma written_heading:
  assumes "plain j"
  shows "\<exists>c s. write_json fl j = c # s \<and> heading c"
  using assms show_int_heading[of "case j of JNum i \<Rightarrow> i"]
  by (cases j) (auto simp: heading_def write_string_def)

lemma read_scalar_string:
  "ascii x \<Longrightarrow> read_scalar (write_string x @ r) = Some (JStr x, r)"
  using read_string_written[of x r] by (simp add: read_scalar_def starts_def write_string_def)

lemma read_scalar_number:
  assumes "stops r"
  shows "read_scalar (show_int i @ r) = Some (JNum i, r)"
proof -
  obtain c s where h: "show_int i = c # s" "c = CHR ''-'' \<or> is_digit c" using show_int_heading by blast
  then have "c \<noteq> CHR ''n''" "c \<noteq> CHR ''t''" "c \<noteq> CHR ''f''" "c \<noteq> CHR 0x22" by (auto simp: is_digit_def)
  with h(1) have "read_scalar (show_int i @ r) = read_number (show_int i @ r)"
    by (simp add: read_scalar_def starts_def)
  with read_number_show[OF assms] show ?thesis by simp
qed

text \<open>A value that was written is read back, and what follows it is left.\<close>

definition reads :: "(rat \<Rightarrow> string) \<Rightarrow> json \<Rightarrow> bool" where
  "reads fl j \<longleftrightarrow> (\<forall>r. stops r \<longrightarrow> read_value (write_json fl j @ r) = Some (j, r))"

lemma readsD: "reads fl j \<Longrightarrow> stops r \<Longrightarrow> read_value (write_json fl j @ r) = Some (j, r)"
  by (simp add: reads_def)

lemma stops_char [simp]: "stops (CHR '','' # r)" "stops (CHR '']'' # r)" "stops (CHR ''}'' # r)" "stops []"
  by (simp_all add: stops_def)

lemma read_elements_written:
  assumes "js \<noteq> []" and "\<And>j. j \<in> set js \<Longrightarrow> reads fl j"
  shows "read_elements (commas (map (write_json fl) js) @ CHR '']'' # r) = Some (js, r)"
  using assms
proof (induction js rule: list_nonempty_induct)
  case (single j)
  then show ?case
    by (simp add: read_elements.simps[of "write_json fl j @ _"] readsD[of fl j] Let_def)
next
  case (cons j js)
  let ?rest = "commas (map (write_json fl) js) @ CHR '']'' # r"
  have "read_elements ?rest = Some (js, r)" using cons by simp
  moreover have "read_value (write_json fl j @ CHR '','' # ?rest) = Some (j, CHR '','' # ?rest)"
    using cons by (simp add: readsD)
  moreover have "commas (map (write_json fl) (j # js)) = write_json fl j @ CHR '','' # commas (map (write_json fl) js)"
    using cons(1) by (cases js) simp_all
  ultimately show ?case
    by (simp add: read_elements.simps[of "write_json fl j @ _"] Let_def)
qed

definition write_member :: "(rat \<Rightarrow> string) \<Rightarrow> string \<times> json \<Rightarrow> string" where
  "write_member fl = (\<lambda>(k, j). write_string k @ '':'' @ write_json fl j)"

lemma read_member_written:
  assumes "ascii k" and "reads fl j" and "stops t"
  shows "\<exists>s. write_member fl (k, j) @ t = CHR 0x22 # s \<and> read_string s = Some (k, CHR '':'' # write_json fl j @ t)
    \<and> read_value (write_json fl j @ t) = Some (j, t)"
  using assms read_string_written[OF assms(1), of "CHR '':'' # write_json fl j @ t"]
  by (simp add: write_member_def write_string_def readsD)

lemma read_members_written:
  assumes "ms \<noteq> []" and "\<And>k j. (k, j) \<in> set ms \<Longrightarrow> ascii k \<and> reads fl j"
  shows "read_members (commas (map (write_member fl) ms) @ CHR ''}'' # r) = Some (ms, r)"
  using assms
proof (induction ms rule: list_nonempty_induct)
  case (single m)
  obtain k j where m: "m = (k, j)" by (cases m)
  with single read_member_written[of k fl j "CHR ''}'' # r"] show ?case
    by (auto simp: read_members.simps[of "CHR 0x22 # _"] Let_def)
next
  case (cons m ms)
  obtain k j where m: "m = (k, j)" by (cases m)
  let ?rest = "commas (map (write_member fl) ms) @ CHR ''}'' # r"
  have "read_members ?rest = Some (ms, r)" using cons(2,3) by auto
  moreover obtain s where s: "write_member fl (k, j) @ CHR '','' # ?rest = CHR 0x22 # s"
      "read_string s = Some (k, CHR '':'' # write_json fl j @ CHR '','' # ?rest)"
      "read_value (write_json fl j @ CHR '','' # ?rest) = Some (j, CHR '','' # ?rest)"
    using read_member_written[of k fl j "CHR '','' # ?rest"] cons(3)[of k j] m by auto
  moreover have "length (CHR '','' # ?rest) \<le> length (CHR 0x22 # s)"
    unfolding s(1)[symmetric] by simp
  moreover have "commas (map (write_member fl) (m # ms)) @ CHR ''}'' # r = CHR 0x22 # s"
    unfolding s(1)[symmetric] m using cons(1) by (cases ms) simp_all
  ultimately show ?case
    by (simp add: m read_members.simps[of "CHR 0x22 # s"] Let_def)
qed

lemma read_value_scalar:
  assumes "heading c" and "c \<noteq> CHR ''[''" and "c \<noteq> CHR ''{''"
  shows "read_value (c # s) = read_scalar (c # s)"
  using assms heading_head[of c s] by (simp add: read_value.simps[of "c # s"] Let_def)

lemma read_value_written: "plain j \<Longrightarrow> reads fl j"
proof (induction j)
  case (JNum i)
  obtain c s where h: "show_int i = c # s" "c = CHR ''-'' \<or> is_digit c" using show_int_heading by blast
  then have "heading c" "c \<noteq> CHR ''[''" "c \<noteq> CHR ''{''" by (auto simp: heading_def is_digit_def)
  then have "read_value (show_int i @ r) = read_scalar (show_int i @ r)" for r
    using h(1) by (simp add: read_value_scalar)
  then show ?case by (simp add: reads_def read_scalar_number)
next
  case (JStr x)
  then have "read_value (write_string x @ r) = read_scalar (write_string x @ r)" for r
    by (simp add: write_string_def read_value_scalar heading_def)
  with JStr show ?case by (simp add: reads_def read_scalar_string)
next
  case (JArr js)
  have "read_value (write_json fl (JArr js) @ r) = Some (JArr js, r)" for r
  proof (cases js)
    case Nil
    then show ?thesis by (simp add: read_value.simps[of "CHR ''['' # _"] Let_def)
  next
    case (Cons j js')
    moreover obtain c s where "write_json fl j = c # s" "heading c" using written_heading[of j fl] JArr(2) Cons by auto
    ultimately obtain t where t: "commas (map (write_json fl) js) @ CHR '']'' # r = c # t" by (cases js') simp_all
    have "read_elements (c # t) = Some (js, r)"
      unfolding t[symmetric] using JArr Cons by (intro read_elements_written) (auto simp: list_all_iff)
    then show ?thesis
      using heading_head[OF \<open>heading c\<close>, of t] t by (auto simp add: read_value.simps[of "CHR ''['' # _"] Let_def)
  qed
  then show ?case by (simp add: reads_def)
next
  case (JObj ms)
  have eq: "(\<lambda>(k, j). write_string k @ CHR '':'' # write_json fl j) = write_member fl" by (simp add: write_member_def)
  have "read_value (write_json fl (JObj ms) @ r) = Some (JObj ms, r)" for r
  proof (cases ms)
    case Nil
    then show ?thesis by (simp add: read_value.simps[of "CHR ''{'' # _"] Let_def)
  next
    case (Cons m ms')
    then have "\<exists>s. commas (map (write_member fl) ms) @ CHR ''}'' # r = CHR 0x22 # s"
      by (cases ms'; cases m) (simp_all add: write_member_def write_string_def)
    moreover have "read_members (commas (map (write_member fl) ms) @ CHR ''}'' # r) = Some (ms, r)"
    proof (rule read_members_written)
      show "ms \<noteq> []" using Cons by simp
      show "ascii k \<and> reads fl j" if "(k, j) \<in> set ms" for k j
        using that JObj.IH[of "(k, j)" j] JObj.prems by (auto simp: list_all_iff)
    qed
    ultimately show ?thesis
      by (auto simp: read_value.simps[of "CHR ''{'' # _"] Let_def eq)
  qed
  then show ?case by (simp add: reads_def)
next
  case (JFloat x)
  then show ?case by simp
qed (auto simp: reads_def read_value_scalar heading_def read_scalar_def starts_def)

lemma json_roundtrip: "plain j \<Longrightarrow> Unmarshal (write_json fl j) = Inr j"
  using readsD[OF read_value_written, of j "[]" fl] by (simp add: Unmarshal_def)

end
