(* ===== verification/Cursors.thy ===== *)
theory Cursors
  imports GoJsonFacts
begin

text \<open>
  The cursors that clients carry from page to page: base64 of the JSON text of an instant and
  an identifier. Paymanager writes them in \<open>pg_event_sink.go\<close> (with \<open>StdEncoding\<close>), silvergate in
  \<open>productrepo/pg.go\<close> (with \<open>RawURLEncoding\<close>); what either writes it reads back.
\<close>

section \<open>Writing\<close>

text \<open>
  \<open>json.Marshal\<close> of a struct whose only time is \<open>t\<close>. A year that RFC 3339 cannot write is an error;
  both writers drop it, and are left with the nil slice.
\<close>

definition json_years :: "time \<Rightarrow> bool" where
  "json_years t \<longleftrightarrow> 0 \<le> year_of t \<and> year_of t < 10000"

definition json_text :: "json \<Rightarrow> string" where
  "json_text = write_json (\<lambda>_. '''')"

definition marshal_at :: "time \<Rightarrow> json \<Rightarrow> string" where
  "marshal_at t j = (if json_years t then json_text j else [])"

definition token :: "encoding \<Rightarrow> time \<Rightarrow> json \<Rightarrow> string" where
  "token enc t j = EncodeToString enc (marshal_at t j)"

definition read_token :: "encoding \<Rightarrow> string \<Rightarrow> goerr + json" where
  "read_token enc s = bind_sum (DecodeString enc s) Unmarshal"

lemma token_read: "codes enc \<Longrightarrow> json_years t \<Longrightarrow> plain j \<Longrightarrow> read_token enc (token enc t j) = Inr j"
  by (simp add: token_def read_token_def marshal_at_def json_text_def base64_roundtrip json_roundtrip)

lemma token_nonempty: "json_years t \<Longrightarrow> plain j \<Longrightarrow> token enc t j \<noteq> []"
  using written_heading[of j "\<lambda>_. ''''"]
  by (auto simp: token_def marshal_at_def json_text_def intro!: encoded_nonempty)

section \<open>Instants are ASCII\<close>

lemma digits_ascii: "list_all is_digit s \<Longrightarrow> ascii s"
  unfolding ascii_def list_all_iff is_digit_def less_eq_char_def byte_def by auto

lemma show_int_ascii: "ascii (show_int i)"
  using show_nat_digits by (simp add: show_int_def digits_ascii byte_def)

lemma pad_ascii: "ascii (pad n i)"
proof -
  have "ascii (replicate k CHR ''0'')" for k by (simp add: ascii_def byte_def list_all_iff)
  then show ?thesis by (simp add: pad_def Let_def show_int_ascii)
qed

lemma ascii_subset: "ascii s \<Longrightarrow> set t \<subseteq> set s \<Longrightarrow> ascii t"
  by (auto simp: ascii_def list_all_iff)

lemma format_RFC3339_ascii: "ascii (format_RFC3339 t)"
  by (simp add: format_RFC3339_def Let_def pad_ascii byte_def split: prod.split)

lemma instant_ascii: "ascii (format_RFC3339Nano t)"
proof -
  have "ascii (butlast (format_RFC3339 t))"
    by (rule ascii_subset[OF format_RFC3339_ascii]) (auto dest: in_set_butlastD)
  moreover have "ascii (rev (dropWhile (\<lambda>c. c = CHR ''0'') (rev (pad 9 (t mod 1000000000)))))"
    by (rule ascii_subset[OF pad_ascii]) (auto dest: set_dropWhileD)
  ultimately show ?thesis
    by (simp add: format_RFC3339Nano_def Let_def format_RFC3339_ascii byte_def)
qed

lemma json_time_plain [simp]: "plain (json_time t)"
  by (simp add: json_time_def instant_ascii)

section \<open>Event cursors\<close>

type_synonym event_cursor = "time \<times> string"

definition eventCursor_json :: "event_cursor \<Rightarrow> json" where
  "eventCursor_json c = JObj [(''event_id'', JStr (snd c)), (''created_at'', json_time (fst c))]"

definition encodeEventCursor :: "event_cursor \<Rightarrow> string" where
  "encodeEventCursor c = token StdEncoding (fst c) (eventCursor_json c)"

text \<open>
  \<open>return c, json.Unmarshal(b, &c)\<close> is read as the compiler translates it: the call first, then \<open>c\<close>.
\<close>

definition decodeEventCursor :: "string \<Rightarrow> goerr + event_cursor" where
  "decodeEventCursor s =
     bind_sum (read_token StdEncoding s) (\<lambda>j.
     bind_sum (fields_of j) (\<lambda>fs.
     bind_sum (str_field fs ''event_id'') (\<lambda>i.
     bind_sum (time_field fs ''created_at'') (\<lambda>t. Inr (t, i)))))"

lemma event_cursor_roundtrip:
  assumes "json_years t" and "ascii i"
  shows "decodeEventCursor (encodeEventCursor (t, i)) = Inr (t, i)" and "encodeEventCursor (t, i) \<noteq> ''''"
proof -
  have p: "plain (eventCursor_json (t, i))" using assms(2) by (simp add: eventCursor_json_def byte_def)
  have "time_field [(''event_id'', JStr i), (''created_at'', json_time t)] ''created_at'' = Inr t"
    using assms(1) by (intro time_field_marshal) (simp_all add: json_years_def)
  with token_read[OF std_codes assms(1) p] show "decodeEventCursor (encodeEventCursor (t, i)) = Inr (t, i)"
    by (simp add: decodeEventCursor_def encodeEventCursor_def eventCursor_json_def fields_of_def str_field_def)
  show "encodeEventCursor (t, i) \<noteq> ''''"
    using token_nonempty[OF assms(1) p] by (simp add: encodeEventCursor_def)
qed

section \<open>Product cursors\<close>

record Cursor =
  cu_CreatedAt :: time
  cu_ID :: uuid

definition cursorPayload_json :: "Cursor \<Rightarrow> json" where
  "cursorPayload_json c = JObj [(''c'', json_time (cu_CreatedAt c)), (''i'', JStr (cu_ID c))]"

definition EncodeCursor :: "Cursor \<Rightarrow> string" where
  "EncodeCursor c = token RawURLEncoding (cu_CreatedAt c) (cursorPayload_json c)"

text \<open>The identifier is read by \<open>UUID.UnmarshalText\<close>; a missing one, or null, is the zero UUID.\<close>

definition uuid_field ::
  "(string \<Rightarrow> goerr + uuid) \<Rightarrow> (string \<times> json) list \<Rightarrow> string \<Rightarrow> goerr + uuid" where
  "uuid_field uuid_Parse fs name = (case map_of (rev fs) name of
      None \<Rightarrow> Inr ''00000000-0000-0000-0000-000000000000''
    | Some JNull \<Rightarrow> Inr ''00000000-0000-0000-0000-000000000000''
    | Some (JStr s) \<Rightarrow> uuid_Parse s
    | Some _ \<Rightarrow> Inl (unmarshal_type_error name))"

definition DecodeCursor :: "(string \<Rightarrow> goerr + uuid) \<Rightarrow> string \<Rightarrow> goerr + Cursor" where
  "DecodeCursor uuid_Parse s = (case DecodeString RawURLEncoding s of
      Inl err \<Rightarrow> Inl (wrap ''decode cursor'' err)
    | Inr raw \<Rightarrow> map_sum (wrap ''unmarshal cursor'') id
        (bind_sum (Unmarshal raw) (\<lambda>j.
         bind_sum (fields_of j) (\<lambda>fs.
         bind_sum (time_field fs ''c'') (\<lambda>t.
         bind_sum (uuid_field uuid_Parse fs ''i'') (\<lambda>i.
         Inr \<lparr>cu_CreatedAt = t, cu_ID = i\<rparr>))))))"

text \<open>C40. A page token that silvergate publishes is read back as the cursor it was made of.\<close>

theorem page_token_roundtrip:
  assumes "json_years (cu_CreatedAt c)" and "ascii (cu_ID c)" and "uuid_Parse (cu_ID c) = Inr (cu_ID c)"
  shows "DecodeCursor uuid_Parse (EncodeCursor c) = Inr c \<and> EncodeCursor c \<noteq> ''''"
proof -
  have p: "plain (cursorPayload_json c)" using assms(2) by (simp add: cursorPayload_json_def byte_def)
  let ?raw = "marshal_at (cu_CreatedAt c) (cursorPayload_json c)"
  have raw: "DecodeString RawURLEncoding (EncodeCursor c) = Inr ?raw"
    by (simp add: EncodeCursor_def token_def base64_roundtrip url_codes)
  have j: "Unmarshal ?raw = Inr (cursorPayload_json c)"
    using assms(1) p by (simp add: marshal_at_def json_text_def json_roundtrip)
  have "time_field [(''c'', json_time (cu_CreatedAt c)), (''i'', JStr (cu_ID c))] ''c'' = Inr (cu_CreatedAt c)"
    using assms(1) by (intro time_field_marshal) (simp_all add: json_years_def)
  moreover have "fields_of (cursorPayload_json c) = Inr [(''c'', json_time (cu_CreatedAt c)), (''i'', JStr (cu_ID c))]"
    by (simp add: fields_of_def cursorPayload_json_def)
  ultimately have "DecodeCursor uuid_Parse (EncodeCursor c) = Inr c"
    using assms(3) by (simp add: DecodeCursor_def raw j uuid_field_def)
  with token_nonempty[OF assms(1) p] show ?thesis by (simp add: EncodeCursor_def)
qed

text \<open>Noon of the second day of 1970, with a fraction of a second.\<close>

definition sample_cursor :: Cursor where
  "sample_cursor = \<lparr>cu_CreatedAt = 129600500000000, cu_ID = ''1b4e28ba-2fa1-11d2-883f-0016d3cca427''\<rparr>"

definition parse_as_is :: "string \<Rightarrow> goerr + uuid" where
  "parse_as_is s = (if length s = 36 then Inr s else Inl (ErrText ''invalid UUID length''))"

theorem page_token_roundtrip_witness:
  "DecodeCursor parse_as_is (EncodeCursor sample_cursor) = Inr sample_cursor \<and> EncodeCursor sample_cursor \<noteq> ''''"
proof (rule page_token_roundtrip)
  show "json_years (cu_CreatedAt sample_cursor)" unfolding json_years_def year_of_def sample_cursor_def by code_simp
  show "ascii (cu_ID sample_cursor)" unfolding ascii_def by code_simp
  show "parse_as_is (cu_ID sample_cursor) = Inr (cu_ID sample_cursor)" by (simp add: parse_as_is_def sample_cursor_def)
qed

end
