(* ===== verification/SgProductRepo.thy ===== *)
theory SgProductRepo
  imports SgDatabase Keyset Cursors
begin

text \<open>
  Silvergate, packages \<open>productrepo\<close> and \<open>product.Service\<close>: storage of products, the
  guarded partial update, keyset paging, and the service on top of them.
\<close>

section \<open>PgProductRepo\<close>

definition update_products ::
  "(Product \<Rightarrow> bool) \<Rightarrow> (Product \<Rightarrow> Product) \<Rightarrow> sg_data \<Rightarrow> goerr + nat \<times> sg_data" where
  "update_products p f = in_table products products_update (sql_update products_schema p f)"

definition isUniqueViolation :: "goerr \<Rightarrow> bool" where
  "isUniqueViolation err = (case errors_As_pg err of
      Some pgErr \<Rightarrow> Code pgErr = ''23505'' | None \<Rightarrow> False)"

definition slug_conflict_or :: "string \<Rightarrow> goerr \<Rightarrow> goerr" where
  "slug_conflict_or msg err =
    (if isUniqueViolation err then Sentinel Product_ErrSlugConflict else wrap msg err)"

definition productrepo_Create ::
  "('b) env_scheme \<Rightarrow> Product \<Rightarrow> ((sg_data, 'x) world, unit) prog" where
  "productrepo_Create env p =
     map_err (slug_conflict_or ''exec insert'')
       (sql env (in_table products products_update (sql_insert products_schema p)))"

text \<open>\<open>scanProduct\<close> reads the columns into the fields of the same names.\<close>

definition scan_product_err :: "goerr \<Rightarrow> goerr" where
  "scan_product_err err = (if errors_Is err Pgx_ErrNoRows then Sentinel Product_ErrNotFound
     else wrap ''scan product'' err)"

definition productrepo_GetByID ::
  "('b) env_scheme \<Rightarrow> string \<Rightarrow> uuid \<Rightarrow> ((sg_data, 'x) world, Product) prog" where
  "productrepo_GetByID env merchantID pid =
     map_err scan_product_err
       (bnd (sql env (query_row products (\<lambda>p. pr_MerchantID p = merchantID \<and> pr_ID p = pid)))
         (\<lambda>r. of_sum (scan_one r)))"

record ListFilter =
  lf_StatusFilter :: "string option"
  lf_Cursor :: "Cursor option"
  lf_Limit :: int

definition product_key :: "Product \<Rightarrow> Cursor" where
  "product_key p = \<lparr>cu_CreatedAt = pr_CreatedAt p, cu_ID = pr_ID p\<rparr>"

text \<open>\<open>(created_at, id) < (?, ?)\<close>: \<open>l\<close> comes after the cursor \<open>k\<close> in descending order.\<close>

definition cursor_before :: "Cursor \<Rightarrow> Cursor \<Rightarrow> bool" where
  "cursor_before k l \<longleftrightarrow> (cu_CreatedAt l, cu_ID l) < (cu_CreatedAt k, cu_ID k)"

text \<open>\<open>ORDER BY created_at DESC, id DESC\<close>.\<close>

definition newest_first :: "Product list \<Rightarrow> Product list" where
  "newest_first rows = rev (sort_key (\<lambda>p. (pr_CreatedAt p, pr_ID p)) rows)"

definition list_where :: "string \<Rightarrow> string option \<Rightarrow> Product \<Rightarrow> bool" where
  "list_where merchantID status p \<longleftrightarrow>
     pr_MerchantID p = merchantID \<and> (case status of None \<Rightarrow> True | Some st \<Rightarrow> pr_Status p = st)"

definition select_products ::
  "string \<Rightarrow> string option \<Rightarrow> Cursor option \<Rightarrow> nat \<Rightarrow> Product list \<Rightarrow> Product list" where
  "select_products merchantID status cursor limit rows =
     take limit (filter (\<lambda>p. list_where merchantID status p
         \<and> (case cursor of None \<Rightarrow> True | Some k \<Rightarrow> cursor_before k (product_key p)))
       (newest_first rows))"

text \<open>One row more than the limit was asked for: it only says that there is a next page.\<close>

definition cut_page :: "nat \<Rightarrow> Product list \<Rightarrow> Product list \<times> Cursor option" where
  "cut_page limit found =
    (if length found > limit then (take limit found, Some (product_key (found ! (limit - 1))))
     else (found, None))"

definition productrepo_List ::
  "('b) env_scheme \<Rightarrow> string \<Rightarrow> ListFilter
   \<Rightarrow> ((sg_data, 'x) world, Product list \<times> Cursor option) prog" where
  "productrepo_List env merchantID filt =
     (let limit = nat (lf_Limit filt) in
      bnd (map_err (wrap ''exec list'')
        (sql env (\<lambda>d. Inr (select_products merchantID (lf_StatusFilter filt) (lf_Cursor filt)
                             (limit + 1) (products d), d)))) (\<lambda>found.
      ret (cut_page limit found)))"

definition apply_Update :: "Update \<Rightarrow> time \<Rightarrow> Product \<Rightarrow> Product" where
  "apply_Update upd now p =
    (let p1 = p\<lparr>pr_UpdatedAt := now\<rparr>;
         p2 = (case up_Info upd of None \<Rightarrow> p1
           | Some info \<Rightarrow> p1\<lparr>pr_Name := (case iu_Name info of None \<Rightarrow> pr_Name p1 | Some x \<Rightarrow> x),
                            pr_Description := (case iu_Description info of
                              None \<Rightarrow> pr_Description p1 | Some x \<Rightarrow> x)\<rparr>)
     in case up_Locked upd of None \<Rightarrow> p2
       | Some locked \<Rightarrow> p2\<lparr>pr_Slug := (case lp_Slug locked of None \<Rightarrow> pr_Slug p2 | Some x \<Rightarrow> Some x),
                          pr_Price := (case lp_Price locked of None \<Rightarrow> pr_Price p2 | Some x \<Rightarrow> x),
                          pr_Currency := (case lp_Currency locked of
                            None \<Rightarrow> pr_Currency p2 | Some x \<Rightarrow> x)\<rparr>)"

definition update_guard :: "string \<Rightarrow> uuid \<Rightarrow> Update \<Rightarrow> Product \<Rightarrow> bool" where
  "update_guard merchantID pid upd p \<longleftrightarrow>
     pr_MerchantID p = merchantID \<and> pr_ID p = pid \<and> pr_Status p = StatusActive
     \<and> (up_Locked upd \<noteq> None \<longrightarrow> pr_FirstPurchasedAt p = None)"

definition disambiguateUpdateMiss ::
  "('b) env_scheme \<Rightarrow> string \<Rightarrow> uuid \<Rightarrow> Update \<Rightarrow> ((sg_data, 'x) world, unit) prog" where
  "disambiguateUpdateMiss env merchantID pid upd =
     bnd (productrepo_GetByID env merchantID pid) (\<lambda>p.
       if IsArchived p then throw (Sentinel Product_ErrArchived)
       else if up_Locked upd \<noteq> None \<and> pr_FirstPurchasedAt p \<noteq> None
         then throw (Sentinel Product_ErrFieldsLocked)
       else throw (Sentinel Product_ErrNotFound))"

definition productrepo_Update ::
  "('b) env_scheme \<Rightarrow> string \<Rightarrow> uuid \<Rightarrow> Update \<Rightarrow> ((sg_data, 'x) world, unit) prog" where
  "productrepo_Update env merchantID pid upd =
     bnd (time_Now env) (\<lambda>now.
     bnd (map_err (slug_conflict_or ''exec update'')
       (sql env (update_products (update_guard merchantID pid upd) (apply_Update upd now)))) (\<lambda>affected.
     if affected = 0 then disambiguateUpdateMiss env merchantID pid upd else ret ()))"

definition productrepo_SetStatus ::
  "('b) env_scheme \<Rightarrow> string \<Rightarrow> uuid \<Rightarrow> string \<Rightarrow> ((sg_data, 'x) world, unit) prog" where
  "productrepo_SetStatus env merchantID pid status =
     bnd (time_Now env) (\<lambda>now.
     bnd (map_err (wrap ''exec set status'')
       (sql env (update_products (\<lambda>p. pr_MerchantID p = merchantID \<and> pr_ID p = pid)
         (\<lambda>p. p\<lparr>pr_Status := status, pr_UpdatedAt := now\<rparr>)))) (\<lambda>affected.
     fail_if (affected = 0) (Sentinel Product_ErrNotFound)))"

definition productrepo_MarkPurchased ::
  "('b) env_scheme \<Rightarrow> string \<Rightarrow> uuid \<Rightarrow> ((sg_data, 'x) world, unit) prog" where
  "productrepo_MarkPurchased env merchantID pid =
     bnd (time_Now env) (\<lambda>now.
     bnd (map_err (wrap ''exec mark purchased'')
       (sql env (update_products
         (\<lambda>p. pr_MerchantID p = merchantID \<and> pr_ID p = pid \<and> pr_FirstPurchasedAt p = None)
         (\<lambda>p. p\<lparr>pr_FirstPurchasedAt := Some now, pr_UpdatedAt := now\<rparr>)))) (\<lambda>affected.
     if affected = 0 then bnd (productrepo_GetByID env merchantID pid) (\<lambda>_. ret ()) else ret ()))"

section \<open>The product service\<close>

definition defaultListLimit :: int where "defaultListLimit = 20"
definition maxListLimit :: int where "maxListLimit = 100"

record CreateInput =
  ci_Slug :: "string option"
  ci_Name :: string
  ci_Description :: string
  ci_Price :: int64
  ci_Currency :: string

definition product_Create ::
  "('b) env_scheme \<Rightarrow> string \<Rightarrow> CreateInput \<Rightarrow> ((sg_data, 'x) world, Product) prog" where
  "product_Create env merchantID inp =
     bnd (case ci_Slug inp of None \<Rightarrow> ret () | Some slug \<Rightarrow> of_sum (ValidateSlug slug)) (\<lambda>_.
     bnd (product_New env merchantID (ci_Name inp) (ci_Description inp) (ci_Price inp)
            (ci_Currency inp) (ci_Slug inp)) (\<lambda>p.
     bnd (map_err (wrap ''save product'') (productrepo_Create env p)) (\<lambda>_.
     ret p)))"

definition product_Get ::
  "('b) env_scheme \<Rightarrow> string \<Rightarrow> uuid \<Rightarrow> ((sg_data, 'x) world, Product) prog" where
  "product_Get env merchantID pid = productrepo_GetByID env merchantID pid"

definition product_List ::
  "('b) env_scheme \<Rightarrow> string \<Rightarrow> ListFilter
   \<Rightarrow> ((sg_data, 'x) world, Product list \<times> Cursor option) prog" where
  "product_List env merchantID filt0 =
     (let filt = (if lf_Limit filt0 \<le> 0 then filt0\<lparr>lf_Limit := defaultListLimit\<rparr> else filt0) in
      if lf_Limit filt > maxListLimit then throw (Sentinel Product_ErrLimitTooLarge)
      else productrepo_List env merchantID filt)"

definition product_Update ::
  "('b) env_scheme \<Rightarrow> string \<Rightarrow> uuid \<Rightarrow> UpdateRequest \<Rightarrow> ((sg_data, 'x) world, Product) prog" where
  "product_Update env merchantID pid req =
     bnd (productrepo_GetByID env merchantID pid) (\<lambda>p.
     bnd (of_sum (NewUpdate req p)) (\<lambda>upd.
     bnd (productrepo_Update env merchantID pid upd) (\<lambda>_.
     productrepo_GetByID env merchantID pid)))"

definition product_Archive ::
  "('b) env_scheme \<Rightarrow> string \<Rightarrow> uuid \<Rightarrow> ((sg_data, 'x) world, unit) prog" where
  "product_Archive env merchantID pid = productrepo_SetStatus env merchantID pid StatusArchived"

definition product_Unarchive ::
  "('b) env_scheme \<Rightarrow> string \<Rightarrow> uuid \<Rightarrow> ((sg_data, 'x) world, unit) prog" where
  "product_Unarchive env merchantID pid = productrepo_SetStatus env merchantID pid StatusActive"

definition product_MarkPurchased ::
  "('b) env_scheme \<Rightarrow> string \<Rightarrow> uuid \<Rightarrow> ((sg_data, 'x) world, unit) prog" where
  "product_MarkPurchased env merchantID pid = productrepo_MarkPurchased env merchantID pid"

text \<open>The executor argument is the transaction of the caller: the world of the run.\<close>

definition MarkPurchasedInTx ::
  "('b) env_scheme \<Rightarrow> string \<Rightarrow> uuid \<Rightarrow> ((sg_data, 'x) world, unit) prog" where
  "MarkPurchasedInTx env merchantID pid = productrepo_MarkPurchased env merchantID pid"

section \<open>Statements on products\<close>

lemma update_products_ok:
  "update_products p f d = Inr (n, d') \<longleftrightarrow>
     n = length (filter p (products d)) \<and> d' = d\<lparr>products := set_where p f (products d)\<rparr>
     \<and> rows_ok products_schema (set_where p f (products d))"
  by (auto simp: update_products_def in_table_ok sql_update_ok)

lemma insert_product_ok:
  "in_table products products_update (sql_insert products_schema p) d = Inr (u, d') \<longleftrightarrow>
     d' = d\<lparr>products := products d @ [p]\<rparr> \<and> rows_ok products_schema (products d @ [p])"
  by (auto simp: in_table_ok sql_insert_ok)

lemma query_row_data: "query_row get p d = Inr (x, d') \<Longrightarrow> d' = d \<and> x = find p (get d)"
  by (auto simp: query_row_def)

lemma productrepo_GetByID_okE [run_elims]:
  assumes "productrepo_GetByID env m i w = (Inr p, w')"
  obtains "find (\<lambda>p. pr_MerchantID p = m \<and> pr_ID p = i) (products (data w)) = Some p"
    and "w' = tick w" and "\<not> tx_failed w"
  using assms
  by (auto simp: productrepo_GetByID_def query_row_def scan_one_def elim!: run_elims split: option.splits)

section \<open>Predicates of the products\<close>

text \<open>
  A predicate of the products is kept by the repository when it is kept by the rows each
  statement writes.
\<close>

lemma keeps_GetByID [keeps_intros]: "keeps_data I (productrepo_GetByID env m i)"
  unfolding productrepo_GetByID_def
  by (intro keeps_intros keeps_data_sql) (auto dest: query_row_data)

lemma keeps_disambiguate [keeps_intros]: "keeps_data I (disambiguateUpdateMiss env m i upd)"
  unfolding disambiguateUpdateMiss_def by (intro keeps_intros)

lemma keeps_productrepo_Create:
  assumes "\<And>rows. I rows \<Longrightarrow> I (rows @ [p])"
  shows "keeps_data (\<lambda>d. I (products d)) (productrepo_Create env p)"
  unfolding productrepo_Create_def
  by (intro keeps_intros keeps_data_sql) (auto simp: insert_product_ok assms)

lemma keeps_productrepo_Update:
  assumes "\<And>rows now. I rows \<Longrightarrow> I (set_where (update_guard m i upd) (apply_Update upd now) rows)"
  shows "keeps_data (\<lambda>d. I (products d)) (productrepo_Update env m i upd)"
  unfolding productrepo_Update_def
  by (intro keeps_intros keeps_data_sql) (auto simp: update_products_ok assms)

lemma keeps_productrepo_SetStatus:
  assumes "\<And>rows now. I rows \<Longrightarrow> I (set_where (\<lambda>p. pr_MerchantID p = m \<and> pr_ID p = i)
    (\<lambda>p. p\<lparr>pr_Status := st, pr_UpdatedAt := now\<rparr>) rows)"
  shows "keeps_data (\<lambda>d. I (products d)) (productrepo_SetStatus env m i st)"
  unfolding productrepo_SetStatus_def
  by (intro keeps_intros keeps_data_sql) (auto simp: update_products_ok assms)

lemma keeps_productrepo_MarkPurchased:
  assumes "\<And>rows now. I rows \<Longrightarrow> I (set_where
      (\<lambda>p. pr_MerchantID p = m \<and> pr_ID p = i \<and> pr_FirstPurchasedAt p = None)
      (\<lambda>p. p\<lparr>pr_FirstPurchasedAt := Some now, pr_UpdatedAt := now\<rparr>) rows)"
  shows "keeps_data (\<lambda>d. I (products d)) (productrepo_MarkPurchased env m i)"
  unfolding productrepo_MarkPurchased_def
  by (intro keeps_intros keeps_data_sql) (auto simp: update_products_ok assms)

text \<open>The operations of the service, as requests.\<close>

datatype product_request =
    CreateReq CreateInput
  | UpdateReq uuid UpdateRequest
  | ArchiveReq uuid
  | UnarchiveReq uuid
  | MarkReq uuid

fun product_serve ::
  "('b) env_scheme \<Rightarrow> string \<Rightarrow> product_request \<Rightarrow> ((sg_data, 'x) world, unit) prog" where
  "product_serve env m (CreateReq inp) = bnd (product_Create env m inp) (\<lambda>_. ret ())"
| "product_serve env m (UpdateReq i req) = bnd (product_Update env m i req) (\<lambda>_. ret ())"
| "product_serve env m (ArchiveReq i) = product_Archive env m i"
| "product_serve env m (UnarchiveReq i) = product_Unarchive env m i"
| "product_serve env m (MarkReq i) = product_MarkPurchased env m i"

text \<open>
  What a request may write: a new active product whose slug is valid, an update accepted
  by \<open>NewUpdate\<close>, a status, a first purchase. A predicate kept by these writes is kept
  by the service.
\<close>

definition slug_valid :: "Product \<Rightarrow> bool" where
  "slug_valid p \<longleftrightarrow> (case pr_Slug p of None \<Rightarrow> True | Some s \<Rightarrow> ValidateSlug s = Inr ())"

lemma keeps_product_serve:
  assumes new: "\<And>rows p. I rows \<Longrightarrow> pr_MerchantID p = m \<Longrightarrow> pr_FirstPurchasedAt p = None \<Longrightarrow> slug_valid p
      \<Longrightarrow> I (rows @ [p])"
    and upd: "\<And>rows i r p u now. I rows \<Longrightarrow> NewUpdate r p = Inr u
      \<Longrightarrow> I (set_where (update_guard m i u) (apply_Update u now) rows)"
    and status: "\<And>rows i st now. I rows \<Longrightarrow> I (set_where (\<lambda>p. pr_MerchantID p = m \<and> pr_ID p = i)
        (\<lambda>p. p\<lparr>pr_Status := st, pr_UpdatedAt := now\<rparr>) rows)"
    and mark: "\<And>rows i now. I rows \<Longrightarrow> I (set_where
        (\<lambda>p. pr_MerchantID p = m \<and> pr_ID p = i \<and> pr_FirstPurchasedAt p = None)
        (\<lambda>p. p\<lparr>pr_FirstPurchasedAt := Some now, pr_UpdatedAt := now\<rparr>) rows)"
  shows "keeps_data (\<lambda>d. I (products d)) (product_serve env m req)"
proof (cases req)
  case (CreateReq inp)
  show ?thesis
  proof (rule keepsI)
    fix w r w' assume I: "I (products (data w))" and run: "product_serve env m req w = (r, w')"
    show "I (products (data w'))"
    proof (cases "case ci_Slug inp of None \<Rightarrow> Inr () | Some s \<Rightarrow> ValidateSlug s")
      case (Inl e)
      with run I CreateReq show ?thesis
        by (auto simp: product_Create_def run_simps split: option.splits)
    next
      case (Inr u)
      define p where "p = \<lparr>pr_ID = fresh env (Suc (ticks w)), pr_MerchantID = m, pr_Slug = ci_Slug inp,
          pr_Name = ci_Name inp, pr_Description = ci_Description inp, pr_Price = ci_Price inp,
          pr_Currency = ci_Currency inp, pr_Status = StatusActive, pr_FirstPurchasedAt = None,
          pr_CreatedAt = clock env (ticks w), pr_UpdatedAt = clock env (ticks w)\<rparr>"
      have "slug_valid p" using Inr by (auto simp: slug_valid_def p_def split: option.splits)
      then have "\<And>rows. I rows \<Longrightarrow> I (rows @ [p])" by (rule new[rotated 3]) (auto simp: p_def)
      then have k: "keeps_data (\<lambda>d. I (products d)) (productrepo_Create env p)"
        by (intro keeps_productrepo_Create)
      obtain r1 where "productrepo_Create env p (tick (tick w)) = (r1, w')"
        using run Inr CreateReq unfolding p_def
        by (auto simp: product_Create_def product_New_run run_simps split: option.splits prod.splits sum.splits)
      from keepsD[OF k this] I show ?thesis by simp
    qed
  qed
next
  case (UpdateReq i ureq)
  have "keeps_data (\<lambda>d. I (products d)) (bnd (of_sum (NewUpdate ureq p)) (\<lambda>u.
      bnd (productrepo_Update env m i u) (\<lambda>_. productrepo_GetByID env m i)))" for p
  proof (cases "NewUpdate ureq p")
    case (Inl e)
    then show ?thesis by (simp add: keeps_def run_simps)
  next
    case (Inr u)
    then have eq: "of_sum (NewUpdate ureq p) = ret u" by (simp add: of_sum_def ret_def)
    show ?thesis
      unfolding eq bnd_ret
      by (intro keeps_intros keeps_productrepo_Update) (rule upd[OF _ Inr])
  qed
  note body = this
  show ?thesis
    unfolding UpdateReq product_serve.simps product_Update_def
    by (rule keeps_bnd[OF keeps_bnd[OF keeps_GetByID body] keeps_ret])
next
  case (ArchiveReq i)
  with status show ?thesis by (auto simp: product_Archive_def intro!: keeps_productrepo_SetStatus)
next
  case (UnarchiveReq i)
  with status show ?thesis by (auto simp: product_Unarchive_def intro!: keeps_productrepo_SetStatus)
next
  case (MarkReq i)
  with mark show ?thesis by (auto simp: product_MarkPurchased_def intro!: keeps_productrepo_MarkPurchased)
qed

section \<open>Paging\<close>

lemma newest_first_set [simp]: "set (newest_first rows) = set rows"
  by (simp add: newest_first_def)

lemma newest_first_sorted:
  assumes "distinct (map pr_ID rows)"
  shows "sorted_wrt (\<lambda>a b. cursor_before (product_key a) (product_key b)) (newest_first rows)"
proof -
  let ?k = "\<lambda>p. (pr_CreatedAt p, pr_ID p)"
  have "distinct rows" and "inj_on ?k (set rows)"
    using assms by (auto simp: distinct_map inj_on_def)
  then have "distinct (map ?k (sort_key ?k rows))"
    by (simp add: distinct_map)
  then have "sorted_wrt (<) (map ?k (sort_key ?k rows))"
    by (simp add: strict_sorted_iff)
  then have "sorted_wrt (\<lambda>a b. ?k a < ?k b) (sort_key ?k rows)"
    by (simp add: sorted_wrt_map)
  then show ?thesis
    unfolding newest_first_def sorted_wrt_rev
    by (rule sorted_wrt_mono_rel[rotated]) (simp add: cursor_before_def product_key_def)
qed

definition product_listing :: "Product list \<times> string \<times> string option \<Rightarrow> Product list" where
  "product_listing q = (case q of (rows, m, st) \<Rightarrow> filter (list_where m st) (newest_first rows))"

text \<open>The page that a query of the repository cuts from a table.\<close>

definition product_page ::
  "Product list \<times> string \<times> string option \<Rightarrow> nat \<Rightarrow> Cursor option \<Rightarrow> Product list \<times> Cursor option" where
  "product_page q n c = (case q of (rows, m, st) \<Rightarrow> cut_page n (select_products m st c (n + 1) rows))"

text \<open>One request of the repository reads one page.\<close>

lemma productrepo_List_run:
  assumes "fault env (ticks w) = None" and "\<not> tx_failed w"
  shows "productrepo_List env m filt w =
    (Inr (product_page (products (data w), m, lf_StatusFilter filt) (nat (lf_Limit filt)) (lf_Cursor filt)), tick w)"
  using assms by (simp add: productrepo_List_def sql_def product_page_def run_simps Let_def)

lemma select_products_after:
  "select_products m st c n rows = take n (after cursor_before product_key c (product_listing (rows, m, st)))"
  by (cases c) (simp_all add: select_products_def product_listing_def conj_commute)

lemma cut_page_take:
  assumes "0 < n"
  shows "fst (cut_page n (take (n + 1) xs)) = take n xs"
    and "snd (cut_page n (take (n + 1) xs)) =
      (if n < length xs then Some (product_key (last (take n xs))) else None)"
proof -
  show "fst (cut_page n (take (n + 1) xs)) = take n xs"
    by (auto simp: cut_page_def min_def)
  have "take (n + 1) xs ! (n - 1) = last (take n xs)" if "n < length xs"
    using that assms by (subst last_conv_nth) (auto simp: min_def)
  then show "snd (cut_page n (take (n + 1) xs)) =
      (if n < length xs then Some (product_key (last (take n xs))) else None)"
    by (auto simp: cut_page_def min_def)
qed

lemma cursor_before_trans: "cursor_before k l \<Longrightarrow> cursor_before l m \<Longrightarrow> cursor_before k m"
  unfolding cursor_before_def by (rule less_trans)

interpretation product_pages: keyset cursor_before product_key product_listing product_page
  "\<lambda>(rows, _, _). distinct (map pr_ID rows)"
proof
  fix k l m :: Cursor
  show "\<not> cursor_before k k" by (simp add: cursor_before_def)
  show "cursor_before k l \<Longrightarrow> cursor_before l m \<Longrightarrow> cursor_before k m" by (rule cursor_before_trans)
next
  fix q :: "Product list \<times> string \<times> string option" and n :: nat and c
  assume "case q of (rows, _, _) \<Rightarrow> distinct (map pr_ID rows)"
  then show "sorted_wrt (\<lambda>a b. cursor_before (product_key a) (product_key b)) (product_listing q)"
    by (cases q) (simp add: product_listing_def newest_first_sorted sorted_wrt_filter)
  assume n: "0 < n"
  obtain rows m st where q: "q = (rows, m, st)" by (cases q)
  show "fst (product_page q n c) = take n (after cursor_before product_key c (product_listing q))"
    using cut_page_take(1)[OF n] by (simp add: q product_page_def select_products_after)
  show "snd (product_page q n c) = (if n < length (after cursor_before product_key c (product_listing q))
      then Some (product_key (last (fst (product_page q n c)))) else None)"
    using cut_page_take[OF n] by (simp add: q product_page_def select_products_after)
qed

text \<open>
  What a client does with the answers of the service: it keeps the products and asks again
  with the cursor it was given, until none is given.
\<close>

definition list_page ::
  "('b) env_scheme \<Rightarrow> string \<Rightarrow> ListFilter \<Rightarrow> (sg_data, 'x) world \<Rightarrow> Cursor option
   \<Rightarrow> Product list \<times> Cursor option" where
  "list_page env m filt w c = (case fst (product_List env m (filt\<lparr>lf_Cursor := c\<rparr>) w) of
      Inl _ \<Rightarrow> ([], None) | Inr p \<Rightarrow> p)"

lemma list_page_run:
  assumes "fault env (ticks w) = None" and "\<not> tx_failed w" and "lf_Limit filt \<le> maxListLimit"
  shows "list_page env m filt w = product_page (products (data w), m, lf_StatusFilter filt)
    (nat (if lf_Limit filt \<le> 0 then defaultListLimit else lf_Limit filt))"
proof
  fix c
  have "defaultListLimit \<le> maxListLimit" by (simp add: defaultListLimit_def maxListLimit_def)
  with assms show "list_page env m filt w c = product_page (products (data w), m, lf_StatusFilter filt)
    (nat (if lf_Limit filt \<le> 0 then defaultListLimit else lf_Limit filt)) c"
    by (simp add: list_page_def product_List_def productrepo_List_run)
qed

text \<open>
  C28. Paging through the products of a merchant, request after request, with the cursor of
  each answer in the next request, lists every product that the filter admits exactly once,
  newest first, for every limit that the service takes; no page is longer than the limit,
  which is 20 when the query gives none.
\<close>

theorem product_paging_complete:
  assumes "fault env (ticks w) = None" and "\<not> tx_failed w"
    and "distinct (map pr_ID (products (data w)))" and "lf_Limit filt \<le> maxListLimit"
  shows "concat (follow (list_page env m filt w) (Suc (length (products (data w)))) None) =
      filter (list_where m (lf_StatusFilter filt)) (newest_first (products (data w)))
    \<and> (\<forall>p\<in>set (follow (list_page env m filt w) (Suc (length (products (data w)))) None).
        length p \<le> (if 0 < lf_Limit filt then nat (lf_Limit filt) else 20))"
proof -
  let ?rows = "products (data w)" and ?st = "lf_StatusFilter filt"
  let ?n = "nat (if lf_Limit filt \<le> 0 then defaultListLimit else lf_Limit filt)"
  have n: "0 < ?n" by (simp add: defaultListLimit_def)
  have "length (product_listing (?rows, m, ?st)) \<le> length ?rows"
    by (simp add: product_listing_def newest_first_def length_filter_le
        order_trans[OF length_filter_le])
  then have "length (after cursor_before product_key None (product_listing (?rows, m, ?st))) < Suc (length ?rows)"
    by simp
  from product_pages.follow_all[OF _ n this] assms(3) show ?thesis
    unfolding list_page_run[OF assms(1,2,4)]
    by (simp add: product_listing_def defaultListLimit_def not_less split: if_splits)
qed

definition demo_product :: "string \<Rightarrow> time \<Rightarrow> Product" where
  "demo_product i t = \<lparr>pr_ID = i, pr_MerchantID = ''m'', pr_Slug = Some i, pr_Name = ''name'',
     pr_Description = '''', pr_Price = 500, pr_Currency = ''EUR'', pr_Status = StatusActive,
     pr_FirstPurchasedAt = None, pr_CreatedAt = t, pr_UpdatedAt = t\<rparr>"

definition demo_products :: "Product list" where
  "demo_products = [demo_product ''a'' 1, demo_product ''b'' 3, demo_product ''c'' 2]"

text \<open>An environment without failures, for examples.\<close>

definition calm_env :: env where
  "calm_env = \<lparr>fault = (\<lambda>n. None), commit_err = (\<lambda>n b. if b then Some (ErrText ''rolled back'') else None),
     clock = (\<lambda>n. int n), fresh = (\<lambda>n. replicate n CHR ''d'')\<rparr>"

definition demo_catalogue :: "(sg_data, unit) world" where
  "demo_catalogue = init_world \<lparr>transactions = [], refunds = [], products = demo_products\<rparr>"

theorem product_paging_complete_witness:
  "let pages = follow (list_page calm_env ''m'' \<lparr>lf_StatusFilter = None, lf_Cursor = None, lf_Limit = 2\<rparr> demo_catalogue) 4 None in
     map (map pr_ID) pages = [[''b'', ''c''], [''a'']]
     \<and> concat pages = filter (list_where ''m'' None) (newest_first demo_products)"
proof -
  let ?filt = "\<lparr>lf_StatusFilter = None, lf_Cursor = None, lf_Limit = 2\<rparr>"
  have rows: "products (data demo_catalogue) = demo_products" and len: "Suc (length demo_products) = 4"
    by (simp_all add: demo_catalogue_def init_world_def demo_products_def)
  have "fault calm_env (ticks demo_catalogue) = None" "\<not> tx_failed demo_catalogue"
    "distinct (map pr_ID (products (data demo_catalogue)))" "lf_Limit ?filt \<le> maxListLimit"
    by (simp_all add: calm_env_def demo_catalogue_def init_world_def demo_products_def demo_product_def maxListLimit_def)
  note all = product_paging_complete[OF this, of "''m''", unfolded rows len]
  moreover have "map (map pr_ID) (follow (list_page calm_env ''m'' ?filt demo_catalogue) 4 None) = [[''b'', ''c''], [''a'']]"
    by code_simp
  ultimately show ?thesis by (simp add: Let_def)
qed

section \<open>Locked fields\<close>

text \<open>A product that was purchased once, with the terms it was purchased on.\<close>

definition purchased :: "uuid \<Rightarrow> time \<Rightarrow> string option \<times> int64 \<times> string \<Rightarrow> Product list \<Rightarrow> bool" where
  "purchased i t terms rows \<longleftrightarrow> (\<exists>p\<in>set rows. pr_ID p = i \<and> pr_FirstPurchasedAt p = Some t
     \<and> (pr_Slug p, pr_Price p, pr_Currency p) = terms)"

lemma purchased_written:
  assumes "purchased i t terms rows"
    and "\<And>p. g p \<Longrightarrow> pr_FirstPurchasedAt p = Some t \<Longrightarrow> pr_ID (f p) = pr_ID p
      \<and> pr_FirstPurchasedAt (f p) = Some t
      \<and> (pr_Slug (f p), pr_Price (f p), pr_Currency (f p)) = (pr_Slug p, pr_Price p, pr_Currency p)"
  shows "purchased i t terms (set_where g f rows)"
proof -
  from assms(1) obtain p where p: "p \<in> set rows" "pr_ID p = i" "pr_FirstPurchasedAt p = Some t"
    "(pr_Slug p, pr_Price p, pr_Currency p) = terms" by (auto simp: purchased_def)
  have "(if g p then f p else p) \<in> set (set_where g f rows)"
    unfolding set_set_where using p(1) by (rule imageI)
  moreover have "pr_ID (if g p then f p else p) = i
      \<and> pr_FirstPurchasedAt (if g p then f p else p) = Some t
      \<and> (pr_Slug (if g p then f p else p), pr_Price (if g p then f p else p),
         pr_Currency (if g p then f p else p)) = terms"
    using p assms(2)[of p] by simp
  ultimately show ?thesis unfolding purchased_def by blast
qed

lemma apply_Update_simps [simp]:
  "pr_ID (apply_Update u now p) = pr_ID p" "pr_MerchantID (apply_Update u now p) = pr_MerchantID p"
  "pr_FirstPurchasedAt (apply_Update u now p) = pr_FirstPurchasedAt p"
  "pr_Status (apply_Update u now p) = pr_Status p" "pr_CreatedAt (apply_Update u now p) = pr_CreatedAt p"
  "up_Locked u = None \<Longrightarrow> pr_Slug (apply_Update u now p) = pr_Slug p"
  "up_Locked u = None \<Longrightarrow> pr_Price (apply_Update u now p) = pr_Price p"
  "up_Locked u = None \<Longrightarrow> pr_Currency (apply_Update u now p) = pr_Currency p"
  by (auto simp: apply_Update_def Let_def split: option.splits)

text \<open>
  C29. Once a product was purchased, its slug, price and currency never change again,
  whatever requests follow, in whatever order and whichever of them fail.
\<close>

theorem locked_fields_stay:
  assumes "product_serve env m req w = (r, w')" and "purchased i t terms (products (data w))"
  shows "purchased i t terms (products (data w'))"
proof -
  have "keeps_data (\<lambda>d. purchased i t terms (products d)) (product_serve env m req)"
  proof (rule keeps_product_serve)
    show "purchased i t terms (set_where (update_guard m j u) (apply_Update u now) rows)"
      if "purchased i t terms rows" for rows j u now
      by (rule purchased_written[OF that]) (auto simp: update_guard_def)
    show "purchased i t terms (set_where
        (\<lambda>p. pr_MerchantID p = m \<and> pr_ID p = j \<and> pr_FirstPurchasedAt p = None)
        (\<lambda>p. p\<lparr>pr_FirstPurchasedAt := Some now, pr_UpdatedAt := now\<rparr>) rows)"
      if "purchased i t terms rows" for rows j now
      by (rule purchased_written[OF that]) auto
    show "purchased i t terms (set_where (\<lambda>p. pr_MerchantID p = m \<and> pr_ID p = j)
        (\<lambda>p. p\<lparr>pr_Status := st, pr_UpdatedAt := now\<rparr>) rows)"
      if "purchased i t terms rows" for rows j st now
      by (rule purchased_written[OF that]) auto
  qed (auto simp: purchased_def)
  from keepsD[OF this assms(1)] assms(2) show ?thesis by simp
qed

definition demo_purchased :: "(sg_data, unit) world" where
  "demo_purchased = init_world \<lparr>transactions = [], refunds = [],
     products = [(demo_product ''a'' 1)\<lparr>pr_FirstPurchasedAt := Some 5\<rparr>]\<rparr>"

theorem locked_fields_stay_witness:
  "purchased ''a'' 5 (Some ''a'', 500, ''EUR'') (products (data (snd (product_serve calm_env ''m''
     (UpdateReq ''a'' \<lparr>ur_Name = None, ur_Description = None, ur_Slug = None, ur_Price = Some 1,
        ur_Currency = None\<rparr>) demo_purchased))))"
  by (rule locked_fields_stay[OF surjective_pairing])
    (simp add: demo_purchased_def init_world_def purchased_def demo_product_def)

section \<open>Slugs\<close>

lemma slug_valid_update:
  assumes "NewUpdate req q = Inr u" and "slug_valid p"
  shows "slug_valid (apply_Update u now p)"
proof -
  from assms(1) have "up_Locked u = locked_group req
      \<and> (\<forall>s. ur_Slug req = Some s \<longrightarrow> s \<noteq> '''' \<and> ValidateSlug s = Inr ())"
    by (rule NewUpdate_okE) auto
  with assms(2) show ?thesis
    by (auto simp: slug_valid_def apply_Update_def locked_group_def Let_def split: option.splits)
qed

text \<open>The documented form of a slug.\<close>

definition slug_form :: "string \<Rightarrow> bool" where
  "slug_form s \<longleftrightarrow> 1 \<le> length s \<and> length s \<le> 64
     \<and> list_all (\<lambda>c. slug_char c \<or> c = CHR ''-'') s \<and> hd s \<noteq> CHR ''-'' \<and> hyphens_ok s"

lemma ValidateSlug_form: "ValidateSlug s = Inr () \<longleftrightarrow> slug_form s"
proof (cases s)
  case Nil
  then show ?thesis by (simp add: ValidateSlug_def slug_form_def)
next
  case (Cons c cs)
  have "hyphens_ok (c # cs) = hyphens_ok cs" if "c \<noteq> CHR ''-''"
    using that by (cases cs) auto
  with Cons show ?thesis
    by (auto simp: ValidateSlug_def slug_form_def slugRegex_def slug_groups_iff dest: slug_char_not_hyphen)
qed

text \<open>
  C30. Every slug in the table has the documented form: 1 to 64 lower-case letters, digits
  and hyphens, no hyphen at either end, no two in a row. Requests keep it so.
\<close>

theorem slugs_stay_valid:
  assumes "product_serve env m req w = (r, w')"
    and "\<forall>p\<in>set (products (data w)). \<forall>s. pr_Slug p = Some s \<longrightarrow> slug_form s"
  shows "\<forall>p\<in>set (products (data w')). \<forall>s. pr_Slug p = Some s \<longrightarrow> slug_form s"
proof -
  have form: "(\<forall>s. pr_Slug p = Some s \<longrightarrow> slug_form s) = slug_valid p" for p
    by (auto simp: slug_valid_def ValidateSlug_form split: option.splits)
  have "keeps_data (\<lambda>d. \<forall>p\<in>set (products d). slug_valid p) (product_serve env m req)"
  proof (rule keeps_product_serve)
    show "\<forall>p\<in>set (set_where (update_guard m i u) (apply_Update u now) rows). slug_valid p"
      if "\<forall>p\<in>set rows. slug_valid p" "NewUpdate req' q = Inr u" for rows i req' q u now
      using that by (auto simp: set_set_where slug_valid_update)
  qed (auto simp: set_set_where slug_valid_def)
  from keepsD[OF this assms(1)] assms(2) show ?thesis unfolding form by simp
qed

definition slug_created :: "(sg_data, unit) world" where
  "slug_created = snd (product_serve calm_env ''m''
     (CreateReq \<lparr>ci_Slug = Some ''x-1'', ci_Name = ''n'', ci_Description = '''', ci_Price = 5, ci_Currency = ''EUR''\<rparr>)
     demo_purchased)"

theorem slugs_stay_valid_witness:
  "slug_form (the (pr_Slug (last (products (data slug_created)))))"
proof -
  have slugs: "pr_Slug (last (products (data slug_created))) = Some ''x-1'' \<and> products (data slug_created) \<noteq> []"
    by code_simp
  have "\<forall>p\<in>set (products (data slug_created)). \<forall>s. pr_Slug p = Some s \<longrightarrow> slug_form s"
    unfolding slug_created_def
    by (rule slugs_stay_valid[OF surjective_pairing])
      (simp add: demo_purchased_def init_world_def demo_product_def slug_form_def slug_char_def)
  with slugs show ?thesis by (metis last_in_set option.sel)
qed

section \<open>Merchants\<close>

text \<open>
  A merchant's requests never touch a product of another merchant: it stays in the
  table with every field as it was.
\<close>

theorem merchants_are_isolated:
  assumes "product_serve env m req w = (r, w')" and "p \<in> set (products (data w))"
    and "pr_MerchantID p \<noteq> m"
  shows "p \<in> set (products (data w'))"
proof -
  have "keeps_data (\<lambda>d. p \<in> set (products d)) (product_serve env m req)"
    by (rule keeps_product_serve)
      (use assms(3) in \<open>auto simp: set_set_where update_guard_def image_iff intro!: bexI[of _ p]\<close>)
  from keepsD[OF this assms(1)] assms(2) show ?thesis by simp
qed

theorem merchants_are_isolated_witness:
  "demo_product ''a'' 1 \<in> set (products (data (snd (product_serve calm_env ''other'' (ArchiveReq ''a'')
     (init_world \<lparr>transactions = [], refunds = [], products = demo_products\<rparr> :: (sg_data, unit) world)))))"
  by (rule merchants_are_isolated[OF surjective_pairing])
    (simp_all add: init_world_def demo_products_def demo_product_def)

end
