(* ===== verification/SgPurchase.thy ===== *)
theory SgPurchase
  imports SgService SgProductRepo
begin

text \<open>
  Silvergate, package \<open>purchase\<close>: the composition of a product purchase. The idempotency
  key is looked up first; then the product is read, the authorisation, its row and the
  mark on the product are one database transaction, and the capture follows outside it.
\<close>

record PurchaseRequest =
  pq_MerchantID :: string
  pq_OrderID :: string
  pq_ProductID :: uuid
  pq_CardToken :: string
  pq_IdempotencyKey :: string

record PurchaseResponse =
  ps_TransactionID :: uuid
  ps_ProductID :: uuid
  ps_OrderID :: string
  ps_Status :: string
  ps_Amount :: int64
  ps_Currency :: string
  ps_DeclineReason :: string

definition sameRequest :: "Transaction \<Rightarrow> PurchaseRequest \<Rightarrow> bool" where
  "sameRequest tx req =
    (if tx_OrderRef tx \<noteq> pq_OrderID req \<or> tx_CardToken tx \<noteq> pq_CardToken req then False
     else if tx_ProductID tx \<noteq> Some (pq_ProductID req) then False
     else True)"

definition responseFromTx :: "Transaction \<Rightarrow> uuid \<Rightarrow> PurchaseResponse" where
  "responseFromTx tx productID = \<lparr>ps_TransactionID = tx_ID tx, ps_ProductID = productID,
     ps_OrderID = tx_OrderRef tx,
     ps_Status = (if tx_Status tx = StatusAuthorized then StatusCapturePending else tx_Status tx),
     ps_Amount = tx_Amount tx, ps_Currency = tx_Currency tx, ps_DeclineReason = tx_DeclineReason tx\<rparr>"

definition existing_product :: "Transaction \<Rightarrow> PurchaseRequest \<Rightarrow> uuid" where
  "existing_product tx req = (case tx_ProductID tx of None \<Rightarrow> pq_ProductID req | Some p \<Rightarrow> p)"

text \<open>\<open>None\<close> is \<open>(Response{}, false, nil)\<close>: no transaction has the key.\<close>

definition checkIdempotency :: "('b) senv_scheme \<Rightarrow> PurchaseRequest \<Rightarrow> PurchaseResponse option sg" where
  "checkIdempotency env req =
     bnd (attempt (txrepo_GetByPurchaseIdempotencyKey env (pq_MerchantID req) (pq_IdempotencyKey req))) (\<lambda>r.
       case r of
         Inl err \<Rightarrow> if errors_Is err Transaction_ErrNotFound then ret None else throw err
       | Inr existing \<Rightarrow>
           if \<not> sameRequest existing req then throw (Sentinel Purchase_ErrIdempotencyConflict)
           else ret (Some (responseFromTx existing (existing_product existing req))))"

definition resolveRace :: "('b) senv_scheme \<Rightarrow> PurchaseRequest \<Rightarrow> PurchaseResponse sg" where
  "resolveRace env req =
     bnd (map_err (wrap ''resolve idempotency race'')
       (txrepo_GetByPurchaseIdempotencyKey env (pq_MerchantID req) (pq_IdempotencyKey req))) (\<lambda>existing.
       if \<not> sameRequest existing req then throw (Sentinel Purchase_ErrIdempotencyConflict)
       else ret (responseFromTx existing (existing_product existing req)))"

definition purchase_auth :: "PurchaseRequest \<Rightarrow> Product \<Rightarrow> AuthRequest" where
  "purchase_auth req p = \<lparr>aq_MerchantID = pq_MerchantID req, aq_OrderID = pq_OrderID req,
     aq_Amount = pr_Price p, aq_Currency = pr_Currency p, aq_CardToken = pq_CardToken req,
     aq_PurchaseIdempotencyKey = pq_IdempotencyKey req, aq_ProductID = Some (pq_ProductID req)\<rparr>"

definition purchase_tx :: "('b) senv_scheme \<Rightarrow> PurchaseRequest \<Rightarrow> Product \<Rightarrow> Transaction sg" where
  "purchase_tx env req p =
     bnd (AuthorizeInTx env (purchase_auth req p)) (\<lambda>tx.
     bnd (if tx_Status tx = StatusAuthorized
          then map_err (wrap ''mark product purchased'')
                 (MarkPurchasedInTx env (pq_MerchantID req) (pq_ProductID req))
          else ret ()) (\<lambda>_.
     ret tx))"

definition purchase_capture :: "Transaction \<Rightarrow> CaptureRequest" where
  "purchase_capture tx = \<lparr>cq_TransactionID = tx_ID tx, cq_Amount = tx_Amount tx,
     cq_IdempotencyKey = tx_ID tx @ ''-cap''\<rparr>"

definition partial_response :: "Transaction \<Rightarrow> PurchaseRequest \<Rightarrow> PurchaseResponse" where
  "partial_response tx req = \<lparr>ps_TransactionID = tx_ID tx, ps_ProductID = pq_ProductID req,
     ps_OrderID = pq_OrderID req, ps_Status = StatusAuthorized, ps_Amount = tx_Amount tx,
     ps_Currency = tx_Currency tx, ps_DeclineReason = ''''\<rparr>"

text \<open>
  The result has the response and the error beside it, since one path returns both; an
  error thrown stands for \<open>(Response{}, err)\<close>.
\<close>

definition finish_purchase ::
  "('b) senv_scheme \<Rightarrow> PurchaseRequest \<Rightarrow> Transaction \<Rightarrow> (PurchaseResponse \<times> goerr option) sg" where
  "finish_purchase env req tx =
    (if tx_Status tx = StatusAuthorized
     then bnd (attempt (Capture env (purchase_capture tx))) (\<lambda>r. case r of
            Inl capErr \<Rightarrow> ret (partial_response tx req, Some (Sentinel Purchase_ErrCapturePartiallyApplied))
          | Inr _ \<Rightarrow> ret (responseFromTx tx (pq_ProductID req), None))
     else ret (responseFromTx tx (pq_ProductID req), None))"

definition Purchase ::
  "('b) senv_scheme \<Rightarrow> PurchaseRequest \<Rightarrow> (PurchaseResponse \<times> goerr option) sg" where
  "Purchase env req =
     bnd (checkIdempotency env req) (\<lambda>cached. case cached of
         Some resp \<Rightarrow> ret (resp, None)
       | None \<Rightarrow>
           bnd (product_Get env (pq_MerchantID req) (pq_ProductID req)) (\<lambda>p.
           bnd (fail_if (IsArchived p) (Sentinel Purchase_ErrProductArchived)) (\<lambda>_.
           bnd (attempt (InTransaction env ReadCommitted (purchase_tx env req p))) (\<lambda>r. case r of
               Inl err \<Rightarrow> if errors_Is err Transaction_ErrPurchaseIdempotencyConflict
                 then bnd (resolveRace env req) (\<lambda>resp. ret (resp, None))
                 else throw err
             | Inr tx \<Rightarrow> finish_purchase env req tx))))"

section \<open>Idempotency\<close>

lemma scanTransaction_run:
  assumes "fault env (ticks w) = None" and "\<not> tx_failed w"
  shows "scanTransaction (sql env (query_row transactions p)) w =
    (case find p (transactions (data w)) of
       None \<Rightarrow> Inl (Sentinel Transaction_ErrNotFound) | Some r \<Rightarrow> Inr (scan_tx_row r), tick w)"
  using assms
  by (simp add: scanTransaction_def sql_def query_row_def scan_one_def scan_tx_err_def run_simps
      split: option.splits)

definition purchase_row :: "PurchaseRequest \<Rightarrow> tx_row list \<Rightarrow> tx_row option" where
  "purchase_row req = find (\<lambda>r. t_merchant_id r = pq_MerchantID req
     \<and> t_purchase_idempotency_key r = Some (pq_IdempotencyKey req))"

text \<open>
  C31. A purchase whose key was used before for the same order, card and product is
  answered from the stored transaction: no row changes, and the bank is not asked again.
\<close>

theorem purchase_replayed:
  assumes "purchase_row req (transactions (data w)) = Some t"
    and "t_order_ref t = pq_OrderID req" and "t_card_token t = pq_CardToken req"
    and "t_product_id t = Some (pq_ProductID req)"
    and "fault env (ticks w) = None" and "\<not> tx_failed w"
  shows "Purchase env req w =
    (Inr (responseFromTx (scan_tx_row t) (pq_ProductID req), None), tick w)"
  using assms(1-4)
  by (simp add: Purchase_def checkIdempotency_def txrepo_GetByPurchaseIdempotencyKey_def
      scanTransaction_run[OF assms(5,6)] purchase_row_def sameRequest_def existing_product_def
      scan_tx_row_def run_simps)

text \<open>
  A key that was used for another order, card or product is refused: nothing changes
  and the bank is not asked.
\<close>

theorem purchase_key_conflict:
  assumes "purchase_row req (transactions (data w)) = Some t"
    and "t_order_ref t \<noteq> pq_OrderID req \<or> t_card_token t \<noteq> pq_CardToken req
      \<or> t_product_id t \<noteq> Some (pq_ProductID req)"
    and "fault env (ticks w) = None" and "\<not> tx_failed w"
  shows "Purchase env req w = (Inl (Sentinel Purchase_ErrIdempotencyConflict), tick w)"
proof -
  have "\<not> sameRequest (scan_tx_row t) req"
    using assms(2) by (auto simp: sameRequest_def scan_tx_row_def)
  with assms(1) show ?thesis
    by (simp add: Purchase_def checkIdempotency_def txrepo_GetByPurchaseIdempotencyKey_def
        scanTransaction_run[OF assms(3,4)] purchase_row_def run_simps)
qed

section \<open>A fresh purchase\<close>

definition mark_purchased :: "string \<Rightarrow> uuid \<Rightarrow> time \<Rightarrow> Product list \<Rightarrow> Product list" where
  "mark_purchased m i now = set_where
     (\<lambda>p. pr_MerchantID p = m \<and> pr_ID p = i \<and> pr_FirstPurchasedAt p = None)
     (\<lambda>p. p\<lparr>pr_FirstPurchasedAt := Some now, pr_UpdatedAt := now\<rparr>)"

lemma MarkPurchasedInTx_post:
  assumes "MarkPurchasedInTx env m i w = (Inr u, w')"
  shows "\<not> tx_failed w' \<and> trace w' = trace w \<and> data w' = (data w)\<lparr>products := mark_purchased m i (clock env (ticks w)) (products (data w))\<rparr>"
  using assms unfolding MarkPurchasedInTx_def productrepo_MarkPurchased_def
  by (auto simp: update_products_ok mark_purchased_def elim!: run_elims split: if_splits)

lemma purchase_tx_post:
  assumes "purchase_tx env req p w = (Inr tx, w')"
  shows "\<not> tx_failed w' \<and> (\<exists>result. authorized_as (purchase_auth req p) result tx
    \<and> transactions (data w') = transactions (data w) @ [tx_to_row tx]
    \<and> rows_ok transactions_schema (transactions (data w')) \<and> refunds (data w') = refunds (data w)
    \<and> trace w' = trace w @ [AcqAuthorize (pr_Price p) (pr_Currency p) (pq_CardToken req)]
    \<and> (if tx_Status tx = StatusAuthorized
       then \<exists>now. products (data w') = mark_purchased (pq_MerchantID req) (pq_ProductID req) now (products (data w))
       else products (data w') = products (data w)))"
proof -
  from assms obtain w1 where auth: "AuthorizeInTx env (purchase_auth req p) w = (Inr tx, w1)"
    and mark: "(if tx_Status tx = StatusAuthorized
          then map_err (wrap ''mark product purchased'')
                 (MarkPurchasedInTx env (pq_MerchantID req) (pq_ProductID req))
          else ret ()) w1 = (Inr (), w')"
    unfolding purchase_tx_def by (elim bnd_okE) simp
  from AuthorizeInTx_post[OF auth] obtain result where a: "authorized_as (purchase_auth req p) result tx"
    "data w1 = (data w)\<lparr>transactions := transactions (data w) @ [tx_to_row tx]\<rparr>"
    "rows_ok transactions_schema (transactions (data w1))"
    "trace w1 = trace w @ [AcqAuthorize (pr_Price p) (pr_Currency p) (pq_CardToken req)]"
    "\<not> tx_failed w1" by (auto simp: purchase_auth_def)
  show ?thesis
  proof (cases "tx_Status tx = StatusAuthorized")
    case True
    with mark have "MarkPurchasedInTx env (pq_MerchantID req) (pq_ProductID req) w1 = (Inr (), w')"
      by (auto elim!: map_err_okE)
    from MarkPurchasedInTx_post[OF this] a True show ?thesis by auto
  next
    case False
    with mark a show ?thesis by auto
  qed
qed

lemma resolveRace_none:
  assumes "purchase_row req (transactions (data w)) = None"
  shows "\<nexists>resp. fst (resolveRace env req w) = Inr resp"
proof
  assume "\<exists>resp. fst (resolveRace env req w) = Inr resp"
  then obtain resp w' where "resolveRace env req w = (Inr resp, w')" by (metis prod.collapse)
  then obtain tx w1 where "txrepo_GetByPurchaseIdempotencyKey env (pq_MerchantID req) (pq_IdempotencyKey req) w = (Inr tx, w1)"
    unfolding resolveRace_def by (auto elim!: bnd_okE map_err_okE)
  then show False using assms by (auto simp: purchase_row_def elim!: txrepo_Get_okE)
qed

text \<open>What a purchase that was not replayed has done, by the answer of the bank.\<close>

lemma purchase_fresh_parts:
  assumes run: "Purchase env req w = (Inr (resp, e), w')"
    and fresh_key: "purchase_row req (transactions (data w)) = None"
  obtains p w1 w2 tx where "find (\<lambda>p. pr_MerchantID p = pq_MerchantID req \<and> pr_ID p = pq_ProductID req)
      (products (data w)) = Some p" and "\<not> IsArchived p"
    and "data w1 = data w" and "trace w1 = trace w"
    and "InTransaction env ReadCommitted (purchase_tx env req p) w1 = (Inr tx, w2)"
    and "finish_purchase env req tx w2 = (Inr (resp, e), w')"
proof -
  from run obtain cached wa where chk: "checkIdempotency env req w = (Inr cached, wa)"
    and rest: "(case cached of Some resp \<Rightarrow> ret (resp, None) | None \<Rightarrow>
           bnd (product_Get env (pq_MerchantID req) (pq_ProductID req)) (\<lambda>p.
           bnd (fail_if (IsArchived p) (Sentinel Purchase_ErrProductArchived)) (\<lambda>_.
           bnd (attempt (InTransaction env ReadCommitted (purchase_tx env req p))) (\<lambda>r. case r of
               Inl err \<Rightarrow> if errors_Is err Transaction_ErrPurchaseIdempotencyConflict
                 then bnd (resolveRace env req) (\<lambda>resp. ret (resp, None))
                 else throw err
             | Inr tx \<Rightarrow> finish_purchase env req tx)))) wa = (Inr (resp, e), w')"
    unfolding Purchase_def by (rule bnd_okE)
  have "keeps_data (\<lambda>d. d = data w) (txrepo_GetByPurchaseIdempotencyKey env (pq_MerchantID req) (pq_IdempotencyKey req) :: Transaction sg)"
    unfolding txrepo_GetByPurchaseIdempotencyKey_def scanTransaction_def
    by (intro keeps_intros keeps_data_sql) (auto dest: query_row_data)
  then have "keeps_data (\<lambda>d. d = data w) (checkIdempotency env req)"
    unfolding checkIdempotency_def by (intro keeps_intros)
  from keepsD[OF this chk] have wa: "data wa = data w" by simp
  have "keeps_trace (\<lambda>t. t = trace w) (checkIdempotency env req)"
    unfolding checkIdempotency_def by (intro keeps_intros)
  from keepsD[OF this chk] have ta: "trace wa = trace w" by simp
  have "cached = None"
    using chk fresh_key unfolding checkIdempotency_def purchase_row_def
    by (auto elim!: bnd_okE attempt_okE txrepo_Get_okE split: sum.splits if_splits)
  with rest obtain p r wb wc where
    get: "productrepo_GetByID env (pq_MerchantID req) (pq_ProductID req) wa = (Inr p, wb)"
    and act: "\<not> IsArchived p"
    and tx: "InTransaction env ReadCommitted (purchase_tx env req p) wb = (r, wc)"
    and fin: "(case r of
               Inl err \<Rightarrow> if errors_Is err Transaction_ErrPurchaseIdempotencyConflict
                 then bnd (resolveRace env req) (\<lambda>resp. ret (resp, None))
                 else throw err
             | Inr tx \<Rightarrow> finish_purchase env req tx) wc = (Inr (resp, e), w')"
    unfolding product_Get_def by (auto elim!: bnd_okE fail_if_okE attempt_okE)
  from get have wb: "data wb = data w" "trace wb = trace w"
    and found: "find (\<lambda>p. pr_MerchantID p = pq_MerchantID req \<and> pr_ID p = pq_ProductID req)
      (products (data w)) = Some p"
    using wa ta by (auto elim!: productrepo_GetByID_okE)
  have "\<exists>tx. r = Inr tx"
  proof (cases r)
    case (Inl err)
    with tx have "data wc = data w" using wb by (auto dest: InTransaction_err_data)
    with fresh_key resolveRace_none[of req wc env] fin Inl show ?thesis
      by (auto elim!: bnd_okE split: if_splits)
  qed simp
  with that[OF found act wb] tx fin show thesis by auto
qed

lemma marked_all:
  "p' \<in> set (mark_purchased m i now rows) \<Longrightarrow> pr_MerchantID p' = m \<Longrightarrow> pr_ID p' = i
   \<Longrightarrow> pr_FirstPurchasedAt p' \<noteq> None"
  unfolding mark_purchased_def set_set_where by (elim imageE) (simp split: if_splits)

definition same_sale :: "tx_row \<Rightarrow> Transaction \<Rightarrow> bool" where
  "same_sale t tx \<longleftrightarrow> t_id t = tx_ID tx \<and> t_merchant_id t = tx_MerchantID tx \<and> t_amount t = tx_Amount tx
     \<and> t_currency t = tx_Currency tx \<and> t_product_id t = tx_ProductID tx"

lemma finish_purchase_cases:
  assumes "finish_purchase env req tx w = (Inr (resp, e), w')"
    and "tx_to_row tx \<in> set (transactions (data w))" and "distinct (map t_id (transactions (data w)))"
    and "tx_Status tx = StatusAuthorized \<or> tx_Status tx = StatusDeclined"
  shows "products (data w') = products (data w) \<and> ps_TransactionID resp = tx_ID tx \<and> ps_Amount resp = tx_Amount tx
    \<and> ps_Currency resp = tx_Currency tx
    \<and> (\<exists>t\<in>set (transactions (data w')). same_sale t tx
        \<and> (t_status t, ps_Status resp, e) \<in> (if tx_Status tx = StatusDeclined
            then {(StatusDeclined, StatusDeclined, None)}
            else {(StatusCapturePending, StatusCapturePending, None),
                  (StatusAuthorized, StatusAuthorized, Some (Sentinel Purchase_ErrCapturePartiallyApplied))}))"
proof (cases "tx_Status tx = StatusAuthorized")
  case False
  with assms show ?thesis
    by (auto simp: finish_purchase_def responseFromTx_def same_sale_def tx_to_row_def intro!: bexI[of _ "tx_to_row tx"])
next
  case True
  obtain r w1 where cap: "Capture env (purchase_capture tx) w = (r, w1)"
    by (cases "Capture env (purchase_capture tx) w")
  show ?thesis
  proof (cases r)
    case (Inl err)
    with cap have "data w1 = data w" by (auto dest: Capture_err_data)
    moreover have "w' = w1" "resp = partial_response tx req"
      "e = Some (Sentinel Purchase_ErrCapturePartiallyApplied)"
      using assms(1) True cap Inl by (auto simp: finish_purchase_def run_simps)
    ultimately show ?thesis
      using assms(2) True
      by (auto simp: partial_response_def same_sale_def tx_to_row_def intro!: bexI[of _ "tx_to_row tx"])
  next
    case (Inr cresp)
    from cap[unfolded Inr] obtain x now where
      mv: "moved (tx_ID tx) StatusCapturePending (nilIfEmpty (tx_ID tx @ ''-cap'')) now x (data w) (data w1)"
      by (rule Capture_post) (simp add: purchase_capture_def)
    then have f: "find (\<lambda>r. t_id r = tx_ID tx) (transactions (data w)) = Some x"
      and rows: "data w1 = (data w)\<lparr>transactions := set_where (\<lambda>x. t_id x = tx_ID tx)
        (mark_row StatusCapturePending (nilIfEmpty (tx_ID tx @ ''-cap'')) now) (transactions (data w))\<rparr>"
      by (auto simp: moved_def)
    let ?t = "mark_row StatusCapturePending (nilIfEmpty (tx_ID tx @ ''-cap'')) now (tx_to_row tx)"
    have "?t \<in> set (transactions (data w1))"
      using assms(2) by (auto simp: rows set_set_where tx_to_row_def intro!: image_eqI[of _ _ "tx_to_row tx"])
    moreover have "same_sale ?t tx" "t_status ?t = StatusCapturePending"
      by (simp_all add: same_sale_def mark_row_def tx_to_row_def)
    moreover have "w' = w1" "resp = responseFromTx tx (pq_ProductID req)" "e = None"
      using assms(1) True cap Inr by (auto simp: finish_purchase_def run_simps)
    ultimately show ?thesis using True rows by (auto simp: responseFromTx_def)
  qed
qed

text \<open>
  C32. A purchase under a new key charges the product's price in the product's currency,
  stores the transaction under the identifier it answers with, and answers truthfully:
  declined; capture pending; or authorised with the error that asks for recovery. Unless
  the bank declined, the product is marked as purchased.
\<close>

theorem purchase_outcome:
  assumes run: "Purchase env req w = (Inr (resp, e), w')"
    and fresh_key: "purchase_row req (transactions (data w)) = None"
  shows "\<exists>p t. find (\<lambda>p. pr_MerchantID p = pq_MerchantID req \<and> pr_ID p = pq_ProductID req) (products (data w)) = Some p
    \<and> \<not> IsArchived p \<and> t \<in> set (transactions (data w')) \<and> t_id t = ps_TransactionID resp
    \<and> t_amount t = pr_Price p \<and> t_currency t = pr_Currency p
    \<and> ps_Amount resp = pr_Price p \<and> ps_Currency resp = pr_Currency p
    \<and> (t_status t, ps_Status resp, e) \<in> {(StatusDeclined, StatusDeclined, None),
        (StatusCapturePending, StatusCapturePending, None),
        (StatusAuthorized, StatusAuthorized, Some (Sentinel Purchase_ErrCapturePartiallyApplied))}
    \<and> (t_status t \<noteq> StatusDeclined \<longrightarrow> (\<forall>p'\<in>set (products (data w')).
        pr_MerchantID p' = pq_MerchantID req \<and> pr_ID p' = pq_ProductID req \<longrightarrow> pr_FirstPurchasedAt p' \<noteq> None))"
  using run fresh_key
proof (rule purchase_fresh_parts)
  fix p w1 w2 tx
  assume found: "find (\<lambda>p. pr_MerchantID p = pq_MerchantID req \<and> pr_ID p = pq_ProductID req)
      (products (data w)) = Some p" and act: "\<not> IsArchived p"
    and tx: "InTransaction env ReadCommitted (purchase_tx env req p) w1 = (Inr tx, w2)"
    and fin: "finish_purchase env req tx w2 = (Inr (resp, e), w')"
  have "\<exists>result now. authorized_as (purchase_auth req p) result tx
    \<and> transactions (data w2) = transactions (data w1) @ [tx_to_row tx]
    \<and> rows_ok transactions_schema (transactions (data w2))
    \<and> (tx_Status tx = StatusAuthorized \<longrightarrow>
        products (data w2) = mark_purchased (pq_MerchantID req) (pq_ProductID req) now (products (data w1)))"
    by (rule InTransaction_post[OF tx]) (use purchase_tx_post in \<open>fastforce split: if_splits\<close>)
  then obtain result now where as: "authorized_as (purchase_auth req p) result tx"
    and rows: "transactions (data w2) = transactions (data w1) @ [tx_to_row tx]"
    and ok: "rows_ok transactions_schema (transactions (data w2))"
    and mark: "tx_Status tx = StatusAuthorized \<Longrightarrow>
        products (data w2) = mark_purchased (pq_MerchantID req) (pq_ProductID req) now (products (data w1))"
    by blast
  have st: "tx_Status tx = StatusAuthorized \<or> tx_Status tx = StatusDeclined"
    using as by (simp add: authorized_as_def)
  have amount: "tx_Amount tx = pr_Price p" "tx_Currency tx = pr_Currency p"
    using as by (simp_all add: authorized_as_def purchase_auth_def)
  have ids: "distinct (map t_id (transactions (data w2)))"
    using ok by (simp add: rows_ok_def transactions_schema_def no_clash_key[symmetric])
  have "tx_to_row tx \<in> set (transactions (data w2))" by (simp add: rows)
  from finish_purchase_cases[OF fin this ids st] obtain t where
    t: "t \<in> set (transactions (data w'))" "same_sale t tx"
    and out: "(t_status t, ps_Status resp, e) \<in> (if tx_Status tx = StatusDeclined
            then {(StatusDeclined, StatusDeclined, None)}
            else {(StatusCapturePending, StatusCapturePending, None),
                  (StatusAuthorized, StatusAuthorized, Some (Sentinel Purchase_ErrCapturePartiallyApplied))})"
    and resp: "ps_TransactionID resp = tx_ID tx" "ps_Amount resp = tx_Amount tx" "ps_Currency resp = tx_Currency tx"
    and prods: "products (data w') = products (data w2)" by blast
  have "t_status t \<noteq> StatusDeclined \<Longrightarrow> tx_Status tx = StatusAuthorized" using out st by auto
  with mark prods marked_all have marked: "t_status t \<noteq> StatusDeclined \<Longrightarrow> \<forall>p'\<in>set (products (data w')).
        pr_MerchantID p' = pq_MerchantID req \<and> pr_ID p' = pq_ProductID req \<longrightarrow> pr_FirstPurchasedAt p' \<noteq> None"
    by metis
  show ?thesis
    using found act t out resp amount marked
    by (intro exI[of _ p] exI[of _ t]) (auto simp: same_sale_def split: if_splits)
qed

section \<open>Examples\<close>

definition demo_purchase :: PurchaseRequest where
  "demo_purchase = \<lparr>pq_MerchantID = ''m'', pq_OrderID = ''o'', pq_ProductID = ''a'', pq_CardToken = ''tok'',
     pq_IdempotencyKey = ''key''\<rparr>"

definition demo_shop :: "tx_row list \<Rightarrow> (sg_data, sg_effect) world" where
  "demo_shop rows = init_world \<lparr>transactions = rows, refunds = [], products = demo_products\<rparr>"

definition demo_sale :: "string \<Rightarrow> tx_row" where
  "demo_sale order = \<lparr>t_id = ''t'', t_merchant_id = ''m'', t_order_ref = order, t_amount = 500,
     t_currency = ''EUR'', t_card_token = ''tok'', t_status = StatusCaptured, t_decline_reason = None,
     t_idempotency_key = Some ''t-cap'', t_purchase_idempotency_key = Some ''key'', t_product_id = Some ''a'',
     t_refunded_amount = 0, t_created_at = 1, t_updated_at = 1\<rparr>"

lemma demo_purchase_row:
  "purchase_row demo_purchase (transactions (data (demo_shop [demo_sale order]))) = Some (demo_sale order)"
  by (simp add: purchase_row_def demo_purchase_def demo_shop_def init_world_def demo_sale_def)

theorem purchase_replayed_witness:
  "Purchase (demo_env 0) demo_purchase (demo_shop [demo_sale ''o''])
   = (Inr (\<lparr>ps_TransactionID = ''t'', ps_ProductID = ''a'', ps_OrderID = ''o'', ps_Status = ''captured'',
       ps_Amount = 500, ps_Currency = ''EUR'', ps_DeclineReason = ''''\<rparr>, None), tick (demo_shop [demo_sale ''o'']))"
  by (subst purchase_replayed[OF demo_purchase_row])
    (simp_all add: demo_sale_def demo_purchase_def demo_env_def demo_shop_def init_world_def
      responseFromTx_def scan_tx_row_def string_or_empty_def)

theorem purchase_key_conflict_witness:
  "fst (Purchase (demo_env 0) demo_purchase (demo_shop [demo_sale ''other'']))
   = Inl (Sentinel Purchase_ErrIdempotencyConflict)"
  by (subst purchase_key_conflict[OF demo_purchase_row])
    (simp_all add: demo_sale_def demo_purchase_def demo_env_def demo_shop_def init_world_def)

lemma demo_purchase_run:
  "fst (Purchase (demo_env 0) demo_purchase (demo_shop [])) =
     Inr (\<lparr>ps_TransactionID = ''ddddd'', ps_ProductID = ''a'', ps_OrderID = ''o'',
       ps_Status = ''capture_pending'', ps_Amount = 500, ps_Currency = ''EUR'', ps_DeclineReason = ''''\<rparr>, None)"
  by code_simp

theorem purchase_outcome_witness:
  "\<exists>t\<in>set (transactions (data (snd (Purchase (demo_env 0) demo_purchase (demo_shop []))))).
     t_id t = ''ddddd'' \<and> t_amount t = 500 \<and> t_status t = ''capture_pending''"
proof -
  have "Purchase (demo_env 0) demo_purchase (demo_shop []) =
     (Inr (\<lparr>ps_TransactionID = ''ddddd'', ps_ProductID = ''a'', ps_OrderID = ''o'',
       ps_Status = ''capture_pending'', ps_Amount = 500, ps_Currency = ''EUR'', ps_DeclineReason = ''''\<rparr>, None),
      snd (Purchase (demo_env 0) demo_purchase (demo_shop [])))"
    using demo_purchase_run by (metis prod.collapse)
  from purchase_outcome[OF this] show ?thesis
    by (auto simp: purchase_row_def demo_shop_def init_world_def)
qed

end
