(* ===== verification/SgLedger.thy ===== *)
theory SgLedger
  imports SgPurchase
begin

text \<open>
  Silvergate as a system: API calls and goroutines in any order. Each transaction and each
  single statement is one step, which is what the row locks and the serialization
  failures of \<open>RepeatableRead\<close> (a \<open>fault\<close>) make of concurrent requests; between two steps
  of a goroutine any other step may happen, every answer of the environment may differ
  from the last one, and a crash may drop any goroutine.

  The invariant is the book-keeping of refunds: the amount reserved on a transaction is
  the sum of its refunds that were not released, and never exceeds what was authorised.
\<close>

section \<open>The system\<close>

text \<open>A goroutine with the point it has reached; \<open>JRelease n\<close> has \<open>n\<close> tries left.\<close>

datatype job =
    JSettle Transaction int64
  | JRefund Transaction Refund
  | JRelease nat Transaction Refund
  | JNotifyRefund Transaction Refund
  | JVoidWebhook Transaction

fun spawned :: "sg_effect list \<Rightarrow> job list" where
  "spawned [] = []"
| "spawned (GoSettle tx a # es) = JSettle tx a # spawned es"
| "spawned (GoRefund tx rf # es) = JRefund tx rf # spawned es"
| "spawned (GoVoidWebhook tx # es) = JVoidWebhook tx # spawned es"
| "spawned (e # es) = spawned es"

text \<open>\<open>released\<close> records the refunds whose reservation was given back; no code reads it.\<close>

record system =
  db :: sg_data
  jobs :: "job list"
  released :: "uuid set"

definition starts :: "(sg_data, sg_effect) world \<Rightarrow> system \<Rightarrow> bool" where
  "starts w s \<longleftrightarrow> data w = db s \<and> \<not> in_tx w \<and> \<not> tx_failed w \<and> trace w = []"

text \<open>A goroutine that runs again: its earlier effects are in the trace.\<close>

definition resumes :: "(sg_data, sg_effect) world \<Rightarrow> system \<Rightarrow> bool" where
  "resumes w s \<longleftrightarrow> data w = db s \<and> \<not> in_tx w \<and> \<not> tx_failed w"

definition served :: "system \<Rightarrow> (sg_data, sg_effect) world \<Rightarrow> system" where
  "served s w' = s\<lparr>db := data w', jobs := jobs s @ spawned (trace w')\<rparr>"

definition after_answer :: "Transaction \<Rightarrow> Refund \<Rightarrow> job" where
  "after_answer tx rf = (if rf_Status rf = RefundStatusFailed then JRelease maxRetries tx rf
     else JNotifyRefund tx rf)"

text \<open>
  The requests, in their atomic parts. A purchase is its database transaction, for a
  product as it was read before, and then a capture like any other. The merchants' requests
  for their products are those of the product service.
\<close>

datatype api =
    ApiAuthorize AuthRequest
  | ApiCapture CaptureRequest
  | ApiRefund RefundRequest
  | ApiVoid uuid
  | ApiPurchase PurchaseRequest Product
  | ApiProduct string product_request

fun serve :: "senv \<Rightarrow> api \<Rightarrow> unit sg" where
  "serve env (ApiAuthorize req) = bnd (Authorize env req) (\<lambda>_. ret ())"
| "serve env (ApiCapture req) = bnd (Capture env req) (\<lambda>_. ret ())"
| "serve env (ApiRefund req) = bnd (Service_Refund env req) (\<lambda>_. ret ())"
| "serve env (ApiVoid i) = bnd (Void env i) (\<lambda>_. ret ())"
| "serve env (ApiPurchase req p) =
     bnd (InTransaction env ReadCommitted (purchase_tx env req p)) (\<lambda>_. ret ())"
| "serve env (ApiProduct m req) = product_serve env m req"

inductive sg_step :: "system \<Rightarrow> system \<Rightarrow> bool" where
  api: "starts w s \<Longrightarrow> serve env a w = (r, w') \<Longrightarrow> sg_step s (served s w')"
| settle: "resumes w s \<Longrightarrow> jobs s = js @ JSettle tx a # ks \<Longrightarrow> settleAsync (env :: senv) url tx a w = (r, w') \<Longrightarrow>
    sg_step s (s\<lparr>db := data w', jobs := js @ ks\<rparr>)"
| answered: "resumes w s \<Longrightarrow> jobs s = js @ JRefund tx rf # ks \<Longrightarrow>
    refund_outcome (env :: senv) tx rf w = (Inr rf', w') \<Longrightarrow>
    sg_step s (s\<lparr>db := data w', jobs := js @ after_answer tx rf' # ks\<rparr>)"
| unanswered: "resumes w s \<Longrightarrow> jobs s = js @ JRefund tx rf # ks \<Longrightarrow>
    refund_outcome (env :: senv) tx rf w = (Inl e, w') \<Longrightarrow>
    sg_step s (s\<lparr>db := data w', jobs := js @ ks\<rparr>)"
| release_ok: "resumes w s \<Longrightarrow> jobs s = js @ JRelease (Suc n) tx rf # ks \<Longrightarrow>
    txrepo_ReleaseRefundAmount (env :: senv) (tx_ID tx) (rf_Amount rf) w = (Inr u, w') \<Longrightarrow>
    sg_step s (s\<lparr>db := data w', jobs := js @ JNotifyRefund tx rf # ks,
                 released := insert (rf_ID rf) (released s)\<rparr>)"
| release_err: "resumes w s \<Longrightarrow> jobs s = js @ JRelease (Suc n) tx rf # ks \<Longrightarrow>
    txrepo_ReleaseRefundAmount (env :: senv) (tx_ID tx) (rf_Amount rf) w = (Inl e, w') \<Longrightarrow>
    sg_step s (s\<lparr>db := data w', jobs := js @ JRelease n tx rf # ks\<rparr>)"
| give_up: "jobs s = js @ JRelease 0 tx rf # ks \<Longrightarrow>
    sg_step s (s\<lparr>jobs := js @ JNotifyRefund tx rf # ks\<rparr>)"
| notify_refund: "resumes w s \<Longrightarrow> jobs s = js @ JNotifyRefund tx rf # ks \<Longrightarrow>
    SendRefundResult (env :: senv) url tx rf w = (r, w') \<Longrightarrow>
    sg_step s (s\<lparr>db := data w', jobs := js @ ks\<rparr>)"
| notify_void: "resumes w s \<Longrightarrow> jobs s = js @ JVoidWebhook tx # ks \<Longrightarrow>
    voidWebhook (env :: senv) url tx w = (r, w') \<Longrightarrow> sg_step s (s\<lparr>db := data w', jobs := js @ ks\<rparr>)"
| crash: "jobs s = js @ j # ks \<Longrightarrow> sg_step s (s\<lparr>jobs := js @ ks\<rparr>)"

definition sg_init :: system where
  "sg_init = \<lparr>db = \<lparr>transactions = [], refunds = [], products = []\<rparr>, jobs = [], released = {}\<rparr>"

text \<open>Every state that requests, goroutines and crashes can bring the system to.\<close>

definition reachable :: "system \<Rightarrow> bool" where
  "reachable s \<longleftrightarrow> sg_step\<^sup>*\<^sup>* sg_init s"

section \<open>The book-keeping of refunds\<close>

definition reservations :: "refund_row list \<Rightarrow> uuid set \<Rightarrow> uuid \<Rightarrow> int" where
  "reservations rfs rel i =
     sum_list (map (\<lambda>r. sint (r_amount r)) (filter (\<lambda>r. r_transaction_id r = i \<and> r_id r \<notin> rel) rfs))"

definition row_inv :: "refund_row list \<Rightarrow> uuid set \<Rightarrow> tx_row \<Rightarrow> bool" where
  "row_inv rfs rel t \<longleftrightarrow>
     sint (t_refunded_amount t) = reservations rfs rel (t_id t)
     \<and> 0 \<le> sint (t_refunded_amount t)
     \<and> (t_refunded_amount t \<noteq> 0 \<longrightarrow> i64_le (t_refunded_amount t) (t_amount t)
          \<and> t_status t \<in> {StatusPartiallyRefunded, StatusRefunded})
     \<and> (t_status t = StatusRefunded \<longrightarrow> t_refunded_amount t = t_amount t \<and> t_refunded_amount t \<noteq> 0)
     \<and> (t_status t = StatusPartiallyRefunded \<longrightarrow>
          t_refunded_amount t \<noteq> 0 \<and> i64_less (t_refunded_amount t) (t_amount t))"

text \<open>The row a goroutine works for.\<close>

definition refund_of :: "refund_row list \<Rightarrow> Transaction \<Rightarrow> Refund \<Rightarrow> string \<Rightarrow> bool" where
  "refund_of rfs tx rf status \<longleftrightarrow> (\<exists>r\<in>set rfs. r_id r = rf_ID rf \<and> r_transaction_id r = tx_ID tx
     \<and> r_amount r = rf_Amount rf \<and> r_status r = status)"

fun job_inv :: "refund_row list \<Rightarrow> uuid set \<Rightarrow> job \<Rightarrow> bool" where
  "job_inv rfs rel (JRefund tx rf) = (refund_of rfs tx rf RefundStatusPending)"
| "job_inv rfs rel (JRelease n tx rf) = (refund_of rfs tx rf RefundStatusFailed \<and> rf_ID rf \<notin> rel)"
| "job_inv rfs rel _ = True"

text \<open>The refund a goroutine still has to finish.\<close>

fun owner :: "job \<Rightarrow> uuid list" where
  "owner (JRefund tx rf) = [rf_ID rf]"
| "owner (JRelease n tx rf) = [rf_ID rf]"
| "owner _ = []"

text \<open>The rows, and the goroutines that hang on them.\<close>

definition book_inv :: "sg_data \<Rightarrow> uuid set \<Rightarrow> bool" where
  "book_inv d rel \<longleftrightarrow>
     rows_ok transactions_schema (transactions d) \<and> rows_ok refunds_schema (refunds d)
     \<and> (\<forall>r\<in>set (refunds d). r_transaction_id r \<in> t_id ` set (transactions d))
     \<and> (\<forall>t\<in>set (transactions d). row_inv (refunds d) rel t)
     \<and> rel \<subseteq> r_id ` set (refunds d)
     \<and> (\<forall>r\<in>set (refunds d). r_id r \<in> rel \<longrightarrow> r_status r = RefundStatusFailed)"

definition jobs_inv :: "sg_data \<Rightarrow> uuid set \<Rightarrow> job list \<Rightarrow> bool" where
  "jobs_inv d rel js \<longleftrightarrow>
     (\<forall>j\<in>set js. job_inv (refunds d) rel j) \<and> distinct (concat (map owner js))"

definition ledger_inv :: "system \<Rightarrow> bool" where
  "ledger_inv s \<longleftrightarrow> book_inv (db s) (released s) \<and> jobs_inv (db s) (released s) (jobs s)"

section \<open>Sums of reservations\<close>

lemma reservations_Nil [simp]: "reservations [] rel i = 0"
  by (simp add: reservations_def)

lemma reservations_Cons:
  "reservations (r # rs) rel i =
     (if r_transaction_id r = i \<and> r_id r \<notin> rel then sint (r_amount r) else 0) + reservations rs rel i"
  by (simp add: reservations_def)

lemma reservations_snoc:
  "reservations (rs @ [r]) rel i =
     reservations rs rel i + (if r_transaction_id r = i \<and> r_id r \<notin> rel then sint (r_amount r) else 0)"
  by (simp add: reservations_def)

lemma reservations_set_where:
  assumes "\<And>r. r_id (f r) = r_id r \<and> r_transaction_id (f r) = r_transaction_id r \<and> r_amount (f r) = r_amount r"
  shows "reservations (set_where p f rs) rel i = reservations rs rel i"
  by (induction rs) (auto simp: set_where_def reservations_Cons assms)

lemma reservations_fresh:
  "x \<notin> r_id ` set rs \<Longrightarrow> reservations rs (insert x rel) i = reservations rs rel i"
  by (induction rs) (auto simp: reservations_Cons)

lemma reservations_release:
  "distinct (map r_id rs) \<Longrightarrow> r \<in> set rs \<Longrightarrow> r_id r \<notin> rel \<Longrightarrow>
   reservations rs (insert (r_id r) rel) i =
     reservations rs rel i - (if r_transaction_id r = i then sint (r_amount r) else 0)"
proof (induction rs)
  case Nil
  then show ?case by simp
next
  case (Cons x rs)
  show ?case
  proof (cases "x = r")
    case True
    with Cons.prems have "r_id r \<notin> r_id ` set rs" by auto
    with True Cons.prems show ?thesis by (simp add: reservations_Cons reservations_fresh)
  next
    case False
    with Cons.prems have "r \<in> set rs" "r_id x \<noteq> r_id r" by auto
    with Cons show ?thesis by (simp add: reservations_Cons)
  qed
qed

lemma reservations_nonneg:
  "(\<And>r. r \<in> set rs \<Longrightarrow> 0 < sint (r_amount r)) \<Longrightarrow> 0 \<le> reservations rs rel i"
  unfolding reservations_def by (intro sum_list_nonneg) (auto intro: less_imp_le)

lemma reservations_ge:
  assumes "distinct (map r_id rs)" and "\<And>r. r \<in> set rs \<Longrightarrow> 0 < sint (r_amount r)"
    and "r \<in> set rs" and "r_id r \<notin> rel" and "r_transaction_id r = i"
  shows "sint (r_amount r) \<le> reservations rs rel i"
  using reservations_release[OF assms(1,3,4), of i] assms(5)
    reservations_nonneg[OF assms(2), of rs "insert (r_id r) rel" i] by simp

section \<open>What the constraints of the tables say\<close>

lemma transactions_ok_ids: "rows_ok transactions_schema rows \<Longrightarrow> distinct (map t_id rows)"
  by (simp add: rows_ok_def transactions_schema_def no_clash_key[symmetric])

lemma refunds_ok_ids: "rows_ok refunds_schema rows \<Longrightarrow> distinct (map r_id rows)"
  by (simp add: rows_ok_def refunds_schema_def no_clash_key[symmetric])

lemma refunds_ok_amount: "rows_ok refunds_schema rows \<Longrightarrow> r \<in> set rows \<Longrightarrow> 0 < sint (r_amount r)"
  by (auto simp: rows_ok_def refunds_schema_def list_all_iff)

lemma found_row:
  assumes "find (\<lambda>r. k r = i) rows = Some r" and "distinct (map k rows)"
  shows "r \<in> set rows" and "k r = i" and "x \<in> set rows \<Longrightarrow> k x = i \<Longrightarrow> x = r"
  using find_SomeD[OF assms(1)] assms(2) by (auto simp: distinct_map dest: inj_onD)

section \<open>Initial state\<close>

lemma rows_ok_Nil: "rows_ok sch []"
  by (auto simp: rows_ok_def list_all_iff)

lemma ledger_inv_init: "ledger_inv sg_init"
  by (simp add: ledger_inv_def book_inv_def jobs_inv_def sg_init_def rows_ok_Nil)

section \<open>The rows after each statement\<close>

lemma row_inv_cong:
  "reservations rfs' rel' (t_id t) = reservations rfs rel (t_id t) \<Longrightarrow> row_inv rfs' rel' t = row_inv rfs rel t"
  by (simp only: row_inv_def)

lemma row_inv_plain:
  assumes "row_inv rfs rel t" and "t_status t \<notin> {StatusPartiallyRefunded, StatusRefunded}"
    and "t_status t' \<notin> {StatusPartiallyRefunded, StatusRefunded}"
    and "t_id t' = t_id t" and "t_refunded_amount t' = t_refunded_amount t"
  shows "row_inv rfs rel t'"
  using assms by (auto simp: row_inv_def)

text \<open>Writes to one row: the others keep what they had.\<close>

lemma rows_written:
  assumes "\<forall>t\<in>set rows. Q t" and "\<And>t. t \<in> set rows \<Longrightarrow> p t \<Longrightarrow> Q t \<Longrightarrow> Q' (f t)"
    and "\<And>t. t \<in> set rows \<Longrightarrow> \<not> p t \<Longrightarrow> Q t \<Longrightarrow> Q' t"
  shows "\<forall>t\<in>set (set_where p f rows). Q' t"
  using assms by (auto simp: set_set_where)

lemma ids_written:
  assumes "\<And>t. k (f t) = k t"
  shows "k ` set (set_where p f rows) = k ` set rows"
  using set_where_keys[of k f, OF assms] by (metis list.set_map)

lemma book_moved:
  assumes "book_inv d rel" and "moved i status key now r d d'"
    and "status \<notin> {StatusPartiallyRefunded, StatusRefunded}"
  shows "book_inv d' rel" and "refunds d' = refunds d"
proof -
  note d' = assms(2)[unfolded moved_def]
  from d' show rf: "refunds d' = refunds d" by auto
  have "distinct (map t_id (transactions d))"
    using assms(1) by (simp add: book_inv_def transactions_ok_ids)
  then have same: "t = r" if "t \<in> set (transactions d)" "t_id t = i" for t
    using found_row(3) d' that by fastforce
  from d' have tr: "transactions d' = set_where (\<lambda>x. t_id x = i) (mark_row status key now) (transactions d)"
    and st: "t_status r = StatusAuthorized" by auto
  have "\<forall>t\<in>set (transactions d'). row_inv (refunds d') rel t"
    unfolding rf tr
  proof (rule rows_written[where Q = "row_inv (refunds d) rel"])
    fix t assume "t \<in> set (transactions d)" "t_id t = i" and inv: "row_inv (refunds d) rel t"
    with same st have "t_status t = StatusAuthorized" by blast
    with inv assms(3) show "row_inv (refunds d) rel (mark_row status key now t)"
      by (intro row_inv_plain[OF inv]) (auto simp: mark_row_def)
  qed (use assms(1) in \<open>simp_all add: book_inv_def\<close>)
  moreover have "t_id ` set (transactions d') = t_id ` set (transactions d)"
    using d' by (auto simp: ids_written mark_row_def)
  ultimately show "book_inv d' rel" using assms(1) d' by (auto simp: book_inv_def)
qed

lemma book_settles:
  assumes "book_inv d rel" and "settles i status now d d'"
    and "status \<notin> {StatusPartiallyRefunded, StatusRefunded}"
  shows "book_inv d' rel" and "refunds d' = refunds d"
proof -
  note d' = assms(2)[unfolded settles_def]
  from d' show rf: "refunds d' = refunds d" by auto
  from d' have tr: "transactions d' = set_where (\<lambda>r. t_id r = i \<and> t_status r = StatusCapturePending)
      (\<lambda>r. r\<lparr>t_status := status, t_updated_at := now\<rparr>) (transactions d)" by auto
  have "\<forall>t\<in>set (transactions d'). row_inv (refunds d') rel t"
    unfolding rf tr
  proof (rule rows_written[where Q = "row_inv (refunds d) rel"])
    fix t assume st: "t_id t = i \<and> t_status t = StatusCapturePending" and inv: "row_inv (refunds d) rel t"
    with assms(3) show "row_inv (refunds d) rel (t\<lparr>t_status := status, t_updated_at := now\<rparr>)"
      by (intro row_inv_plain[OF inv]) auto
  qed (use assms(1) in \<open>simp_all add: book_inv_def\<close>)
  moreover have "t_id ` set (transactions d') = t_id ` set (transactions d)"
    using d' by (auto simp: ids_written)
  ultimately show "book_inv d' rel" using assms(1) d' by (auto simp: book_inv_def)
qed

lemma book_authorized:
  assumes "book_inv d rel" and tr: "transactions d' = transactions d @ [tx_to_row tx]"
    and rf: "refunds d' = refunds d" and "rows_ok transactions_schema (transactions d')"
    and "tx_Status tx = StatusAuthorized \<or> tx_Status tx = StatusDeclined"
  shows "book_inv d' rel"
proof -
  have new: "tx_ID tx \<notin> t_id ` set (transactions d)"
    using transactions_ok_ids[OF assms(4)] by (auto simp: tr tx_to_row_def)
  have "reservations (refunds d) rel (tx_ID tx) = 0"
  proof -
    from assms(1) have "\<forall>r\<in>set (refunds d). r_transaction_id r \<in> t_id ` set (transactions d)"
      by (simp add: book_inv_def)
    with new have "\<forall>r\<in>set (refunds d). r_transaction_id r \<noteq> tx_ID tx" by metis
    then show ?thesis by (simp add: reservations_def)
  qed
  then have "row_inv (refunds d) rel (tx_to_row tx)"
    using assms(5) by (auto simp: row_inv_def tx_to_row_def)
  with assms(1,4) show "book_inv d' rel" unfolding book_inv_def rf by (simp add: tr)
qed

lemma reserve_arith:
  assumes "0 \<le> sint (b::int64)" and "b \<noteq> 0 \<Longrightarrow> sint b \<le> sint a" and "0 < sint q"
    and "sint q \<le> sint (a - b)"
  shows "sint (b + q) = sint b + sint q" and "sint b + sint q \<le> sint a"
proof -
  have le: "sint b + sint q \<le> sint a"
  proof (cases "b = 0")
    case True
    with assms(4) show ?thesis by simp
  next
    case False
    with assms have "sint (a - b) = sint a - sint b" by (intro sint_i64_sub_nonneg) auto
    with assms(4) show ?thesis by simp
  qed
  then show "sint b + sint q \<le> sint a" .
  show "sint (b + q) = sint b + sint q"
    using assms(1,3) le by (intro sint_i64_add_bounded[of _ _ a]) auto
qed

lemma book_reserves:
  assumes book: "book_inv d rel" and res: "reserves req r now rf d d'"
  shows "book_inv d' rel" and "rf_ID rf \<notin> r_id ` set (refunds d)"
proof -
  define q where "q = rq_Amount req"
  define i where "i = rq_TransactionID req"
  note res' = res[unfolded reserves_def, folded q_def i_def]
  from res' have tr: "transactions d' = set_where (\<lambda>x. t_id x = i)
        (reserve_row (reserved_status (t_amount r) (t_refunded_amount r + q))
          (t_refunded_amount r + q) now) (transactions d)"
    and rf: "refunds d' = refunds d @ [refund_to_row rf]"
    and le: "sint q \<le> sint (t_amount r - t_refunded_amount r)"
    and found: "find (\<lambda>r. t_id r = i) (transactions d) = Some r"
    and ok: "rows_ok refunds_schema (refunds d')" and okt: "rows_ok transactions_schema (transactions d')"
    and new: "r_transaction_id (refund_to_row rf) = i" "r_amount (refund_to_row rf) = q"
      "r_status (refund_to_row rf) = RefundStatusPending" "r_id (refund_to_row rf) = rf_ID rf"
    by (auto simp: refund_to_row_def)
  have "distinct (map t_id (transactions d))" using book by (simp add: book_inv_def transactions_ok_ids)
  note r = found_row[OF found this]
  from refunds_ok_ids[OF ok] rf new show fresh: "rf_ID rf \<notin> r_id ` set (refunds d)" by auto
  with book have norel: "rf_ID rf \<notin> rel" by (auto simp: book_inv_def)
  have pos: "0 < sint q" using refunds_ok_amount[OF ok, of "refund_to_row rf"] rf new by simp
  from book r(1) have inv: "row_inv (refunds d) rel r" by (simp add: book_inv_def)
  have add: "sint (t_refunded_amount r + q) = sint (t_refunded_amount r) + sint q"
    and max: "sint (t_refunded_amount r) + sint q \<le> sint (t_amount r)"
    using reserve_arith[of "t_refunded_amount r" "t_amount r" q] inv pos le
    by (auto simp: row_inv_def)
  have sum: "reservations (refunds d') rel j = reservations (refunds d) rel j + (if j = i then sint q else 0)"
    for j using norel new by (simp add: rf reservations_snoc)
  have "\<forall>t\<in>set (transactions d'). row_inv (refunds d') rel t"
    unfolding tr
  proof (rule rows_written[where Q = "row_inv (refunds d) rel"])
    fix t assume "t \<in> set (transactions d)" "t_id t = i"
    then have t: "t = r" using r(3) by blast
    have "t_refunded_amount r + q \<noteq> 0" using add pos inv by (auto simp: row_inv_def sint_i64_eq_0[symmetric] simp del: sint_i64_eq_0)
    moreover have "t_refunded_amount r + q = t_amount r"
      if "sint (t_amount r) \<le> sint (t_refunded_amount r + q)"
      using that add max sint_i64_inject by fastforce
    ultimately show "row_inv (refunds d') rel (reserve_row (reserved_status (t_amount r) (t_refunded_amount r + q))
          (t_refunded_amount r + q) now t)"
      using inv add max pos r(2) unfolding t
      by (auto simp: row_inv_def reserve_row_def reserved_status_def sum)
  next
    fix t assume "t_id t \<noteq> i" "row_inv (refunds d) rel t"
    then show "row_inv (refunds d') rel t"
      using row_inv_cong[of "refunds d'" rel t "refunds d" rel] sum by simp
  qed (use book in \<open>simp add: book_inv_def\<close>)
  moreover have "t_id ` set (transactions d') = t_id ` set (transactions d)"
    unfolding tr by (rule ids_written) (simp add: reserve_row_def)
  moreover have "i \<in> t_id ` set (transactions d)" using r(1,2) by auto
  ultimately show "book_inv d' rel"
    using book ok okt new norel unfolding book_inv_def by (auto simp: rf)
qed

lemma book_answers:
  assumes book: "book_inv d rel" and ans: "answers rf status now rf' d d'"
    and norel: "rf_ID rf \<notin> rel"
  shows "book_inv d' rel"
proof -
  define g where "g r = r\<lparr>r_status := status, r_updated_at := now\<rparr>" for r :: refund_row
  have g: "r_id (g r) = r_id r \<and> r_transaction_id (g r) = r_transaction_id r \<and> r_amount (g r) = r_amount r"
    for r by (simp add: g_def)
  from ans have tr: "transactions d' = transactions d"
    and rf: "refunds d' = set_where (\<lambda>r. r_id r = rf_ID rf) g (refunds d)"
    and ok: "rows_ok refunds_schema (refunds d')"
    by (auto simp: answers_def g_def[abs_def])
  have inv: "row_inv (refunds d') rel t = row_inv (refunds d) rel t" for t
    unfolding rf by (rule row_inv_cong) (rule reservations_set_where[OF g])
  have ids: "r_id ` set (refunds d') = r_id ` set (refunds d)"
    unfolding rf by (rule ids_written) (simp add: g)
  have "\<forall>r\<in>set (refunds d'). r_transaction_id r \<in> t_id ` set (transactions d)"
    using book g unfolding rf by (intro rows_written) (auto simp: book_inv_def)
  moreover have "\<forall>r\<in>set (refunds d'). r_id r \<in> rel \<longrightarrow> r_status r = RefundStatusFailed"
    using book g norel unfolding rf by (intro rows_written) (auto simp: book_inv_def)
  ultimately show ?thesis
    using book ok unfolding book_inv_def tr ids inv by simp
qed

lemma book_releases:
  assumes book: "book_inv d rel" and rel: "releases i a now d d'"
    and x: "x \<in> set (refunds d)" "r_transaction_id x = i" "r_amount x = a"
      "r_status x = RefundStatusFailed" "r_id x \<notin> rel"
  shows "book_inv d' (insert (r_id x) rel)" and "refunds d' = refunds d"
proof -
  from rel have tr: "transactions d' = set_where (\<lambda>r. t_id r = i) (release a now) (transactions d)"
    and okt: "rows_ok transactions_schema (transactions d')" and rf: "refunds d' = refunds d"
    by (auto simp: releases_def)
  show "refunds d' = refunds d" by (fact rf)
  have ids: "distinct (map r_id (refunds d))" and pos: "\<And>r. r \<in> set (refunds d) \<Longrightarrow> 0 < sint (r_amount r)"
    using book by (auto simp: book_inv_def refunds_ok_ids dest: refunds_ok_amount)
  have sum: "reservations (refunds d) (insert (r_id x) rel) j
      = reservations (refunds d) rel j - (if j = i then sint a else 0)" for j
    using reservations_release[OF ids x(1,5), of j] x(2,3) by (simp add: eq_commute)
  have a: "0 < sint a" "sint a \<le> reservations (refunds d) rel i"
    using pos[OF x(1)] reservations_ge[OF ids pos x(1,5,2)] x(3) by auto
  have "\<forall>t\<in>set (transactions d'). row_inv (refunds d') (insert (r_id x) rel) t"
    unfolding tr rf
  proof (rule rows_written[where Q = "row_inv (refunds d) rel"])
    fix t assume t: "t_id t = i" and inv: "row_inv (refunds d) rel t"
    from inv t have R: "sint (t_refunded_amount t) = reservations (refunds d) rel i"
      by (simp add: row_inv_def)
    with a have R0: "t_refunded_amount t \<noteq> 0" "0 \<le> sint (t_refunded_amount t)" by auto
    with inv have le: "sint (t_refunded_amount t) \<le> sint (t_amount t)" by (simp add: row_inv_def)
    have sub: "sint (t_refunded_amount t - a) = sint (t_refunded_amount t) - sint a"
      using R0 a by (intro sint_i64_sub_nonneg) auto
    then have nz: "t_refunded_amount t - a \<noteq> 0 \<longleftrightarrow> sint (t_refunded_amount t) - sint a \<noteq> 0"
      using sint_i64_eq_0 by metis
    show "row_inv (refunds d) (insert (r_id x) rel) (release a now t)"
      using R a le t sub nz by (auto simp: row_inv_def release_def sum)
  next
    fix t assume "t_id t \<noteq> i" "row_inv (refunds d) rel t"
    then show "row_inv (refunds d) (insert (r_id x) rel) t"
      using row_inv_cong[of "refunds d" "insert (r_id x) rel" t "refunds d" rel] sum by simp
  qed (use book in \<open>simp add: book_inv_def\<close>)
  moreover have "t_id ` set (transactions d') = t_id ` set (transactions d)"
    unfolding tr by (rule ids_written) (simp add: release_def)
  moreover have "\<forall>r\<in>set (refunds d). r_id r = r_id x \<longrightarrow> r_status r = RefundStatusFailed"
    using ids x by (auto simp: distinct_map dest: inj_onD)
  ultimately show "book_inv d' (insert (r_id x) rel)"
    using book okt x(1) unfolding book_inv_def rf by auto
qed

section \<open>The goroutines after each step\<close>

lemma refund_of_mono: "refund_of rfs tx rf st \<Longrightarrow> set rfs \<subseteq> set rfs' \<Longrightarrow> refund_of rfs' tx rf st"
  by (auto simp: refund_of_def)

lemma job_inv_mono: "job_inv rfs rel j \<Longrightarrow> set rfs \<subseteq> set rfs' \<Longrightarrow> job_inv rfs' rel j"
  by (cases j) (auto intro: refund_of_mono)

lemma job_inv_owner: "job_inv rfs rel j \<Longrightarrow> i \<in> set (owner j) \<Longrightarrow> i \<in> r_id ` set rfs"
  by (cases j) (auto simp: refund_of_def intro: rev_image_eqI)

lemma job_inv_other:
  assumes "job_inv rfs rel j" and "i \<notin> set (owner j)"
    and "\<And>r. r_id r \<noteq> i \<Longrightarrow> r \<in> set rfs \<Longrightarrow> r \<in> set rfs'" and "rel' \<subseteq> insert i rel"
  shows "job_inv rfs' rel' j"
  using assms by (cases j) (auto simp: refund_of_def)

lemma jobs_inv_split:
  "jobs_inv d rel (js @ j # ks) \<longleftrightarrow>
     jobs_inv d rel (js @ ks) \<and> job_inv (refunds d) rel j \<and> distinct (owner j)
     \<and> set (owner j) \<inter> set (concat (map owner (js @ ks))) = {}"
  by (auto simp: jobs_inv_def)

lemma jobs_inv_drop: "jobs_inv d rel (js @ j # ks) \<Longrightarrow> jobs_inv d rel (js @ ks)"
  by (simp add: jobs_inv_split)

lemma jobs_inv_refunds: "refunds d' = refunds d \<Longrightarrow> jobs_inv d' rel js = jobs_inv d rel js"
  by (simp add: jobs_inv_def)

lemma jobs_inv_other:
  assumes "jobs_inv d rel js" and "i \<notin> set (concat (map owner js))"
    and "\<And>r. r_id r \<noteq> i \<Longrightarrow> r \<in> set (refunds d) \<Longrightarrow> r \<in> set (refunds d')" and "rel' \<subseteq> insert i rel"
  shows "jobs_inv d' rel' js"
  unfolding jobs_inv_def
proof
  show "\<forall>j\<in>set js. job_inv (refunds d') rel' j"
  proof
    fix j assume "j \<in> set js"
    with assms(1,2) have "job_inv (refunds d) rel j" "i \<notin> set (owner j)"
      by (auto simp: jobs_inv_def)
    then show "job_inv (refunds d') rel' j" by (rule job_inv_other) (use assms(3,4) in auto)
  qed
  show "distinct (concat (map owner js))" using assms(1) by (simp add: jobs_inv_def)
qed

lemma jobs_inv_idle:
  "jobs_inv d rel js \<Longrightarrow> \<forall>j\<in>set ks. owner j = [] \<Longrightarrow> \<forall>j\<in>set ks. job_inv (refunds d) rel j
   \<Longrightarrow> jobs_inv d rel (js @ ks)"
proof -
  assume "\<forall>j\<in>set ks. owner j = []"
  then have "concat (map owner ks) = []" by simp
  then have "concat (map owner (js @ ks)) = concat (map owner js)"
    by (simp only: map_append concat_append append_Nil2)
  then show "jobs_inv d rel js \<Longrightarrow> \<forall>j\<in>set ks. job_inv (refunds d) rel j \<Longrightarrow> jobs_inv d rel (js @ ks)"
    unfolding jobs_inv_def by (simp only:) auto
qed

section \<open>Requests\<close>

lemma spawned_append: "spawned (es @ fs) = spawned es @ spawned fs"
  by (induction es rule: spawned.induct) simp_all

text \<open>A call that fails has started no goroutine.\<close>

lemma keeps_spawned_emit [keeps_intros]:
  "keeps_trace (\<lambda>es. spawned es = []) (emit (AcqAuthorize a cur ctok))"
  "keeps_trace (\<lambda>es. spawned es = []) (emit (AcqVoid i))"
  by (rule keeps_trace_emit, simp add: spawned_append)+

lemma bodies_spawn_nothing:
  "keeps_trace (\<lambda>es. spawned es = []) (Authorize env req)"
  "keeps_trace (\<lambda>es. spawned es = []) (InTransaction env lvl (capture_tx env creq))"
  "keeps_trace (\<lambda>es. spawned es = []) (InTransaction env lvl (refund_tx env rreq))"
  "keeps_trace (\<lambda>es. spawned es = []) (InTransaction env lvl (void_tx env i))"
  "keeps_trace (\<lambda>es. spawned es = []) (InTransaction env lvl (purchase_tx env preq p))"
  unfolding purchase_tx_def MarkPurchasedInTx_def productrepo_MarkPurchased_def productrepo_GetByID_def Authorize_def AuthorizeInTx_def capture_tx_def refund_tx_def void_tx_def
    Authorize_call_def Void_call_def Let_def
  by (intro keeps_intros)+

text \<open>Requests for products touch neither transactions nor refunds and start no goroutine.\<close>

lemma keeps_product_repo:
  "keeps_data (\<lambda>d. transactions d = ts \<and> refunds d = rfs) (productrepo_Create env p)"
  "keeps_data (\<lambda>d. transactions d = ts \<and> refunds d = rfs) (productrepo_GetByID env m i)"
  "keeps_data (\<lambda>d. transactions d = ts \<and> refunds d = rfs) (productrepo_Update env m i u)"
  "keeps_data (\<lambda>d. transactions d = ts \<and> refunds d = rfs) (productrepo_SetStatus env m i st)"
  "keeps_data (\<lambda>d. transactions d = ts \<and> refunds d = rfs) (productrepo_MarkPurchased env m i)"
  unfolding productrepo_Create_def productrepo_GetByID_def productrepo_Update_def disambiguateUpdateMiss_def
    productrepo_SetStatus_def productrepo_MarkPurchased_def
  by (intro keeps_intros keeps_data_sql, auto simp: update_products_ok query_row_def in_table_ok split: list.splits)+

lemma keeps_product_trace:
  "keeps_trace I (productrepo_Create env p)"
  "keeps_trace I (productrepo_GetByID env m i)"
  "keeps_trace I (productrepo_Update env m i u)"
  "keeps_trace I (productrepo_SetStatus env m i st)"
  "keeps_trace I (productrepo_MarkPurchased env m i)"
  unfolding productrepo_Create_def productrepo_GetByID_def productrepo_Update_def disambiguateUpdateMiss_def
    productrepo_SetStatus_def productrepo_MarkPurchased_def
  by (intro keeps_intros)+

lemma serve_product:
  assumes "serve env (ApiProduct m req) w = (r, w')"
  shows "transactions (data w') = transactions (data w)" and "refunds (data w') = refunds (data w)"
    and "trace w' = trace w"
proof -
  have "keeps_data (\<lambda>d. transactions d = transactions (data w) \<and> refunds d = refunds (data w)) (product_serve env m req)"
    by (cases req) (simp_all add: product_Create_def product_New_def product_Update_def product_Archive_def
      product_Unarchive_def product_MarkPurchased_def, (intro keeps_intros keeps_product_repo)+)
  from keepsD[OF this assms[unfolded serve.simps]]
  show "transactions (data w') = transactions (data w)" "refunds (data w') = refunds (data w)" by simp_all
  have "keeps_trace (\<lambda>t. t = trace w) (product_serve env m req)"
    by (cases req) (simp_all add: product_Create_def product_New_def product_Update_def product_Archive_def
      product_Unarchive_def product_MarkPurchased_def, (intro keeps_intros keeps_product_trace)+)
  from keepsD[OF this assms[unfolded serve.simps]] show "trace w' = trace w" by simp
qed

lemma serve_err:
  assumes "starts w s" and "serve env a w = (Inl e, w')" and "\<And>m req. a \<noteq> ApiProduct m req"
  shows "data w' = db s" and "spawned (trace w') = []"
proof -
  from assms(1) have w: "data w = db s" "spawned (trace w) = []" by (simp_all add: starts_def)
  show "data w' = db s"
    using assms(2,3) w
    by (cases a) (auto elim!: bnd_errE dest: Authorize_err_data Capture_err_data Refund_err_data
        Void_err_data InTransaction_err_data)
  show "spawned (trace w') = []"
    using assms(2,3) w(2)
    by (cases a)
      (auto simp: Capture_def Service_Refund_def Void_def elim!: bnd_errE emit_errE
        dest: bodies_spawn_nothing[THEN keepsD] split: prod.splits)
qed

lemma authorized_as_status:
  "authorized_as req result tx \<Longrightarrow> tx_Status tx = StatusAuthorized \<or> tx_Status tx = StatusDeclined"
  by (simp add: authorized_as_def)

lemma serve_authorize:
  assumes "starts w s" and "serve env (ApiAuthorize req) w = (Inr u, w')" and "book_inv (db s) rel"
  shows "book_inv (data w') rel" and "refunds (data w') = refunds (db s)" and "spawned (trace w') = []"
proof -
  from assms(1) have w: "data w = db s" "trace w = []" by (simp_all add: starts_def)
  from assms(2) obtain tx where "AuthorizeInTx env req w = (Inr tx, w')"
    by (auto simp: Authorize_def elim!: bnd_okE)
  from AuthorizeInTx_post[OF this] obtain result where
    as: "authorized_as req result tx" and
    d: "data w' = (db s)\<lparr>transactions := transactions (db s) @ [tx_to_row tx]\<rparr>" and
    ok: "rows_ok transactions_schema (transactions (data w'))" and
    t: "trace w' = [AcqAuthorize (aq_Amount req) (aq_Currency req) (aq_CardToken req)]"
    unfolding w by auto
  have st: "tx_Status tx = StatusAuthorized \<or> tx_Status tx = StatusDeclined"
    using as by (rule authorized_as_status)
  show rf: "refunds (data w') = refunds (db s)" by (simp add: d)
  show "book_inv (data w') rel"
    by (rule book_authorized[OF assms(3) _ rf ok st]) (simp add: d)
  show "spawned (trace w') = []" by (simp add: t)
qed

lemma purchase_post:
  assumes "InTransaction env lvl (purchase_tx env req p) w = (Inr tx, w')"
  shows "transactions (data w') = transactions (data w) @ [tx_to_row tx]
    \<and> rows_ok transactions_schema (transactions (data w')) \<and> refunds (data w') = refunds (data w)
    \<and> trace w' = trace w @ [AcqAuthorize (pr_Price p) (pr_Currency p) (pq_CardToken req)]
    \<and> (tx_Status tx = StatusAuthorized \<or> tx_Status tx = StatusDeclined)"
  by (rule InTransaction_post[OF assms])
    (use purchase_tx_post authorized_as_status in blast)

lemma serve_purchase:
  assumes "starts w s" and "serve env (ApiPurchase req p) w = (Inr u, w')" and "book_inv (db s) rel"
  shows "book_inv (data w') rel" and "refunds (data w') = refunds (db s)" and "spawned (trace w') = []"
proof -
  from assms(1) have w: "data w = db s" "trace w = []" by (simp_all add: starts_def)
  from assms(2) obtain tx where "InTransaction env ReadCommitted (purchase_tx env req p) w = (Inr tx, w')"
    by (auto elim!: bnd_okE)
  note post = purchase_post[OF this, unfolded w]
  then show "refunds (data w') = refunds (db s)" "spawned (trace w') = []" by simp_all
  from post book_authorized[OF assms(3)] show "book_inv (data w') rel" by blast
qed

lemma serve_moves:
  assumes "starts w s" and "book_inv (db s) rel"
  shows "serve env (ApiCapture creq) w = (Inr u, w') \<Longrightarrow>
      book_inv (data w') rel \<and> refunds (data w') = refunds (db s)
      \<and> (\<exists>tx a. spawned (trace w') = [JSettle tx a])"
    and "serve env (ApiVoid i) w = (Inr u, w') \<Longrightarrow>
      book_inv (data w') rel \<and> refunds (data w') = refunds (db s)
      \<and> (\<exists>tx. spawned (trace w') = [JVoidWebhook tx])"
proof -
  from assms(1) have w: "data w = db s" "trace w = []" by (simp_all add: starts_def)
  show "book_inv (data w') rel \<and> refunds (data w') = refunds (db s)
      \<and> (\<exists>tx a. spawned (trace w') = [JSettle tx a])" if "serve env (ApiCapture creq) w = (Inr u, w')"
    using that unfolding serve.simps
    by (elim bnd_okE Capture_post) (use w assms(2) in \<open>auto dest: book_moved\<close>)
  show "book_inv (data w') rel \<and> refunds (data w') = refunds (db s)
      \<and> (\<exists>tx. spawned (trace w') = [JVoidWebhook tx])" if "serve env (ApiVoid i) w = (Inr u, w')"
    using that unfolding serve.simps
    by (elim bnd_okE Void_post) (use w assms(2) in \<open>auto dest: book_moved\<close>)
qed

lemma serve_refund:
  assumes "starts w s" and "ledger_inv s" and "serve env (ApiRefund req) w = (Inr u, w')"
  shows "ledger_inv (served s w')"
proof -
  from assms(1) have w: "data w = db s" "trace w = []" by (simp_all add: starts_def)
  from assms(2) have book: "book_inv (db s) (released s)"
    and jobs: "jobs_inv (db s) (released s) (jobs s)" by (simp_all add: ledger_inv_def)
  from assms(3) obtain resp where "Service_Refund env req w = (Inr resp, w')" by (auto elim!: bnd_okE)
  then obtain r now rf tx where res: "reserves req r now rf (db s) (data w')"
    and t: "trace w' = [GoRefund tx rf]" and tx: "tx_ID tx = t_id r"
    by (rule Refund_post) (auto simp: w)
  from book_reserves[OF book res] have book': "book_inv (data w') (released s)"
    and fresh: "rf_ID rf \<notin> r_id ` set (refunds (db s))" by simp_all
  have rfs: "refunds (data w') = refunds (db s) @ [refund_to_row rf]" and i: "t_id r = rf_TransactionID rf"
    and st: "rf_Status rf = RefundStatusPending"
    using res by (auto simp: reserves_def dest: find_idD)
  have "job_inv (refunds (data w')) (released s) (JRefund tx rf)"
    by (auto simp: rfs refund_of_def refund_to_row_def tx i st)
  moreover have "jobs_inv (data w') (released s) (jobs s)"
    using jobs by (auto simp: jobs_inv_def rfs intro: job_inv_mono)
  moreover have "rf_ID rf \<notin> set (concat (map owner (jobs s)))"
  proof
    assume "rf_ID rf \<in> set (concat (map owner (jobs s)))"
    then obtain j where "j \<in> set (jobs s)" "rf_ID rf \<in> set (owner j)" by auto
    with jobs have "rf_ID rf \<in> r_id ` set (refunds (db s))"
      by (auto simp: jobs_inv_def intro: job_inv_owner)
    with fresh show False ..
  qed
  ultimately have "jobs_inv (data w') (released s) (jobs s @ [JRefund tx rf])"
    using jobs_inv_split[of "data w'" "released s" "jobs s" "JRefund tx rf" "[]"] by simp
  with book' show ?thesis by (simp add: ledger_inv_def served_def t)
qed

section \<open>The invariant of the system\<close>

lemma answers_refund_of:
  assumes "answers rf st now rf' d d'" and "refund_of (refunds d) tx rf st0"
  shows "refund_of (refunds d') tx rf' (rf_Status rf')"
proof -
  from assms(2) obtain x where x: "x \<in> set (refunds d)" "r_id x = rf_ID rf"
      "r_transaction_id x = tx_ID tx" "r_amount x = rf_Amount rf"
    by (auto simp: refund_of_def)
  define y where "y = x\<lparr>r_status := st, r_updated_at := now\<rparr>"
  have "y \<in> set (refunds d')"
    using assms(1) x(1,2) by (auto simp: answers_def set_set_where y_def intro!: image_eqI[of _ _ x])
  then show ?thesis
    unfolding refund_of_def using assms(1) x by (intro bexI[of _ y]) (auto simp: answers_def y_def)
qed

lemma serve_inv:
  assumes "starts w s" and "serve env a w = (r, w')" and "ledger_inv s"
  shows "ledger_inv (served s w')"
proof (cases "\<exists>m req. a = ApiProduct m req")
  case True
  with serve_product assms(2) have "transactions (data w') = transactions (data w)"
    "refunds (data w') = refunds (data w)" "trace w' = trace w" by blast+
  with assms(1,3) show ?thesis
    by (simp add: served_def starts_def ledger_inv_def book_inv_def jobs_inv_def)
next
  case False
  note other = this
  show ?thesis
  proof (cases r)
    case (Inl e)
    with serve_err assms other have "data w' = db s" "spawned (trace w') = []" by blast+
    with assms(3) show ?thesis by (simp add: served_def ledger_inv_def)
  next
    case (Inr u)
    note run = assms(2)[unfolded Inr]
    from assms(3) have book: "book_inv (db s) (released s)"
      and jobs: "jobs_inv (db s) (released s) (jobs s)" by (simp_all add: ledger_inv_def)
    have idle: "ledger_inv (served s w')"
      if "book_inv (data w') (released s)" "refunds (data w') = refunds (db s)"
        "\<forall>j\<in>set (spawned (trace w')). owner j = []"
        "\<forall>j\<in>set (spawned (trace w')). job_inv (refunds (db s)) (released s) j"
      using that jobs_inv_idle[OF jobs that(3,4)] jobs_inv_refunds[OF that(2)]
      by (simp add: ledger_inv_def served_def)
    show ?thesis
    proof (cases a)
      case (ApiAuthorize req)
      with serve_authorize[OF assms(1) _ book] run show ?thesis by (intro idle) auto
    next
      case (ApiCapture req)
      from serve_moves(1)[OF assms(1) book run[unfolded this]] show ?thesis by (intro idle) auto
    next
      case (ApiRefund req)
      from serve_refund[OF assms(1,3) run[unfolded this]] show ?thesis .
    next
      case (ApiVoid i)
      from serve_moves(2)[OF assms(1) book run[unfolded this]] show ?thesis by (intro idle) auto
    next
      case (ApiPurchase req p)
      with serve_purchase[OF assms(1) _ book] run show ?thesis by (intro idle) auto
    next
      case (ApiProduct m req)
      with other show ?thesis by blast
    qed
  qed
qed

lemma ledger_step: "sg_step s s' \<Longrightarrow> ledger_inv s \<Longrightarrow> ledger_inv s'"
proof (induction rule: sg_step.induct)
  case (api w s env a r w')
  then show ?case by (rule serve_inv)
next
  case (settle w s js tx a ks env url r w')
  from settle have book: "book_inv (db s) (released s)" and w: "data w = db s"
    and jobs: "jobs_inv (db s) (released s) (js @ ks)"
    by (auto simp: ledger_inv_def resumes_def dest: jobs_inv_drop)
  from settleAsync_post[OF settle(3)] w
  consider "data w' = db s" | now where "settles (tx_ID tx)
      (settle_status (acq_Settle env (ticks w) (tx_ID tx) a)) now (db s) (data w')" by auto
  then have "book_inv (data w') (released s) \<and> refunds (data w') = refunds (db s)"
  proof cases
    case 1
    with book show ?thesis by simp
  next
    case 2
    have "settle_status (acq_Settle env (ticks w) (tx_ID tx) a)
        \<notin> {StatusPartiallyRefunded, StatusRefunded}"
      using settle_status_cases[of "acq_Settle env (ticks w) (tx_ID tx) a"] by auto
    from book_settles[OF book 2 this] show ?thesis by simp
  qed
  with jobs jobs_inv_refunds[of "data w'" "db s"] show ?case by (simp add: ledger_inv_def)
next
  case (answered w s js tx rf ks env rf' w')
  define st where "st = refund_status (acq_Refund env (ticks w) (tx_ID tx) (rf_Amount rf))"
  from answered have book: "book_inv (db s) (released s)" and w: "data w = db s"
    and jobs: "jobs_inv (db s) (released s) (js @ JRefund tx rf # ks)"
    by (auto simp: ledger_inv_def resumes_def)
  from refund_outcome_ok[OF answered(3)] obtain now where
    ans: "answers rf st now rf' (db s) (data w')" unfolding st_def w by blast
  from jobs have pend: "refund_of (refunds (db s)) tx rf RefundStatusPending"
    and free: "rf_ID rf \<notin> set (concat (map owner (js @ ks)))"
    by (auto simp: jobs_inv_split)
  with book have norel: "rf_ID rf \<notin> released s" by (auto simp: book_inv_def refund_of_def)
  have book': "book_inv (data w') (released s)" by (rule book_answers[OF book ans norel])
  have rest: "jobs_inv (data w') (released s) (js @ ks)"
    by (rule jobs_inv_other[OF jobs_inv_drop[OF jobs] free])
      (use ans in \<open>auto simp: answers_def set_set_where image_iff intro: bexI\<close>)
  have row: "refund_of (refunds (data w')) tx rf' (rf_Status rf')"
    using answers_refund_of[OF ans pend] .
  have "rf_ID rf' = rf_ID rf" using ans by (simp add: answers_def)
  with rest row free norel have "jobs_inv (data w') (released s) (js @ after_answer tx rf' # ks)"
    by (auto simp: jobs_inv_split after_answer_def)
  with book' show ?case by (simp add: ledger_inv_def)
next
  case (unanswered w s js tx rf ks env e w')
  then have "data w' = db s" by (auto simp: resumes_def dest: refund_outcome_err)
  with unanswered show ?case by (auto simp: ledger_inv_def dest: jobs_inv_drop)
next
  case (release_ok w s js n tx rf ks env u w')
  from release_ok have book: "book_inv (db s) (released s)" and w: "data w = db s"
    and jobs: "jobs_inv (db s) (released s) (js @ JRelease (Suc n) tx rf # ks)"
    by (auto simp: ledger_inv_def resumes_def)
  from ReleaseRefundAmount_ok[OF release_ok(3)] w obtain now where
    rel: "releases (tx_ID tx) (rf_Amount rf) now (db s) (data w')" by auto
  from jobs obtain x where x: "x \<in> set (refunds (db s))" "r_transaction_id x = tx_ID tx"
      "r_amount x = rf_Amount rf" "r_status x = RefundStatusFailed" "r_id x \<notin> released s" "r_id x = rf_ID rf"
    and free: "rf_ID rf \<notin> set (concat (map owner (js @ ks)))"
    by (auto simp: jobs_inv_split refund_of_def)
  from book_releases[OF book rel x(1-5)] x(6) have
    "book_inv (data w') (insert (rf_ID rf) (released s))" "refunds (data w') = refunds (db s)" by simp_all
  moreover from this(2) have "jobs_inv (data w') (insert (rf_ID rf) (released s)) (js @ ks)"
    by (intro jobs_inv_other[OF jobs_inv_drop[OF jobs] free]) auto
  ultimately show ?case by (auto simp: ledger_inv_def jobs_inv_split)
next
  case (release_err w s js n tx rf ks env e w')
  then have "data w' = db s" by (auto simp: resumes_def dest: txrepo_err_data)
  with release_err show ?case by (auto simp: ledger_inv_def jobs_inv_split)
next
  case (give_up s js tx rf ks)
  then show ?case by (auto simp: ledger_inv_def jobs_inv_split)
next
  case (notify_refund w s js tx rf ks env url r w')
  then have "data w' = db s" by (auto simp: resumes_def dest: Send_data)
  with notify_refund show ?case by (auto simp: ledger_inv_def dest: jobs_inv_drop)
next
  case (notify_void w s js tx ks env url r w')
  then have "data w' = db s"
    by (auto simp: resumes_def dest: voidWebhook_data)
  with notify_void show ?case by (auto simp: ledger_inv_def dest: jobs_inv_drop)
next
  case (crash s js j ks)
  then show ?case by (auto simp: ledger_inv_def dest: jobs_inv_drop)
qed

lemma reachable_inv: "reachable s \<Longrightarrow> ledger_inv s"
  unfolding reachable_def by (induction rule: rtranclp_induct) (auto intro: ledger_inv_init ledger_step)

section \<open>The goroutine of a refund as steps\<close>

lemma refund_parts_calm:
  "keeps_calm (refund_outcome env tx rf)" "keeps_calm (txrepo_ReleaseRefundAmount env i a)"
  "keeps_calm (SendRefundResult env url tx rf)"
  unfolding refund_outcome_def Refund_call_def MarkFailed_def MarkRefunded_def
    txrepo_UpdateRefundStatus_def txrepo_ReleaseRefundAmount_def SendRefundResult_def
    sendEvent_def Let_def
  by (intro keeps_intros)+

lemma release_attempts_steps:
  "resumes w s \<Longrightarrow> jobs s = js @ JRelease n tx rf # ks \<Longrightarrow>
   release_attempts (env :: senv) n (tx_ID tx) (rf_Amount rf) w = (r, w') \<Longrightarrow>
   \<exists>s'. sg_step\<^sup>*\<^sup>* s s' \<and> resumes w' s' \<and> jobs s' = js @ JNotifyRefund tx rf # ks"
proof (induction n arbitrary: w s)
  case 0
  then have "sg_step s (s\<lparr>jobs := js @ JNotifyRefund tx rf # ks\<rparr>)" by (auto intro: sg_step.give_up)
  moreover have "resumes w' (s\<lparr>jobs := js @ JNotifyRefund tx rf # ks\<rparr>)"
    using 0 by (simp add: resumes_def)
  ultimately show ?case by (intro exI conjI) (auto intro: r_into_rtranclp)
next
  case (Suc n)
  obtain r1 w1 where run: "txrepo_ReleaseRefundAmount env (tx_ID tx) (rf_Amount rf) w = (r1, w1)"
    by (cases "txrepo_ReleaseRefundAmount env (tx_ID tx) (rf_Amount rf) w")
  have calm: "\<not> in_tx w1 \<and> \<not> tx_failed w1"
    using keepsD[OF refund_parts_calm(2) run] Suc.prems(1) by (simp add: resumes_def)
  show ?case
  proof (cases r1)
    case (Inr u)
    let ?s = "s\<lparr>db := data w1, jobs := js @ JNotifyRefund tx rf # ks, released := insert (rf_ID rf) (released s)\<rparr>"
    from sg_step.release_ok[OF Suc.prems(1,2) run[unfolded Inr]] have "sg_step s ?s" .
    moreover have "w' = w1" using Suc.prems(3) run Inr by (simp add: run_simps)
    ultimately show ?thesis using calm by (intro exI[of _ ?s]) (auto simp: resumes_def)
  next
    case (Inl e)
    let ?s = "s\<lparr>db := data w1, jobs := js @ JRelease n tx rf # ks\<rparr>"
    from sg_step.release_err[OF Suc.prems(1,2) run[unfolded Inl]] have "sg_step s ?s" .
    moreover have "release_attempts env n (tx_ID tx) (rf_Amount rf) w1 = (r, w')"
      using Suc.prems(3) run Inl by (simp add: run_simps)
    with Suc.IH[of w1 ?s] calm obtain s' where
      "sg_step\<^sup>*\<^sup>* ?s s'" "resumes w' s'" "jobs s' = js @ JNotifyRefund tx rf # ks"
      by (auto simp: resumes_def)
    ultimately show ?thesis by (meson converse_rtranclp_into_rtranclp)
  qed
qed

lemma refundAsync_steps:
  assumes w: "resumes w s" and j: "jobs s = js @ JRefund tx rf # ks"
    and run: "refundAsync (env :: senv) url tx rf w = (r, w')"
  shows "\<exists>s'. sg_step\<^sup>*\<^sup>* s s' \<and> db s' = data w' \<and> jobs s' = js @ ks"
proof -
  obtain r1 w1 where out: "refund_outcome env tx rf w = (r1, w1)" by (cases "refund_outcome env tx rf w")
  have calm: "\<not> in_tx w1 \<and> \<not> tx_failed w1"
    using keepsD[OF refund_parts_calm(1) out] w by (simp add: resumes_def)
  show ?thesis
  proof (cases r1)
    case (Inl e)
    from sg_step.unanswered[OF w j out[unfolded Inl]]
    have "sg_step s (s\<lparr>db := data w1, jobs := js @ ks\<rparr>)" .
    moreover have "w' = w1" using run out Inl by (simp add: refundAsync_def run_simps)
    ultimately show ?thesis
      by (intro exI[of _ "s\<lparr>db := data w1, jobs := js @ ks\<rparr>"]) (auto intro: r_into_rtranclp)
  next
    case (Inr rf')
    let ?s1 = "s\<lparr>db := data w1, jobs := js @ after_answer tx rf' # ks\<rparr>"
    have s1: "sg_step s ?s1" by (rule sg_step.answered[OF w j out[unfolded Inr]])
    obtain r2 w2 where rel: "refund_release env tx rf' w1 = (r2, w2)"
      by (cases "refund_release env tx rf' w1")
    have r2: "r2 = Inr ()"
      using rel release_attempts_post[of env maxRetries "tx_ID tx" "rf_Amount rf'" w1 r2 w2]
      by (auto simp: refund_release_def split: if_splits)
    obtain s2 where s2: "sg_step\<^sup>*\<^sup>* ?s1 s2" "resumes w2 s2" "jobs s2 = js @ JNotifyRefund tx rf' # ks"
    proof (cases "rf_Status rf' = RefundStatusFailed")
      case True
      with rel release_attempts_steps[of w1 ?s1 js maxRetries tx rf' ks env r2 w2] calm that show ?thesis
        by (auto simp: refund_release_def after_answer_def resumes_def)
    next
      case False
      with rel calm that[of ?s1] show ?thesis
        by (auto simp: refund_release_def after_answer_def resumes_def)
    qed
    obtain r3 w3 where send: "SendRefundResult env url tx rf' w2 = (r3, w3)"
      by (cases "SendRefundResult env url tx rf' w2")
    have "sg_step s2 (s2\<lparr>db := data w3, jobs := js @ ks\<rparr>)"
      by (rule sg_step.notify_refund[OF s2(2,3) send])
    with s1 s2(1) have "sg_step\<^sup>*\<^sup>* s (s2\<lparr>db := data w3, jobs := js @ ks\<rparr>)"
      by (meson converse_rtranclp_into_rtranclp rtranclp.rtrancl_into_rtrancl)
    moreover have "w' = w3"
      using run out Inr rel r2 send by (simp add: refundAsync_def run_simps)
    ultimately show ?thesis by (intro exI[of _ "s2\<lparr>db := data w3, jobs := js @ ks\<rparr>"]) auto
  qed
qed

section \<open>The life of a row\<close>

text \<open>
  What a step may do to a row: keep its terms, and leave its status, take a transition of
  the table, or give a reservation back.
\<close>

definition same_terms :: "tx_row \<Rightarrow> tx_row \<Rightarrow> bool" where
  "same_terms t t' \<longleftrightarrow> t_id t' = t_id t \<and> t_merchant_id t' = t_merchant_id t
     \<and> t_order_ref t' = t_order_ref t \<and> t_amount t' = t_amount t \<and> t_currency t' = t_currency t
     \<and> t_card_token t' = t_card_token t \<and> t_product_id t' = t_product_id t
     \<and> t_purchase_idempotency_key t' = t_purchase_idempotency_key t \<and> t_created_at t' = t_created_at t"

definition status_step :: "string \<Rightarrow> string \<Rightarrow> bool" where
  "status_step st st' \<longleftrightarrow> st' = st \<or> CanTransitionTo st st'
     \<or> (st \<in> {StatusPartiallyRefunded, StatusRefunded} \<and> st' \<in> {StatusCaptured, StatusPartiallyRefunded})"

definition evolves :: "tx_row list \<Rightarrow> tx_row list \<Rightarrow> bool" where
  "evolves rows rows' \<longleftrightarrow> (\<forall>t\<in>set rows. \<exists>t'\<in>set rows'. same_terms t t' \<and> status_step (t_status t) (t_status t'))"

lemma same_terms_refl [simp]: "same_terms t t"
  by (simp add: same_terms_def)

lemma status_step_refl [simp]: "status_step st st"
  by (simp add: status_step_def)

lemma evolves_same: "set rows \<subseteq> set rows' \<Longrightarrow> evolves rows rows'"
  unfolding evolves_def by (blast intro: same_terms_refl status_step_refl)

lemma evolves_written:
  assumes "\<And>t. t \<in> set rows \<Longrightarrow> p t \<Longrightarrow> same_terms t (f t) \<and> status_step (t_status t) (t_status (f t))"
  shows "evolves rows (set_where p f rows)"
  unfolding evolves_def
proof
  fix t assume t: "t \<in> set rows"
  then have "(if p t then f t else t) \<in> set (set_where p f rows)"
    unfolding set_set_where by (rule imageI)
  moreover have "same_terms t (if p t then f t else t) \<and> status_step (t_status t) (t_status (if p t then f t else t))"
    using assms[OF t] by simp
  ultimately show "\<exists>t'\<in>set (set_where p f rows). same_terms t t' \<and> status_step (t_status t) (t_status t')"
    by blast
qed

lemma moved_evolves:
  assumes "moved i status key now r d d'" and "distinct (map t_id (transactions d))"
    and "CanTransitionTo StatusAuthorized status"
  shows "evolves (transactions d) (transactions d')"
proof -
  from assms(1) have d': "transactions d' = set_where (\<lambda>x. t_id x = i) (mark_row status key now) (transactions d)"
    and f: "find (\<lambda>r. t_id r = i) (transactions d) = Some r" and st: "t_status r = StatusAuthorized"
    by (auto simp: moved_def)
  show ?thesis
    unfolding d'
  proof (rule evolves_written)
    fix t assume "t \<in> set (transactions d)" "t_id t = i"
    with found_row(3)[OF f assms(2)] have "t = r" by blast
    with st assms(3) show "same_terms t (mark_row status key now t)
        \<and> status_step (t_status t) (t_status (mark_row status key now t))"
      by (simp add: same_terms_def mark_row_def status_step_def)
  qed
qed

lemma settles_evolves:
  assumes "settles i status now d d'" and "CanTransitionTo StatusCapturePending status"
  shows "evolves (transactions d) (transactions d')"
  using assms unfolding settles_def
  by (auto intro!: evolves_written simp: same_terms_def status_step_def)

lemma reserves_evolves:
  assumes "reserves req r now rf d d'" and "distinct (map t_id (transactions d))"
  shows "evolves (transactions d) (transactions d')"
proof -
  define tot where "tot = t_refunded_amount r + rq_Amount req"
  from assms(1) have d': "transactions d' = set_where (\<lambda>x. t_id x = rq_TransactionID req)
        (reserve_row (reserved_status (t_amount r) tot) tot now) (transactions d)"
    and f: "find (\<lambda>r. t_id r = rq_TransactionID req) (transactions d) = Some r"
    and st: "t_status r = StatusCaptured \<or> t_status r = StatusPartiallyRefunded"
    by (auto simp: reserves_def tot_def)
  show ?thesis
    unfolding d'
  proof (rule evolves_written)
    fix t assume "t \<in> set (transactions d)" "t_id t = rq_TransactionID req"
    with found_row(3)[OF f assms(2)] have "t = r" by blast
    with st show "same_terms t (reserve_row (reserved_status (t_amount r) tot) tot now t)
        \<and> status_step (t_status t) (t_status (reserve_row (reserved_status (t_amount r) tot) tot now t))"
      by (auto simp: same_terms_def reserve_row_def status_step_def reserved_status_def CanTransitionTo_iff)
  qed
qed

lemma releases_evolves:
  assumes book: "book_inv d rel" and rel: "releases i a now d d'"
    and x: "x \<in> set (refunds d)" "r_transaction_id x = i" "r_id x \<notin> rel"
  shows "evolves (transactions d) (transactions d')"
proof -
  from rel have d': "transactions d' = set_where (\<lambda>r. t_id r = i) (release a now) (transactions d)"
    by (auto simp: releases_def)
  have ids: "distinct (map r_id (refunds d))" and pos: "\<And>r. r \<in> set (refunds d) \<Longrightarrow> 0 < sint (r_amount r)"
    using book by (auto simp: book_inv_def refunds_ok_ids dest: refunds_ok_amount)
  show ?thesis
    unfolding d'
  proof (rule evolves_written)
    fix t assume t: "t \<in> set (transactions d)" "t_id t = i"
    with book have inv: "row_inv (refunds d) rel t" by (simp add: book_inv_def)
    with t reservations_ge[OF ids pos x(1,3,2)] pos[OF x(1)] have "0 < sint (t_refunded_amount t)"
      by (simp add: row_inv_def)
    with inv have "t_status t \<in> {StatusPartiallyRefunded, StatusRefunded}"
      by (auto simp: row_inv_def)
    then show "same_terms t (release a now t) \<and> status_step (t_status t) (t_status (release a now t))"
      by (auto simp: same_terms_def release_def status_step_def)
  qed
qed

lemma serve_evolves:
  assumes "starts w s" and "serve env a w = (r, w')" and "ledger_inv s"
  shows "evolves (transactions (db s)) (transactions (data w'))"
proof (cases "\<exists>m req. a = ApiProduct m req")
  case True
  with serve_product(1) assms(1,2) show ?thesis by (auto simp: starts_def intro: evolves_same)
next
  case False
  note other = this
  show ?thesis
  proof (cases r)
    case (Inl e)
    with serve_err assms other have "data w' = db s" by blast
    then show ?thesis by (simp add: evolves_same)
  next
    case (Inr u)
    note run = assms(2)[unfolded Inr]
    from assms have w: "data w = db s"
      and ids: "distinct (map t_id (transactions (db s)))"
      by (simp_all add: starts_def ledger_inv_def book_inv_def transactions_ok_ids)
    show ?thesis
    proof (cases a)
      case (ApiAuthorize req)
      with run obtain tx where "AuthorizeInTx env req w = (Inr tx, w')"
        by (auto simp: Authorize_def elim!: bnd_okE)
      from AuthorizeInTx_post[OF this] w show ?thesis by (auto intro: evolves_same)
    next
      case (ApiCapture req)
      with run obtain resp where "Capture env req w = (Inr resp, w')" by (auto elim!: bnd_okE)
      then show ?thesis
        by (rule Capture_post) (use w ids in \<open>auto intro: moved_evolves simp: CanTransitionTo_iff\<close>)
    next
      case (ApiRefund req)
      with run obtain resp where "Service_Refund env req w = (Inr resp, w')" by (auto elim!: bnd_okE)
      then show ?thesis by (rule Refund_post) (use w ids in \<open>auto intro: reserves_evolves\<close>)
    next
      case (ApiVoid i)
      with run obtain resp where "Void env i w = (Inr resp, w')" by (auto elim!: bnd_okE)
      then show ?thesis
        by (rule Void_post) (use w ids in \<open>auto intro: moved_evolves simp: CanTransitionTo_iff\<close>)
    next
      case (ApiPurchase req p)
      with run obtain tx where "InTransaction env ReadCommitted (purchase_tx env req p) w = (Inr tx, w')"
        by (auto elim!: bnd_okE)
      from purchase_post[OF this] w show ?thesis by (auto intro: evolves_same)
    next
      case (ApiProduct m req)
      with other show ?thesis by blast
    qed
  qed
qed

lemma step_evolves: "sg_step s s' \<Longrightarrow> ledger_inv s \<Longrightarrow> evolves (transactions (db s)) (transactions (db s'))"
proof (induction rule: sg_step.induct)
  case (api w s env a r w')
  then show ?case by (simp add: served_def serve_evolves)
next
  case (settle w s js tx a ks env url r w')
  have next_status: "CanTransitionTo StatusCapturePending
      (settle_status (acq_Settle env (ticks w) (tx_ID tx) a))"
    using settle_status_cases[of "acq_Settle env (ticks w) (tx_ID tx) a"] by (auto simp: CanTransitionTo_iff)
  from settle settleAsync_post[OF settle(3)] show ?case
    by (auto simp: resumes_def intro: evolves_same settles_evolves[OF _ next_status])
next
  case (answered w s js tx rf ks env rf' w')
  from answered(1) refund_outcome_ok[OF answered(3)] show ?case
    by (auto simp: resumes_def answers_def intro: evolves_same)
next
  case (unanswered w s js tx rf ks env e w')
  then have "data w' = db s" by (auto simp: resumes_def dest: refund_outcome_err)
  then show ?case by (simp add: evolves_same)
next
  case (release_ok w s js n tx rf ks env u w')
  from release_ok have book: "book_inv (db s) (released s)" and w: "data w = db s"
    and jobs: "jobs_inv (db s) (released s) (js @ JRelease (Suc n) tx rf # ks)"
    by (auto simp: ledger_inv_def resumes_def)
  from jobs obtain x where "x \<in> set (refunds (db s))" "r_transaction_id x = tx_ID tx" "r_id x \<notin> released s"
    by (auto simp: jobs_inv_split refund_of_def)
  with releases_evolves[OF book] ReleaseRefundAmount_ok[OF release_ok(3)] w show ?case by auto
next
  case (release_err w s js n tx rf ks env e w')
  then have "data w' = db s" by (auto simp: resumes_def dest: txrepo_err_data)
  then show ?case by (simp add: evolves_same)
next
  case (notify_refund w s js tx rf ks env url r w')
  then have "data w' = db s" by (auto simp: resumes_def dest: Send_data)
  then show ?case by (simp add: evolves_same)
next
  case (notify_void w s js tx ks env url r w')
  then have "data w' = db s"
    by (auto simp: resumes_def dest: voidWebhook_data)
  then show ?case by (simp add: evolves_same)
qed (auto intro: evolves_same)

end
