(* ===== verification/SgScenarios.thy ===== *)
theory SgScenarios
  imports SgLedger
begin

text \<open>
  Runs of the system: an executable scheduler for the step relation of \<open>SgLedger\<close>, an
  environment in which every call is answered, one scenario, and the properties of the
  ledger, each shown at work in the scenario.
\<close>

section \<open>Driving the system\<close>

text \<open>
  A scheduler: serve a request, or let the \<open>n\<close>-th goroutine take its next step. It is an
  executable way through the step relation.
\<close>

datatype action = Serve api | Run nat

definition idle_world :: "sg_data \<Rightarrow> (sg_data, sg_effect) world" where
  "idle_world d = \<lparr>data = d, in_tx = False, tx_failed = False, ticks = 0, trace = []\<rparr>"

definition run_refund :: "senv \<Rightarrow> system \<Rightarrow> job list \<Rightarrow> Transaction \<Rightarrow> Refund \<Rightarrow> job list \<Rightarrow> system" where
  "run_refund env s js tx rf ks = (case refund_outcome env tx rf (idle_world (db s)) of
      (Inr rf', w') \<Rightarrow> s\<lparr>db := data w', jobs := js @ after_answer tx rf' # ks\<rparr>
    | (Inl e, w') \<Rightarrow> s\<lparr>db := data w', jobs := js @ ks\<rparr>)"

definition run_release :: "senv \<Rightarrow> system \<Rightarrow> job list \<Rightarrow> nat \<Rightarrow> Transaction \<Rightarrow> Refund \<Rightarrow> job list \<Rightarrow> system" where
  "run_release env s js n tx rf ks = (case n of
      0 \<Rightarrow> s\<lparr>jobs := js @ JNotifyRefund tx rf # ks\<rparr>
    | Suc m \<Rightarrow> (case txrepo_ReleaseRefundAmount env (tx_ID tx) (rf_Amount rf) (idle_world (db s)) of
        (Inr u, w') \<Rightarrow> s\<lparr>db := data w', jobs := js @ JNotifyRefund tx rf # ks,
                          released := insert (rf_ID rf) (released s)\<rparr>
      | (Inl e, w') \<Rightarrow> s\<lparr>db := data w', jobs := js @ JRelease m tx rf # ks\<rparr>))"

definition run_job :: "senv \<Rightarrow> string \<Rightarrow> system \<Rightarrow> job list \<Rightarrow> job \<Rightarrow> job list \<Rightarrow> system" where
  "run_job env url s js j ks = (case j of
      JSettle tx a \<Rightarrow> s\<lparr>db := data (snd (settleAsync env url tx a (idle_world (db s)))), jobs := js @ ks\<rparr>
    | JRefund tx rf \<Rightarrow> run_refund env s js tx rf ks
    | JRelease n tx rf \<Rightarrow> run_release env s js n tx rf ks
    | JNotifyRefund tx rf \<Rightarrow>
        s\<lparr>db := data (snd (SendRefundResult env url tx rf (idle_world (db s)))), jobs := js @ ks\<rparr>
    | JVoidWebhook tx \<Rightarrow>
        s\<lparr>db := data (snd (voidWebhook env url tx (idle_world (db s)))), jobs := js @ ks\<rparr>)"

fun drive :: "senv \<Rightarrow> string \<Rightarrow> system \<Rightarrow> action \<Rightarrow> system" where
  "drive env url s (Serve a) = served s (snd (serve env a (idle_world (db s))))"
| "drive env url s (Run n) =
     (if n < length (jobs s)
      then run_job env url s (take n (jobs s)) (jobs s ! n) (drop (Suc n) (jobs s)) else s)"

lemma idle_starts: "starts (idle_world (db s)) s"
  by (simp add: starts_def idle_world_def)

lemma idle_resumes: "resumes (idle_world (db s)) s"
  by (simp add: resumes_def idle_world_def)

lemma run_job_step:
  assumes j: "jobs s = js @ j # ks"
  shows "sg_step s (run_job env url s js j ks)"
proof (cases j)
  case (JSettle tx a)
  with j sg_step.settle[OF idle_resumes, of s js tx a ks env url] show ?thesis
    by (cases "settleAsync env url tx a (idle_world (db s))") (simp add: run_job_def)
next
  case (JRefund tx rf)
  with j sg_step.answered[OF idle_resumes, of s js tx rf ks env]
    sg_step.unanswered[OF idle_resumes, of s js tx rf ks env] show ?thesis
    by (auto simp: run_job_def run_refund_def split: prod.splits sum.splits)
next
  case (JRelease n tx rf)
  show ?thesis
  proof (cases n)
    case 0
    with JRelease j show ?thesis
      by (simp add: run_job_def run_release_def sg_step.give_up)
  next
    case (Suc m)
    with JRelease j sg_step.release_ok[OF idle_resumes, of s js m tx rf ks env]
      sg_step.release_err[OF idle_resumes, of s js m tx rf ks env] show ?thesis
      by (auto simp: run_job_def run_release_def split: prod.splits sum.splits)
  qed
next
  case (JNotifyRefund tx rf)
  with j sg_step.notify_refund[OF idle_resumes, of s js tx rf ks env url] show ?thesis
    by (cases "SendRefundResult env url tx rf (idle_world (db s))") (simp add: run_job_def)
next
  case (JVoidWebhook tx)
  with j sg_step.notify_void[OF idle_resumes, of s js tx ks env url] show ?thesis
    by (cases "voidWebhook env url tx (idle_world (db s))") (simp add: run_job_def)
qed

lemma drive_reachable: "reachable s \<Longrightarrow> reachable (drive env url s act)"
proof (cases act)
  case (Serve a)
  assume "reachable s"
  moreover have "sg_step s (drive env url s act)"
    using Serve sg_step.api[OF idle_starts, of env a s]
    by (cases "serve env a (idle_world (db s))") simp
  ultimately show ?thesis by (simp add: reachable_def rtranclp.rtrancl_into_rtrancl)
next
  case (Run n)
  assume r: "reachable s"
  show ?thesis
  proof (cases "n < length (jobs s)")
    case True
    then have "jobs s = take n (jobs s) @ jobs s ! n # drop (Suc n) (jobs s)"
      by (rule id_take_nth_drop)
    from run_job_step[OF this, of env url] True Run have "sg_step s (drive env url s act)" by simp
    with r show ?thesis by (simp add: reachable_def rtranclp.rtrancl_into_rtrancl)
  next
    case False
    with r Run show ?thesis by simp
  qed
qed

lemma drives_reachable: "reachable s \<Longrightarrow> reachable (foldl (drive env url) s acts)"
  by (induction acts arbitrary: s) (simp_all add: drive_reachable)

lemma reachable_init: "reachable sg_init"
  by (simp add: reachable_def)

section \<open>A scenario\<close>

definition demo_auth :: AuthRequest where
  "demo_auth = \<lparr>aq_MerchantID = ''m'', aq_OrderID = ''o'', aq_Amount = 1000, aq_Currency = ''USD'',
     aq_CardToken = ''tok'', aq_PurchaseIdempotencyKey = '''', aq_ProductID = None\<rparr>"

definition demo_drive :: "system \<Rightarrow> nat \<times> action \<Rightarrow> system" where
  "demo_drive s p = (case p of (seed, act) \<Rightarrow> drive (demo_env seed) ''http://merchant'' s act)"

text \<open>A payment of 1000 is authorised, captured and settled.\<close>

definition demo_captured :: system where
  "demo_captured = foldl demo_drive sg_init [
     (0, Serve (ApiAuthorize demo_auth)),
     (1, Serve (ApiCapture \<lparr>cq_TransactionID = ''dd'', cq_Amount = 1000, cq_IdempotencyKey = ''k''\<rparr>)),
     (2, Run 0)]"

text \<open>
  Then 600 are refunded, which the bank refuses, so the reservation is released, and 400,
  which it accepts.
\<close>

definition demo_refused :: system where
  "demo_refused = foldl demo_drive demo_captured [
     (3, Serve (ApiRefund \<lparr>rq_TransactionID = ''dd'', rq_Amount = 600, rq_IdempotencyKey = ''a''\<rparr>)),
     (4, Run 0), (5, Run 0)]"

definition demo_state :: system where
  "demo_state = foldl demo_drive demo_refused [
     (6, Serve (ApiRefund \<lparr>rq_TransactionID = ''dd'', rq_Amount = 400, rq_IdempotencyKey = ''b''\<rparr>)),
     (7, Run 1)]"

lemma demo_reachable: "reachable demo_state"
proof -
  have "reachable (foldl demo_drive s acts)" if "reachable s" for s acts
    using that by (induction acts arbitrary: s) (auto simp: demo_drive_def drive_reachable)
  then show ?thesis
    by (simp only: demo_state_def demo_refused_def demo_captured_def reachable_init)
qed

text \<open>
  A merchant's product is created, and bought: the transaction of the purchase and the
  product it marks are reached from the empty tables.
\<close>

definition demo_sold :: system where
  "demo_sold = foldl demo_drive sg_init [
     (0, Serve (ApiProduct ''m'' (CreateReq \<lparr>ci_Slug = Some ''mug'', ci_Name = ''Mug'', ci_Description = '''',
        ci_Price = 700, ci_Currency = ''EUR''\<rparr>))),
     (1, Serve (ApiPurchase (demo_purchase\<lparr>pq_ProductID := ''d''\<rparr>) ((demo_product ''d'' 1)\<lparr>pr_Price := 700\<rparr>)))]"

lemma sold_reachable: "reachable demo_sold"
  by (simp add: demo_sold_def demo_drive_def drive_reachable reachable_init del: drive.simps)

lemma sold_rows:
  "map (\<lambda>t. (t_product_id t, t_amount t, t_status t)) (transactions (db demo_sold)) = [(Some ''d'', 700, ''authorized'')]"
  "map (\<lambda>p. (pr_ID p, pr_FirstPurchasedAt p \<noteq> None)) (products (db demo_sold)) = [(''d'', True)]"
  by code_simp+

abbreviation demo_row :: "string \<Rightarrow> int64 \<Rightarrow> time \<Rightarrow> tx_row" where
  "demo_row status refunded updated \<equiv> \<lparr>t_id = ''dd'', t_merchant_id = ''m'', t_order_ref = ''o'',
     t_amount = 1000, t_currency = ''USD'', t_card_token = ''tok'', t_status = status,
     t_decline_reason = None, t_idempotency_key = Some ''k'', t_purchase_idempotency_key = None,
     t_product_id = None, t_refunded_amount = refunded, t_created_at = 1, t_updated_at = updated\<rparr>"

abbreviation demo_refund :: "nat \<Rightarrow> int64 \<Rightarrow> string \<Rightarrow> string \<Rightarrow> refund_row" where
  "demo_refund n amount status key \<equiv> \<lparr>r_id = replicate n CHR ''i'' @ ''ddddd'', r_transaction_id = ''dd'',
     r_amount = amount, r_status = status, r_idempotency_key = Some key, r_created_at = 4, r_updated_at = 1\<rparr>"

lemma demo_captured_eq:
  "demo_captured = \<lparr>db = \<lparr>transactions = [demo_row StatusCaptured 0 1], refunds = [], products = []\<rparr>,
     jobs = [], released = {}\<rparr>"
  by code_simp

lemma demo_refused_eq:
  "db demo_refused = \<lparr>transactions = [demo_row StatusCaptured 0 0],
     refunds = [demo_refund 3 600 RefundStatusFailed ''a''], products = []\<rparr>
   \<and> map owner (jobs demo_refused) = [[]] \<and> released demo_refused = {replicate 3 CHR ''i'' @ ''ddddd''}"
  unfolding demo_refused_def demo_captured_eq by code_simp

lemma demo_db:
  "db demo_state = \<lparr>transactions = [demo_row StatusPartiallyRefunded 400 2],
     refunds = [demo_refund 3 600 RefundStatusFailed ''a'', demo_refund 6 400 RefundStatusDone ''b''],
     products = []\<rparr> \<and> released demo_state = {replicate 3 CHR ''i'' @ ''ddddd''}"
  unfolding demo_state_def demo_refused_def demo_captured_eq by code_simp

section \<open>Properties\<close>

text \<open>The money that is going back to the card holder, or has gone back.\<close>

definition live_refunds :: "refund_row list \<Rightarrow> uuid \<Rightarrow> int" where
  "live_refunds rfs i = sum_list (map (\<lambda>r. sint (r_amount r))
     (filter (\<lambda>r. r_transaction_id r = i \<and> r_status r \<noteq> RefundStatusFailed) rfs))"

lemma live_le_reservations:
  "(\<And>r. r \<in> set rfs \<Longrightarrow> 0 < sint (r_amount r)) \<Longrightarrow>
   (\<And>r. r \<in> set rfs \<Longrightarrow> r_id r \<in> rel \<Longrightarrow> r_status r = RefundStatusFailed) \<Longrightarrow>
   live_refunds rfs i \<le> reservations rfs rel i"
proof (induction rfs)
  case (Cons r rfs)
  then have "live_refunds rfs i \<le> reservations rfs rel i" "0 < sint (r_amount r)" by simp_all
  with Cons.prems(2)[of r] show ?case
    by (cases "r_transaction_id r = i"; cases "r_id r \<in> rel") (auto simp: live_refunds_def reservations_Cons)
qed (simp add: live_refunds_def)

lemma live_eq_reservations:
  assumes "\<And>r. r \<in> set rfs \<Longrightarrow> r_id r \<in> rel \<longleftrightarrow> r_status r = RefundStatusFailed"
  shows "live_refunds rfs i = reservations rfs rel i"
proof -
  have "filter (\<lambda>r. r_transaction_id r = i \<and> r_status r \<noteq> RefundStatusFailed) rfs
      = filter (\<lambda>r. r_transaction_id r = i \<and> r_id r \<notin> rel) rfs"
    using assms by (intro filter_cong) auto
  then show ?thesis by (simp add: live_refunds_def reservations_def)
qed

text \<open>
  C1. However requests, goroutines, failures and crashes interleave, the refunds of a
  transaction that are pending or paid add up to at most the amount reserved on its row,
  which never exceeds the authorised amount.
\<close>

theorem refunds_within_amount:
  assumes "reachable s" and "t \<in> set (transactions (db s))"
  shows "live_refunds (refunds (db s)) (t_id t) \<le> sint (t_refunded_amount t)
       \<and> sint (t_refunded_amount t) \<le> max 0 (sint (t_amount t))"
proof -
  from reachable_inv[OF assms(1)] have book: "book_inv (db s) (released s)" by (simp add: ledger_inv_def)
  with assms(2) have inv: "row_inv (refunds (db s)) (released s) t" by (simp add: book_inv_def)
  have "live_refunds (refunds (db s)) (t_id t) \<le> reservations (refunds (db s)) (released s) (t_id t)"
    using book by (intro live_le_reservations) (auto simp: book_inv_def intro: refunds_ok_amount)
  with inv show ?thesis by (auto simp: row_inv_def)
qed

theorem refunds_within_amount_witness:
  "\<exists>t\<in>set (transactions (db demo_state)).
     live_refunds (refunds (db demo_state)) (t_id t) \<le> sint (t_refunded_amount t)
     \<and> t_refunded_amount t = 400"
  using refunds_within_amount[OF demo_reachable, of "hd (transactions (db demo_state))"]
  by (simp add: demo_db)

text \<open>
  C16. Nothing is lost either: once the reservations of the failed refunds were given back,
  the amount on the row is exactly the sum of the refunds pending or paid.
\<close>

theorem refunds_conserved:
  assumes "reachable s" and "t \<in> set (transactions (db s))"
    and "\<forall>r\<in>set (refunds (db s)). r_status r = RefundStatusFailed \<longrightarrow> r_id r \<in> released s"
  shows "sint (t_refunded_amount t) = live_refunds (refunds (db s)) (t_id t)"
proof -
  from reachable_inv[OF assms(1)] have book: "book_inv (db s) (released s)" by (simp add: ledger_inv_def)
  with assms(2) have inv: "row_inv (refunds (db s)) (released s) t" by (simp add: book_inv_def)
  have "live_refunds (refunds (db s)) (t_id t) = reservations (refunds (db s)) (released s) (t_id t)"
    using book assms(3) by (intro live_eq_reservations) (auto simp: book_inv_def)
  with inv show ?thesis by (simp add: row_inv_def)
qed

theorem refunds_conserved_witness:
  "\<exists>t\<in>set (transactions (db demo_state)).
     sint (t_refunded_amount t) = live_refunds (refunds (db demo_state)) (t_id t)
     \<and> t_refunded_amount t = 400"
  using refunds_conserved[OF demo_reachable, of "hd (transactions (db demo_state))"]
  by (simp add: demo_db)

text \<open>
  C26. The status of a row tells how much of it is reserved: nothing unless it is refunded
  in part or in full, all of it exactly when it is refunded in full.
\<close>

theorem status_tells_amount:
  assumes "reachable s" and "t \<in> set (transactions (db s))"
  shows "(if t_status t = StatusRefunded then t_refunded_amount t = t_amount t \<and> i64_less 0 (t_refunded_amount t)
          else if t_status t = StatusPartiallyRefunded
            then i64_less 0 (t_refunded_amount t) \<and> i64_less (t_refunded_amount t) (t_amount t)
          else t_refunded_amount t = 0)"
proof -
  from reachable_inv[OF assms(1)] assms(2) have inv: "row_inv (refunds (db s)) (released s) t"
    by (simp add: ledger_inv_def book_inv_def)
  have "0 < sint (t_refunded_amount t)" if "t_refunded_amount t \<noteq> 0"
    using inv that sint_i64_eq_0[of "t_refunded_amount t"] by (simp add: row_inv_def order_less_le)
  with inv show ?thesis by (auto simp: row_inv_def)
qed

theorem status_tells_amount_witness:
  "\<exists>t\<in>set (transactions (db demo_state)). t_status t = StatusPartiallyRefunded
     \<and> i64_less 0 (t_refunded_amount t) \<and> i64_less (t_refunded_amount t) (t_amount t)"
  using status_tells_amount[OF demo_reachable, of "hd (transactions (db demo_state))"]
  by (simp add: demo_db)

lemma transaction_life_step:
  assumes "reachable s" and "sg_step s s'" and "t \<in> set (transactions (db s))"
  shows "\<exists>t'\<in>set (transactions (db s')). same_terms t t' \<and> status_step (t_status t) (t_status t')"
  using step_evolves[OF assms(2) reachable_inv[OF assms(1)]] assms(3) by (simp add: evolves_def)

text \<open>
  C15. The life of a transaction: a step never removes it, never changes its merchant,
  amount, currency, card or purchase, and changes its status only along the transition
  table, or back from refunded when the bank refused the refund and it was released.
\<close>

theorem transaction_life:
  assumes "reachable s" and "sg_step s s'" and "t \<in> set (transactions (db s))"
  shows "\<exists>t'\<in>set (transactions (db s')). same_terms t t' \<and> status_step (t_status t) (t_status t')"
  using assms by (rule transaction_life_step)

theorem transaction_life_witness:
  "\<exists>s'. \<exists>t'\<in>set (transactions (db s')). sg_step demo_state s'
     \<and> t_amount t' = 1000 \<and> status_step ''partially_refunded'' (t_status t')"
proof -
  have step: "sg_step demo_state (served demo_state
      (snd (serve (demo_env 9) (ApiVoid ''dd'') (idle_world (db demo_state)))))" (is "sg_step _ ?s")
    by (rule sg_step.api[OF idle_starts surjective_pairing])
  from transaction_life[OF demo_reachable step, of "hd (transactions (db demo_state))"]
  have "\<exists>t'\<in>set (transactions (db ?s)). t_amount t' = 1000 \<and> status_step ''partially_refunded'' (t_status t')"
    by (auto simp: demo_db same_terms_def)
  with step show ?thesis by blast
qed

lemma final_step:
  "status_step st st' \<Longrightarrow> st \<in> {StatusVoided, StatusDeclined, StatusCaptureFailed} \<Longrightarrow> st' = st"
  by (auto simp: status_step_def CanTransitionTo_iff)

text \<open>
  C27. A transaction that was voided, declined, or whose capture failed stays so in every
  later state, and no amount of it is ever refunded.
\<close>

theorem final_statuses:
  assumes "reachable s" and "sg_step\<^sup>*\<^sup>* s s'" and "t \<in> set (transactions (db s))"
    and "t_status t \<in> {StatusVoided, StatusDeclined, StatusCaptureFailed}"
  shows "\<exists>t'\<in>set (transactions (db s')). t_id t' = t_id t \<and> t_status t' = t_status t
     \<and> t_refunded_amount t' = 0"
proof -
  from assms(2) have "reachable s' \<and> (\<exists>t'\<in>set (transactions (db s')). t_id t' = t_id t \<and> t_status t' = t_status t)"
  proof (induction rule: rtranclp_induct)
    case base
    with assms(1,3) show ?case by blast
  next
    case (step s1 s2)
    then obtain t1 where r: "reachable s1" and t1: "t1 \<in> set (transactions (db s1))"
      "t_id t1 = t_id t" "t_status t1 = t_status t" by blast
    from r step(2) have "reachable s2" by (simp add: reachable_def)
    moreover from transaction_life_step[OF r step(2) t1(1)] obtain t2 where
      "t2 \<in> set (transactions (db s2))" "same_terms t1 t2" "status_step (t_status t1) (t_status t2)"
      by blast
    ultimately show ?case using t1 assms(4) by (auto simp: same_terms_def dest: final_step)
  qed
  then obtain t' where s': "reachable s'" and t': "t' \<in> set (transactions (db s'))"
    "t_id t' = t_id t" "t_status t' = t_status t" by blast
  from reachable_inv[OF s'] t'(1) have "row_inv (refunds (db s')) (released s') t'"
    by (simp add: ledger_inv_def book_inv_def)
  with t' assms(4) have "t_refunded_amount t' = 0" by (auto simp: row_inv_def)
  with t' show ?thesis by blast
qed

text \<open>A payment that was voided, and a request to capture it all the same.\<close>

definition demo_voided :: system where
  "demo_voided = foldl demo_drive sg_init
     [(0, Serve (ApiAuthorize demo_auth)), (1, Serve (ApiVoid ''dd''))]"

lemma demo_voided_reachable: "reachable demo_voided"
  by (simp add: demo_voided_def demo_drive_def drive_reachable reachable_init del: drive.simps)

lemma demo_voided_rows:
  "map t_status (transactions (db demo_voided)) = [StatusVoided] \<and> map t_id (transactions (db demo_voided)) = [''dd'']"
  by code_simp

theorem final_statuses_witness:
  "\<exists>s'. sg_step demo_voided s' \<and> (\<exists>t'\<in>set (transactions (db s')). t_id t' = ''dd'' \<and> t_status t' = StatusVoided)"
proof -
  let ?req = "\<lparr>cq_TransactionID = ''dd'', cq_Amount = 1000, cq_IdempotencyKey = ''k''\<rparr>"
  have step: "sg_step demo_voided (served demo_voided
      (snd (serve (demo_env 9) (ApiCapture ?req) (idle_world (db demo_voided)))))" (is "sg_step _ ?s")
    by (rule sg_step.api[OF idle_starts surjective_pairing])
  from demo_voided_rows obtain t where t: "transactions (db demo_voided) = [t]"
    "t_status t = StatusVoided" "t_id t = ''dd''" by (auto simp: Cons_eq_map_conv map_eq_Cons_conv)
  have "sg_step\<^sup>*\<^sup>* demo_voided ?s" using step by (rule r_into_rtranclp)
  from final_statuses[OF demo_voided_reachable this, of t] t step show ?thesis by auto
qed

end
