(* ===== verification/SgControllers.thy ===== *)
theory SgControllers
  imports SgPurchase Http
begin

text \<open>
  Silvergate's HTTP surface: package \<open>merchantauth\<close>, the controllers of transactions,
  products and purchases, and the routes of \<open>router.go\<close>. A handler returns its reply;
  \<open>bound\<close> is what \<open>ShouldBindJSON\<close> gave it, the fields already validated.
\<close>

section \<open>Merchant identity\<close>

definition HeaderName :: string where "HeaderName = ''X-Merchant-ID''"

definition FromContext :: "gin_ctx \<Rightarrow> string option" where
  "FromContext c = (case ctx_merchant c of None \<Rightarrow> None | Some v \<Rightarrow> if v = '''' then None else Some v)"

definition WithMerchantID :: "gin_ctx \<Rightarrow> string \<Rightarrow> gin_ctx" where
  "WithMerchantID c merchantID = c\<lparr>ctx_merchant := Some merchantID\<rparr>"

definition Middleware ::
  "(gin_ctx \<Rightarrow> ('w, goerr, reply) gprog) \<Rightarrow> gin_ctx \<Rightarrow> ('w, goerr, reply) gprog" where
  "Middleware handler c =
    (let mid = header c HeaderName in
     if mid = '''' then reply_JSON 401 (error_body ''missing X-Merchant-ID header'')
     else handler (WithMerchantID c mid))"

section \<open>Transactions\<close>

record auth_body =
  ab_MerchantID :: string
  ab_OrderID :: string
  ab_Amount :: int64
  ab_Currency :: string
  ab_CardToken :: string

definition AuthHandler :: "('b) senv_scheme \<Rightarrow> goerr + auth_body \<Rightarrow> reply sg" where
  "AuthHandler env bound = (case bound of
      Inl err \<Rightarrow> reply_JSON 400 (error_body (Error err))
    | Inr req \<Rightarrow> respond
        (Authorize env \<lparr>aq_MerchantID = ab_MerchantID req, aq_OrderID = ab_OrderID req,
           aq_Amount = ab_Amount req, aq_Currency = ab_Currency req, aq_CardToken = ab_CardToken req,
           aq_PurchaseIdempotencyKey = '''', aq_ProductID = None\<rparr>)
        (\<lambda>err. \<lparr>rp_code = 500, rp_body = error_body ''authorization failed''\<rparr>)
        (\<lambda>result. \<lparr>rp_code = 200, rp_body = JObj (
           [(''transaction_id'', JStr (as_TransactionID result)), (''status'', JStr (as_Status result)),
            (''order_id'', JStr (ab_OrderID req))]
           @ omitempty ''decline_reason'' (as_DeclineReason result))\<rparr>))"

record capture_body =
  cb_TransactionID :: string
  cb_Amount :: int64
  cb_IdempotencyKey :: string

definition status_body :: "StatusResponse \<Rightarrow> json" where
  "status_body r = JObj [(''transaction_id'', JStr (sr_TransactionID r)), (''status'', JStr (sr_Status r))]"

definition capture_error :: "goerr \<Rightarrow> reply" where
  "capture_error err =
    (if errors_Is err Transaction_ErrNotFound
       then \<lparr>rp_code = 404, rp_body = error_body ''transaction not found''\<rparr>
     else if errors_Is err Transaction_ErrInvalidTransition
       then \<lparr>rp_code = 409, rp_body = error_body ''transaction cannot be captured in current state''\<rparr>
     else if errors_Is err Transaction_ErrDuplicateIdempotency
       then \<lparr>rp_code = 409, rp_body = error_body ''duplicate idempotency key''\<rparr>
     else \<lparr>rp_code = 500, rp_body = error_body ''capture failed''\<rparr>)"

definition CaptureHandler ::
  "(string \<Rightarrow> goerr + uuid) \<Rightarrow> ('b) senv_scheme \<Rightarrow> goerr + capture_body \<Rightarrow> reply sg" where
  "CaptureHandler uuid_Parse env bound = (case bound of
      Inl err \<Rightarrow> reply_JSON 400 (error_body (Error err))
    | Inr req \<Rightarrow> (case uuid_Parse (cb_TransactionID req) of
        Inl err \<Rightarrow> reply_JSON 400 (error_body ''invalid transaction_id'')
      | Inr txID \<Rightarrow> respond
          (Capture env \<lparr>cq_TransactionID = txID, cq_Amount = cb_Amount req,
             cq_IdempotencyKey = cb_IdempotencyKey req\<rparr>)
          capture_error (\<lambda>result. \<lparr>rp_code = 202, rp_body = status_body result\<rparr>)))"

record refund_body =
  rb_TransactionID :: string
  rb_Amount :: int64
  rb_IdempotencyKey :: string

definition refund_error :: "goerr \<Rightarrow> reply" where
  "refund_error err =
    (if errors_Is err Transaction_ErrNotFound
       then \<lparr>rp_code = 404, rp_body = error_body ''transaction not found''\<rparr>
     else if errors_Is err Transaction_ErrNotRefundable
       then \<lparr>rp_code = 409, rp_body = error_body ''transaction is not in a refundable state''\<rparr>
     else if errors_Is err Transaction_ErrRefundExceedsAmount
       then \<lparr>rp_code = 422, rp_body = error_body ''refund amount exceeds remaining balance''\<rparr>
     else if errors_Is err Transaction_ErrDuplicateIdempotency
       then \<lparr>rp_code = 409, rp_body = error_body ''duplicate idempotency key''\<rparr>
     else \<lparr>rp_code = 500, rp_body = error_body ''refund failed''\<rparr>)"

definition RefundHandler ::
  "(string \<Rightarrow> goerr + uuid) \<Rightarrow> ('b) senv_scheme \<Rightarrow> goerr + refund_body \<Rightarrow> reply sg" where
  "RefundHandler uuid_Parse env bound = (case bound of
      Inl err \<Rightarrow> reply_JSON 400 (error_body (Error err))
    | Inr req \<Rightarrow> (case uuid_Parse (rb_TransactionID req) of
        Inl err \<Rightarrow> reply_JSON 400 (error_body ''invalid transaction_id'')
      | Inr txID \<Rightarrow> respond
          (Service_Refund env \<lparr>rq_TransactionID = txID, rq_Amount = rb_Amount req,
             rq_IdempotencyKey = rb_IdempotencyKey req\<rparr>)
          refund_error
          (\<lambda>result. \<lparr>rp_code = 202, rp_body = JObj
             [(''refund_id'', JStr (rs_RefundID result)), (''transaction_id'', JStr (rs_TransactionID result)),
              (''amount'', json_int64 (rs_Amount result)), (''status'', JStr (rs_Status result))]\<rparr>)))"

definition void_error :: "goerr \<Rightarrow> reply" where
  "void_error err =
    (if errors_Is err Transaction_ErrNotFound
       then \<lparr>rp_code = 404, rp_body = error_body ''transaction not found''\<rparr>
     else if errors_Is err Transaction_ErrInvalidTransition
       then \<lparr>rp_code = 409, rp_body = error_body ''transaction cannot be voided in current state''\<rparr>
     else \<lparr>rp_code = 500, rp_body = error_body ''void failed''\<rparr>)"

text \<open>The body of a void request is its \<open>transaction_id\<close>.\<close>

definition VoidHandler ::
  "(string \<Rightarrow> goerr + uuid) \<Rightarrow> ('b) senv_scheme \<Rightarrow> goerr + string \<Rightarrow> reply sg" where
  "VoidHandler uuid_Parse env bound = (case bound of
      Inl err \<Rightarrow> reply_JSON 400 (error_body (Error err))
    | Inr transaction_id \<Rightarrow> (case uuid_Parse transaction_id of
        Inl err \<Rightarrow> reply_JSON 400 (error_body ''invalid transaction_id'')
      | Inr txID \<Rightarrow> respond (Void env txID) void_error
          (\<lambda>result. \<lparr>rp_code = 200, rp_body = status_body result\<rparr>)))"

section \<open>Products\<close>

text \<open>\<open>errorResponse\<close>: the members \<open>code\<close> and \<open>fields\<close> are left out when empty.\<close>

definition product_error_body :: "string \<Rightarrow> string \<Rightarrow> string list \<Rightarrow> json" where
  "product_error_body msg c names = JObj ([(''error'', JStr msg)] @ omitempty ''code'' c
     @ (if names = [] then [] else [(''fields'', JArr (map JStr names))]))"

definition toProductResponse :: "Product \<Rightarrow> json" where
  "toProductResponse p = JObj
     [(''id'', JStr (pr_ID p)), (''merchant_id'', JStr (pr_MerchantID p)),
      (''slug'', json_opt_string (pr_Slug p)), (''name'', JStr (pr_Name p)),
      (''description'', JStr (pr_Description p)), (''price'', json_int64 (pr_Price p)),
      (''currency'', JStr (pr_Currency p)), (''status'', JStr (pr_Status p)),
      (''first_purchased_at'', json_opt_time (pr_FirstPurchasedAt p)),
      (''locked_fields'', JArr (map JStr (LockedFields p))),
      (''created_at'', json_time (pr_CreatedAt p)), (''updated_at'', json_time (pr_UpdatedAt p))]"

abbreviation merchant_missing :: "('w, goerr, reply) gprog" where
  "merchant_missing \<equiv> reply_JSON 401 (product_error_body ''merchant context missing'' '''' [])"

definition resolveProductIdentity ::
  "(string \<Rightarrow> goerr + uuid) \<Rightarrow> gin_ctx \<Rightarrow> reply + string \<times> uuid" where
  "resolveProductIdentity uuid_Parse c = (case FromContext c of
      None \<Rightarrow> Inl \<lparr>rp_code = 401, rp_body = product_error_body ''merchant context missing'' '''' []\<rparr>
    | Some merchantID \<Rightarrow> (case uuid_Parse (param c ''id'') of
        Inl err \<Rightarrow> Inl \<lparr>rp_code = 400, rp_body = product_error_body ''invalid product id'' '''' []\<rparr>
      | Inr pid \<Rightarrow> Inr (merchantID, pid)))"

definition writeStatusError :: "goerr \<Rightarrow> reply" where
  "writeStatusError err =
    (if errors_Is err Product_ErrNotFound
       then \<lparr>rp_code = 404, rp_body = product_error_body (Error err) '''' []\<rparr>
     else \<lparr>rp_code = 500, rp_body = product_error_body ''internal error'' '''' []\<rparr>)"

text \<open>Archive and unarchive set the status and read the product back; either may fail.\<close>

definition ArchiveHandler ::
  "(string \<Rightarrow> goerr + uuid) \<Rightarrow> ('b) senv_scheme \<Rightarrow> gin_ctx \<Rightarrow> reply sg" where
  "ArchiveHandler uuid_Parse env c = (case resolveProductIdentity uuid_Parse c of
      Inl rep \<Rightarrow> ret rep
    | Inr (merchantID, pid) \<Rightarrow> respond
        (bnd (product_Archive env merchantID pid) (\<lambda>_. product_Get env merchantID pid))
        writeStatusError (\<lambda>p. \<lparr>rp_code = 200, rp_body = toProductResponse p\<rparr>))"

definition UnarchiveHandler ::
  "(string \<Rightarrow> goerr + uuid) \<Rightarrow> ('b) senv_scheme \<Rightarrow> gin_ctx \<Rightarrow> reply sg" where
  "UnarchiveHandler uuid_Parse env c = (case resolveProductIdentity uuid_Parse c of
      Inl rep \<Rightarrow> ret rep
    | Inr (merchantID, pid) \<Rightarrow> respond
        (bnd (product_Unarchive env merchantID pid) (\<lambda>_. product_Get env merchantID pid))
        writeStatusError (\<lambda>p. \<lparr>rp_code = 200, rp_body = toProductResponse p\<rparr>))"

definition writeCreateError :: "goerr \<Rightarrow> reply" where
  "writeCreateError err =
    (if errors_Is err Product_ErrInvalidSlug
       then \<lparr>rp_code = 422, rp_body = product_error_body (Error err) '''' []\<rparr>
     else if errors_Is err Product_ErrSlugConflict
       then \<lparr>rp_code = 409, rp_body = product_error_body (Error err) ''slug_conflict'' []\<rparr>
     else \<lparr>rp_code = 500, rp_body = product_error_body ''internal error'' '''' []\<rparr>)"

text \<open>The fields of \<open>createProductRequest\<close> are those of \<open>CreateInput\<close>.\<close>

definition CreateHandler :: "('b) senv_scheme \<Rightarrow> gin_ctx \<Rightarrow> goerr + CreateInput \<Rightarrow> reply sg" where
  "CreateHandler env c bound = (case FromContext c of
      None \<Rightarrow> merchant_missing
    | Some merchantID \<Rightarrow> (case bound of
        Inl err \<Rightarrow> reply_JSON 400 (product_error_body (Error err) '''' [])
      | Inr req \<Rightarrow> respond (product_Create env merchantID req) writeCreateError
          (\<lambda>p. \<lparr>rp_code = 201, rp_body = toProductResponse p\<rparr>)))"

definition GetHandler ::
  "(string \<Rightarrow> goerr + uuid) \<Rightarrow> ('b) senv_scheme \<Rightarrow> gin_ctx \<Rightarrow> reply sg" where
  "GetHandler uuid_Parse env c = (case FromContext c of
      None \<Rightarrow> merchant_missing
    | Some merchantID \<Rightarrow> (case uuid_Parse (param c ''id'') of
        Inl err \<Rightarrow> reply_JSON 400 (product_error_body ''invalid product id'' '''' [])
      | Inr pid \<Rightarrow> respond (product_Get env merchantID pid)
          (\<lambda>err. if errors_Is err Product_ErrNotFound
                 then \<lparr>rp_code = 404, rp_body = product_error_body (Error err) '''' []\<rparr>
                 else \<lparr>rp_code = 500, rp_body = product_error_body ''internal error'' '''' []\<rparr>)
          (\<lambda>p. \<lparr>rp_code = 200, rp_body = toProductResponse p\<rparr>)))"

definition writeUpdateError :: "goerr \<Rightarrow> reply" where
  "writeUpdateError err =
    (if errors_Is err Product_ErrNotFound
       then \<lparr>rp_code = 404, rp_body = product_error_body (Error err) '''' []\<rparr>
     else if errors_Is err Product_ErrSlugConflict
       then \<lparr>rp_code = 409, rp_body = product_error_body (Error err) ''slug_conflict'' []\<rparr>
     else if errors_Is err Product_ErrFieldsLocked
       then \<lparr>rp_code = 422, rp_body = product_error_body (Error err) ''fields_locked'' LockedAfterPurchase_FieldNames\<rparr>
     else if errors_Is err Product_ErrArchived
       then \<lparr>rp_code = 422, rp_body = product_error_body (Error err) ''product_archived'' []\<rparr>
     else if errors_Is err Product_ErrInvalidSlug \<or> errors_Is err Product_ErrSlugRemoval
             \<or> errors_Is err Product_ErrEmptyUpdate
       then \<lparr>rp_code = 422, rp_body = product_error_body (Error err) '''' []\<rparr>
     else \<lparr>rp_code = 500, rp_body = product_error_body ''internal error'' '''' []\<rparr>)"

text \<open>\<open>updateProductRequest\<close> has the fields of \<open>UpdateRequest\<close>; an absent and a null member are \<open>None\<close>.\<close>

definition UpdateHandler ::
  "(string \<Rightarrow> goerr + uuid) \<Rightarrow> ('b) senv_scheme \<Rightarrow> gin_ctx \<Rightarrow> goerr + UpdateRequest \<Rightarrow> reply sg" where
  "UpdateHandler uuid_Parse env c bound = (case FromContext c of
      None \<Rightarrow> merchant_missing
    | Some merchantID \<Rightarrow> (case uuid_Parse (param c ''id'') of
        Inl err \<Rightarrow> reply_JSON 400 (product_error_body ''invalid product id'' '''' [])
      | Inr pid \<Rightarrow> (case bound of
          Inl err \<Rightarrow> reply_JSON 400 (product_error_body (Error err) '''' [])
        | Inr req \<Rightarrow> respond (product_Update env merchantID pid req) writeUpdateError
            (\<lambda>p. \<lparr>rp_code = 200, rp_body = toProductResponse p\<rparr>))))"

text \<open>
  The filter of a listing; \<open>uuid_Parse\<close> reads the identifier in a page token.
\<close>

definition parse_status :: "string \<Rightarrow> goerr + string option" where
  "parse_status s = (if s = '''' then Inr None
     else if s = StatusActive then Inr (Some StatusActive)
     else if s = StatusArchived then Inr (Some StatusArchived)
     else Inl (ErrText ''invalid status filter''))"

definition parse_cursor :: "(string \<Rightarrow> goerr + uuid) \<Rightarrow> string \<Rightarrow> goerr + Cursor option" where
  "parse_cursor uuid_Parse raw = (if raw = '''' then Inr None
     else case DecodeCursor uuid_Parse raw of
       Inl err \<Rightarrow> Inl (ErrText ''invalid cursor'') | Inr cur \<Rightarrow> Inr (Some cur))"

definition parse_limit :: "string \<Rightarrow> goerr + int" where
  "parse_limit raw = (if raw = '''' then Inr 0
     else case Atoi raw of
       Inl err \<Rightarrow> Inl (ErrText ''invalid limit'')
     | Inr n \<Rightarrow> if n \<le> 0 then Inl (ErrText ''invalid limit'') else Inr n)"

definition parseListFilter :: "(string \<Rightarrow> goerr + uuid) \<Rightarrow> gin_ctx \<Rightarrow> goerr + ListFilter" where
  "parseListFilter uuid_Parse c =
     bind_sum (parse_status (query_arg c ''status'')) (\<lambda>st.
     bind_sum (parse_cursor uuid_Parse (query_arg c ''cursor'')) (\<lambda>cur.
     bind_sum (parse_limit (query_arg c ''limit'')) (\<lambda>n.
     Inr \<lparr>lf_StatusFilter = st, lf_Cursor = cur, lf_Limit = n\<rparr>)))"

definition ListHandler ::
  "(string \<Rightarrow> goerr + uuid) \<Rightarrow> ('b) senv_scheme \<Rightarrow> gin_ctx \<Rightarrow> reply sg" where
  "ListHandler uuid_Parse env c = (case FromContext c of
      None \<Rightarrow> merchant_missing
    | Some merchantID \<Rightarrow> (case parseListFilter uuid_Parse c of
        Inl err \<Rightarrow> reply_JSON 400 (product_error_body (Error err) '''' [])
      | Inr filt \<Rightarrow> respond (product_List env merchantID filt)
          (\<lambda>err. if errors_Is err Product_ErrLimitTooLarge
                 then \<lparr>rp_code = 400, rp_body = product_error_body (Error err) '''' []\<rparr>
                 else \<lparr>rp_code = 500, rp_body = product_error_body ''internal error'' '''' []\<rparr>)
          (\<lambda>(items, next). \<lparr>rp_code = 200, rp_body = JObj
             [(''items'', JArr (map toProductResponse items)),
              (''next_cursor'', json_opt_string (map_option EncodeCursor next))]\<rparr>)))"

section \<open>Purchases\<close>

record purchase_body =
  pb_OrderID :: string
  pb_ProductID :: string
  pb_CardToken :: string

definition purchase_error_body :: "string \<Rightarrow> string \<Rightarrow> string \<Rightarrow> json" where
  "purchase_error_body msg c txID = JObj ([(''error'', JStr msg)] @ omitempty ''code'' c
     @ omitempty ''transaction_id'' txID)"

text \<open>\<open>toResponse\<close>: amount and currency of an accepted purchase, the reason of a declined one.\<close>

definition purchase_toResponse :: "PurchaseResponse \<Rightarrow> json" where
  "purchase_toResponse r =
    (let accepted = (ps_Status r = StatusCapturePending) in
     JObj ([(''transaction_id'', JStr (ps_TransactionID r)), (''product_id'', JStr (ps_ProductID r)),
            (''order_id'', JStr (ps_OrderID r)), (''status'', JStr (ps_Status r))]
       @ (if accepted \<and> ps_Amount r \<noteq> 0 then [(''amount'', json_int64 (ps_Amount r))] else [])
       @ (if accepted then omitempty ''currency'' (ps_Currency r) else [])
       @ (if ps_Status r = StatusDeclined then omitempty ''decline_reason'' (ps_DeclineReason r) else [])))"

text \<open>The identifier of \<open>purchase.Response{}\<close>.\<close>

definition uuid_Nil :: uuid where
  "uuid_Nil = ''00000000-0000-0000-0000-000000000000''"

definition purchase_writeError :: "uuid \<Rightarrow> goerr \<Rightarrow> reply" where
  "purchase_writeError partialID err =
    (if errors_Is err Product_ErrNotFound
       then \<lparr>rp_code = 404, rp_body = purchase_error_body ''product not found'' ''product_not_found'' ''''\<rparr>
     else if errors_Is err Purchase_ErrProductArchived
       then \<lparr>rp_code = 422, rp_body = purchase_error_body ''product is archived'' ''product_archived'' ''''\<rparr>
     else if errors_Is err Purchase_ErrIdempotencyConflict
       then \<lparr>rp_code = 409, rp_body = purchase_error_body ''idempotency key reused with different request''
              ''idempotency_conflict'' ''''\<rparr>
     else if errors_Is err Purchase_ErrCapturePartiallyApplied
       then \<lparr>rp_code = 500, rp_body = purchase_error_body
              ''authorize succeeded but capture failed; manual recovery required''
              ''purchase_partially_persisted'' partialID\<rparr>
     else \<lparr>rp_code = 500, rp_body = purchase_error_body ''internal error'' ''internal_error'' ''''\<rparr>)"

definition idempotencyHeader :: string where "idempotencyHeader = ''Idempotency-Key''"

definition PurchaseHandler ::
  "(string \<Rightarrow> goerr + uuid) \<Rightarrow> ('b) senv_scheme \<Rightarrow> gin_ctx \<Rightarrow> goerr + purchase_body \<Rightarrow> reply sg" where
  "PurchaseHandler uuid_Parse env c bound = (case FromContext c of
      None \<Rightarrow> reply_JSON 401 (purchase_error_body ''merchant context missing'' '''' '''')
    | Some merchantID \<Rightarrow>
        (let key = header c idempotencyHeader in
         if key = '''' then reply_JSON 400
           (purchase_error_body ''missing Idempotency-Key header'' ''missing_idempotency_key'' '''')
         else case bound of
           Inl err \<Rightarrow> reply_JSON 400 (purchase_error_body (Error err) ''invalid_request'' '''')
         | Inr req \<Rightarrow> (case uuid_Parse (pb_ProductID req) of
             Inl err \<Rightarrow> reply_JSON 400 (purchase_error_body ''invalid product_id'' ''invalid_request'' '''')
           | Inr productID \<Rightarrow> respond
               (Purchase env \<lparr>pq_MerchantID = merchantID, pq_OrderID = pb_OrderID req,
                  pq_ProductID = productID, pq_CardToken = pb_CardToken req, pq_IdempotencyKey = key\<rparr>)
               (purchase_writeError uuid_Nil)
               (\<lambda>(resp, e). case e of
                   Some err \<Rightarrow> purchase_writeError (ps_TransactionID resp) err
                 | None \<Rightarrow> \<lparr>rp_code = 200, rp_body = purchase_toResponse resp\<rparr>))))"

section \<open>Routes\<close>

text \<open>
  The routes of \<open>setupRouter\<close> and the two \<open>RegisterRoutes\<close>, each with what the binding
  of its body gave. Products and purchases are behind the merchant middleware.
\<close>

datatype route =
    POST_auth "goerr + auth_body"
  | POST_capture "goerr + capture_body"
  | POST_void "goerr + string"
  | POST_refund "goerr + refund_body"
  | POST_products "goerr + CreateInput"
  | GET_products
  | GET_product
  | PATCH_product "goerr + UpdateRequest"
  | POST_product_archive
  | POST_product_unarchive
  | POST_purchase "goerr + purchase_body"
  | GET_health

text \<open>What the handlers take from outside the repository.\<close>

record outside =
  o_uuid_Parse :: "string \<Rightarrow> goerr + uuid"

fun setupRouter :: "outside \<Rightarrow> ('b) senv_scheme \<Rightarrow> route \<Rightarrow> gin_ctx \<Rightarrow> reply sg" where
  "setupRouter x env (POST_auth b) c = AuthHandler env b"
| "setupRouter x env (POST_capture b) c = CaptureHandler (o_uuid_Parse x) env b"
| "setupRouter x env (POST_void b) c = VoidHandler (o_uuid_Parse x) env b"
| "setupRouter x env (POST_refund b) c = RefundHandler (o_uuid_Parse x) env b"
| "setupRouter x env (POST_products b) c = Middleware (\<lambda>c. CreateHandler env c b) c"
| "setupRouter x env GET_products c =
     Middleware (ListHandler (o_uuid_Parse x) env) c"
| "setupRouter x env GET_product c = Middleware (GetHandler (o_uuid_Parse x) env) c"
| "setupRouter x env (PATCH_product b) c = Middleware (\<lambda>c. UpdateHandler (o_uuid_Parse x) env c b) c"
| "setupRouter x env POST_product_archive c = Middleware (ArchiveHandler (o_uuid_Parse x) env) c"
| "setupRouter x env POST_product_unarchive c = Middleware (UnarchiveHandler (o_uuid_Parse x) env) c"
| "setupRouter x env (POST_purchase b) c = Middleware (\<lambda>c. PurchaseHandler (o_uuid_Parse x) env c b) c"
| "setupRouter x env GET_health c = reply_JSON 200 (JObj [(''status'', JStr ''ok'')])"

section \<open>The replies to a refund\<close>

lemma rows_ok_reserve:
  assumes "rows_ok transactions_schema rows" and "st \<in> set tx_statuses" and "0 \<le> sint tot"
  shows "rows_ok transactions_schema (set_where p
    (\<lambda>r. r\<lparr>t_status := st, t_refunded_amount := tot, t_updated_at := now\<rparr>) rows)"
  using assms by (intro rows_ok_set_where) (auto simp: transactions_schema_def)

text \<open>A new refund row is admitted unless its key was used for the transaction before.\<close>

definition refund_key_used :: "refund_row \<Rightarrow> refund_row list \<Rightarrow> bool" where
  "refund_key_used r rows \<longleftrightarrow> r_idempotency_key r \<noteq> None \<and> (\<exists>x\<in>set rows.
     r_idempotency_key x = r_idempotency_key r \<and> r_transaction_id x = r_transaction_id r)"

lemma enforce_refund:
  assumes "rows_ok refunds_schema rows" and "r_id r \<notin> r_id ` set rows"
    and "0 < sint (r_amount r)" and "r_status r = RefundStatusPending"
  shows "sql_insert refunds_schema r rows =
    (if refund_key_used r rows then Inl (unique_violation ''idx_refunds_idempotency'')
     else Inr ((), rows @ [r]))"
proof -
  have chk: "find (\<lambda>(n, ok). list_ex (\<lambda>r. \<not> ok r) (rows @ [r])) (checks refunds_schema) = None"
    using assms by (auto simp: rows_ok_def refunds_schema_def refund_statuses_def list_all_iff list_ex_iff)
  have un: "find (\<lambda>(n, c). clashes c (rows @ [r])) (uniques refunds_schema) =
     (if refund_key_used r rows then Some (''idx_refunds_idempotency'', \<lambda>a b. r_idempotency_key a \<noteq> None
          \<and> r_idempotency_key a = r_idempotency_key b \<and> r_transaction_id a = r_transaction_id b) else None)"
    using assms by (auto simp: rows_ok_def refunds_schema_def clashes_snoc refund_key_used_def image_iff)
  show ?thesis unfolding sql_insert_def enforce_def chk un by simp
qed

lemma txrepo_GetByID_run:
  assumes "healthy env" and "\<not> tx_failed w"
  shows "txrepo_GetByID env i w = (case find (\<lambda>r. t_id r = i) (transactions (data w)) of
      None \<Rightarrow> Inl (Sentinel Transaction_ErrNotFound) | Some r \<Rightarrow> Inr (scan_tx_row r), tick w)"
  using assms by (simp add: txrepo_GetByID_def scanTransaction_run healthy_def)

lemma txrepo_UpdateRefund_run:
  assumes "healthy env" and "\<not> tx_failed w"
    and "rows_ok transactions_schema (set_where (\<lambda>r. t_id r = tx_ID tx)
      (\<lambda>r. r\<lparr>t_status := tx_Status tx, t_refunded_amount := tx_RefundedAmount tx, t_updated_at := tx_UpdatedAt tx\<rparr>)
      (transactions (data w)))" (is "rows_ok _ ?rows")
  shows "txrepo_UpdateRefund env tx w = (Inr (), (tick w)\<lparr>data := (data w)\<lparr>transactions := ?rows\<rparr>\<rparr>)"
proof -
  have "enforce transactions_schema ?rows = Inr ?rows" using assms(3) by (simp add: enforce_ok)
  with assms(1,2) show ?thesis
    by (simp add: txrepo_UpdateRefund_def run_simps sql_run update_transactions_def in_table_def
        sql_update_def)
qed

lemma txrepo_CreateRefund_run:
  assumes "healthy env" and "\<not> tx_failed w"
    and "rf_TransactionID rf \<in> t_id ` set (transactions (data w))"
    and "rows_ok refunds_schema (refunds (data w))" and "rf_ID rf \<notin> r_id ` set (refunds (data w))"
    and "0 < sint (rf_Amount rf)" and "rf_Status rf = RefundStatusPending"
  shows "fst (txrepo_CreateRefund env rf w) =
      (if refund_key_used (refund_to_row rf) (refunds (data w))
       then Inl (Sentinel Transaction_ErrDuplicateIdempotency) else Inr ())
    \<and> (\<not> refund_key_used (refund_to_row rf) (refunds (data w)) \<longrightarrow> \<not> tx_failed (snd (txrepo_CreateRefund env rf w)))"
proof -
  have "sql_insert refunds_schema (refund_to_row rf) (refunds (data w)) =
    (if refund_key_used (refund_to_row rf) (refunds (data w)) then Inl (unique_violation ''idx_refunds_idempotency'')
     else Inr ((), refunds (data w) @ [refund_to_row rf]))"
    using assms(4-7) by (intro enforce_refund) (simp_all add: refund_to_row_def)
  moreover have "r_transaction_id (refund_to_row rf) \<in> t_id ` set (transactions (data w))"
    using assms(3) by (simp add: refund_to_row_def)
  ultimately show ?thesis using assms(1,2)
    by (simp add: txrepo_CreateRefund_def run_simps sql_run insert_refund_def in_table_def
        mapped_or_wrapped_def mapUniqueViolation_def unique_violation_def)
qed

text \<open>What the body of a refund answers, by the row it finds.\<close>

definition refund_refusal :: "RefundRequest \<Rightarrow> sg_data \<Rightarrow> sentinel option" where
  "refund_refusal req d = (case find (\<lambda>r. t_id r = rq_TransactionID req) (transactions d) of
      None \<Rightarrow> Some Transaction_ErrNotFound
    | Some r \<Rightarrow>
        if t_status r \<noteq> StatusCaptured \<and> t_status r \<noteq> StatusPartiallyRefunded
          then Some Transaction_ErrNotRefundable
        else if i64_less (t_amount r - t_refunded_amount r) (rq_Amount req)
          then Some Transaction_ErrRefundExceedsAmount
        else if rq_IdempotencyKey req \<noteq> '''' \<and> (\<exists>x\<in>set (refunds d).
            r_idempotency_key x = Some (rq_IdempotencyKey req) \<and> r_transaction_id x = rq_TransactionID req)
          then Some Transaction_ErrDuplicateIdempotency
        else None)"

definition amounts_sane :: "tx_row list \<Rightarrow> bool" where
  "amounts_sane rows \<longleftrightarrow> (\<forall>r\<in>set rows. 0 \<le> sint (t_refunded_amount r) \<and> i64_le (t_refunded_amount r) (t_amount r))"

lemma refund_tx_answer:
  assumes "healthy env" and "\<not> tx_failed w" and "0 < sint (rq_Amount req)"
    and "rows_ok transactions_schema (transactions (data w))" and "rows_ok refunds_schema (refunds (data w))"
    and "amounts_sane (transactions (data w))"
    and "\<And>n. fresh env n \<notin> r_id ` set (refunds (data w))"
  shows "\<exists>r w2. refund_tx env req w = (r, w2) \<and> ((\<exists>x. r = Inr x) \<longrightarrow> \<not> tx_failed w2)
    \<and> (case refund_refusal req (data w) of
        Some s \<Rightarrow> \<exists>e. r = Inl e \<and> (\<forall>t. errors_Is e t \<longleftrightarrow> s = t) | None \<Rightarrow> \<exists>x. r = Inr x)"
proof (cases "find (\<lambda>r. t_id r = rq_TransactionID req) (transactions (data w))")
  case None
  then show ?thesis
    using assms(1,2) by (simp add: refund_tx_def txrepo_GetByID_run refund_refusal_def run_simps)
next
  case (Some r)
  note run = refund_tx_def txrepo_GetByID_run[OF assms(1,2)] Some refund_refusal_def run_simps
  show ?thesis
  proof (cases "t_status r \<noteq> StatusCaptured \<and> t_status r \<noteq> StatusPartiallyRefunded
      \<or> i64_less (t_amount r - t_refunded_amount r) (rq_Amount req)")
    case True
    then show ?thesis by (auto simp: run)
  next
    case False
    have mem: "r \<in> set (transactions (data w))" using find_SomeD[OF Some] by simp
    let ?tot = "t_refunded_amount r + rq_Amount req"
    let ?st = "if i64_le (t_amount r) ?tot then StatusRefunded else StatusPartiallyRefunded"
    have sane: "0 \<le> sint (t_refunded_amount r)" "i64_le (t_refunded_amount r) (t_amount r)"
      using assms(6) mem by (auto simp: amounts_sane_def)
    then have "sint (t_amount r - t_refunded_amount r) = sint (t_amount r) - sint (t_refunded_amount r)"
      by (intro sint_i64_sub_nonneg) auto
    with False have "sint (t_refunded_amount r) + sint (rq_Amount req) \<le> sint (t_amount r)" by simp
    with sane assms(3) have tot: "0 \<le> sint ?tot"
      using sint_i64_add_bounded[of "t_refunded_amount r" "rq_Amount req" "t_amount r"] by simp
    have up: "rows_ok transactions_schema (set_where p (\<lambda>r. r\<lparr>t_status := ?st,
        t_refunded_amount := ?tot, t_updated_at := now\<rparr>) (transactions (data w)))" for p now
      using assms(4) tot by (intro rows_ok_reserve) (auto simp: tx_statuses_def)
    let ?now = "clock env (Suc (ticks w))"
    let ?tx = "(scan_tx_row r)\<lparr>tx_RefundedAmount := ?tot, tx_Status := ?st, tx_UpdatedAt := ?now\<rparr>"
    let ?rf = "\<lparr>rf_ID = fresh env (ticks w + 4), rf_TransactionID = t_id r, rf_Amount = rq_Amount req,
      rf_Status = RefundStatusPending, rf_IdempotencyKey = rq_IdempotencyKey req,
      rf_CreatedAt = clock env (ticks w + 3), rf_UpdatedAt = clock env (ticks w + 3)\<rparr>"
    have get: "txrepo_GetByID env (rq_TransactionID req) w = (Inr (scan_tx_row r), w\<lparr>ticks := Suc (ticks w)\<rparr>)"
      by (simp add: txrepo_GetByID_run[OF assms(1,2)] Some)
    have "tx_Status ?tx = ?st" "tx_RefundedAmount ?tx = ?tot" "tx_UpdatedAt ?tx = ?now" by simp_all
    with up have upd: "txrepo_UpdateRefund env ?tx (w\<lparr>ticks := Suc (Suc (ticks w))\<rparr>) =
        (Inr (), w\<lparr>ticks := Suc (Suc (Suc (ticks w))), data := (data w)\<lparr>
        transactions := set_where (\<lambda>x. t_id x = t_id r) (\<lambda>r. r\<lparr>t_status := ?st,
        t_refunded_amount := ?tot, t_updated_at := ?now\<rparr>) (transactions (data w))\<rparr>\<rparr>)"
      (is "_ = (_, ?w3)") by (subst txrepo_UpdateRefund_run) (use assms(1,2) in simp_all)
    from False have c1: "(t_status r \<noteq> StatusCaptured \<and> t_status r \<noteq> StatusPartiallyRefunded) = False"
      and c2: "i64_less (t_amount r - t_refunded_amount r) (rq_Amount req) = False" by auto
    have "refund_tx env req w = bnd (map_err (wrap ''reserve refund amount'') (txrepo_UpdateRefund env ?tx))
        (\<lambda>_. bnd (NewRefundPending env (t_id r) (rq_Amount req) (rq_IdempotencyKey req)) (\<lambda>rf.
            bnd (map_err (wrap ''create refund'') (txrepo_CreateRefund env rf)) (\<lambda>_. ret (?tx, rf))))
        (w\<lparr>ticks := Suc (Suc (ticks w))\<rparr>)"
      by (simp add: refund_tx_def bnd_ok_step map_err_ok_step get fail_if_def c1 c2 Let_def
          run_ask split del: if_split)
    also have "\<dots> = bnd (map_err (wrap ''create refund'') (txrepo_CreateRefund env ?rf))
        (\<lambda>_. ret (?tx, ?rf)) (tick (tick ?w3))"
      by (simp add: bnd_ok_step map_err_ok_step upd NewRefundPending_run
          eval_nat_numeral split del: if_split)
    finally have ran: "refund_tx env req w = \<dots>" .
    have "t_id r \<in> t_id ` set (set_where p f (transactions (data w)))" if "\<And>x. t_id (f x) = t_id x" for p f
      using mem set_where_keys[of t_id f p "transactions (data w)"] that
      by (metis image_eqI image_set)
    then have cr: "fst (txrepo_CreateRefund env ?rf (tick (tick ?w3))) =
      (if refund_key_used (refund_to_row ?rf) (refunds (data w))
       then Inl (Sentinel Transaction_ErrDuplicateIdempotency) else Inr ())
    \<and> (\<not> refund_key_used (refund_to_row ?rf) (refunds (data w)) \<longrightarrow>
        \<not> tx_failed (snd (txrepo_CreateRefund env ?rf (tick (tick ?w3)))))"
      using txrepo_CreateRefund_run[OF assms(1), of "tick (tick ?w3)" ?rf] assms(2,3,5,7) by simp
    have "refund_key_used (refund_to_row ?rf) (refunds (data w)) \<longleftrightarrow> rq_IdempotencyKey req \<noteq> ''''
      \<and> (\<exists>x\<in>set (refunds (data w)). r_idempotency_key x = Some (rq_IdempotencyKey req)
          \<and> r_transaction_id x = rq_TransactionID req)"
      using find_idD[OF Some] by (auto simp: refund_key_used_def refund_to_row_def nilIfEmpty_def)
    with cr ran False show ?thesis
      by (cases "txrepo_CreateRefund env ?rf (tick (tick ?w3))")
        (auto simp: refund_refusal_def Some run_bnd run_map_err split: if_splits)
  qed
qed

section \<open>What the surface promises\<close>


definition refund_request :: "uuid \<Rightarrow> refund_body \<Rightarrow> RefundRequest" where
  "refund_request txID b = \<lparr>rq_TransactionID = txID, rq_Amount = rb_Amount b,
     rq_IdempotencyKey = rb_IdempotencyKey b\<rparr>"

text \<open>
  The reply to a refund request tells why: 404 when the transaction does not exist,
  409 when it is not captured or the key was used for it before, 422 when the amount is more
  than what is left, and 202 exactly when none of this holds, whatever the request.
\<close>

theorem refund_reply:
  assumes "uuid_Parse (rb_TransactionID b) = Inr txID" and "0 < sint (rb_Amount b)"
    and "healthy env" and "rows_ok transactions_schema (transactions (data w))"
    and "rows_ok refunds_schema (refunds (data w))" and "amounts_sane (transactions (data w))"
    and "\<And>n. fresh env n \<notin> r_id ` set (refunds (data w))"
  shows "\<exists>rep w'. RefundHandler uuid_Parse env (Inr b) w = (Inr rep, w')
    \<and> rp_code rep = (case refund_refusal (refund_request txID b) (data w) of
        None \<Rightarrow> 202
      | Some s \<Rightarrow> if s = Transaction_ErrNotFound then 404
                  else if s = Transaction_ErrRefundExceedsAmount then 422 else 409)"
proof -
  let ?req = "refund_request txID b" and ?w1 = "(tick w)\<lparr>in_tx := True, tx_failed := False\<rparr>"
  obtain r w2 where run: "refund_tx env ?req ?w1 = (r, w2)" and calm: "(\<exists>x. r = Inr x) \<longrightarrow> \<not> tx_failed w2"
    and ans: "case refund_refusal ?req (data w) of
        Some s \<Rightarrow> \<exists>e. r = Inl e \<and> (\<forall>t. errors_Is e t \<longleftrightarrow> s = t) | None \<Rightarrow> \<exists>x. r = Inr x"
    using refund_tx_answer[OF assms(3), of ?w1 ?req] assms(2,4-7) by (auto simp: refund_request_def)
  have tx: "InTransaction env RepeatableRead (refund_tx env ?req) w = (r, case r of
      Inl e \<Rightarrow> rollback (data w) w2 | Inr x \<Rightarrow> (tick w2)\<lparr>in_tx := False\<rparr>)"
    by (rule InTransaction_run[where fn = "refund_tx env ?req" and w = w, OF assms(3) run]) (use calm in blast)
  have h: "RefundHandler uuid_Parse env (Inr b) = respond (Service_Refund env ?req) refund_error
      (\<lambda>result. \<lparr>rp_code = 202, rp_body = JObj
         [(''refund_id'', JStr (rs_RefundID result)), (''transaction_id'', JStr (rs_TransactionID result)),
          (''amount'', json_int64 (rs_Amount result)), (''status'', JStr (rs_Status result))]\<rparr>)"
    by (simp add: RefundHandler_def assms(1) refund_request_def)
  show ?thesis
  proof (cases r)
    case (Inl e)
    with ans obtain s where s: "refund_refusal ?req (data w) = Some s" and e: "\<And>t. errors_Is e t \<longleftrightarrow> s = t"
      by (auto split: option.splits)
    have "s \<in> {Transaction_ErrNotFound, Transaction_ErrNotRefundable, Transaction_ErrRefundExceedsAmount,
        Transaction_ErrDuplicateIdempotency}"
      using s by (auto simp: refund_refusal_def split: option.splits if_splits)
    with s e Inl tx show ?thesis
      by (auto simp: h run_respond Service_Refund_def run_bnd refund_error_def)
  next
    case (Inr x)
    with ans have "refund_refusal ?req (data w) = None" by (auto split: option.splits)
    with Inr tx show ?thesis
      by (cases x) (simp add: h run_respond Service_Refund_def run_bnd run_emit)
  qed
qed

definition demo_paid :: "(sg_data, sg_effect) world" where
  "demo_paid = init_world \<lparr>transactions = [demo_sale ''o''], refunds = [], products = []\<rparr>"

theorem refund_reply_witness:
  "\<exists>rep w'. RefundHandler Inr (demo_env 0)
       (Inr \<lparr>rb_TransactionID = ''t'', rb_Amount = 501, rb_IdempotencyKey = ''k''\<rparr>) demo_paid = (Inr rep, w')
     \<and> rp_code rep = 422"
proof -
  let ?b = "\<lparr>rb_TransactionID = ''t'', rb_Amount = 501, rb_IdempotencyKey = ''k''\<rparr>"
  have "rows_ok transactions_schema (transactions (data demo_paid))" by code_simp
  moreover have "rows_ok refunds_schema (refunds (data demo_paid))" by code_simp
  moreover have "amounts_sane (transactions (data demo_paid))" by code_simp
  moreover have "refund_refusal (refund_request ''t'' ?b) (data demo_paid) = Some Transaction_ErrRefundExceedsAmount"
    by code_simp
  moreover have "healthy (demo_env 0)" by (simp add: healthy_def demo_env_def)
  ultimately show ?thesis
    using refund_reply[of Inr ?b "''t''" "demo_env 0" demo_paid] by (simp add: demo_paid_def init_world_def)
qed

fun money_route :: "route \<Rightarrow> bool" where
  "money_route (POST_auth b) = True"
| "money_route (POST_capture b) = True"
| "money_route (POST_void b) = True"
| "money_route (POST_refund b) = True"
| "money_route r = False"

lemma respond_refused:
  assumes "respond m f g w = (Inr rep, w')" and "400 \<le> rp_code rep" and "\<And>y. rp_code (g y) < 400"
  obtains e where "m w = (Inl e, w')"
  using assms(1)
proof (rule respond_E)
  fix y assume "rep = g y"
  with assms(2) assms(3)[of y] show thesis by simp
qed (rule that)

text \<open>
  A request about money that is refused (any status from 400 on) has changed no row
  of the database, whatever failed on the way.
\<close>

theorem refused_changes_nothing:
  assumes "setupRouter x env r c w = (Inr rep, w')" and "money_route r" and "400 \<le> rp_code rep"
  shows "data w' = data w"
proof -
  show ?thesis
  proof (cases r)
    case (POST_auth b)
    with assms(1) have run: "AuthHandler env b w = (Inr rep, w')" by simp
    show ?thesis
    proof (cases b)
      case (Inl e)
      with run show ?thesis by (simp add: AuthHandler_def run_reply_JSON)
    next
      case (Inr req)
      with run show ?thesis
        by (simp add: AuthHandler_def) (erule respond_refused[OF _ assms(3)], simp, erule Authorize_err_data)
    qed
  next
    case (POST_capture b)
    with assms(1) have run: "CaptureHandler (o_uuid_Parse x) env b w = (Inr rep, w')" by simp
    show ?thesis
    proof (cases b)
      case (Inl e)
      with run show ?thesis by (simp add: CaptureHandler_def run_reply_JSON)
    next
      case (Inr req)
      with run show ?thesis
        by (auto simp: CaptureHandler_def run_reply_JSON split: sum.splits)
          (erule respond_refused[OF _ assms(3)], simp, erule Capture_err_data)
    qed
  next
    case (POST_void b)
    with assms(1) have run: "VoidHandler (o_uuid_Parse x) env b w = (Inr rep, w')" by simp
    show ?thesis
    proof (cases b)
      case (Inl e)
      with run show ?thesis by (simp add: VoidHandler_def run_reply_JSON)
    next
      case (Inr req)
      with run show ?thesis
        by (auto simp: VoidHandler_def run_reply_JSON split: sum.splits)
          (erule respond_refused[OF _ assms(3)], simp, erule Void_err_data)
    qed
  next
    case (POST_refund b)
    with assms(1) have run: "RefundHandler (o_uuid_Parse x) env b w = (Inr rep, w')" by simp
    show ?thesis
    proof (cases b)
      case (Inl e)
      with run show ?thesis by (simp add: RefundHandler_def run_reply_JSON)
    next
      case (Inr req)
      with run show ?thesis
        by (auto simp: RefundHandler_def run_reply_JSON split: sum.splits)
          (erule respond_refused[OF _ assms(3)], simp, erule Refund_err_data)
    qed
  qed (use assms(2) in simp_all)
qed

definition demo_ctx :: gin_ctx where
  "demo_ctx = \<lparr>header = (\<lambda>h. []), param = (\<lambda>p. ''a''), query_arg = (\<lambda>q. []), ctx_merchant = None\<rparr>"

theorem refused_changes_nothing_witness:
  "data (snd (setupRouter \<lparr>o_uuid_Parse = Inr\<rparr>
     (demo_env 0) (POST_void (Inr ''t'')) demo_ctx demo_paid)) = data demo_paid"
proof -
  let ?run = "setupRouter \<lparr>o_uuid_Parse = Inr\<rparr>
     (demo_env 0) (POST_void (Inr ''t'')) demo_ctx demo_paid"
  have "fst ?run = Inr \<lparr>rp_code = 409, rp_body = error_body ''transaction cannot be voided in current state''\<rparr>"
    unfolding setupRouter.simps outside.simps by code_simp
  then have "?run = (Inr \<lparr>rp_code = 409, rp_body = error_body ''transaction cannot be voided in current state''\<rparr>, snd ?run)"
    by (metis prod.collapse)
  from refused_changes_nothing[OF this] show ?thesis by simp
qed

text \<open>
  Products and purchases belong to a merchant: without the header \<open>X-Merchant-ID\<close>
  every such request is answered 401, and neither the database nor the bank is touched.
\<close>

theorem merchant_required:
  assumes "header c HeaderName = ''''" and "\<not> money_route r" and "r \<noteq> GET_health"
  shows "setupRouter x env r c w = (Inr \<lparr>rp_code = 401, rp_body = error_body ''missing X-Merchant-ID header''\<rparr>, w)"
  using assms by (cases r) (simp_all add: Middleware_def run_reply_JSON)

theorem merchant_required_witness:
  "fst (setupRouter x (demo_env 0) POST_product_archive
     \<lparr>header = (\<lambda>h. ''''), param = (\<lambda>p. ''a''), query_arg = (\<lambda>q. ''''), ctx_merchant = None\<rparr> demo_paid)
   = Inr \<lparr>rp_code = 401, rp_body = error_body ''missing X-Merchant-ID header''\<rparr>"
  by (subst merchant_required) simp_all

text \<open>
  A page of products is bounded whatever the query asks for: at most 100 products, and
  never more than a positive limit of the query.
\<close>

theorem page_bounded:
  assumes "product_List env m filt w = (Inr (items, nxt), w')"
  shows "length items \<le> nat maxListLimit \<and> (0 < lf_Limit filt \<longrightarrow> length items \<le> nat (lf_Limit filt))"
proof -
  have "length (fst (cut_page n found)) \<le> n" for n found
    by (simp add: cut_page_def)
  then have cut: "cut_page n found = (items, nxt) \<Longrightarrow> length items \<le> n" for n found
    by (metis fst_conv)
  from assms show ?thesis
    by (auto simp: product_List_def productrepo_List_def Let_def maxListLimit_def defaultListLimit_def
        elim!: run_elims dest!: cut split: if_splits)
qed

theorem page_bounded_witness:
  "\<exists>items nxt. product_List (demo_env 0) ''m'' \<lparr>lf_StatusFilter = None, lf_Cursor = None, lf_Limit = 2\<rparr> (demo_shop [])
     = (Inr (items, nxt), tick (demo_shop [])) \<and> items \<noteq> [] \<and> length items \<le> 2"
proof -
  have run: "product_List (demo_env 0) ''m'' \<lparr>lf_StatusFilter = None, lf_Cursor = None, lf_Limit = 2\<rparr> (demo_shop [])
     = (Inr (product_page (demo_products, ''m'', None) 2 None), tick (demo_shop []))"
    by (simp add: product_List_def maxListLimit_def productrepo_List_run demo_env_def demo_shop_def init_world_def)
  obtain items nxt where p: "product_page (demo_products, ''m'', None) 2 None = (items, nxt)"
    by (cases "product_page (demo_products, ''m'', None) 2 None")
  have "fst (product_page (demo_products, ''m'', None) 2 None) \<noteq> []" by code_simp
  with page_bounded[OF run[unfolded p]] run p show ?thesis by auto
qed

end
