(* ===== verification/PgPool.thy ===== *)
theory PgPool
  imports Postgres "HOL-Library.Word"
begin

text \<open>
  How a service opens its pool of connections (\<open>pkg/postgres\<close>: \<open>New\<close> and its options), and
  the transaction of the tests, which is always rolled back. pgxpool is not part of the
  repository: what \<open>ParseConfig\<close> and \<open>NewWithConfig\<close> answer are arguments. A value of Go's
  \<open>int\<close> is a 64-bit word; \<open>MaxConns\<close> has 32 bits.
\<close>

section \<open>Options\<close>

record pg_options =
  maxPoolSize :: "64 word"
  connAttempts :: "64 word"
  connTimeout :: time

definition default_options :: pg_options where
  "default_options = \<lparr>maxPoolSize = 1, connAttempts = 10, connTimeout = 1000000000\<rparr>"

type_synonym pg_option = "pg_options \<Rightarrow> pg_options"

definition MaxPoolSize :: "64 word \<Rightarrow> pg_option" where "MaxPoolSize n c = c\<lparr>maxPoolSize := n\<rparr>"
definition ConnAttempts :: "64 word \<Rightarrow> pg_option" where "ConnAttempts attempts c = c\<lparr>connAttempts := attempts\<rparr>"
definition ConnTimeout :: "time \<Rightarrow> pg_option" where "ConnTimeout timeout c = c\<lparr>connTimeout := timeout\<rparr>"

section \<open>Opening the pool\<close>

datatype pg_effect =
    Connect string "32 word"
  | Sleep time

record pg_world =
  pg_ticks :: nat
  pg_trace :: "pg_effect list"

text \<open>A \<open>Postgres\<close>, of which the pool may be nil.\<close>

record pg_pool =
  pp_Options :: pg_options
  pp_Pool :: "string option"

text \<open>
  The loop of \<open>New\<close>; \<open>err\<close> is the variable of that name, nil before the first attempt. The
  counter is compared as a signed number, so that a negative one makes no attempt.
\<close>

function (sequential) connect_loop ::
  "(nat \<Rightarrow> goerr option) \<Rightarrow> string \<Rightarrow> 32 word \<Rightarrow> pg_options \<Rightarrow> goerr option \<Rightarrow> pg_world
   \<Rightarrow> (goerr option \<times> pg_pool) \<times> pg_world" where
  "connect_loop answer url maxConns pg err w =
    (if 0 < sint (connAttempts pg) then
       let w1 = w\<lparr>pg_ticks := Suc (pg_ticks w), pg_trace := pg_trace w @ [Connect url maxConns]\<rparr> in
       (case answer (pg_ticks w) of
          None \<Rightarrow> ((None, \<lparr>pp_Options = pg, pp_Pool = Some url\<rparr>), w1)
        | Some e \<Rightarrow> connect_loop answer url maxConns (pg\<lparr>connAttempts := connAttempts pg - 1\<rparr>) (Some e)
            (w1\<lparr>pg_trace := pg_trace w1 @ [Sleep (connTimeout pg)]\<rparr>))
     else ((err, \<lparr>pp_Options = pg, pp_Pool = None\<rparr>), w))"
  by pat_completeness auto

lemma sint_minus_one: "0 < sint (x :: 64 word) \<Longrightarrow> sint (x - 1) = sint x - 1"
  using sint_greater_eq[of x] sint_less[of x] by (simp add: sint_word_ariths signed_take_bit_int_eq_self)

termination connect_loop
  by (relation "measure (\<lambda>(_, _, _, pg, _, _). nat (sint (connAttempts pg)))") (simp_all add: sint_minus_one)

declare connect_loop.simps [simp del]

definition PgNew ::
  "(string \<Rightarrow> goerr option) \<Rightarrow> (nat \<Rightarrow> goerr option) \<Rightarrow> string \<Rightarrow> pg_option list \<Rightarrow> pg_world \<Rightarrow> (goerr + pg_pool) \<times> pg_world" where
  "PgNew ParseConfig NewWithConfig url opts w =
    (let pg = fold (\<lambda>opt c. opt c) opts default_options in
     case ParseConfig url of
       Some e \<Rightarrow> (Inl (wrap ''postgres - NewPostgres - pgxpool.ParseConfig'' e), w)
     | None \<Rightarrow>
        let ((err, p), w') = connect_loop NewWithConfig url (word_of_int (sint (maxPoolSize pg))) pg None w in
        (case err of Some e \<Rightarrow> Inl (wrap ''postgres - NewPostgres - connAttempts == 0'' e) | None \<Rightarrow> Inr p, w'))"

definition Pool_Close :: "pg_pool \<Rightarrow> string option" where
  "Pool_Close p = pp_Pool p"

section \<open>What \<open>New\<close> guarantees\<close>

definition is_connect :: "pg_effect \<Rightarrow> bool" where
  "is_connect x \<longleftrightarrow> (\<exists>u n. x = Connect u n)"

lemma is_connect_simps [simp]: "is_connect (Connect u n)" "\<not> is_connect (Sleep t)"
  by (simp_all add: is_connect_def)

text \<open>The attempts made are a prefix of those allowed, all refused but perhaps the last.\<close>

lemma connect_loop_E:
  assumes "connect_loop answer url maxConns pg err w = ((err', p), w')"
  shows "\<exists>n\<le>nat (sint (connAttempts pg)).
      length (filter is_connect (pg_trace w')) = length (filter is_connect (pg_trace w)) + n
      \<and> (case err' of
           Some e \<Rightarrow> n = nat (sint (connAttempts pg)) \<and> pp_Pool p = None
             \<and> (n = 0 \<longrightarrow> err = Some e) \<and> (\<forall>k<n. answer (pg_ticks w + k) \<noteq> None)
         | None \<Rightarrow> (0 < n \<and> pp_Pool p = Some url \<and> answer (pg_ticks w + (n - 1)) = None)
             \<or> (n = 0 \<and> nat (sint (connAttempts pg)) = 0 \<and> err = None \<and> pp_Pool p = None))"
  using assms
proof (induction answer url maxConns pg err w rule: connect_loop.induct)
  case (1 answer url maxConns pg err w)
  show ?case
  proof (cases "0 < sint (connAttempts pg)")
    case False
    then have "err' = err" "p = \<lparr>pp_Options = pg, pp_Pool = None\<rparr>" "w' = w"
      using "1.prems" by (simp_all add: connect_loop.simps[of answer url maxConns pg err w])
    then show ?thesis using False by (intro exI[of _ 0]) (auto split: option.splits)
  next
    case True
    note unfold = connect_loop.simps[of answer url maxConns pg err w]
    show ?thesis
    proof (cases "answer (pg_ticks w)")
      case None
      with True "1.prems" show ?thesis
        by (intro exI[of _ 1]) (auto simp: unfold Let_def)
    next
      case (Some e)
      let ?pg = "pg\<lparr>connAttempts := connAttempts pg - 1\<rparr>"
      let ?w1 = "w\<lparr>pg_ticks := Suc (pg_ticks w), pg_trace := pg_trace w @ [Connect url maxConns]\<rparr>"
      let ?w2 = "?w1\<lparr>pg_trace := pg_trace ?w1 @ [Sleep (connTimeout pg)]\<rparr>"
      have rest: "connect_loop answer url maxConns ?pg (Some e) ?w2 = ((err', p), w')"
        using "1.prems" True Some by (simp add: unfold Let_def)
      have left: "nat (sint (connAttempts ?pg)) = nat (sint (connAttempts pg)) - 1"
        using True by (simp add: sint_minus_one)
      have t: "pg_ticks ?w2 + k = Suc (pg_ticks w + k)" for k by simp
      from "1.IH"[OF True refl Some rest] obtain n where n: "n \<le> nat (sint (connAttempts pg)) - 1"
        "length (filter is_connect (pg_trace w')) = Suc (length (filter is_connect (pg_trace w)) + n)"
        "case err' of
           Some e' \<Rightarrow> n = nat (sint (connAttempts pg)) - 1 \<and> pp_Pool p = None
             \<and> (n = 0 \<longrightarrow> Some e = Some e') \<and> (\<forall>k<n. answer (Suc (pg_ticks w + k)) \<noteq> None)
         | None \<Rightarrow> (0 < n \<and> pp_Pool p = Some url \<and> answer (Suc (pg_ticks w + (n - 1))) = None)
             \<or> (n = 0 \<and> nat (sint (connAttempts pg)) - 1 = 0 \<and> Some e = None \<and> pp_Pool p = None)"
        unfolding left t by (auto simp: add.commute)
      have all: "\<forall>k<Suc n. answer (pg_ticks w + k) \<noteq> None" if "\<forall>k<n. answer (Suc (pg_ticks w + k)) \<noteq> None"
        using that Some by (auto simp: less_Suc_eq_0_disj)
      show ?thesis
        using n True all by (intro exI[of _ "Suc n"]) (auto split: option.splits)
    qed
  qed
qed

abbreviation allowed :: "pg_option list \<Rightarrow> nat" where
  "allowed opts \<equiv> nat (sint (connAttempts (fold (\<lambda>opt c. opt c) opts default_options)))"

lemma pool_opened:
  assumes "PgNew ParseConfig NewWithConfig url opts w = (r, w')" and "ParseConfig url = None"
  shows "\<exists>n\<le>allowed opts. length (filter is_connect (pg_trace w')) = length (filter is_connect (pg_trace w)) + n
    \<and> (case r of
         Inl e \<Rightarrow> 0 < n \<and> n = allowed opts \<and> (\<forall>k<n. NewWithConfig (pg_ticks w + k) \<noteq> None)
       | Inr p \<Rightarrow> if 0 < allowed opts then pp_Pool p = Some url \<and> 0 < n \<and> NewWithConfig (pg_ticks w + (n - 1)) = None
           else pp_Pool p = None)"
proof -
  let ?pg = "fold (\<lambda>opt c. opt c) opts default_options"
  obtain err p v where run: "connect_loop NewWithConfig url (word_of_int (sint (maxPoolSize ?pg))) ?pg None w = ((err, p), v)"
    by (cases "connect_loop NewWithConfig url (word_of_int (sint (maxPoolSize ?pg))) ?pg None w") auto
  with assms have r: "r = (case err of Some e \<Rightarrow> Inl (wrap ''postgres - NewPostgres - connAttempts == 0'' e) | None \<Rightarrow> Inr p)"
    and v: "v = w'" by (auto simp: PgNew_def Let_def)
  obtain n where n: "n \<le> allowed opts
    \<and> length (filter is_connect (pg_trace w')) = length (filter is_connect (pg_trace w)) + n
    \<and> (case err of
       Some e \<Rightarrow> n = allowed opts \<and> pp_Pool p = None \<and> (n = 0 \<longrightarrow> None = Some e) \<and> (\<forall>k<n. NewWithConfig (pg_ticks w + k) \<noteq> None)
     | None \<Rightarrow> (0 < n \<and> pp_Pool p = Some url \<and> NewWithConfig (pg_ticks w + (n - 1)) = None)
         \<or> (n = 0 \<and> allowed opts = 0 \<and> (None :: goerr option) = None \<and> pp_Pool p = None))"
    using connect_loop_E[OF run, unfolded v] by (elim exE) (rule that)
  show ?thesis
  proof (cases err)
    case None
    then show ?thesis
      using n r by (intro exI[of _ n]) (cases "allowed opts = 0"; cases n; simp)
  next
    case (Some e)
    then show ?thesis using n r by (intro exI[of _ n]) (cases "allowed opts = 0"; auto)
  qed
qed

text \<open>Without attempts \<open>New\<close> reports success and leaves the pool nil.\<close>

lemma no_attempts_no_pool:
  assumes "ParseConfig url = None" and "sint attempts \<le> 0"
  shows "\<exists>p. PgNew ParseConfig NewWithConfig url [ConnAttempts attempts] w = (Inr p, w) \<and> pp_Pool p = None"
  using assms by (simp add: PgNew_def ConnAttempts_def Let_def connect_loop.simps)

text \<open>A pool size that needs more than 31 bits is cut.\<close>

lemma pool_size_kept:
  fixes size :: "64 word"
  assumes "- (2 ^ 31) \<le> sint size" and "sint size < 2 ^ 31"
  shows "sint (word_of_int (sint size) :: 32 word) = sint size"
  unfolding sint_sbintrunc' using assms by (intro signed_take_bit_int_eq_self) simp_all

section \<open>The transaction of the tests\<close>

definition SandboxTransaction ::
  "('b) env_scheme \<Rightarrow> (('d, 'x) world, 'a) prog \<Rightarrow> (('d, 'x) world, 'a) prog" where
  "SandboxTransaction env fn = (\<lambda>w.
     case begin_tx env w of
       (Inl e, w1) \<Rightarrow> (Inl (wrap ''start transaction'' e), w1)
     | (Inr _, w1) \<Rightarrow> (case fn w1 of (r, w2) \<Rightarrow> (r, rollback (data w) w2)))"

lemma sandbox_leaves_no_trace: "SandboxTransaction env fn w = (r, w') \<Longrightarrow> data w' = data w"
  by (auto simp: SandboxTransaction_def begin_tx_def rollback_def split: option.splits prod.splits)

end
