(* ===== verification/Messaging.thy ===== *)
theory Messaging
  imports Postgres GoTime
begin

text \<open>
  Package \<open>messaging\<close>: the envelope of a message and the middlewares around a handler,
  retries with backoff and the dead letter queue. The broker is not part of the
  repository. A consumer may see a message again (a restart, a commit that failed, a
  retry after a half-finished attempt); \<open>redelivery\<close> is the contract of a handler that
  can bear it.
\<close>

section \<open>Envelopes\<close>

record Envelope =
  nv_EventID :: string
  nv_Key :: string
  nv_Type :: string
  nv_Payload :: "json option"
  nv_Timestamp :: time

definition NewEnvelope :: "('b) env_scheme \<Rightarrow> string \<Rightarrow> string \<Rightarrow> json \<Rightarrow> (('d, 'x) world, Envelope) prog" where
  "NewEnvelope env key msgType payload =
     bnd (uuid_New env) (\<lambda>i.
     bnd (time_Now env) (\<lambda>now.
     ret \<lparr>nv_EventID = i, nv_Key = key, nv_Type = msgType, nv_Payload = Some payload, nv_Timestamp = now\<rparr>))"

text \<open>\<open>json.Unmarshal\<close> into an envelope.\<close>

definition read_Envelope :: "json \<Rightarrow> goerr + Envelope" where
  "read_Envelope j =
     bind_sum (fields_of j) (\<lambda>fs.
     bind_sum (str_field fs ''event_id'') (\<lambda>i.
     bind_sum (str_field fs ''key'') (\<lambda>k.
     bind_sum (str_field fs ''type'') (\<lambda>t.
     bind_sum (time_field fs ''timestamp'') (\<lambda>ts.
     Inr \<lparr>nv_EventID = i, nv_Key = k, nv_Type = t, nv_Payload = raw_field fs ''payload'', nv_Timestamp = ts\<rparr>)))))"

text \<open>
  A message as a handler gets it: its key, and what \<open>encoding/json\<close> makes of its bytes.
  An envelope without payload has the nil slice, which is no JSON.
\<close>

record message =
  ms_Key :: string
  ms_Value :: "goerr + json"

definition payload_of :: "Envelope \<Rightarrow> goerr + json" where
  "payload_of e = (case nv_Payload e of
      None \<Rightarrow> Inl (ErrText ''unexpected end of JSON input'') | Some j \<Rightarrow> Inr j)"

text \<open>The opening of every Kafka handler: the envelope, then the webhook in its payload.\<close>

definition open_message :: "(json \<Rightarrow> goerr + 'a) \<Rightarrow> message \<Rightarrow> ('w, 'a) prog" where
  "open_message read m =
     bnd (map_err (wrap ''unmarshal envelope'') (of_sum (bind_sum (ms_Value m) read_Envelope))) (\<lambda>e.
     map_err (wrap ''unmarshal webhook'') (of_sum (bind_sum (payload_of e) read)))"

section \<open>Retries\<close>

record RetryConfig =
  MaxAttempts :: int
  InitialBackoff :: time
  MaxBackoff :: time

definition DefaultRetryConfig :: RetryConfig where
  "DefaultRetryConfig = \<lparr>MaxAttempts = 3, InitialBackoff = 100000000, MaxBackoff = 5000000000\<rparr>"

text \<open>
  What a retry asks for: a number from \<open>rand.Intn(100)\<close>, and to sleep for some time, which
  tells whether the context was done before.
\<close>

record runtime =
  rt_Intn :: "nat \<Rightarrow> int"
  rt_done :: "nat \<Rightarrow> time \<Rightarrow> bool"

text \<open>Durations are 64-bit integers.\<close>

definition dur :: "int \<Rightarrow> time" where
  "dur i = signed_take_bit 63 i"

definition errors_Join :: "sentinel \<Rightarrow> goerr option \<Rightarrow> goerr" where
  "errors_Join s e = (case e of None \<Rightarrow> Sentinel s | Some e' \<Rightarrow> Joined (Sentinel s) e')"

text \<open>The loop; the number of attempts that are left decreases.\<close>

fun retry_loop ::
  "runtime \<Rightarrow> time \<Rightarrow> (('d, 'x) world, unit) prog \<Rightarrow> nat \<Rightarrow> time \<Rightarrow> goerr option \<Rightarrow> (('d, 'x) world, unit) prog" where
  "retry_loop rt maxb h 0 backoff lastErr = throw (errors_Join Messaging_ErrMaxRetriesExceeded lastErr)"
| "retry_loop rt maxb h (Suc left) backoff lastErr =
     bnd (attempt h) (\<lambda>r. case r of
         Inr _ \<Rightarrow> ret ()
       | Inl err \<Rightarrow>
           if left = 0 then throw (errors_Join Messaging_ErrMaxRetriesExceeded (Some err))
           else bnd (ask (rt_Intn rt)) (\<lambda>n.
                bnd (ask (\<lambda>t. rt_done rt t (min (dur (backoff + n * 1000000)) maxb))) (\<lambda>cancelled.
                if cancelled then throw (Sentinel Context_Canceled)
                else retry_loop rt maxb h left (dur (backoff * 2)) (Some err))))"

definition WithRetry ::
  "runtime \<Rightarrow> RetryConfig \<Rightarrow> ('m \<Rightarrow> (('d, 'x) world, unit) prog) \<Rightarrow> 'm \<Rightarrow> (('d, 'x) world, unit) prog" where
  "WithRetry rt cfg handler m =
     retry_loop rt (MaxBackoff cfg) (handler m) (nat (MaxAttempts cfg)) (InitialBackoff cfg) None"

section \<open>Dead letters\<close>

text \<open>\<open>publish m err\<close> is \<open>PublishToDLQ\<close>; its own failure is ignored.\<close>

definition WithDLQ ::
  "('m \<Rightarrow> goerr \<Rightarrow> (('d, 'x) world, unit) prog) \<Rightarrow> ('m \<Rightarrow> (('d, 'x) world, unit) prog)
   \<Rightarrow> 'm \<Rightarrow> (('d, 'x) world, unit) prog" where
  "WithDLQ publish handler m =
     bnd (attempt (handler m)) (\<lambda>r. case r of
         Inl err \<Rightarrow> bnd (attempt (publish m err)) (\<lambda>_. ret ())
       | Inr _ \<Rightarrow> ret ())"

text \<open>The message written to the dead letter topic.\<close>

record dlq_message =
  dm_Key :: string
  dm_Value :: "goerr + json"
  dm_error :: string
  dm_failed_at :: string

text \<open>The effect is the message with what the broker answered: \<open>None\<close> when it took it.\<close>

definition PublishToDLQ ::
  "('b) env_scheme \<Rightarrow> (nat \<Rightarrow> dlq_message \<Rightarrow> goerr option) \<Rightarrow> (dlq_message \<Rightarrow> goerr option \<Rightarrow> 'x) \<Rightarrow> message \<Rightarrow> goerr
   \<Rightarrow> (('d, 'x) world, unit) prog" where
  "PublishToDLQ env WriteMessages effect m err =
     bnd (time_Now env) (\<lambda>now.
     let msg = \<lparr>dm_Key = ms_Key m, dm_Value = ms_Value m, dm_error = Error err,
                dm_failed_at = format_RFC3339 now\<rparr> in
     bnd (ask (\<lambda>n. WriteMessages n msg)) (\<lambda>writeErr.
     bnd (emit (effect msg writeErr)) (\<lambda>_.
     case writeErr of None \<Rightarrow> ret () | Some e \<Rightarrow> throw e)))"

section \<open>What the middlewares guarantee\<close>

lemma errors_Join_is [simp]: "errors_Is (errors_Join s e) s"
  by (cases e) (simp_all add: errors_Join_def)

text \<open>One round of the loop.\<close>

lemma retry_loop_SucE:
  assumes "retry_loop rt maxb h (Suc left) backoff lastErr w = (r, w')"
  obtains (returned) "h w = (Inr (), w')" and "r = Inr ()"
  | (gave_up) e w1 e' where "h w = (Inl e, w1)" and "data w' = data w1" and "trace w' = trace w1" and "ticks w1 \<le> ticks w'" and "r = Inl e'"
      and "e' = Sentinel Context_Canceled \<and> left \<noteq> 0 \<or> errors_Is e' Messaging_ErrMaxRetriesExceeded \<and> left = 0"
  | (again) e w1 w2 where "h w = (Inl e, w1)" and "data w2 = data w1" and "trace w2 = trace w1" and "ticks w1 \<le> ticks w2"
      and "retry_loop rt maxb h left (dur (backoff * 2)) (Some e) w2 = (r, w')"
proof -
  obtain r1 w1 where h: "h w = (r1, w1)" by (cases "h w")
  show thesis
  proof (cases r1)
    case (Inr u)
    with assms h show thesis by (intro returned) (simp_all add: run_simps)
  next
    case (Inl e)
    let ?n = "rt_Intn rt (ticks w1)" and ?w2 = "w1\<lparr>ticks := Suc (Suc (ticks w1))\<rparr>"
    consider (last) "left = 0" | (cut) "left \<noteq> 0" "rt_done rt (Suc (ticks w1)) (min (dur (backoff + ?n * 1000000)) maxb)"
      | (more) "left \<noteq> 0" "\<not> rt_done rt (Suc (ticks w1)) (min (dur (backoff + ?n * 1000000)) maxb)" by blast
    then show thesis
    proof cases
      case last
      with assms h Inl show thesis by (intro gave_up) (auto simp: run_simps)
    next
      case cut
      with assms h Inl show thesis by (intro gave_up[of e w1 "Sentinel Context_Canceled"]) (auto simp: run_simps)
    next
      case more
      with assms h Inl show thesis by (intro again[of e w1 ?w2]) (simp_all add: run_simps)
    qed
  qed
qed

text \<open>What every failed attempt keeps holds before the attempt that succeeded, and when all failed.\<close>

lemma retry_loop_from:
  assumes "retry_loop rt maxb h left backoff lastErr w = (r, w')" and "P (data w)"
    and "\<And>v e v'. P (data v) \<Longrightarrow> h v = (Inl e, v') \<Longrightarrow> P (data v')"
  shows "case r of Inl e \<Rightarrow> P (data w') | Inr _ \<Rightarrow> (\<exists>v. P (data v) \<and> h v = (Inr (), w'))"
  using assms(1,2)
proof (induction left arbitrary: backoff lastErr w)
  case 0
  then show ?case by auto
next
  case (Suc left)
  from Suc.prems(1) show ?case
  proof (cases rule: retry_loop_SucE)
    case returned
    with Suc.prems(2) show ?thesis by auto
  next
    case (gave_up e w1 e')
    with Suc.prems(2) assms(3) show ?thesis by auto
  next
    case (again e w1 w2)
    with Suc.prems(2) assms(3)[of w e w1] Suc.IH[of "dur (backoff * 2)" "Some e" w2] show ?thesis by simp
  qed
qed

text \<open>A retry that gives up has used all its attempts, or its context was done.\<close>

lemma retry_loop_err:
  assumes "retry_loop rt maxb h left backoff lastErr w = (Inl e, w')"
  shows "e = Sentinel Context_Canceled \<or> errors_Is e Messaging_ErrMaxRetriesExceeded"
  using assms
proof (induction left arbitrary: backoff lastErr w)
  case 0
  then show ?case by (cases lastErr) (auto simp: errors_Join_def)
next
  case (Suc left)
  from Suc.prems show ?case by (cases rule: retry_loop_SucE) (auto dest: Suc.IH)
qed

text \<open>Between attempts the loop touches no row, so a handler decides alone whether it gets through.\<close>

fun attempts :: "(('d, 'x) world, unit) prog \<Rightarrow> nat \<Rightarrow> ('d, 'x) world \<Rightarrow> bool" where
  "attempts h 0 w = False"
| "attempts h (Suc n) w = (case h w of (Inr _, _) \<Rightarrow> True
     | (Inl _, w') \<Rightarrow> attempts h n (w'\<lparr>ticks := Suc (Suc (ticks w'))\<rparr>))"

lemma retry_loop_attempts:
  assumes "\<And>t d. \<not> rt_done rt t d"
  shows "(\<exists>w'. retry_loop rt maxb h n backoff lastErr w = (Inr (), w')) \<longleftrightarrow> attempts h n w"
proof (induction n arbitrary: backoff lastErr w)
  case (Suc n)
  with assms show ?case
    by (cases "h w"; cases "fst (h w)"; cases n) (auto simp: run_simps)
qed simp

lemma WithDLQ_ok: "\<exists>w'. WithDLQ publish handler m w = (Inr (), w')"
  by (cases "handler m w"; cases "fst (handler m w)") (auto simp: WithDLQ_def run_simps)

lemma WithDLQ_run:
  "WithDLQ publish handler m w = (Inr (), case handler m w of
      (Inr _, w') \<Rightarrow> w' | (Inl err, w') \<Rightarrow> snd (publish m err w'))"
  by (auto simp: WithDLQ_def run_simps split: prod.splits sum.splits)

section \<open>Messages delivered again\<close>

text \<open>A consumer that works through a list of messages, going on after an error.\<close>

fun consume :: "('m \<Rightarrow> ('w, 'e, unit) gprog) \<Rightarrow> 'm list \<Rightarrow> ('w, 'e, unit) gprog" where
  "consume handle [] = ret ()"
| "consume handle (m # ms) = bnd (attempt (handle m)) (\<lambda>_. consume handle ms)"

text \<open>
  \<open>settled m d\<close>: message \<open>m\<close> has had its effect on the rows \<open>d\<close>. A handler that leaves the
  rows alone when the message is settled, and settles it when it returns no error, can be
  run again at any time.
\<close>

locale redelivery =
  fixes handle :: "'m \<Rightarrow> (('d, 'x) world, unit) prog"
    and settled :: "'m \<Rightarrow> 'd \<Rightarrow> bool"
  assumes settles: "handle m w = (Inr (), w') \<Longrightarrow> settled m (data w')"
    and unchanged: "settled m (data w) \<Longrightarrow> handle m w = (r, w') \<Longrightarrow> data w' = data w"
    and stays: "settled m (data w) \<Longrightarrow> handle m' w = (r, w') \<Longrightarrow> settled m (data w')"
    and failed: "handle m w = (Inl e, w') \<Longrightarrow> data w' = data w"
begin

lemma consume_settled:
  assumes "\<forall>m\<in>set ms. settled m (data w)"
  shows "data (snd (consume handle ms w)) = data w"
  using assms
proof (induction ms arbitrary: w)
  case (Cons m ms)
  obtain r w1 where run: "handle m w = (r, w1)" by (cases "handle m w")
  with Cons.prems have "data w1 = data w" by (auto intro: unchanged)
  with Cons run show ?case by (simp add: run_simps)
qed simp

lemma consume_keeps_settled: "settled m (data w) \<Longrightarrow> settled m (data (snd (consume handle ms w)))"
proof (induction ms arbitrary: w)
  case (Cons m' ms)
  obtain r w1 where run: "handle m' w = (r, w1)" by (cases "handle m' w")
  with Cons.prems have "settled m (data w1)" by (auto intro: stays)
  with Cons run show ?case by (simp add: run_simps)
qed simp

text \<open>Retrying does the work of one attempt, or of none.\<close>

lemma retried_ok:
  assumes "WithRetry rt cfg handle m w = (Inr (), w')"
  obtains v where "data v = data w" and "handle m v = (Inr (), w')" and "settled m (data w')"
proof -
  from assms obtain v where "data v = data w" "handle m v = (Inr (), w')"
    unfolding WithRetry_def
    by (auto dest!: retry_loop_from[where P = "\<lambda>d. d = data w"] dest: failed)
  with that settles show thesis by blast
qed

lemma retried_err: "WithRetry rt cfg handle m w = (Inl e, w') \<Longrightarrow> data w' = data w"
  unfolding WithRetry_def
  by (auto dest!: retry_loop_from[where P = "\<lambda>d. d = data w"] dest: failed)

end

end
