(* ===== verification/Consumer.thy ===== *)
theory Consumer
  imports Messaging
begin

text \<open>
  The Kafka consumer (\<open>pkg/kafka/consumer.go\<close>), the correlation identifier it passes on
  (\<open>pkg/correlation\<close>), the metrics middleware and the runner. What \<open>FetchMessage\<close> returns
  is given to the model as the list of its results; when the list is used up the consumer
  still waits for the next one. Timeouts, panics (which the runner recovers from) and the
  closing of readers are not modelled.
\<close>

section \<open>Correlation identifiers\<close>

definition HeaderName :: string where "HeaderName = ''X-Correlation-ID''"

definition KafkaHeaderName :: string where "KafkaHeaderName = ''X-Correlation-ID''"

text \<open>Of a context only the correlation identifier matters.\<close>

type_synonym ctx = "string option"

definition corr_FromContext :: "ctx \<Rightarrow> string" where
  "corr_FromContext c = (case c of None \<Rightarrow> '''' | Some i \<Rightarrow> i)"

definition WithID :: "ctx \<Rightarrow> string \<Rightarrow> ctx" where
  "WithID c i = Some i"

definition corr_NewID :: "('b) env_scheme \<Rightarrow> (('d, 'x) world, string) prog" where
  "corr_NewID env = uuid_New env"

fun extractCorrelationID ::
  "('b) env_scheme \<Rightarrow> ctx \<Rightarrow> (string \<times> string) list \<Rightarrow> (('d, 'x) world, ctx) prog" where
  "extractCorrelationID env c [] = bnd (corr_NewID env) (\<lambda>i. ret (WithID c i))"
| "extractCorrelationID env c (h # headers) =
     (if fst h = KafkaHeaderName then ret (WithID c (snd h)) else extractCorrelationID env c headers)"

section \<open>The consumer\<close>

record 'm fetched =
  ft_Partition :: nat
  ft_Offset :: int
  ft_Headers :: "(string \<times> string) list"
  ft_Message :: 'm

datatype 'm fetch = Fetched "'m fetched" | FetchFailed goerr

text \<open>The reader of a group: how it answers a commit, and the effect that a commit is.\<close>

record ('m, 'x) kafka_reader =
  kr_Topic :: string
  kr_GroupID :: string
  kr_CommitMessages :: "nat \<Rightarrow> 'm fetched \<Rightarrow> goerr option"
  kr_effect :: "string \<Rightarrow> string \<Rightarrow> nat \<Rightarrow> int \<Rightarrow> 'x"

definition CommitMessages :: "('m, 'x) kafka_reader \<Rightarrow> 'm fetched \<Rightarrow> (('d, 'x) world, unit) prog" where
  "CommitMessages rd m =
     bnd (emit (kr_effect rd (kr_Topic rd) (kr_GroupID rd) (ft_Partition m) (ft_Offset m))) (\<lambda>_.
     call (\<lambda>n. case kr_CommitMessages rd n m of None \<Rightarrow> Inr () | Some e \<Rightarrow> Inl e))"

type_synonym ('m, 'd, 'x) message_handler = "ctx \<Rightarrow> 'm \<Rightarrow> (('d, 'x) world, unit) prog"

text \<open>
  The loop of \<open>Start\<close>. \<open>Waiting\<close>: the results of \<open>FetchMessage\<close> are used up. A message whose
  handler fails is passed over without a commit, and the loop goes on.
\<close>

datatype consumer_state = Waiting | Returned

fun Consumer_Start ::
  "('b) env_scheme \<Rightarrow> ('m, 'x) kafka_reader \<Rightarrow> ctx \<Rightarrow> ('m, 'd, 'x) message_handler \<Rightarrow> 'm fetch list
   \<Rightarrow> (('d, 'x) world, consumer_state) prog" where
  "Consumer_Start env rd c handler [] = ret Waiting"
| "Consumer_Start env rd c handler (FetchFailed err # fs) =
     (if errors_Is err Context_Canceled then ret Returned else throw err)"
| "Consumer_Start env rd c handler (Fetched m # fs) =
     bnd (extractCorrelationID env c (ft_Headers m)) (\<lambda>msgCtx.
     bnd (attempt (handler msgCtx (ft_Message m))) (\<lambda>r. case r of
         Inl err \<Rightarrow> Consumer_Start env rd c handler fs
       | Inr _ \<Rightarrow> bnd (attempt (CommitMessages rd m)) (\<lambda>_. Consumer_Start env rd c handler fs)))"

text \<open>A worker is a consumer with its messages; a runner with one worker runs it.\<close>

type_synonym ('m, 'd, 'x) worker = "('m, 'd, 'x) message_handler \<Rightarrow> (('d, 'x) world, consumer_state) prog"

record ('m, 'd, 'x) runner =
  rn_workers :: "('m, 'd, 'x) worker list"
  rn_handler :: "('m, 'd, 'x) message_handler"

text \<open>
  \<open>Runner.Start\<close> starts every worker in a goroutine and returns the first error. The
  workers of one runner are run one after another here; the runners of the program have
  one worker each.
\<close>

fun run_workers :: "('m, 'd, 'x) worker list \<Rightarrow> ('m, 'd, 'x) message_handler \<Rightarrow> goerr option \<Rightarrow> (('d, 'x) world, unit) prog" where
  "run_workers [] h first = (case first of None \<Rightarrow> ret () | Some e \<Rightarrow> throw e)"
| "run_workers (wk # wks) h first = bnd (attempt (wk h)) (\<lambda>r. run_workers wks h (case (first, r) of
      (None, Inl e) \<Rightarrow> Some e | _ \<Rightarrow> first))"

definition Runner_Start :: "('m, 'd, 'x) runner \<Rightarrow> (('d, 'x) world, unit) prog" where
  "Runner_Start rn = run_workers (rn_workers rn) (rn_handler rn) None"

section \<open>Metrics\<close>

text \<open>\<open>observe topic group status\<close> is the effect of counting a message and its duration.\<close>

definition WithMetrics ::
  "('b) env_scheme \<Rightarrow> (string \<Rightarrow> string \<Rightarrow> string \<Rightarrow> time \<Rightarrow> 'x) \<Rightarrow> string \<Rightarrow> string
   \<Rightarrow> ('m, 'd, 'x) message_handler \<Rightarrow> ('m, 'd, 'x) message_handler" where
  "WithMetrics env observe topic consumerGroup handler c m =
     bnd (time_Now env) (\<lambda>start.
     bnd (attempt (handler c m)) (\<lambda>r.
     bnd (time_Now env) (\<lambda>now.
     bnd (emit (observe topic consumerGroup (case r of Inr _ \<Rightarrow> ''success'' | Inl _ \<Rightarrow> ''error'') (now - start))) (\<lambda>_.
     of_sum r))))"

section \<open>What the consumer guarantees\<close>

text \<open>The messages the consumer gets to see.\<close>

fun received :: "'m fetch list \<Rightarrow> 'm fetched list" where
  "received [] = []"
| "received (FetchFailed err # fs) = []"
| "received (Fetched m # fs) = m # received fs"

lemma extractCorrelationID_E:
  assumes "extractCorrelationID env c hs w = (r, w')"
  obtains i where "r = Inr (Some i)" and "data w' = data w" and "trace w' = trace w" and "ticks w \<le> ticks w'"
proof -
  have "\<exists>i. r = Inr (Some i) \<and> data w' = data w \<and> trace w' = trace w \<and> ticks w \<le> ticks w'"
    using assms by (induction hs) (auto simp: run_simps corr_NewID_def WithID_def split: if_splits)
  then show thesis using that by blast
qed

lemma CommitMessages_E:
  assumes "CommitMessages rd m w = (r, w')"
  shows "data w' = data w \<and> ticks w \<le> ticks w'
    \<and> trace w' = trace w @ [kr_effect rd (kr_Topic rd) (kr_GroupID rd) (ft_Partition m) (ft_Offset m)]"
  using assms by (auto simp: CommitMessages_def run_simps)

text \<open>One round with a handler that never fails: the message is committed.\<close>

lemma consumer_round:
  assumes "Consumer_Start env rd c handler (Fetched m # fs) w = (r, w')"
    and "\<And>k x v. \<exists>v'. handler k x v = (Inr (), v')"
  obtains k w1 w2 w3 where "data w1 = data w" and "trace w1 = trace w" and "ticks w \<le> ticks w1"
    and "handler k (ft_Message m) w1 = (Inr (), w2)"
    and "data w3 = data w2" and "ticks w2 \<le> ticks w3"
    and "trace w3 = trace w2 @ [kr_effect rd (kr_Topic rd) (kr_GroupID rd) (ft_Partition m) (ft_Offset m)]"
    and "Consumer_Start env rd c handler fs w3 = (r, w')"
proof -
  obtain q w1 where ex: "extractCorrelationID env c (ft_Headers m) w = (q, w1)" by (cases "extractCorrelationID env c (ft_Headers m) w")
  then obtain i where q: "q = Inr (Some i)" and w1: "data w1 = data w" "trace w1 = trace w" "ticks w \<le> ticks w1"
    by (rule extractCorrelationID_E)
  obtain w2 where h: "handler (Some i) (ft_Message m) w1 = (Inr (), w2)" using assms(2) by blast
  obtain q3 w3 where cm: "CommitMessages rd m w2 = (q3, w3)" by (cases "CommitMessages rd m w2")
  note w3 = CommitMessages_E[OF cm]
  have "Consumer_Start env rd c handler fs w3 = (r, w')"
    using assms(1) ex q h cm by (simp add: run_simps)
  with w1 h w3 show thesis by (intro that) auto
qed

lemma WithMetrics_run:
  "WithMetrics env observe topic grp handler c m w
   = (let w1 = tick w; (r, w2) = handler c m w1 in
      (r, (tick w2)\<lparr>trace := trace w2 @ [observe topic grp (case r of Inr _ \<Rightarrow> ''success'' | Inl _ \<Rightarrow> ''error'')
            (clock env (ticks w2) - clock env (ticks w))]\<rparr>))"
  by (auto simp: WithMetrics_def run_simps Let_def split: prod.splits)

text \<open>
  The handler of the program: \<open>WithMetrics\<close> around \<open>WithDLQ\<close> around \<open>WithRetry\<close>. \<open>publish\<close> writes
  the dead letter.
\<close>

definition pipeline ::
  "('b) env_scheme \<Rightarrow> (string \<Rightarrow> string \<Rightarrow> string \<Rightarrow> time \<Rightarrow> 'x) \<Rightarrow> string \<Rightarrow> string
   \<Rightarrow> ('m \<Rightarrow> goerr \<Rightarrow> (('d, 'x) world, unit) prog) \<Rightarrow> runtime
   \<Rightarrow> ('m \<Rightarrow> (('d, 'x) world, unit) prog) \<Rightarrow> ('m, 'd, 'x) message_handler" where
  "pipeline env observe topic grp publish rt handle =
     WithMetrics env observe topic grp (\<lambda>c. WithDLQ publish (WithRetry rt DefaultRetryConfig handle))"

text \<open>It never fails: a message was handled, or given to the dead letter queue.\<close>

lemma pipeline_E:
  obtains (handled) v v' where "pipeline env observe topic grp publish rt handle c m w = (Inr (), v')"
      and "WithRetry rt DefaultRetryConfig handle m (tick w) = (Inr (), v)" and "data v' = data v" and "ticks v \<le> ticks v'"
      and "set (trace v) \<subseteq> set (trace v')"
  | (dead) e v q v1 v' where "pipeline env observe topic grp publish rt handle c m w = (Inr (), v')"
      and "WithRetry rt DefaultRetryConfig handle m (tick w) = (Inl e, v)" and "publish m e v = (q, v1)"
      and "data v' = data v1" and "ticks v1 \<le> ticks v'" and "set (trace v1) \<subseteq> set (trace v')"
proof -
  obtain q v where run: "WithRetry rt DefaultRetryConfig handle m (tick w) = (q, v)"
    by (cases "WithRetry rt DefaultRetryConfig handle m (tick w)")
  obtain p v' where pipe: "pipeline env observe topic grp publish rt handle c m w = (p, v')" by fastforce
  show thesis
  proof (cases q)
    case (Inr u)
    with run pipe show thesis
      by (intro handled[of v' v]) (auto simp: pipeline_def WithMetrics_run WithDLQ_run Let_def)
  next
    case (Inl e)
    obtain q1 v1 where pub: "publish m e v = (q1, v1)" by (cases "publish m e v")
    with run Inl pipe show thesis
      by (intro dead[of v' e v q1 v1]) (auto simp: pipeline_def WithMetrics_run WithDLQ_run Let_def)
  qed
qed

lemma pipeline_ok: "\<exists>v'. pipeline env observe topic grp publish rt handle c m w = (Inr (), v')"
  by (rule pipeline_E) blast+

section \<open>Every message is handled or dead\<close>

lemma keeps_retry_loop [keeps_intros]:
  "keeps_trace P h \<Longrightarrow> keeps_trace P (retry_loop rt maxb h n backoff lastErr)"
  by (induction n arbitrary: backoff lastErr) (simp_all, (intro keeps_intros | assumption)+)

lemma keeps_WithRetry [keeps_intros]: "keeps_trace P (handle m) \<Longrightarrow> keeps_trace P (WithRetry rt cfg handle m)"
  unfolding WithRetry_def by (rule keeps_retry_loop)

lemma keeps_pipeline:
  assumes "\<And>m. keeps_trace P (handle m)" and "\<And>m e. keeps_trace P (publish m e)"
    and "\<And>es s d. P es \<Longrightarrow> P (es @ [observe topic grp s d])"
  shows "keeps_trace P (pipeline env observe topic grp publish rt handle c m)"
  unfolding pipeline_def WithMetrics_def WithDLQ_def
  by (intro keeps_intros keeps_trace_emit assms)

text \<open>Commits follow the messages in order, one for each.\<close>

definition commit_effect :: "('m, 'x) kafka_reader \<Rightarrow> 'm fetched \<Rightarrow> 'x" where
  "commit_effect rd m = kr_effect rd (kr_Topic rd) (kr_GroupID rd) (ft_Partition m) (ft_Offset m)"

lemma consumer_commits:
  assumes "Consumer_Start env rd c handler fs w = (r, w')"
    and "\<And>k x v. \<exists>v'. handler k x v = (Inr (), v')"
    and "\<And>k x es. keeps_trace (\<lambda>t. filter is_commit t = es) (handler k x)"
    and "\<And>m. is_commit (commit_effect rd m)"
  shows "filter is_commit (trace w') = filter is_commit (trace w) @ map (commit_effect rd) (received fs)"
  using assms(1)
proof (induction fs arbitrary: w)
  case (Cons f fs)
  show ?case
  proof (cases f)
    case (FetchFailed e)
    with Cons.prems show ?thesis by (auto simp: run_simps split: if_splits)
  next
    case (Fetched m)
    from Cons.prems[unfolded Fetched] assms(2) show ?thesis
    proof (rule consumer_round)
      fix k w1 w2 w3
      assume w1: "trace w1 = trace w" and h: "handler k (ft_Message m) w1 = (Inr (), w2)"
        and w3: "trace w3 = trace w2 @ [kr_effect rd (kr_Topic rd) (kr_GroupID rd) (ft_Partition m) (ft_Offset m)]"
        and rest: "Consumer_Start env rd c handler fs w3 = (r, w')"
      have "filter is_commit (trace w2) = filter is_commit (trace w)"
        using keepsD[OF assms(3) h] w1 by simp
      with Cons.IH[OF rest] w3 assms(4)[of m] show ?thesis
        by (simp add: Fetched commit_effect_def)
    qed
  qed
qed simp

text \<open>
  The contract of a handler that can be run again, in worlds that satisfy \<open>ok\<close>: what the
  environment has to guarantee, and what the rows have to satisfy.
\<close>

locale guarded_redelivery =
  fixes handle :: "'m \<Rightarrow> (('d, 'x) world, unit) prog"
    and settled :: "'m \<Rightarrow> 'd \<Rightarrow> bool"
    and ok :: "('d, 'x) world \<Rightarrow> bool"
  assumes ok_settles: "ok w \<Longrightarrow> handle m w = (Inr (), w') \<Longrightarrow> settled m (data w')"
    and ok_stays: "ok w \<Longrightarrow> settled m (data w) \<Longrightarrow> handle m' w = (r, w') \<Longrightarrow> settled m (data w')"
    and ok_failed: "ok w \<Longrightarrow> handle m w = (Inl e, w') \<Longrightarrow> data w' = data w"
    and ok_kept: "ok w \<Longrightarrow> handle m w = (r, w') \<Longrightarrow> ok w'"
    and ok_later: "ok w \<Longrightarrow> data v = data w \<Longrightarrow> ticks w \<le> ticks v \<Longrightarrow> ok v"
begin

lemma guarded_retry:
  assumes "retry_loop rt maxb (handle m) left backoff lastErr w = (r, w')" and "ok w"
  shows "ok w' \<and> (case r of Inl e \<Rightarrow> data w' = data w
    | Inr u \<Rightarrow> (\<exists>v. ok v \<and> data v = data w \<and> handle m v = (Inr (), w')))"
  using assms
proof (induction left arbitrary: backoff lastErr w)
  case (Suc left)
  from Suc.prems(1) show ?case
  proof (cases rule: retry_loop_SucE)
    case returned
    with Suc.prems(2) ok_kept show ?thesis by (auto intro!: exI[of _ w])
  next
    case (gave_up e w1 e')
    with Suc.prems(2) ok_kept ok_failed have "ok w1" "data w1 = data w" by blast+
    with gave_up ok_later[of w1 w'] show ?thesis by simp
  next
    case (again e w1 w2)
    with Suc.prems(2) ok_kept ok_failed have "ok w1" "data w1 = data w" by blast+
    with again ok_later[of w1 w2] have "ok w2" "data w2 = data w" by simp_all
    with Suc.IH[OF again(5)] show ?thesis by (cases r) simp_all
  qed
qed (auto simp: ok_later)

text \<open>A round of the pipeline: the message is settled or dead, and what was settled stays so.\<close>

lemma pipeline_settles:
  assumes "pipeline env observe topic grp publish rt handle c m w = (Inr (), w')" and "ok w"
    and publish: "\<And>m e v q v'. publish m e v = (q, v') \<Longrightarrow> data v' = data v \<and> ticks v \<le> ticks v' \<and> (\<exists>y\<in>set (trace v'). is_dead m y)"
  shows "(settled m (data w') \<or> (\<exists>y\<in>set (trace w'). is_dead m y))
    \<and> (\<forall>m'. settled m' (data w) \<longrightarrow> settled m' (data w')) \<and> ok w'"
proof (rule pipeline_E[of env observe topic grp publish rt handle c m w])
  have t: "ok (tick w)" using assms(2) by (rule ok_later) simp_all
  {
    fix v v'
    assume run: "pipeline env observe topic grp publish rt handle c m w = (Inr (), v')"
      and retry: "WithRetry rt DefaultRetryConfig handle m (tick w) = (Inr (), v)" and d: "data v' = data v" "ticks v \<le> ticks v'"
    from guarded_retry[OF retry[unfolded WithRetry_def] t] obtain u
      where u: "ok u" "data u = data w" "handle m u = (Inr (), v)" and v: "ok v" by auto
    have "settled m' (data v)" if "settled m' (data w)" for m'
      using ok_stays[OF u(1) _ u(3)] that u(2) by simp
    with ok_settles[OF u(1,3)] ok_later[OF v] d run assms(1) show ?thesis by simp
  next
    fix e v q v1 v'
    assume run: "pipeline env observe topic grp publish rt handle c m w = (Inr (), v')"
      and retry: "WithRetry rt DefaultRetryConfig handle m (tick w) = (Inl e, v)" and pub: "publish m e v = (q, v1)"
      and d: "data v' = data v1" "ticks v1 \<le> ticks v'" and tr: "set (trace v1) \<subseteq> set (trace v')"
    from guarded_retry[OF retry[unfolded WithRetry_def] t] have v: "ok v" "data v = data w" by auto
    from publish[OF pub] have p: "data v1 = data v" "ticks v \<le> ticks v1" "\<exists>y\<in>set (trace v1). is_dead m y" by blast+
    have "ok v'" using v(1) by (rule ok_later) (use p d in simp_all)
    with v p d tr run assms(1) show ?thesis by auto
  }
qed

lemma consumer_settles:
  assumes run: "Consumer_Start env rd c (pipeline env observe topic grp publish rt handle) fs w = (r, w')" and "ok w"
    and publish: "\<And>m e v q v'. publish m e v = (q, v') \<Longrightarrow> data v' = data v \<and> ticks v \<le> ticks v' \<and> (\<exists>y\<in>set (trace v'). is_dead m y)"
    and grows: "\<And>m y. keeps_trace (\<lambda>t. y \<in> set t) (handle m)" "\<And>m e y. keeps_trace (\<lambda>t. y \<in> set t) (publish m e)"
  shows "(\<forall>x\<in>set (received fs). settled (ft_Message x) (data w') \<or> (\<exists>y\<in>set (trace w'). is_dead (ft_Message x) y))
    \<and> (\<forall>m. settled m (data w) \<longrightarrow> settled m (data w')) \<and> set (trace w) \<subseteq> set (trace w')"
  using run \<open>ok w\<close>
proof (induction fs arbitrary: w)
  case (Cons f fs)
  show ?case
  proof (cases f)
    case (FetchFailed e)
    with Cons.prems show ?thesis by (auto simp: run_simps split: if_splits)
  next
    case (Fetched m)
    from Cons.prems(1)[unfolded Fetched] pipeline_ok show ?thesis
    proof (rule consumer_round)
      fix k w1 w2 w3
      assume w1: "data w1 = data w" "trace w1 = trace w" "ticks w \<le> ticks w1"
        and h: "pipeline env observe topic grp publish rt handle k (ft_Message m) w1 = (Inr (), w2)"
        and w3: "data w3 = data w2" "ticks w2 \<le> ticks w3"
          "trace w3 = trace w2 @ [kr_effect rd (kr_Topic rd) (kr_GroupID rd) (ft_Partition m) (ft_Offset m)]"
        and rest: "Consumer_Start env rd c (pipeline env observe topic grp publish rt handle) fs w3 = (r, w')"
      have "ok w1" using Cons.prems(2) w1(1,3) by (rule ok_later)
      with h have here: "(settled (ft_Message m) (data w2) \<or> (\<exists>y\<in>set (trace w2). is_dead (ft_Message m) y))
          \<and> (\<forall>m'. settled m' (data w1) \<longrightarrow> settled m' (data w2)) \<and> ok w2"
        by (rule pipeline_settles) (rule publish)
      then have ok3: "ok w3" using w3(1,2) by (blast intro: ok_later)
      have t: "set (trace w) \<subseteq> set (trace w2)"
        using keepsD[OF keeps_pipeline[OF grows] h] w1(2) by auto
      note later = Cons.IH[OF rest ok3]
      from here w1 w3 have "\<forall>m. settled m (data w) \<longrightarrow> settled m (data w3)" by simp
      moreover from here w3 have "settled (ft_Message m) (data w3) \<or> (\<exists>y\<in>set (trace w3). is_dead (ft_Message m) y)" by auto
      ultimately show ?thesis using later t w3(3) unfolding Fetched received.simps by (auto 0 4)
    qed
  qed
qed simp

end

text \<open>A handler that can be run again in every world is one of these.\<close>

sublocale redelivery \<subseteq> guarded_redelivery handle settled "\<lambda>_. True"
  by unfold_locales (auto intro: settles stays failed)

end
