(* ===== verification/GinEngine.thy ===== *)
theory GinEngine
  imports Consumer Http GoJson
begin

text \<open>
  What surrounds the handlers of ingest and paymanager: the logger (\<open>pkg/logger\<close>) and the
  middlewares that \<open>engine.Use\<close> puts around every route, which give a request its correlation
  identifier, observe its duration and log its bodies. gin itself is not part of the
  repository; of it remain the request, the response and the function that answers a request
  for which there is no route. \<open>gin.Recovery\<close> only acts on panics, which no handler of the
  model has.
\<close>

section \<open>The logger\<close>

datatype log_value = LogNil | LogText string | LogInt int | LogJson json

record log_record =
  lg_Message :: string
  lg_Attrs :: "(string \<times> log_value) list"

text \<open>The levels of \<open>log/slog\<close>.\<close>

abbreviation LevelDebug :: int where "LevelDebug \<equiv> - 4"
abbreviation LevelInfo :: int where "LevelInfo \<equiv> 0"
abbreviation LevelWarn :: int where "LevelWarn \<equiv> 4"
abbreviation LevelError :: int where "LevelError \<equiv> 8"

text \<open>\<open>strings.ToLower\<close> on ASCII.\<close>

definition lower_char :: "char \<Rightarrow> char" where
  "lower_char c = (if 65 \<le> byte c \<and> byte c \<le> 90 then char_of_byte (byte c + 32) else c)"

definition parseLevel :: "string \<Rightarrow> int" where
  "parseLevel level = (let l = map lower_char level in
     if l = ''debug'' then LevelDebug
     else if l = ''info'' then LevelInfo
     else if l = ''warn'' \<or> l = ''warning'' then LevelWarn
     else if l = ''error'' then LevelError
     else LevelInfo)"

record log_options =
  lo_Level :: string
  lo_Console :: bool

record slogger =
  sl_Level :: int
  sl_JSON :: bool

definition Setup :: "log_options \<Rightarrow> slogger" where
  "Setup opts = \<lparr>sl_Level = parseLevel (lo_Level opts), sl_JSON = (\<not> lo_Console opts)\<rparr>"

text \<open>\<open>CorrelationHandler\<close>: the record as the inner handler gets it, and whether it does.\<close>

definition CorrelationHandler_Handle :: "ctx \<Rightarrow> log_record \<Rightarrow> log_record" where
  "CorrelationHandler_Handle cx r = (let corrID = corr_FromContext cx in
     if corrID = '''' then r else r\<lparr>lg_Attrs := lg_Attrs r @ [(''correlation_id'', LogText corrID)]\<rparr>)"

definition CorrelationHandler_Enabled :: "slogger \<Rightarrow> int \<Rightarrow> bool" where
  "CorrelationHandler_Enabled lg level \<longleftrightarrow> sl_Level lg \<le> level"

section \<open>Requests\<close>

text \<open>\<open>rq_FullPath\<close> is the pattern of the route, empty when there is none.\<close>

record request =
  rq_Method :: string
  rq_Path :: string
  rq_FullPath :: string
  rq_RawQuery :: string
  rq_Header :: "string \<Rightarrow> string"
  rq_Body :: "string option"
  rq_Context :: ctx

record response =
  rs_Status :: int
  rs_Header :: "(string \<times> string) list"
  rs_Body :: string

type_synonym ('d, 'x) gin_handler = "request \<Rightarrow> (('d, 'x) world, response) prog"

text \<open>How an observation and a log record show among the effects of a service.\<close>

record 'x telemetry =
  tm_observe :: "string \<Rightarrow> string \<Rightarrow> string \<Rightarrow> time \<Rightarrow> 'x"
  tm_log :: "log_record \<Rightarrow> 'x"
  tm_logger :: slogger

definition InfoContext :: "'x telemetry \<Rightarrow> ctx \<Rightarrow> log_record \<Rightarrow> (('d, 'x) world, unit) prog" where
  "InfoContext tm cx r =
    (if CorrelationHandler_Enabled (tm_logger tm) LevelInfo then emit (tm_log tm (CorrelationHandler_Handle cx r)) else ret ())"

section \<open>Middlewares\<close>

text \<open>No handler sets the header itself, so that it can be added to the response afterwards.\<close>

definition CorrelationMiddleware :: "('b) env_scheme \<Rightarrow> ('d, 'x) gin_handler \<Rightarrow> ('d, 'x) gin_handler" where
  "CorrelationMiddleware env next req =
     bnd (if rq_Header req HeaderName = '''' then corr_NewID env else ret (rq_Header req HeaderName)) (\<lambda>corrID.
     bnd (next (req\<lparr>rq_Context := WithID (rq_Context req) corrID\<rparr>)) (\<lambda>rsp.
     ret (rsp\<lparr>rs_Header := (HeaderName, corrID) # rs_Header rsp\<rparr>)))"

definition skipMetricsPaths :: "string list" where
  "skipMetricsPaths = [''/metrics'', ''/health/live'', ''/health/ready'']"

definition GinMiddleware :: "('b) env_scheme \<Rightarrow> 'x telemetry \<Rightarrow> ('d, 'x) gin_handler \<Rightarrow> ('d, 'x) gin_handler" where
  "GinMiddleware env tm next req =
    (if rq_FullPath req \<in> set skipMetricsPaths then next req
     else bnd (time_Now env) (\<lambda>start.
          bnd (next req) (\<lambda>rsp.
          bnd (time_Now env) (\<lambda>now.
          bnd (emit (tm_observe tm (if rq_FullPath req = '''' then ''unknown'' else rq_FullPath req)
                 (rq_Method req) (show_int (rs_Status rsp)) (now - start))) (\<lambda>_.
          ret rsp)))))"

section \<open>Bodies in the log\<close>

definition shouldSkipLog :: "string \<Rightarrow> bool" where
  "shouldSkipLog path \<longleftrightarrow> path \<in> set [''/metrics'', ''/health/live'', ''/health/ready'']"

definition maxBody :: nat where "maxBody = 8 * 1024"

definition limit_body :: "string \<Rightarrow> string" where
  "limit_body b = (if maxBody < length b then take maxBody b else b)"

text \<open>\<open>bytes.TrimSpace\<close>: the white space of Unicode, from both ends.\<close>

definition spaces :: "string list" where
  "spaces = map (\<lambda>c. [c]) [CHR 0x09, CHR 0x0A, CHR 0x0B, CHR 0x0C, CHR 0x0D, CHR 0x20]
     @ [[CHR 0xC2, CHR 0x85], [CHR 0xC2, CHR 0xA0], [CHR 0xE1, CHR 0x9A, CHR 0x80], [CHR 0xE2, CHR 0x81, CHR 0x9F],
        [CHR 0xE3, CHR 0x80, CHR 0x80]]
     @ map (\<lambda>c. [CHR 0xE2, CHR 0x80, c])
         [CHR 0x80, CHR 0x81, CHR 0x82, CHR 0x83, CHR 0x84, CHR 0x85, CHR 0x86, CHR 0x87, CHR 0x88, CHR 0x89, CHR 0x8A,
          CHR 0xA8, CHR 0xA9, CHR 0xAF]"

text \<open>They are the code points of the property \<open>White_Space\<close>.\<close>

lemma spaces_utf8:
  "spaces = map utf8_bytes [9, 10, 11, 12, 13, 32, 133, 160, 5760, 8287, 12288, 8192, 8193, 8194, 8195, 8196,
     8197, 8198, 8199, 8200, 8201, 8202, 8232, 8233, 8239]"
  by (simp add: spaces_def utf8_bytes_def char_of_byte_def char_of_def bit_0)

definition space_at :: "string list \<Rightarrow> string \<Rightarrow> nat" where
  "space_at sps s = (case find (\<lambda>sp. starts sp s) sps of None \<Rightarrow> 0 | Some sp \<Rightarrow> length sp)"

function trim_left :: "string list \<Rightarrow> string \<Rightarrow> string" where
  "trim_left sps s = (if s \<noteq> [] \<and> 0 < space_at sps s then trim_left sps (drop (space_at sps s) s) else s)"
  by pat_completeness auto

termination trim_left by (relation "measure (length \<circ> snd)") auto

declare trim_left.simps [simp del]

definition TrimSpace :: "string \<Rightarrow> string" where
  "TrimSpace b = rev (trim_left (map rev spaces) (rev (trim_left spaces b)))"

definition bodyAttr :: "string \<Rightarrow> string \<Rightarrow> string \<times> log_value" where
  "bodyAttr key b =
    (let bb = TrimSpace b in
     if bb = [] then (key, LogNil)
     else case Unmarshal bb of
       Inr v \<Rightarrow> (key, LogJson v)
     | Inl _ \<Rightarrow> (key, LogText bb))"

definition GinBodyLogger :: "'x telemetry \<Rightarrow> ('d, 'x) gin_handler \<Rightarrow> ('d, 'x) gin_handler" where
  "GinBodyLogger tm next req =
    (if shouldSkipLog (rq_Path req) then next req
     else bnd (next req) (\<lambda>rsp.
          bnd (InfoContext tm (rq_Context req) \<lparr>lg_Message = ''HTTP Request'', lg_Attrs =
             [(''method'', LogText (rq_Method req)), (''path'', LogText (rq_Path req)),
              (''query'', LogText (rq_RawQuery req)), (''status'', LogInt (rs_Status rsp)),
              bodyAttr ''request_body'' (limit_body (case rq_Body req of None \<Rightarrow> [] | Some b \<Rightarrow> b)),
              bodyAttr ''response_body'' (limit_body (rs_Body rsp))]\<rparr>) (\<lambda>_.
          ret rsp)))"

text \<open>The order in which \<open>NewGinEngine\<close> and ingest's \<open>Run\<close> use them.\<close>

definition NewGinEngine :: "('b) env_scheme \<Rightarrow> 'x telemetry \<Rightarrow> ('d, 'x) gin_handler \<Rightarrow> ('d, 'x) gin_handler" where
  "NewGinEngine env tm h = CorrelationMiddleware env (GinMiddleware env tm (GinBodyLogger tm h))"

section \<open>What the middlewares leave alone\<close>

text \<open>A log record under a correlation identifier, and an observation.\<close>

definition logged :: "'x telemetry \<Rightarrow> ctx \<Rightarrow> 'x \<Rightarrow> bool" where
  "logged tm cx x \<longleftrightarrow> (\<exists>r. x = tm_log tm (CorrelationHandler_Handle cx r))"

definition observed :: "'x telemetry \<Rightarrow> 'x \<Rightarrow> bool" where
  "observed tm x \<longleftrightarrow> (\<exists>path method status d. x = tm_observe tm path method status d)"

text \<open>They answer as the handler does, in its world but for the clock and the two effects.\<close>

lemma GinBodyLogger_run:
  assumes "GinBodyLogger tm h req w = (Inr rsp, w')"
  obtains v more where "h req w = (Inr rsp, v)" and "data w' = data v"
    and "trace w' = trace v @ more" and "list_all (logged tm (rq_Context req)) more"
proof -
  from assms obtain v where h: "h req w = (Inr rsp, v)"
    and e: "w' = v \<or> (\<exists>r. w' = v\<lparr>trace := trace v @ [tm_log tm (CorrelationHandler_Handle (rq_Context req) r)]\<rparr>)"
    unfolding GinBodyLogger_def InfoContext_def
    by (cases "h req w"; cases "fst (h req w)") (auto simp: run_simps split: if_splits)
  from e show thesis
  proof
    assume "w' = v"
    with h that[of v "[]"] show thesis by simp
  next
    assume "\<exists>r. w' = v\<lparr>trace := trace v @ [tm_log tm (CorrelationHandler_Handle (rq_Context req) r)]\<rparr>"
    then obtain r where "w' = v\<lparr>trace := trace v @ [tm_log tm (CorrelationHandler_Handle (rq_Context req) r)]\<rparr>" ..
    with h that[of v "[tm_log tm (CorrelationHandler_Handle (rq_Context req) r)]"] show thesis
      by (auto simp: logged_def)
  qed
qed

lemma GinMiddleware_run:
  assumes "GinMiddleware env tm h req w = (Inr rsp, w')"
  obtains v v' more where "h req v = (Inr rsp, v')" and "v = w \<or> v = tick w" and "data w' = data v'"
    and "trace w' = trace v' @ more" and "list_all (observed tm) more"
proof (cases "rq_FullPath req \<in> set skipMetricsPaths")
  case True
  with assms that[of w w' "[]"] show thesis by (simp add: GinMiddleware_def)
next
  case False
  obtain r v' where h: "h req (tick w) = (r, v')" by (cases "h req (tick w)")
  let ?x = "tm_observe tm (if rq_FullPath req = '''' then ''unknown'' else rq_FullPath req) (rq_Method req)
    (show_int (rs_Status rsp)) (clock env (ticks v') - clock env (ticks w))"
  from False assms h have "h req (tick w) = (Inr rsp, v')" "w' = (tick v')\<lparr>trace := trace v' @ [?x]\<rparr>"
    by (cases r; auto simp: GinMiddleware_def run_simps)+
  moreover have "observed tm ?x" unfolding observed_def by blast
  ultimately show thesis using that[of "tick w" v' "[?x]"] by simp
qed

lemma NewGinEngine_E:
  assumes "NewGinEngine env tm h req w = (Inr rsp, w')"
  obtains i v v' rsp0 more where "rq_Header req HeaderName \<noteq> '''' \<longrightarrow> i = rq_Header req HeaderName"
    and "rq_Header req HeaderName = '''' \<longrightarrow> i = fresh env (ticks w)"
    and "h (req\<lparr>rq_Context := Some i\<rparr>) v = (Inr rsp0, v')" and "data v = data w" and "trace v = trace w"
    and "in_tx v = in_tx w" and "tx_failed v = tx_failed w"
    and "rsp = rsp0\<lparr>rs_Header := (HeaderName, i) # rs_Header rsp0\<rparr>" and "data w' = data v'"
    and "trace w' = trace v' @ more" and "\<And>x. x \<in> set more \<Longrightarrow> logged tm (Some i) x \<or> observed tm x"
proof -
  define i where "i = (if rq_Header req HeaderName = '''' then fresh env (ticks w) else rq_Header req HeaderName)"
  define w1 where "w1 = (if rq_Header req HeaderName = '''' then tick w else w)"
  let ?req = "req\<lparr>rq_Context := Some i\<rparr>"
  obtain r w2 where g: "GinMiddleware env tm (GinBodyLogger tm h) ?req w1 = (r, w2)" by (cases "GinMiddleware env tm (GinBodyLogger tm h) ?req w1")
  with assms obtain rsp0 where r: "r = Inr rsp0" "w2 = w'" "rsp = rsp0\<lparr>rs_Header := (HeaderName, i) # rs_Header rsp0\<rparr>"
    by (cases r) (auto simp: NewGinEngine_def CorrelationMiddleware_def corr_NewID_def run_simps WithID_def i_def w1_def split: if_splits)
  from g[unfolded r] obtain v v1 m1 where v: "GinBodyLogger tm h ?req v = (Inr rsp0, v1)" "v = w1 \<or> v = tick w1"
    "data w' = data v1" "trace w' = trace v1 @ m1" "list_all (observed tm) m1" by (rule GinMiddleware_run)
  from v(1) obtain v2 m2 where "h ?req v = (Inr rsp0, v2)" "data v1 = data v2" "trace v1 = trace v2 @ m2"
    "list_all (logged tm (rq_Context ?req)) m2" by (rule GinBodyLogger_run)
  moreover have "data v = data w" "trace v = trace w" "in_tx v = in_tx w" "tx_failed v = tx_failed w"
    using v(2) by (auto simp: w1_def split: if_splits)
  ultimately show thesis
    using v r by (intro that[of i v rsp0 v2 "m2 @ m1"]) (auto simp: i_def list_all_iff)
qed

end
