(* ===== verification/SgApp.thy ===== *)
theory SgApp
  imports SgControllers PgPool GinEngine
begin

text \<open>
  Silvergate as it is put together (\<open>app.go\<close>): migrations first, then the pool, the mock bank with
  the configured rates, and the routes. \<open>math/rand\<close>, pgxpool and goose are arguments. The process
  runs until it is signalled; its shutdown is not modelled.
\<close>

section \<open>Configuration\<close>

record sg_config =
  sc_Port :: int
  sc_PgURL :: string
  sc_LogLevel :: string
  sc_WebhookCallbackURL :: string
  sc_AcquirerAuthApproveRate :: rat
  sc_AcquirerSettleSuccessRate :: rat
  sc_AcquirerSettleDelay :: time

text \<open>The tags \<open>envDefault\<close>, with the two variables that are required.\<close>

definition sg_default_config :: "string \<Rightarrow> string \<Rightarrow> sg_config" where
  "sg_default_config pgURL callbackURL = \<lparr>sc_Port = 3002, sc_PgURL = pgURL, sc_LogLevel = ''info'',
     sc_WebhookCallbackURL = callbackURL, sc_AcquirerAuthApproveRate = 9 / 10, sc_AcquirerSettleSuccessRate = 95 / 100,
     sc_AcquirerSettleDelay = 500000000\<rparr>"

definition parseLogLevel :: "string \<Rightarrow> int" where
  "parseLogLevel level =
    (if level = ''debug'' then LevelDebug
     else if level = ''warn'' then LevelWarn
     else if level = ''error'' then LevelError
     else LevelInfo)"

definition NewMockAcquirer :: "rat \<Rightarrow> rat \<Rightarrow> MockAcquirer" where
  "NewMockAcquirer authRate settleRate = \<lparr>mk_AuthApproveRate = authRate, mk_SettleSuccessRate = settleRate\<rparr>"

section \<open>Start\<close>

record sg_boot =
  sb_ParseConfig :: "string \<Rightarrow> goerr option"
  sb_NewWithConfig :: "nat \<Rightarrow> goerr option"
  sb_migrate :: "string \<Rightarrow> goerr option"
  sb_rand_Float :: "nat \<Rightarrow> rat"
  sb_rand_IntN :: "nat \<Rightarrow> nat \<Rightarrow> nat"

text \<open>The environment of the services, with the mock bank for the acquirer.\<close>

definition with_bank :: "sg_boot \<Rightarrow> sg_config \<Rightarrow> ('b) senv_scheme \<Rightarrow> ('b) senv_scheme" where
  "with_bank bt cfg env =
    (let acq = NewMockAcquirer (sc_AcquirerAuthApproveRate cfg) (sc_AcquirerSettleSuccessRate cfg)
     in env\<lparr>acq_Authorize := Mock_Authorize acq (sb_rand_Float bt) (sb_rand_IntN bt), acq_Settle := Mock_Settle acq (sb_rand_Float bt),
        acq_Void := Mock_Void, acq_Refund := Mock_Refund acq (sb_rand_Float bt)\<rparr>)"

record 'b sg_app =
  sa_level :: int
  sa_env :: "'b senv_scheme"
  sa_callbackURL :: string
  sa_engine :: "outside \<Rightarrow> route \<Rightarrow> gin_ctx \<Rightarrow> reply sg"

definition NewApp :: "('b) senv_scheme \<Rightarrow> sg_boot \<Rightarrow> sg_config \<Rightarrow> pg_world \<Rightarrow> (goerr + 'b sg_app) \<times> pg_world" where
  "NewApp env bt cfg w =
    (case sb_migrate bt (sc_PgURL cfg) of
       Some err \<Rightarrow> (Inl (wrap ''apply migrations'' err), w)
     | None \<Rightarrow> (case PgNew (sb_ParseConfig bt) (sb_NewWithConfig bt) (sc_PgURL cfg) [MaxPoolSize 10] w of
         (Inl err, w') \<Rightarrow> (Inl (wrap ''connect to postgres'' err), w')
       | (Inr pg, w') \<Rightarrow>
          let env' = with_bank bt cfg env in
          (Inr \<lparr>sa_level = parseLogLevel (sc_LogLevel cfg), sa_env = env', sa_callbackURL = sc_WebhookCallbackURL cfg,
            sa_engine = (\<lambda>x. setupRouter x env')\<rparr>, w')))"

section \<open>The mock bank\<close>

text \<open>
  A rate of one approves whatever is drawn, a rate of zero nothing; a decline gives one of the four
  reasons, and the bank has no errors. The draws lie in \<open>[0, 1)\<close> and below their bound.
\<close>

definition draws_ok :: "sg_boot \<Rightarrow> bool" where
  "draws_ok bt \<longleftrightarrow> (\<forall>n. 0 \<le> sb_rand_Float bt n \<and> sb_rand_Float bt n < 1) \<and> (\<forall>n k. 0 < k \<longrightarrow> sb_rand_IntN bt n k < k)"

lemma bank_answers:
  assumes "draws_ok bt"
  obtains res where "acq_Authorize (with_bank bt cfg env) n amount currency tok = Inr res"
    and "1 \<le> sc_AcquirerAuthApproveRate cfg \<Longrightarrow> ar_Approved res"
    and "sc_AcquirerAuthApproveRate cfg \<le> 0 \<Longrightarrow> \<not> ar_Approved res"
    and "ar_Approved res \<or> ar_DeclineReason res \<in> set declineReasons"
proof -
  have r: "0 \<le> sb_rand_Float bt n" "sb_rand_Float bt n < 1" "sb_rand_IntN bt n 4 < 4" using assms by (simp_all add: draws_ok_def)
  then have "declineReasons ! sb_rand_IntN bt n 4 \<in> set declineReasons" by (intro nth_mem) (simp add: declineReasons_def)
  moreover have "length declineReasons = 4" by (simp add: declineReasons_def)
  ultimately show thesis
    using r that[of "if sb_rand_Float bt n < sc_AcquirerAuthApproveRate cfg then \<lparr>ar_Approved = True, ar_DeclineReason = ''''\<rparr>
      else \<lparr>ar_Approved = False, ar_DeclineReason = declineReasons ! sb_rand_IntN bt n 4\<rparr>"]
    by (cases "sb_rand_Float bt n < sc_AcquirerAuthApproveRate cfg") (simp_all add: with_bank_def NewMockAcquirer_def Mock_Authorize_def Let_def)
qed

end
