(* ===== verification/PmDatabase.thy ===== *)
theory PmDatabase
  imports Messaging GinEngine
begin

text \<open>
  Paymanager's schema (its migrations), its environment and its effects. Reads outside a
  transaction go to the read replica when one is configured, and may find older rows.

  A text that is longer than its column, an identifier that is not a UUID where the column
  wants one, and a number out of the range of \<open>DECIMAL(10,2)\<close> are server errors; here they
  are faults of the environment. The partitions of \<open>dispute_events\<close> are not modelled.
\<close>

section \<open>Tables\<close>

record pay_row =
  y_id :: string
  y_amount :: int64
  y_currency :: string
  y_card_token :: string
  y_status :: string
  y_decline_reason :: "string option"
  y_provider_tx_id :: "string option"
  y_merchant_id :: string
  y_refunded_amount :: int64
  y_capture_at :: "time option"
  y_created_at :: time
  y_updated_at :: time

text \<open>The unified table \<open>events\<close>.\<close>

record event_row =
  e_id :: string
  e_aggregate_type :: string
  e_aggregate_id :: string
  e_event_type :: string
  e_idempotency_key :: string
  e_payload :: json
  e_created_at :: time

record order_row =
  o_id :: string
  o_user_id :: string
  o_status :: string
  o_on_hold :: bool
  o_hold_reason :: "string option"
  o_created_at :: time
  o_updated_at :: time

text \<open>\<open>order_events\<close> and \<open>dispute_events\<close> have the same columns but for the name of the owner.\<close>

record sunk_row =
  k_id :: string
  k_owner :: string
  k_kind :: string
  k_provider_event_id :: string
  k_data :: json
  k_created_at :: time

record dispute_row =
  d_id :: string
  d_order_id :: string
  d_submitting_id :: "string option"
  d_status :: string
  d_reason :: string
  d_amount :: rat
  d_currency :: string
  d_opened_at :: time
  d_evidence_due_at :: "time option"
  d_submitted_at :: "time option"
  d_closed_at :: "time option"

record evidence_row =
  v_dispute_id :: string
  v_fields :: json
  v_files :: json
  v_updated_at :: time

record pm_data =
  payments :: "pay_row list"
  events :: "event_row list"
  orders :: "order_row list"
  order_events :: "sunk_row list"
  disputes :: "dispute_row list"
  dispute_events :: "sunk_row list"
  evidence :: "evidence_row list"

definition payment_statuses :: "string list" where
  "payment_statuses = [''authorized'', ''declined'', ''capture_pending'', ''captured'',
     ''capture_failed'', ''voided'', ''partially_refunded'', ''refunded'']"

definition payments_schema :: "pay_row schema" where
  "payments_schema = \<lparr>
     uniques = [(''payments_pkey'', \<lambda>a b. y_id a = y_id b)],
     checks = [
       (''payments_currency_check'', \<lambda>r. length (y_currency r) = 3),
       (''payments_status_check'', \<lambda>r. y_status r \<in> set payment_statuses)]\<rparr>"

definition events_schema :: "event_row schema" where
  "events_schema = \<lparr>
     uniques = [
       (''events_pk'', \<lambda>a b. e_id a = e_id b),
       (''idx_events_idempotency'', \<lambda>a b. e_aggregate_type a = e_aggregate_type b
          \<and> e_aggregate_id a = e_aggregate_id b \<and> e_idempotency_key a = e_idempotency_key b)],
     checks = []\<rparr>"

definition orders_schema :: "order_row schema" where
  "orders_schema = \<lparr>uniques = [(''orders_pkey'', \<lambda>a b. o_id a = o_id b)], checks = []\<rparr>"

definition order_events_schema :: "sunk_row schema" where
  "order_events_schema = \<lparr>
     uniques = [
       (''order_events_pkey'', \<lambda>a b. k_id a = k_id b),
       (''idx_order_events_idempotency'', \<lambda>a b. k_owner a = k_owner b
          \<and> k_provider_event_id a = k_provider_event_id b)],
     checks = []\<rparr>"

definition disputes_schema :: "dispute_row schema" where
  "disputes_schema = \<lparr>uniques = [(''disputes_pkey'', \<lambda>a b. d_id a = d_id b)], checks = []\<rparr>"

text \<open>The table is partitioned by \<open>created_at\<close>, which every unique index has to include.\<close>

definition dispute_events_schema :: "sunk_row schema" where
  "dispute_events_schema = \<lparr>
     uniques = [
       (''dispute_events_pk'', \<lambda>a b. k_id a = k_id b \<and> k_created_at a = k_created_at b),
       (''idx_dispute_events_idempotency'', \<lambda>a b. k_owner a = k_owner b
          \<and> k_provider_event_id a = k_provider_event_id b \<and> k_created_at a = k_created_at b)],
     checks = []\<rparr>"

definition evidence_schema :: "evidence_row schema" where
  "evidence_schema = \<lparr>uniques = [(''evidence_pkey'', \<lambda>a b. v_dispute_id a = v_dispute_id b)], checks = []\<rparr>"

section \<open>Environment and effects\<close>

text \<open>An answer of \<open>http.Client.Do\<close>; \<open>ha_JSON\<close> is what \<open>encoding/json\<close> makes of the raw body.\<close>

record http_answer =
  ha_StatusCode :: int
  ha_Status :: string
  ha_Raw :: string
  ha_JSON :: "goerr + json"

record penv = env +
  http_Post :: "nat \<Rightarrow> string \<Rightarrow> json \<Rightarrow> goerr + http_answer"
  replica :: "nat \<Rightarrow> pm_data option"

text \<open>
  Requests to the provider, goroutines started, and what the Kafka workers do: write a dead
  letter to a topic, commit an offset (topic, group, partition, offset), count a message. The
  last two are the middlewares of the HTTP engine.
\<close>

datatype pm_effect =
    HttpPost string json
  | GoCapture string string int64
  | GoDelayedCapture string string int64 int
  | DeadLetter string dlq_message "goerr option"
  | CommitOffset string string nat int
  | ObserveMessage string string string time
  | ObservePmRequest string string string time
  | LogPmRequest log_record
  | Stdout string

type_synonym 'a pm = "((pm_data, pm_effect) world, 'a) prog"

text \<open>The executor a repository was built on: the pool, or the transaction of the caller.\<close>

datatype executor = Pool | Tx

definition read_db ::
  "('b) penv_scheme \<Rightarrow> executor \<Rightarrow> (pm_data \<Rightarrow> goerr + 'a \<times> pm_data) \<Rightarrow> 'a pm" where
  "read_db env x stmt = (\<lambda>w. case (x, replica env (ticks w)) of
      (Pool, Some d) \<Rightarrow> (case fault env (ticks w) of
          Some e \<Rightarrow> (Inl e, tick w)
        | None \<Rightarrow> (case stmt d of Inl e \<Rightarrow> (Inl e, tick w) | Inr (y, _) \<Rightarrow> (Inr y, tick w)))
    | _ \<Rightarrow> sql env stmt w)"

text \<open>Reads change no row.\<close>

definition read_only :: "('d \<Rightarrow> goerr + 'a \<times> 'd) \<Rightarrow> bool" where
  "read_only stmt \<longleftrightarrow> (\<forall>d y d'. stmt d = Inr (y, d') \<longrightarrow> d' = d)"

lemma read_db_data:
  assumes "read_db env x stmt w = (r, w')" and "read_only stmt"
  shows "data w' = data w \<and> trace w' = trace w \<and> in_tx w' = in_tx w"
  using assms
  by (auto simp: read_db_def sql_def read_only_def
      split: executor.splits option.splits sum.splits prod.splits if_splits)

lemma read_db_Tx [simp]: "read_db env Tx stmt = sql env stmt"
  by (rule ext) (simp add: read_db_def)

lemma read_db_okE [run_elims]:
  assumes "read_db env x stmt w = (Inr y, w')" and "read_only stmt"
  obtains d where "stmt d = Inr (y, d)" and "w' = tick w"
    and "d = data w \<or> x = Pool \<and> replica env (ticks w) = Some d"
    and "x = Tx \<Longrightarrow> \<not> tx_failed w"
  using assms
  by (cases w) (fastforce simp: read_db_def sql_def read_only_def
      split: executor.splits option.splits sum.splits prod.splits if_splits)

lemma keeps_data_read_db:
  assumes "read_only stmt"
  shows "keeps_data I (read_db env x stmt)"
  by (rule keepsI) (auto dest!: read_db_data[OF _ assms])

lemma keeps_trace_read_db [keeps_intros]: "keeps_trace P (read_db env x stmt)"
  by (rule keepsI)
    (auto simp: read_db_def sql_def split: executor.splits option.splits sum.splits prod.splits if_splits)

lemma read_only_query [intro, simp]: "read_only (query get p)" "read_only (query_row get p)"
  by (auto simp: read_only_def query_def query_row_def)

text \<open>One request to the provider.\<close>

definition provider_Post :: "('b) penv_scheme \<Rightarrow> string \<Rightarrow> json \<Rightarrow> http_answer pm" where
  "provider_Post env url b =
     bnd (emit (HttpPost url b)) (\<lambda>_. call (\<lambda>n. http_Post env n url b))"

lemma provider_Post_run:
  "provider_Post env url b w = (http_Post env (ticks w) url b, tick (w\<lparr>trace := trace w @ [HttpPost url b]\<rparr>))"
  by (simp add: provider_Post_def run_simps)

end
