(* ===== verification/IdempotentLog.thy ===== *)
theory IdempotentLog
  imports Postgres
begin

text \<open>
  The contract of a log with an idempotency key: an entry is added once for each key, and
  a second one is refused with a unique violation. Brokers and webhooks deliver at least
  once; what their consumers rely on is that delivering again changes nothing. Proved once
  here for any table whose unique index is an equality of keys.
\<close>

locale idempotent_log =
  fixes add :: "'r \<Rightarrow> 'r list \<Rightarrow> goerr + unit \<times> 'r list"
    and key :: "'r \<Rightarrow> 'k"
  assumes added: "add r rows = Inr ((), rows') \<Longrightarrow> rows' = rows @ [r] \<and> key r \<notin> key ` set rows"
    and refused: "key r \<in> key ` set rows \<Longrightarrow> \<exists>e. add r rows = Inl e \<and> IsPgErrorUniqueViolation e"
begin

text \<open>A delivery: an entry that is refused leaves the log as it was.\<close>

definition deliver :: "'r \<Rightarrow> 'r list \<Rightarrow> 'r list" where
  "deliver r rows = (case add r rows of Inl e \<Rightarrow> rows | Inr (u, rows') \<Rightarrow> rows')"

definition deliver_all :: "'r list \<Rightarrow> 'r list \<Rightarrow> 'r list" where
  "deliver_all rs rows = fold deliver rs rows"

lemma deliver_cases: "deliver r rows = rows \<or> deliver r rows = rows @ [r] \<and> key r \<notin> key ` set rows"
  by (auto simp: deliver_def split: sum.splits dest: added)

lemma deliver_known: "key r \<in> key ` set rows \<Longrightarrow> deliver r rows = rows"
  using deliver_cases by blast

lemma deliver_mono: "set rows \<subseteq> set (deliver r rows)"
  using deliver_cases[of r rows] by auto

lemma deliver_all_mono: "set rows \<subseteq> set (deliver_all rs rows)"
proof (induction rs arbitrary: rows)
  case (Cons r rs)
  from deliver_mono Cons[of "deliver r rows"] show ?case
    unfolding deliver_all_def fold_simps by (rule subset_trans)
qed (simp add: deliver_all_def)

lemma deliver_distinct: "distinct (map key rows) \<Longrightarrow> distinct (map key (deliver r rows))"
  using deliver_cases[of r rows] by auto

lemma deliver_all_distinct: "distinct (map key rows) \<Longrightarrow> distinct (map key (deliver_all rs rows))"
  by (induction rs arbitrary: rows) (simp_all add: deliver_all_def deliver_distinct)

text \<open>At-least-once delivery has the effect of delivering once.\<close>

lemma deliver_again: "\<forall>r\<in>set rs. key r \<in> key ` set rows \<Longrightarrow> deliver_all rs rows = rows"
  by (induction rs) (simp_all add: deliver_all_def deliver_known)

lemma no_new_key: "key r \<notin> key ` set rows \<Longrightarrow> key r \<in> key ` set (deliver r rows) \<Longrightarrow> deliver r rows = rows @ [r]"
  using deliver_cases[of r rows] by auto

end

text \<open>A table with a unique index on a key, and no other constraint that a row could violate.\<close>

lemma unique_index_log:
  assumes "(n, \<lambda>a b. key a = key b) \<in> set (uniques sch)" and "checks sch = []"
  shows "idempotent_log (sql_insert sch) key"
proof
  fix r rows rows'
  assume "sql_insert sch r rows = Inr ((), rows')"
  then have "rows' = rows @ [r]" and "rows_ok sch (rows @ [r])" by (simp_all add: sql_insert_ok)
  with assms(1) have "\<not> clashes (\<lambda>a b. key a = key b) (rows @ [r])"
    by (auto simp: rows_ok_def list_all_iff)
  with \<open>rows' = rows @ [r]\<close> show "rows' = rows @ [r] \<and> key r \<notin> key ` set rows"
    by (simp add: no_clash_key)
next
  fix r rows
  assume "key r \<in> key ` set rows"
  then have "clashes (\<lambda>a b. key a = key b) (rows @ [r])"
    using no_clash_key[of key "rows @ [r]"] by auto
  with assms(1) have "\<not> rows_ok sch (rows @ [r])" by (auto simp: rows_ok_def list_all_iff)
  then obtain e where e: "enforce sch (rows @ [r]) = Inl e"
    by (cases "enforce sch (rows @ [r])") (simp_all add: enforce_ok)
  then have "\<exists>n. e = unique_violation n"
    using assms(2) by (auto elim: enforce_err)
  with e show "\<exists>e. sql_insert sch r rows = Inl e \<and> IsPgErrorUniqueViolation e"
    by (auto simp: sql_insert_err IsPgErrorUniqueViolation_def unique_violation_def)
qed

end
