(* ===== verification/EventStore.thy ===== *)
theory EventStore
  imports PmDatabase IdempotentLog
begin

text \<open>
  Paymanager, package \<open>eventstore\<close>: the unified table of events, written inside the
  transaction of the change it records, and \<open>writeEvent\<close>, through which the services of
  orders and disputes use it.
\<close>

record NewEvent =
  ne_AggregateType :: string
  ne_AggregateID :: string
  ne_EventType :: string
  ne_IdempotencyKey :: string
  ne_Payload :: json
  ne_CreatedAt :: time

definition event_to_row :: "string \<Rightarrow> NewEvent \<Rightarrow> event_row" where
  "event_to_row i ev = \<lparr>e_id = i, e_aggregate_type = ne_AggregateType ev,
     e_aggregate_id = ne_AggregateID ev, e_event_type = ne_EventType ev,
     e_idempotency_key = ne_IdempotencyKey ev, e_payload = ne_Payload ev, e_created_at = ne_CreatedAt ev\<rparr>"

text \<open>\<open>if IsPgErrorUniqueViolation(err) { return already }\<close>, else wrap.\<close>

definition stored_or_wrapped :: "sentinel \<Rightarrow> string \<Rightarrow> goerr \<Rightarrow> goerr" where
  "stored_or_wrapped already msg err =
    (if IsPgErrorUniqueViolation err then Sentinel already else wrap msg err)"

text \<open>The result is the identifier of the stored event; the rest of it is the argument.\<close>

definition CreateEvent :: "('b) penv_scheme \<Rightarrow> NewEvent \<Rightarrow> string pm" where
  "CreateEvent env ev =
     bnd (uuid_New env) (\<lambda>i.
     bnd (map_err (stored_or_wrapped Eventstore_ErrEventAlreadyStored ''create event'')
       (sql env (in_table events events_update (sql_insert events_schema (event_to_row i ev))))) (\<lambda>_.
     ret i))"

text \<open>A duplicate is no error for \<open>writeEvent\<close>.\<close>

definition writeEvent ::
  "('b) penv_scheme \<Rightarrow> string \<Rightarrow> string \<Rightarrow> string \<Rightarrow> string \<Rightarrow> json \<Rightarrow> unit pm" where
  "writeEvent env aggregateType aggregateID eventType key payload =
     bnd (time_Now env) (\<lambda>now.
     bnd (attempt (CreateEvent env \<lparr>ne_AggregateType = aggregateType, ne_AggregateID = aggregateID,
            ne_EventType = eventType, ne_IdempotencyKey = key, ne_Payload = payload,
            ne_CreatedAt = now\<rparr>)) (\<lambda>r. case r of
         Inl err \<Rightarrow> if errors_Is err Eventstore_ErrEventAlreadyStored then ret ()
                    else throw (wrap ''write unified event'' err)
       | Inr _ \<Rightarrow> ret ()))"

abbreviation AggregateOrder :: string where "AggregateOrder \<equiv> ''order''"
abbreviation AggregateDispute :: string where "AggregateDispute \<equiv> ''dispute''"

section \<open>The log\<close>

definition event_key :: "event_row \<Rightarrow> string \<times> string \<times> string" where
  "event_key r = (e_aggregate_type r, e_aggregate_id r, e_idempotency_key r)"

interpretation event_log: idempotent_log "sql_insert events_schema" event_key
proof (rule unique_index_log)
  have "(\<lambda>a b. event_key a = event_key b) = (\<lambda>a b. e_aggregate_type a = e_aggregate_type b
      \<and> e_aggregate_id a = e_aggregate_id b \<and> e_idempotency_key a = e_idempotency_key b)"
    by (auto simp: event_key_def fun_eq_iff)
  then show "(''idx_events_idempotency'', \<lambda>a b. event_key a = event_key b) \<in> set (uniques events_schema)"
    by (simp add: events_schema_def)
qed (simp add: events_schema_def)

lemma CreateEvent_okE [run_elims]:
  assumes "CreateEvent env ev w = (Inr i, w')"
  obtains "data w' = (data w)\<lparr>events := events (data w) @ [event_to_row i ev]\<rparr>"
    and "event_key (event_to_row i ev) \<notin> event_key ` set (events (data w))"
    and "rows_ok events_schema (events (data w'))"
    and "trace w' = trace w" and "\<not> tx_failed w'" and "\<not> tx_failed w" and "in_tx w' = in_tx w"
proof -
  from assms obtain d rows where ins: "sql_insert events_schema (event_to_row i ev) (events (data w)) = Inr ((), rows)"
    and d: "d = (data w)\<lparr>events := rows\<rparr>"
    and w': "w' = (tick (tick w))\<lparr>data := d\<rparr>" and calm: "\<not> tx_failed w"
    unfolding CreateEvent_def
    by (auto simp: in_table_ok elim!: bnd_okE ask_okE map_err_okE sql_okE)
  from event_log.added[OF ins] ins d w' calm show thesis
    by (intro that) (auto simp: sql_insert_ok)
qed

lemma CreateEvent_errE:
  assumes "CreateEvent env ev w = (Inl e, w')"
  obtains "data w' = data w" and "trace w' = trace w" and "in_tx w' = in_tx w"
    and "tx_failed w' = (tx_failed w \<or> in_tx w)"
proof -
  from assms obtain e0 where "sql env (in_table events events_update
      (sql_insert events_schema (event_to_row (fresh env (ticks w)) ev))) (tick w) = (Inl e0, w')"
    unfolding CreateEvent_def by (auto elim!: bnd_errE ask_okE ask_errE map_err_errE)
  then show thesis by (rule sql_errE) (rule that, simp_all)
qed

text \<open>A key that is taken, with a database that works: the statement fails, and with it the transaction.\<close>

lemma CreateEvent_refused:
  assumes "healthy env" and "\<not> tx_failed w"
    and "(ne_AggregateType ev, ne_AggregateID ev, ne_IdempotencyKey ev) \<in> event_key ` set (events (data w))"
  shows "CreateEvent env ev w
    = (Inl (Sentinel Eventstore_ErrEventAlreadyStored), (tick (tick w))\<lparr>tx_failed := in_tx w\<rparr>)"
proof -
  let ?row = "event_to_row (fresh env (ticks w)) ev"
  have "event_key ?row \<in> event_key ` set (events (data w))"
    using assms(3) by (simp add: event_key_def event_to_row_def)
  from event_log.refused[OF this] obtain e where e: "sql_insert events_schema ?row (events (data w)) = Inl e"
    "IsPgErrorUniqueViolation e" by blast
  then have "in_table events events_update (sql_insert events_schema ?row) (data w) = Inl e"
    by (simp add: in_table_err)
  with e assms(1,2) show ?thesis
    by (simp add: CreateEvent_def run_simps sql_run stored_or_wrapped_def)
qed

lemma writeEvent_taken:
  assumes "healthy env" and "\<not> tx_failed w" and "(aty, aid, key) \<in> event_key ` set (events (data w))"
  shows "writeEvent env aty aid ety key payload w = (Inr (), (tick (tick (tick w)))\<lparr>tx_failed := in_tx w\<rparr>)"
  using assms by (simp add: writeEvent_def run_simps CreateEvent_refused)

text \<open>
  What \<open>writeEvent\<close> has done when it returned: stored the event, or found the key taken,
  and then an open transaction is lost.
\<close>

lemma writeEvent_okE:
  assumes "writeEvent env aty aid ety key payload w = (Inr u, w')"
  obtains (stored) i now where "data w' = (data w)\<lparr>events := events (data w)
        @ [event_to_row i \<lparr>ne_AggregateType = aty, ne_AggregateID = aid, ne_EventType = ety,
             ne_IdempotencyKey = key, ne_Payload = payload, ne_CreatedAt = now\<rparr>]\<rparr>"
      and "(aty, aid, key) \<notin> event_key ` set (events (data w))"
      and "trace w' = trace w" and "\<not> tx_failed w'" and "\<not> tx_failed w" and "in_tx w' = in_tx w"
  | (lost) "data w' = data w" and "trace w' = trace w" and "in_tx w' = in_tx w"
      and "tx_failed w' = (tx_failed w \<or> in_tx w)"
proof -
  from assms obtain r now where run: "CreateEvent env \<lparr>ne_AggregateType = aty, ne_AggregateID = aid,
      ne_EventType = ety, ne_IdempotencyKey = key, ne_Payload = payload, ne_CreatedAt = now\<rparr> (tick w) = (r, w')"
    unfolding writeEvent_def by (auto elim!: bnd_okE ask_okE attempt_okE split: sum.splits if_splits)
  show thesis
  proof (cases r)
    case (Inl e)
    with run show thesis by (auto elim!: CreateEvent_errE intro: lost)
  next
    case (Inr i)
    with run show thesis
      by (auto simp: event_key_def event_to_row_def elim!: CreateEvent_okE intro!: stored)
  qed
qed

lemma writeEvent_errE:
  assumes "writeEvent env aty aid ety key payload w = (Inl e, w')"
  obtains "data w' = data w" and "trace w' = trace w"
  using assms unfolding writeEvent_def
  by (auto elim!: bnd_errE ask_okE ask_errE attempt_okE attempt_errE CreateEvent_errE CreateEvent_okE
      split: sum.splits if_splits)

end
