(* ===== verification/SilvergateClient.thy ===== *)
theory SilvergateClient
  imports PmDatabase
begin

text \<open>
  Paymanager, packages \<open>gateway\<close> and \<open>silvergateclient\<close>: the requests to silvergate and the
  reading of its answers. An order's capture amount is a \<open>float64\<close>, and the conversions
  between it and \<open>int64\<close> are written out.
\<close>

section \<open>Conversions\<close>

text \<open>The number of low bits that a 53-bit significand has no room for.\<close>

fun excess_bits :: "nat \<Rightarrow> nat" where
  "excess_bits m = (if m < 2 ^ 53 then 0 else Suc (excess_bits (m div 2)))"

declare excess_bits.simps [simp del]

text \<open>\<open>float64(n)\<close>: to the nearest, ties to the even significand.\<close>

definition round_sig :: "nat \<Rightarrow> nat" where
  "round_sig m =
    (let e = excess_bits m; q = m div 2 ^ e; r = m mod 2 ^ e; half = 2 ^ e div 2
     in if e = 0 then m
        else if half < r \<or> r = half \<and> odd q then (q + 1) * 2 ^ e else q * 2 ^ e)"

definition float64_of_int64 :: "int64 \<Rightarrow> rat" where
  "float64_of_int64 a =
    (let n = sint a in if 0 \<le> n then of_nat (round_sig (nat n)) else - of_nat (round_sig (nat (- n))))"

text \<open>
  \<open>int64(x)\<close> drops the fraction. Out of the range the result depends on the implementation;
  here it is that of amd64.
\<close>

definition int64_of_float64 :: "rat \<Rightarrow> int64" where
  "int64_of_float64 x =
    (let n = (if 0 \<le> x then \<lfloor>x\<rfloor> else \<lceil>x\<rceil>)
     in if - (2 ^ 63) \<le> n \<and> n < 2 ^ 63 then word_of_int n else word_of_int (- (2 ^ 63)))"

section \<open>Requests and results\<close>

record EvidenceFile =
  ef_FileID :: string
  ef_Name :: string
  ef_ContentType :: string
  ef_Size :: int64

text \<open>A slice; \<open>None\<close> is the nil slice, which has no elements either.\<close>

type_synonym 'a slice = "'a list option"

definition elements :: "'a slice \<Rightarrow> 'a list" where
  "elements s = (case s of None \<Rightarrow> [] | Some xs \<Rightarrow> xs)"

record GwEvidence =
  gv_Fields :: go_map
  gv_Files :: "EvidenceFile slice"

record GwCaptureRequest =
  gc_OrderID :: string
  gc_Amount :: rat
  gc_Currency :: string
  gc_IdempotencyKey :: string

record GwCaptureResult =
  gs_ProviderTxID :: string
  gs_Status :: string

abbreviation CaptureStatusSuccess :: string where "CaptureStatusSuccess \<equiv> ''success''"
abbreviation CaptureStatusFailed :: string where "CaptureStatusFailed \<equiv> ''failed''"

record GwAuthRequest =
  ga_MerchantID :: string
  ga_OrderID :: string
  ga_Amount :: int64
  ga_Currency :: string
  ga_CardToken :: string

record GwAuthResult =
  gt_TransactionID :: string
  gt_Status :: string
  gt_DeclineReason :: string

abbreviation AuthStatusAuthorized :: string where "AuthStatusAuthorized \<equiv> ''authorized''"
abbreviation AuthStatusDeclined :: string where "AuthStatusDeclined \<equiv> ''declined''"

text \<open>The client's URLs.\<close>

record Client =
  cl_BaseURL :: string
  cl_SubmitRepresentmentUrl :: string
  cl_CaptureUrl :: string
  cl_AuthUrl :: string
  cl_VoidUrl :: string

definition Client_New :: "string \<Rightarrow> string \<Rightarrow> string \<Rightarrow> string \<Rightarrow> string \<Rightarrow> Client" where
  "Client_New baseURL submitPath capturePath authPath voidPath =
     \<lparr>cl_BaseURL = baseURL, cl_SubmitRepresentmentUrl = baseURL @ submitPath,
      cl_CaptureUrl = baseURL @ capturePath, cl_AuthUrl = baseURL @ authPath,
      cl_VoidUrl = baseURL @ voidPath\<rparr>"

section \<open>Operations\<close>

text \<open>
  The part all operations share: post, refuse a status other than 2xx with its text, and
  hand over the decoded body.
\<close>

definition post_json ::
  "('b) penv_scheme \<Rightarrow> string \<Rightarrow> json \<Rightarrow> string \<Rightarrow> string \<Rightarrow> http_answer pm" where
  "post_json env url req http_msg provider_msg =
     bnd (map_err (wrap http_msg) (provider_Post env url req)) (\<lambda>resp.
     bnd (fail_if (ha_StatusCode resp div 100 \<noteq> 2)
       (ErrText (provider_msg @ '' '' @ ha_Status resp @ '': '' @ ha_Raw resp))) (\<lambda>_.
     ret resp))"

definition decode ::
  "string \<Rightarrow> ((string \<times> json) list \<Rightarrow> goerr + 'a) \<Rightarrow> http_answer \<Rightarrow> goerr + 'a" where
  "decode msg read resp = (case bind_sum (bind_sum (ha_JSON resp) fields_of) read of
      Inl e \<Rightarrow> Inl (wrap msg e) | Inr x \<Rightarrow> Inr x)"

definition CapturePayment :: "('b) penv_scheme \<Rightarrow> Client \<Rightarrow> GwCaptureRequest \<Rightarrow> GwCaptureResult pm" where
  "CapturePayment env c req =
     bnd (post_json env (cl_CaptureUrl c)
       (JObj [(''transaction_id'', JStr (gc_OrderID req)),
              (''amount'', json_int64 (int64_of_float64 (gc_Amount req))),
              (''idempotency_key'', JStr (gc_IdempotencyKey req))])
       ''http capture request'' ''capture provider'') (\<lambda>resp.
     bnd (of_sum (decode ''unmarshal capture response''
       (\<lambda>fs. bind_sum (str_field fs ''transaction_id'') (\<lambda>t.
             bind_sum (str_field fs ''status'') (\<lambda>st. Inr (t, st)))) resp)) (\<lambda>(t, st).
     ret \<lparr>gs_ProviderTxID = t,
          gs_Status = (if st = ''success'' then CaptureStatusSuccess else CaptureStatusFailed)\<rparr>))"

definition AuthorizePayment :: "('b) penv_scheme \<Rightarrow> Client \<Rightarrow> GwAuthRequest \<Rightarrow> GwAuthResult pm" where
  "AuthorizePayment env c req =
     bnd (post_json env (cl_AuthUrl c)
       (JObj [(''merchant_id'', JStr (ga_MerchantID req)), (''order_id'', JStr (ga_OrderID req)),
              (''amount'', json_int64 (ga_Amount req)), (''currency'', JStr (ga_Currency req)),
              (''card_token'', JStr (ga_CardToken req))])
       ''http auth request'' ''auth provider'') (\<lambda>resp.
     bnd (of_sum (decode ''unmarshal auth response''
       (\<lambda>fs. bind_sum (str_field fs ''transaction_id'') (\<lambda>t.
             bind_sum (str_field fs ''status'') (\<lambda>st.
             bind_sum (str_field fs ''order_id'') (\<lambda>_.
             bind_sum (str_field fs ''decline_reason'') (\<lambda>why. Inr (t, st, why)))))) resp)) (\<lambda>(t, st, why).
     ret \<lparr>gt_TransactionID = t,
          gt_Status = (if st = ''authorized'' then AuthStatusAuthorized else AuthStatusDeclined),
          gt_DeclineReason = why\<rparr>))"

text \<open>The result is the transaction and the status the provider reports.\<close>

definition VoidPayment :: "('b) penv_scheme \<Rightarrow> Client \<Rightarrow> string \<Rightarrow> (string \<times> string) pm" where
  "VoidPayment env c transactionID =
     bnd (post_json env (cl_VoidUrl c) (JObj [(''transaction_id'', JStr transactionID)])
       ''http void request'' ''void provider'') (\<lambda>resp.
     of_sum (decode ''unmarshal void response''
       (\<lambda>fs. bind_sum (str_field fs ''transaction_id'') (\<lambda>t.
             bind_sum (str_field fs ''status'') (\<lambda>st. Inr (t, st)))) resp))"

record GwRefundRequest =
  gf_TransactionID :: string
  gf_Amount :: int64
  gf_IdempotencyKey :: string

record GwRefundResult =
  gu_RefundID :: string
  gu_TransactionID :: string
  gu_Amount :: int64
  gu_Status :: string

definition RefundPayment :: "('b) penv_scheme \<Rightarrow> Client \<Rightarrow> GwRefundRequest \<Rightarrow> GwRefundResult pm" where
  "RefundPayment env c req =
     bnd (post_json env (cl_BaseURL c @ ''/api/v1/refund'')
       (JObj [(''transaction_id'', JStr (gf_TransactionID req)), (''amount'', json_int64 (gf_Amount req)),
              (''idempotency_key'', JStr (gf_IdempotencyKey req))])
       ''http refund request'' ''refund provider'') (\<lambda>resp.
     of_sum (decode ''unmarshal refund response''
       (\<lambda>fs. bind_sum (str_field fs ''refund_id'') (\<lambda>r.
             bind_sum (str_field fs ''transaction_id'') (\<lambda>t.
             bind_sum (int64_field fs ''amount'') (\<lambda>a.
             bind_sum (str_field fs ''status'') (\<lambda>st.
             Inr \<lparr>gu_RefundID = r, gu_TransactionID = t, gu_Amount = a, gu_Status = st\<rparr>))))) resp))"

text \<open>A body that cannot be read leaves the submission identifier empty.\<close>

definition SubmitRepresentment :: "('b) penv_scheme \<Rightarrow> Client \<Rightarrow> string \<Rightarrow> GwEvidence \<Rightarrow> string pm" where
  "SubmitRepresentment env c orderID ev =
     bnd (post_json env (cl_SubmitRepresentmentUrl c)
       (JObj ([(''order_id'', JStr orderID)]
         @ (if elements (gv_Files ev) = [] then []
            else [(''evidences_file_id'', JArr (map (\<lambda>f. JStr (ef_FileID f)) (elements (gv_Files ev))))])))
       ''http'' ''provider'') (\<lambda>resp.
     ret (case decode '''' (\<lambda>fs. str_field fs ''id'') resp of Inl _ \<Rightarrow> '''' | Inr i \<Rightarrow> i))"

section \<open>What the conversions keep\<close>

lemma round_sig_small: "m \<le> 2 ^ 53 \<Longrightarrow> round_sig m = m"
proof (cases "m = 2 ^ 53")
  case True
  have "excess_bits (2 ^ 53) = 1" by (simp add: excess_bits.simps)
  with True show ?thesis by (simp add: round_sig_def)
next
  case False
  assume "m \<le> 2 ^ 53"
  with False have "excess_bits m = 0" by (subst excess_bits.simps) simp
  then show ?thesis by (simp add: round_sig_def)
qed

lemma int64_of_float64_int:
  "- (2 ^ 63) \<le> n \<Longrightarrow> n < 2 ^ 63 \<Longrightarrow> int64_of_float64 (of_int n) = word_of_int n"
  by (simp add: int64_of_float64_def)

lemma float64_of_int64_small:
  "\<bar>sint a\<bar> \<le> 2 ^ 53 \<Longrightarrow> float64_of_int64 a = of_int (sint a)"
  by (cases "0 \<le> sint a") (simp_all add: float64_of_int64_def Let_def round_sig_small del: of_int_sint)

lemma amount_survives_float:
  assumes "\<bar>sint a\<bar> \<le> 2 ^ 53"
  shows "int64_of_float64 (float64_of_int64 a) = a"
proof -
  have "int64_of_float64 (of_int (sint a)) = word_of_int (sint a)"
    using assms by (intro int64_of_float64_int) auto
  then show ?thesis unfolding float64_of_int64_small[OF assms] by simp
qed

end
