(* ===== verification/GoDuration.thy ===== *)
theory GoDuration
  imports GoStd Http
begin

text \<open>
  \<open>time.ParseDuration\<close>: an optional sign and a sequence of decimal numbers, each with a
  unit and an optional fraction, such as \<open>1h30m\<close> or \<open>1.5s\<close>. A fraction of a nanosecond is
  dropped; the library computes the fraction in \<open>float64\<close>, here it is exact.
\<close>

definition duration_unit :: "string \<Rightarrow> int option" where
  "duration_unit u =
    (if u = ''ns'' then Some 1
     else if u = ''us'' \<or> u = [CHR 0xC2, CHR 0xB5, CHR ''s''] \<or> u = [CHR 0xCE, CHR 0xBC, CHR ''s''] then Some 1000
     else if u = ''ms'' then Some 1000000
     else if u = ''s'' then Some 1000000000
     else if u = ''m'' then Some 60000000000
     else if u = ''h'' then Some 3600000000000
     else None)"

text \<open>The digits of a number, the digits of its fraction, and what follows.\<close>

definition duration_number :: "string \<Rightarrow> string \<times> string \<times> string" where
  "duration_number s = (let s1 = dropWhile is_digit s in
     (takeWhile is_digit s,
      if s1 \<noteq> [] \<and> hd s1 = CHR ''.'' then (takeWhile is_digit (tl s1), dropWhile is_digit (tl s1))
      else ([], s1)))"

abbreviation unit_char :: "char \<Rightarrow> bool" where
  "unit_char c \<equiv> c \<noteq> CHR ''.'' \<and> \<not> is_digit c"

text \<open>One number with its unit, and the rest of the text.\<close>

definition duration_term :: "string \<Rightarrow> (int \<times> string) option" where
  "duration_term s = (case duration_number s of (whole, fraction, s2) \<Rightarrow>
     if whole = [] \<and> fraction = [] then None
     else case duration_unit (takeWhile unit_char s2) of
       None \<Rightarrow> None
     | Some n \<Rightarrow>
         let v = int (read_nat whole) * n + int (read_nat fraction) * n div 10 ^ length fraction
         in if v > 2 ^ 63 then None else Some (v, dropWhile unit_char s2))"

lemma dropWhile_shorter: "length (dropWhile P s) \<le> length s"
  by (induction s) auto

lemma takeWhile_dropWhile_less: "takeWhile P s \<noteq> [] \<Longrightarrow> length (dropWhile P s) < length s"
  by (metis append_self_conv2 dropWhile_shorter le_neq_implies_less length_append
      add_cancel_left_left length_0_conv takeWhile_dropWhile_id)

lemma duration_term_shorter:
  assumes "duration_term s = Some (v, rest)"
  shows "length rest < length s"
proof -
  obtain whole fraction s2 where num: "duration_number s = (whole, fraction, s2)"
    by (cases "duration_number s")
  have "length (dropWhile is_digit (tl (dropWhile is_digit s))) \<le> length s"
    using dropWhile_shorter[of is_digit "tl (dropWhile is_digit s)"] dropWhile_shorter[of is_digit s] by simp
  with num have le: "length s2 \<le> length s"
    using dropWhile_shorter[of is_digit s] by (auto simp: duration_number_def Let_def split: if_splits)
  have "duration_unit [] = None" by (simp add: duration_unit_def)
  with assms num have "takeWhile unit_char s2 \<noteq> []" and "rest = dropWhile unit_char s2"
    by (auto simp: duration_term_def Let_def split: if_splits option.splits)
  with le takeWhile_dropWhile_less[of unit_char s2] show ?thesis by simp
qed

text \<open>The sum of the terms; it has to stay within 64 bits.\<close>

function duration_sum :: "string \<Rightarrow> int \<Rightarrow> int option" where
  "duration_sum s d = (if s = [] then Some d
     else case duration_term s of
       None \<Rightarrow> None
     | Some (v, rest) \<Rightarrow> if d + v > 2 ^ 63 then None else duration_sum rest (d + v))"
  by pat_completeness auto
termination
  by (relation "measure (\<lambda>(s, d). length s)") (auto dest: duration_term_shorter)

declare duration_sum.simps [simp del]

definition ParseDuration :: "string \<Rightarrow> goerr + int" where
  "ParseDuration s =
    (let (neg, t) = (case s of c # cs \<Rightarrow> (if c = CHR ''-'' then (True, cs)
                       else if c = CHR ''+'' then (False, cs) else (False, s)) | [] \<Rightarrow> (False, []));
         bad = Inl (ErrText (''time: invalid duration \"'' @ s @ ''\"''))
     in if t = ''0'' then Inr 0
        else if t = [] then bad
        else case duration_sum t 0 of
          None \<Rightarrow> bad
        | Some d \<Rightarrow> if neg then Inr (- d) else if d = 2 ^ 63 then bad else Inr d)"

lemma ParseDuration_examples:
  "ParseDuration ''1h30m'' = Inr 5400000000000"
  "ParseDuration ''1.5s'' = Inr 1500000000"
  "ParseDuration ''-5ms'' = Inr (- 5000000)"
  "ParseDuration ''10'' = Inl (ErrText ''time: invalid duration \"10\"'')"
  by code_simp+

end
