(* ===== verification/PmPayment.thy ===== *)
theory PmPayment
  imports EventStore SilvergateClient StatusMachine GoDuration
begin

text \<open>
  Paymanager, packages \<open>payment\<close> and \<open>paymentrepo\<close>: the payment entity and its status
  table, the repository, and the service with its goroutines and its webhook.
\<close>

section \<open>Status\<close>

abbreviation PayAuthorized :: string where "PayAuthorized \<equiv> ''authorized''"
abbreviation PayDeclined :: string where "PayDeclined \<equiv> ''declined''"
abbreviation PayCapturePending :: string where "PayCapturePending \<equiv> ''capture_pending''"
abbreviation PayCaptured :: string where "PayCaptured \<equiv> ''captured''"
abbreviation PayCaptureFailed :: string where "PayCaptureFailed \<equiv> ''capture_failed''"
abbreviation PayVoided :: string where "PayVoided \<equiv> ''voided''"
abbreviation PayPartiallyRefunded :: string where "PayPartiallyRefunded \<equiv> ''partially_refunded''"
abbreviation PayRefunded :: string where "PayRefunded \<equiv> ''refunded''"

definition pay_validTransitions :: "string \<rightharpoonup> string list" where
  "pay_validTransitions = [
     PayAuthorized \<mapsto> [PayCapturePending, PayVoided],
     PayCapturePending \<mapsto> [PayCaptured, PayCaptureFailed],
     PayCaptured \<mapsto> [PayPartiallyRefunded, PayRefunded],
     PayPartiallyRefunded \<mapsto> [PayPartiallyRefunded, PayRefunded]]"

definition pay_CanTransitionTo :: "string \<Rightarrow> string \<Rightarrow> bool" where
  "pay_CanTransitionTo s target = (case pay_validTransitions s of
      None \<Rightarrow> False
    | Some allowed \<Rightarrow> list_ex (\<lambda>a. a = target) allowed)"

lemma pay_CanTransitionTo_iff:
  "pay_CanTransitionTo s t \<longleftrightarrow>
     (s = PayAuthorized \<and> (t = PayCapturePending \<or> t = PayVoided))
   \<or> (s = PayCapturePending \<and> (t = PayCaptured \<or> t = PayCaptureFailed))
   \<or> ((s = PayCaptured \<or> s = PayPartiallyRefunded) \<and> (t = PayPartiallyRefunded \<or> t = PayRefunded))"
proof -
  consider "s = PayAuthorized" | "s = PayCapturePending" | "s = PayCaptured" | "s = PayPartiallyRefunded"
    | "s \<noteq> PayAuthorized" "s \<noteq> PayCapturePending" "s \<noteq> PayCaptured" "s \<noteq> PayPartiallyRefunded"
    by blast
  then show ?thesis
    by cases (simp_all add: pay_CanTransitionTo_def pay_validTransitions_def eq_commute[of t])
qed

definition pay_rank :: "string \<Rightarrow> nat" where
  "pay_rank s =
    (if s = PayAuthorized then 0 else if s = PayCapturePending then 1
     else if s = PayCaptured then 2 else if s = PayPartiallyRefunded then 3 else 4)"

interpretation pay_status: status_machine pay_CanTransitionTo pay_rank
  by unfold_locales (auto simp: pay_CanTransitionTo_iff pay_rank_def)

section \<open>Payments\<close>

record Payment =
  py_ID :: string
  py_Amount :: int64
  py_Currency :: string
  py_CardToken :: string
  py_Status :: string
  py_DeclineReason :: string
  py_ProviderTxID :: string
  py_MerchantID :: string
  py_RefundedAmount :: int64
  py_CaptureAt :: "time option"
  py_CreatedAt :: time
  py_UpdatedAt :: time

definition pay_NewAuthorized ::
  "('b) env_scheme \<Rightarrow> int64 \<Rightarrow> string \<Rightarrow> string \<Rightarrow> string \<Rightarrow> string \<Rightarrow> Payment pm" where
  "pay_NewAuthorized env amount currency cardToken providerTxID merchantID =
     bnd (time_Now env) (\<lambda>now. bnd (uuid_New env) (\<lambda>i.
       ret \<lparr>py_ID = i, py_Amount = amount, py_Currency = currency, py_CardToken = cardToken,
            py_Status = PayAuthorized, py_DeclineReason = '''', py_ProviderTxID = providerTxID,
            py_MerchantID = merchantID, py_RefundedAmount = 0, py_CaptureAt = None,
            py_CreatedAt = now, py_UpdatedAt = now\<rparr>))"

definition pay_NewDeclined ::
  "('b) env_scheme \<Rightarrow> int64 \<Rightarrow> string \<Rightarrow> string \<Rightarrow> string \<Rightarrow> string \<Rightarrow> string \<Rightarrow> Payment pm" where
  "pay_NewDeclined env amount currency cardToken providerTxID merchantID reason =
     bnd (time_Now env) (\<lambda>now. bnd (uuid_New env) (\<lambda>i.
       ret \<lparr>py_ID = i, py_Amount = amount, py_Currency = currency, py_CardToken = cardToken,
            py_Status = PayDeclined, py_DeclineReason = reason, py_ProviderTxID = providerTxID,
            py_MerchantID = merchantID, py_RefundedAmount = 0, py_CaptureAt = None,
            py_CreatedAt = now, py_UpdatedAt = now\<rparr>))"

section \<open>The repository\<close>

definition pay_nilIfEmpty :: "string \<Rightarrow> string option" where
  "pay_nilIfEmpty s = (if s = '''' then None else Some s)"

definition pay_to_row :: "Payment \<Rightarrow> pay_row" where
  "pay_to_row p = \<lparr>y_id = py_ID p, y_amount = py_Amount p, y_currency = py_Currency p,
     y_card_token = py_CardToken p, y_status = py_Status p,
     y_decline_reason = pay_nilIfEmpty (py_DeclineReason p),
     y_provider_tx_id = pay_nilIfEmpty (py_ProviderTxID p), y_merchant_id = py_MerchantID p,
     y_refunded_amount = py_RefundedAmount p, y_capture_at = py_CaptureAt p,
     y_created_at = py_CreatedAt p, y_updated_at = py_UpdatedAt p\<rparr>"

definition payrepo_CreatePayment :: "('b) penv_scheme \<Rightarrow> Payment \<Rightarrow> unit pm" where
  "payrepo_CreatePayment env p =
     map_err (stored_or_wrapped Payment_ErrAlreadyExists ''insert payment'')
       (sql env (in_table payments payments_update (sql_insert payments_schema (pay_to_row p))))"

definition text_of :: "string option \<Rightarrow> string" where
  "text_of s = (case s of None \<Rightarrow> '''' | Some x \<Rightarrow> x)"

definition pay_of_row :: "pay_row \<Rightarrow> Payment" where
  "pay_of_row r = \<lparr>py_ID = y_id r, py_Amount = y_amount r, py_Currency = y_currency r,
     py_CardToken = y_card_token r, py_Status = y_status r,
     py_DeclineReason = text_of (y_decline_reason r),
     py_ProviderTxID = text_of (y_provider_tx_id r), py_MerchantID = y_merchant_id r,
     py_RefundedAmount = y_refunded_amount r, py_CaptureAt = y_capture_at r,
     py_CreatedAt = y_created_at r, py_UpdatedAt = y_updated_at r\<rparr>"

definition scanPayment :: "('b) penv_scheme \<Rightarrow> executor \<Rightarrow> (pay_row \<Rightarrow> bool) \<Rightarrow> Payment pm" where
  "scanPayment env x p =
     bnd (map_err (wrap ''query payment'') (read_db env x (query_row payments p))) (\<lambda>r. case r of
         None \<Rightarrow> throw (Sentinel Payment_ErrNotFound)
       | Some row \<Rightarrow> ret (pay_of_row row))"

definition payrepo_GetPaymentByID :: "('b) penv_scheme \<Rightarrow> executor \<Rightarrow> string \<Rightarrow> Payment pm" where
  "payrepo_GetPaymentByID env x i = scanPayment env x (\<lambda>r. y_id r = i)"

definition payrepo_GetPaymentByProviderTxID :: "('b) penv_scheme \<Rightarrow> executor \<Rightarrow> string \<Rightarrow> Payment pm" where
  "payrepo_GetPaymentByProviderTxID env x txID = scanPayment env x (\<lambda>r. y_provider_tx_id r = Some txID)"

definition update_payments ::
  "(pay_row \<Rightarrow> bool) \<Rightarrow> (pay_row \<Rightarrow> pay_row) \<Rightarrow> pm_data \<Rightarrow> goerr + nat \<times> pm_data" where
  "update_payments p f = in_table payments payments_update (sql_update payments_schema p f)"

definition payrepo_UpdatePaymentStatus ::
  "('b) penv_scheme \<Rightarrow> string \<Rightarrow> string \<Rightarrow> string \<Rightarrow> unit pm" where
  "payrepo_UpdatePaymentStatus env i status declineReason =
     bnd (time_Now env) (\<lambda>now.
     bnd (map_err (wrap ''update payment'') (sql env (update_payments (\<lambda>r. y_id r = i)
       (\<lambda>r. r\<lparr>y_status := status, y_updated_at := now,
             y_decline_reason := (if declineReason \<noteq> '''' then Some declineReason
                                  else y_decline_reason r)\<rparr>)))) (\<lambda>affected.
     fail_if (affected = 0) (Sentinel Payment_ErrNotFound)))"

definition payrepo_UpdatePaymentRefund ::
  "('b) penv_scheme \<Rightarrow> string \<Rightarrow> string \<Rightarrow> int64 \<Rightarrow> unit pm" where
  "payrepo_UpdatePaymentRefund env i status refundedAmount =
     bnd (time_Now env) (\<lambda>now.
     bnd (map_err (wrap ''update payment refund'') (sql env (update_payments (\<lambda>r. y_id r = i)
       (\<lambda>r. r\<lparr>y_status := status, y_refunded_amount := refundedAmount, y_updated_at := now\<rparr>)))) (\<lambda>affected.
     fail_if (affected = 0) (Sentinel Payment_ErrNotFound)))"

section \<open>The service\<close>

record CreatePaymentRequest =
  cp_Amount :: int64
  cp_Currency :: string
  cp_CardToken :: string
  cp_CaptureDelay :: string

definition capture_delay :: "string \<Rightarrow> goerr + int" where
  "capture_delay s = (if s = '''' then Inr 0
     else case ParseDuration s of Inl e \<Rightarrow> Inl (wrap ''invalid capture_delay'' e) | Inr d \<Rightarrow> Inr d)"

text \<open>An authorised payment with a positive delay is given the time of its capture.\<close>

definition schedule :: "('b) penv_scheme \<Rightarrow> int \<Rightarrow> Payment \<Rightarrow> Payment pm" where
  "schedule env delay p =
    (if py_Status p = PayAuthorized \<and> 0 < delay
     then bnd (time_Now env) (\<lambda>now. ret (p\<lparr>py_CaptureAt := Some (now + delay)\<rparr>))
     else ret p)"

text \<open>The capture after the payment was saved: at once, or by a goroutine that waits.\<close>

definition start_capture :: "('b) penv_scheme \<Rightarrow> int \<Rightarrow> Payment \<Rightarrow> Payment pm" where
  "start_capture env delay p =
    (if py_Status p \<noteq> PayAuthorized then ret p
     else if delay = 0 then
       bnd (time_Now env) (\<lambda>now.
       let p' = p\<lparr>py_Status := PayCapturePending, py_UpdatedAt := now\<rparr> in
       bnd (attempt (payrepo_UpdatePaymentStatus env (py_ID p') PayCapturePending '''')) (\<lambda>r. case r of
           Inl err \<Rightarrow> ret p'
         | Inr _ \<Rightarrow> bnd (emit (GoCapture (py_ID p') (py_ProviderTxID p') (py_Amount p'))) (\<lambda>_. ret p')))
     else bnd (emit (GoDelayedCapture (py_ID p) (py_ProviderTxID p) (py_Amount p) delay)) (\<lambda>_. ret p))"

definition CreatePayment ::
  "('b) penv_scheme \<Rightarrow> Client \<Rightarrow> string \<Rightarrow> CreatePaymentRequest \<Rightarrow> Payment pm" where
  "CreatePayment env c merchantID req =
     bnd (of_sum (capture_delay (cp_CaptureDelay req))) (\<lambda>delay.
     bnd (uuid_New env) (\<lambda>orderID.
     bnd (map_err (wrap ''authorize payment'') (AuthorizePayment env c
       \<lparr>ga_MerchantID = merchantID, ga_OrderID = orderID, ga_Amount = cp_Amount req,
        ga_Currency = cp_Currency req, ga_CardToken = cp_CardToken req\<rparr>)) (\<lambda>auth.
     bnd (if gt_Status auth = AuthStatusAuthorized
          then pay_NewAuthorized env (cp_Amount req) (cp_Currency req) (cp_CardToken req)
                 (gt_TransactionID auth) merchantID
          else pay_NewDeclined env (cp_Amount req) (cp_Currency req) (cp_CardToken req)
                 (gt_TransactionID auth) merchantID (gt_DeclineReason auth)) (\<lambda>p0.
     bnd (schedule env delay p0) (\<lambda>p.
     bnd (map_err (wrap ''save payment'')
       (InTransaction env RepeatableRead (payrepo_CreatePayment env p))) (\<lambda>_.
     start_capture env delay p))))))"

definition payment_Get :: "('b) penv_scheme \<Rightarrow> string \<Rightarrow> Payment pm" where
  "payment_Get env i = payrepo_GetPaymentByID env Pool i"

definition payment_Void :: "('b) penv_scheme \<Rightarrow> Client \<Rightarrow> string \<Rightarrow> Payment pm" where
  "payment_Void env c paymentID =
     bnd (payrepo_GetPaymentByID env Pool paymentID) (\<lambda>p.
     bnd (fail_if (\<not> pay_CanTransitionTo (py_Status p) PayVoided) (Sentinel Payment_ErrInvalidStatus)) (\<lambda>_.
     bnd (map_err (wrap ''void at provider'') (VoidPayment env c (py_ProviderTxID p))) (\<lambda>_.
     bnd (map_err (wrap ''update payment status'')
       (payrepo_UpdatePaymentStatus env (py_ID p) PayVoided '''')) (\<lambda>_.
     bnd (time_Now env) (\<lambda>now.
     ret (p\<lparr>py_Status := PayVoided, py_UpdatedAt := now\<rparr>))))))"

definition refund_key :: "string \<Rightarrow> int64 \<Rightarrow> string" where
  "refund_key paymentID amount = ''refund_'' @ paymentID @ ''_'' @ show_int (sint amount)"

definition payment_Refund :: "('b) penv_scheme \<Rightarrow> Client \<Rightarrow> string \<Rightarrow> int64 \<Rightarrow> Payment pm" where
  "payment_Refund env c paymentID amount =
     bnd (payrepo_GetPaymentByID env Pool paymentID) (\<lambda>p.
     bnd (fail_if (py_Status p \<noteq> PayCaptured \<and> py_Status p \<noteq> PayPartiallyRefunded)
       (Sentinel Payment_ErrInvalidStatus)) (\<lambda>_.
     let remaining = py_Amount p - py_RefundedAmount p in
     bnd (fail_if (i64_less remaining amount) (Sentinel Payment_ErrRefundExceedsAmount)) (\<lambda>_.
     bnd (map_err (wrap ''refund at provider'') (RefundPayment env c
       \<lparr>gf_TransactionID = py_ProviderTxID p, gf_Amount = amount,
        gf_IdempotencyKey = refund_key paymentID amount\<rparr>)) (\<lambda>_.
     ret p))))"

section \<open>The webhook\<close>

record CaptureWebhook =
  cw_Event :: string
  cw_TransactionID :: string
  cw_RefundID :: string
  cw_OrderID :: string
  cw_MerchantID :: string
  cw_Status :: string
  cw_Amount :: int64
  cw_Currency :: string
  cw_Timestamp :: string

definition payment_event :: "('b) penv_scheme \<Rightarrow> string \<Rightarrow> string \<Rightarrow> string \<Rightarrow> unit pm" where
  "payment_event env paymentID eventType key =
     bnd (time_Now env) (\<lambda>now.
     bnd (map_err (wrap ''write event'') (CreateEvent env \<lparr>ne_AggregateType = ''payment'',
       ne_AggregateID = paymentID, ne_EventType = eventType, ne_IdempotencyKey = key,
       ne_Payload = JObj [], ne_CreatedAt = now\<rparr>)) (\<lambda>_.
     ret ()))"

definition refund_webhook :: "('b) penv_scheme \<Rightarrow> Payment \<Rightarrow> CaptureWebhook \<Rightarrow> unit pm" where
  "refund_webhook env p wh =
    (let refunded = py_RefundedAmount p + cw_Amount wh;
         newStatus = (if i64_le (py_Amount p) refunded then PayRefunded else PayPartiallyRefunded) in
     bnd (map_err (wrap ''update payment refund'')
       (payrepo_UpdatePaymentRefund env (py_ID p) newStatus refunded)) (\<lambda>_.
     payment_event env (py_ID p) (cw_Event wh)
       (''webhook_'' @ cw_TransactionID wh @ ''_'' @ cw_Event wh @ ''_'' @ cw_RefundID wh)))"

text \<open>The status a webhook stands for; \<open>Inr None\<close> is \<open>refund_failed\<close>, which is only logged.\<close>

definition webhook_status :: "string \<Rightarrow> goerr + string option" where
  "webhook_status s =
    (if s = ''captured'' then Inr (Some PayCaptured)
     else if s = ''capture_failed'' then Inr (Some PayCaptureFailed)
     else if s = ''voided'' then Inr (Some PayVoided)
     else if s = ''refund_failed'' then Inr None
     else Inl (ErrText (''unknown webhook status: '' @ s)))"

definition webhook_tx :: "('b) penv_scheme \<Rightarrow> CaptureWebhook \<Rightarrow> unit pm" where
  "webhook_tx env wh =
     bnd (map_err (wrap (''lookup payment by provider_tx_id '' @ cw_TransactionID wh))
       (payrepo_GetPaymentByProviderTxID env Tx (cw_TransactionID wh))) (\<lambda>p.
     if cw_Event wh = ''transaction.refunded'' then refund_webhook env p wh
     else bnd (of_sum (webhook_status (cw_Status wh))) (\<lambda>st. case st of
         None \<Rightarrow> ret ()
       | Some newStatus \<Rightarrow>
           if \<not> pay_CanTransitionTo (py_Status p) newStatus then ret ()
           else bnd (map_err (wrap ''update payment status'')
                  (payrepo_UpdatePaymentStatus env (py_ID p) newStatus '''')) (\<lambda>_.
                payment_event env (py_ID p) (cw_Event wh)
                  (''webhook_'' @ cw_TransactionID wh @ ''_'' @ cw_Event wh))))"

definition ProcessCaptureWebhook :: "('b) penv_scheme \<Rightarrow> CaptureWebhook \<Rightarrow> unit pm" where
  "ProcessCaptureWebhook env wh = InTransaction env RepeatableRead (webhook_tx env wh)"

section \<open>The goroutines\<close>

definition captureInBackground ::
  "('b) penv_scheme \<Rightarrow> Client \<Rightarrow> string \<Rightarrow> string \<Rightarrow> int64 \<Rightarrow> unit pm" where
  "captureInBackground env c paymentID providerTxID amount =
     bnd (attempt (CapturePayment env c
       \<lparr>gc_OrderID = providerTxID, gc_Amount = float64_of_int64 amount, gc_Currency = '''',
        gc_IdempotencyKey = ''capture_'' @ paymentID\<rparr>)) (\<lambda>_. ret ())"

text \<open>After the delay: the payment as it is then; anything that fails ends the goroutine.\<close>

definition captureWithDelay ::
  "('b) penv_scheme \<Rightarrow> Client \<Rightarrow> string \<Rightarrow> string \<Rightarrow> int64 \<Rightarrow> unit pm" where
  "captureWithDelay env c paymentID providerTxID amount =
     bnd (attempt (payrepo_GetPaymentByID env Pool paymentID)) (\<lambda>r. case r of
         Inl err \<Rightarrow> ret ()
       | Inr p \<Rightarrow>
           if py_Status p \<noteq> PayAuthorized then ret ()
           else bnd (attempt (payrepo_UpdatePaymentStatus env (py_ID p) PayCapturePending '''')) (\<lambda>u.
             case u of
               Inl err \<Rightarrow> ret ()
             | Inr _ \<Rightarrow> captureInBackground env c paymentID providerTxID amount))"

end
