(* ===== verification/PmPaymentLedger.thy ===== *)
theory PmPaymentLedger
  imports PmPayment
begin

text \<open>
  Paymanager's payments as a system: requests, goroutines and webhooks in any order, the
  webhooks delivered any number of times. The book-keeping: what is recorded as refunded
  is the sum of the refund webhooks that were accepted, each refund counted once.
\<close>

section \<open>What a step leaves alone\<close>

text \<open>A transaction of the provider belongs to the first payment that carries it.\<close>

definition payment_of :: "string \<Rightarrow> pm_data \<Rightarrow> pay_row option" where
  "payment_of tid d = find (\<lambda>r. y_provider_tx_id r = Some tid) (payments d)"

definition same_refunds :: "pay_row \<Rightarrow> pay_row \<Rightarrow> bool" where
  "same_refunds r r' \<longleftrightarrow> y_id r' = y_id r \<and> y_amount r' = y_amount r
     \<and> y_refunded_amount r' = y_refunded_amount r"

fun books_at :: "pay_row option \<Rightarrow> pay_row option \<Rightarrow> bool" where
  "books_at (Some r) r' = (case r' of None \<Rightarrow> False | Some x \<Rightarrow> same_refunds r x)"
| "books_at None r' = (case r' of None \<Rightarrow> True | Some x \<Rightarrow> y_refunded_amount x = 0)"

abbreviation payments_ok :: "pm_data \<Rightarrow> bool" where
  "payments_ok d \<equiv> rows_ok payments_schema (payments d)"

definition books_kept :: "pm_data \<Rightarrow> pm_data \<Rightarrow> bool" where
  "books_kept d d' \<longleftrightarrow> set (events d) \<subseteq> set (events d')
     \<and> (payments_ok d \<longrightarrow> payments_ok d')
     \<and> (\<forall>tid. books_at (payment_of tid d) (payment_of tid d'))"

lemma books_at_refl: "books_at r r"
  by (cases r) (simp_all add: same_refunds_def)

lemma books_at_trans: "books_at a b \<Longrightarrow> books_at b c \<Longrightarrow> books_at a c"
  by (cases a; cases b; cases c) (auto simp: same_refunds_def)

lemma books_kept_refl: "books_kept d d"
  by (simp add: books_kept_def books_at_refl)

lemma books_kept_trans: "books_kept d d' \<Longrightarrow> books_kept d' d'' \<Longrightarrow> books_kept d d''"
  unfolding books_kept_def by (blast intro: books_at_trans)

lemma find_set_where:
  assumes "\<And>r. P (f r) = P r"
  shows "find P (set_where p f rows) = map_option (\<lambda>r. if p r then f r else r) (find P rows)"
  using assms by (induction rows) (auto simp: set_where_def)

lemma payment_of_written:
  assumes "\<And>r. y_provider_tx_id (f r) = y_provider_tx_id r"
  shows "payment_of tid (d\<lparr>payments := set_where p f (payments d)\<rparr>)
       = map_option (\<lambda>r. if p r then f r else r) (payment_of tid d)"
  unfolding payment_of_def using assms by (simp add: find_set_where)

lemma payment_of_event [simp]: "payment_of tid (d\<lparr>events := es\<rparr>) = payment_of tid d"
  by (simp add: payment_of_def)

lemma payment_of_insert: "payment_of tid (d\<lparr>payments := payments d @ [r]\<rparr>) = (case payment_of tid d of
    Some r' \<Rightarrow> Some r' | None \<Rightarrow> if y_provider_tx_id r = Some tid then Some r else None)"
  by (simp add: payment_of_def find_append split: option.split)

lemma books_kept_written:
  assumes "\<And>r. y_provider_tx_id (f r) = y_provider_tx_id r" and "\<And>r. same_refunds r (f r)"
    and "rows_ok payments_schema (set_where p f (payments d))"
  shows "books_kept d (d\<lparr>payments := set_where p f (payments d)\<rparr>)"
proof -
  have "books_at (payment_of tid d) (map_option (\<lambda>r. if p r then f r else r) (payment_of tid d))" for tid
    by (cases "payment_of tid d") (simp_all add: assms(2), simp add: same_refunds_def)
  with assms(3) show ?thesis by (simp add: books_kept_def payment_of_written[OF assms(1)])
qed

lemma books_kept_event: "books_kept d (d\<lparr>events := events d @ [e]\<rparr>)"
  by (auto simp: books_kept_def books_at_refl)

lemma books_kept_insert:
  assumes "y_refunded_amount r = 0" and "rows_ok payments_schema (payments d @ [r])"
  shows "books_kept d (d\<lparr>payments := payments d @ [r]\<rparr>)"
proof -
  have "books_at (payment_of tid d) (payment_of tid (d\<lparr>payments := payments d @ [r]\<rparr>))" for tid
    using assms by (cases "payment_of tid d") (simp_all add: payment_of_insert same_refunds_def)
  with assms(2) show ?thesis by (simp add: books_kept_def)
qed

text \<open>A program of statements that keep the books keeps them.\<close>

lemma keeps_books_sql:
  assumes "\<And>d y d'. stmt d = Inr (y, d') \<Longrightarrow> books_kept d d'"
  shows "keeps_data (books_kept d0) (sql env stmt)"
  using assms by (intro keeps_data_sql) (blast intro: books_kept_trans)

section \<open>Requests and goroutines\<close>

lemma keeps_payment_reads [keeps_intros]:
  "keeps_data I (payrepo_GetPaymentByID env x i)"
  "keeps_data I (payrepo_GetPaymentByProviderTxID env x t)"
  unfolding payrepo_GetPaymentByID_def payrepo_GetPaymentByProviderTxID_def scanPayment_def
  by (intro keeps_intros keeps_data_read_db read_only_query)+

lemma keeps_provider [keeps_intros]:
  "keeps_data I (post_json env url b m1 m2)"
  "keeps_data I (CapturePayment env c creq)" "keeps_data I (AuthorizePayment env c areq)"
  "keeps_data I (VoidPayment env c t)" "keeps_data I (RefundPayment env c rreq)"
  unfolding CapturePayment_def AuthorizePayment_def VoidPayment_def RefundPayment_def post_json_def
    provider_Post_def
  by (intro keeps_intros)+

lemma update_payments_ok:
  "update_payments p f d = Inr (n, d') \<longleftrightarrow>
     n = length (filter p (payments d)) \<and> d' = d\<lparr>payments := set_where p f (payments d)\<rparr>
     \<and> rows_ok payments_schema (set_where p f (payments d))"
  by (auto simp: update_payments_def in_table_ok sql_update_ok)

lemma keeps_UpdatePaymentStatus [keeps_intros]:
  "keeps_data (books_kept d0) (payrepo_UpdatePaymentStatus env i st why)"
  unfolding payrepo_UpdatePaymentStatus_def
  by (intro keeps_intros keeps_books_sql)
    (auto simp: update_payments_ok same_refunds_def intro!: books_kept_written)

lemma keeps_CreatePayment_row:
  "py_RefundedAmount p = 0 \<Longrightarrow> keeps_data (books_kept d0) (payrepo_CreatePayment env p)"
  unfolding payrepo_CreatePayment_def
  by (intro keeps_intros keeps_books_sql)
    (auto simp: in_table_ok sql_insert_ok pay_to_row_def intro!: books_kept_insert)

lemma pay_New_refunded:
  "pay_NewAuthorized env a cur ctok t m w = (Inr p, w') \<Longrightarrow> py_RefundedAmount p = 0"
  "pay_NewDeclined env a cur ctok t m why w = (Inr p, w') \<Longrightarrow> py_RefundedAmount p = 0"
  "schedule env delay p0 w = (Inr p, w') \<Longrightarrow> py_RefundedAmount p = py_RefundedAmount p0"
  by (auto simp: pay_NewAuthorized_def pay_NewDeclined_def schedule_def run_simps split: if_splits)

lemma keeps_entity [keeps_intros]:
  "keeps_data I (pay_NewAuthorized env a cur ctok t m)"
  "keeps_data I (pay_NewDeclined env a cur ctok t m why)" "keeps_data I (schedule env delay p)"
  unfolding pay_NewAuthorized_def pay_NewDeclined_def schedule_def by (intro keeps_intros)+

lemma keeps_start_capture: "keeps_data (books_kept d0) (start_capture env delay p)"
  unfolding start_capture_def Let_def by (intro keeps_intros)

lemma keeps_CreatePayment: "keeps_data (books_kept d0) (CreatePayment env c m req)"
  unfolding CreatePayment_def
  by (intro keeps_bnd[of _ "of_sum _"] keeps_bnd[of _ "uuid_New _"] keeps_bnd[of _ "map_err _ (AuthorizePayment _ _ _)"]
      keeps_bnd_value[where Q = "\<lambda>p. py_RefundedAmount p = 0"] keeps_intros)
    (auto dest: pay_New_refunded intro: keeps_CreatePayment_row keeps_start_capture split: if_splits)

lemma keeps_payment_requests:
  "keeps_data (books_kept d0) (payment_Void env c i)" "keeps_data (books_kept d0) (payment_Refund env c i a)"
  "keeps_data (books_kept d0) (captureInBackground env c i t a)"
  "keeps_data (books_kept d0) (captureWithDelay env c i t a)"
  unfolding payment_Void_def payment_Refund_def captureInBackground_def captureWithDelay_def Let_def
  by (intro keeps_intros)+


section \<open>Webhooks\<close>

text \<open>What a webhook that was accepted has done.\<close>

definition refund_event_key :: "CaptureWebhook \<Rightarrow> string" where
  "refund_event_key wh = ''webhook_'' @ cw_TransactionID wh @ ''_'' @ cw_Event wh @ ''_'' @ cw_RefundID wh"

definition refunded_status :: "pay_row \<Rightarrow> int64 \<Rightarrow> string" where
  "refunded_status r a = (if i64_le (y_amount r) (y_refunded_amount r + a) then PayRefunded else PayPartiallyRefunded)"

definition counted :: "CaptureWebhook \<Rightarrow> pay_row \<Rightarrow> pm_data \<Rightarrow> pm_data \<Rightarrow> bool" where
  "counted wh r d d' \<longleftrightarrow> payment_of (cw_TransactionID wh) d = Some r
     \<and> (''payment'', y_id r, refund_event_key wh) \<notin> event_key ` set (events d)
     \<and> (\<exists>now ev. event_key ev = (''payment'', y_id r, refund_event_key wh)
         \<and> d' = d\<lparr>payments := set_where (\<lambda>x. y_id x = y_id r)
              (\<lambda>x. x\<lparr>y_status := refunded_status r (cw_Amount wh), y_refunded_amount := y_refunded_amount r + cw_Amount wh, y_updated_at := now\<rparr>)
              (payments d), events := events d @ [ev]\<rparr>)"

lemma scanPayment_Tx_okE [run_elims]:
  assumes "scanPayment env Tx p w = (Inr y, w')"
  obtains r where "find p (payments (data w)) = Some r" and "y = pay_of_row r" and "w' = tick w" and "\<not> tx_failed w"
  using assms unfolding scanPayment_def
  by (auto simp: query_row_def elim!: bnd_okE map_err_okE sql_okE split: option.splits)

lemma payment_event_okE [run_elims]:
  assumes "payment_event env i ety key w = (Inr u, w')"
  obtains ev where "data w' = (data w)\<lparr>events := events (data w) @ [ev]\<rparr>"
    and "event_key ev = (''payment'', i, key)" and "event_key ev \<notin> event_key ` set (events (data w))"
    and "trace w' = trace w" and "\<not> tx_failed w'"
  using assms unfolding payment_event_def
  by (auto simp: event_key_def event_to_row_def elim!: bnd_okE ask_okE map_err_okE CreateEvent_okE)

lemma refund_webhook_post:
  assumes "refund_webhook env (pay_of_row r) wh w = (Inr u, w')"
    and "payment_of (cw_TransactionID wh) (data w) = Some r"
  shows "\<not> tx_failed w' \<and> counted wh r (data w) (data w')"
proof -
  let ?tot = "y_refunded_amount r + cw_Amount wh"
  let ?st = "refunded_status r (cw_Amount wh)"
  from assms(1) obtain w1 where up: "payrepo_UpdatePaymentRefund env (y_id r) ?st ?tot w = (Inr (), w1)"
    and ev: "payment_event env (y_id r) (cw_Event wh) (refund_event_key wh) w1 = (Inr u, w')"
    unfolding refund_webhook_def Let_def refund_event_key_def refunded_status_def
    by (auto simp: pay_of_row_def elim!: bnd_okE map_err_okE)
  from up obtain now where d1: "data w1 = (data w)\<lparr>payments := set_where (\<lambda>x. y_id x = y_id r)
      (\<lambda>x. x\<lparr>y_status := ?st, y_refunded_amount := ?tot, y_updated_at := now\<rparr>) (payments (data w))\<rparr>"
    unfolding payrepo_UpdatePaymentRefund_def
    by (auto simp: update_payments_ok elim!: bnd_okE ask_okE map_err_okE sql_okE fail_if_okE)
  from ev obtain e where e: "data w' = (data w1)\<lparr>events := events (data w1) @ [e]\<rparr>"
    "event_key e = (''payment'', y_id r, refund_event_key wh)"
    "event_key e \<notin> event_key ` set (events (data w1))" "\<not> tx_failed w'"
    by (rule payment_event_okE)
  have "data w' = (data w)\<lparr>payments := set_where (\<lambda>x. y_id x = y_id r)
      (\<lambda>x. x\<lparr>y_status := ?st, y_refunded_amount := ?tot, y_updated_at := now\<rparr>) (payments (data w)),
      events := events (data w) @ [e]\<rparr>"
    using e(1) d1 by simp
  with e assms(2) d1 show ?thesis unfolding counted_def by (intro conjI exI[of _ now] exI[of _ e]) auto
qed

text \<open>A webhook that moves the status: nothing, or a change that the table of transitions allows.\<close>

definition moved :: "CaptureWebhook \<Rightarrow> pay_row \<Rightarrow> pm_data \<Rightarrow> pm_data \<Rightarrow> bool" where
  "moved wh r d d' \<longleftrightarrow> payment_of (cw_TransactionID wh) d = Some r \<and>
     (d' = d \<and> (case webhook_status (cw_Status wh) of Inl _ \<Rightarrow> False | Inr None \<Rightarrow> True
         | Inr (Some st) \<Rightarrow> \<not> pay_CanTransitionTo (y_status r) st) \<or>
      (\<exists>st now ev. webhook_status (cw_Status wh) = Inr (Some st) \<and> pay_CanTransitionTo (y_status r) st
         \<and> event_key ev = (''payment'', y_id r, ''webhook_'' @ cw_TransactionID wh @ ''_'' @ cw_Event wh)
         \<and> event_key ev \<notin> event_key ` set (events d)
         \<and> d' = d\<lparr>payments := set_where (\<lambda>x. y_id x = y_id r)
              (\<lambda>x. x\<lparr>y_status := st, y_updated_at := now\<rparr>) (payments d), events := events d @ [ev]\<rparr>))"

lemma status_webhook_post:
  assumes "(bnd (map_err g (payrepo_UpdatePaymentStatus env (y_id r) st '''')) (\<lambda>_.
      payment_event env (y_id r) (cw_Event wh) (''webhook_'' @ cw_TransactionID wh @ ''_'' @ cw_Event wh))) w = (Inr u, w')"
    and "payment_of (cw_TransactionID wh) (data w) = Some r"
    and "webhook_status (cw_Status wh) = Inr (Some st)" and "pay_CanTransitionTo (y_status r) st"
  shows "\<not> tx_failed w' \<and> moved wh r (data w) (data w')"
proof -
  from assms(1) obtain w1 where up: "payrepo_UpdatePaymentStatus env (y_id r) st '''' w = (Inr (), w1)"
    and ev: "payment_event env (y_id r) (cw_Event wh)
        (''webhook_'' @ cw_TransactionID wh @ ''_'' @ cw_Event wh) w1 = (Inr u, w')"
    by (auto elim!: bnd_okE map_err_okE)
  from up obtain now where d1: "data w1 = (data w)\<lparr>payments := set_where (\<lambda>x. y_id x = y_id r)
      (\<lambda>x. x\<lparr>y_status := st, y_updated_at := now\<rparr>) (payments (data w))\<rparr>"
    unfolding payrepo_UpdatePaymentStatus_def
    by (auto simp: update_payments_ok elim!: bnd_okE ask_okE map_err_okE sql_okE fail_if_okE)
  from ev obtain e where e: "data w' = (data w1)\<lparr>events := events (data w1) @ [e]\<rparr>"
    "event_key e = (''payment'', y_id r, ''webhook_'' @ cw_TransactionID wh @ ''_'' @ cw_Event wh)"
    "event_key e \<notin> event_key ` set (events (data w1))" "\<not> tx_failed w'"
    by (rule payment_event_okE)
  with assms(2-) d1 show ?thesis
    unfolding moved_def by (intro conjI disjI2 exI[of _ st] exI[of _ now] exI[of _ e]) auto
qed

definition webhook_effect :: "CaptureWebhook \<Rightarrow> pm_data \<Rightarrow> pm_data \<Rightarrow> bool" where
  "webhook_effect wh d d' \<longleftrightarrow> (\<exists>r. if cw_Event wh = ''transaction.refunded'' then counted wh r d d' else moved wh r d d')"

lemma webhook_tx_post:
  assumes "webhook_tx env wh w = (Inr u, w')"
  shows "\<not> tx_failed w' \<and> webhook_effect wh (data w) (data w')"
proof -
  from assms obtain p w1 where look: "payrepo_GetPaymentByProviderTxID env Tx (cw_TransactionID wh) w = (Inr p, w1)"
    and rest: "(if cw_Event wh = ''transaction.refunded'' then refund_webhook env p wh
     else bnd (of_sum (webhook_status (cw_Status wh))) (\<lambda>st. case st of
         None \<Rightarrow> ret ()
       | Some newStatus \<Rightarrow>
           if \<not> pay_CanTransitionTo (py_Status p) newStatus then ret ()
           else bnd (map_err (wrap ''update payment status'')
                  (payrepo_UpdatePaymentStatus env (py_ID p) newStatus '''')) (\<lambda>_.
                payment_event env (py_ID p) (cw_Event wh)
                  (''webhook_'' @ cw_TransactionID wh @ ''_'' @ cw_Event wh)))) w1 = (Inr u, w')"
    unfolding webhook_tx_def by (auto elim!: bnd_okE map_err_okE)
  from look obtain r where r: "payment_of (cw_TransactionID wh) (data w) = Some r" and p: "p = pay_of_row r"
    and w1: "data w1 = data w" "\<not> tx_failed w1"
    unfolding payrepo_GetPaymentByProviderTxID_def payment_of_def by (auto elim: scanPayment_Tx_okE)
  have pid: "py_ID p = y_id r" "py_Status p = y_status r" using p by (simp_all add: pay_of_row_def)
  show ?thesis
  proof (cases "cw_Event wh = ''transaction.refunded''")
    case True
    with refund_webhook_post[of env r wh w1 u w'] rest r p w1 show ?thesis
      by (auto simp: webhook_effect_def)
  next
    case False
    with rest obtain st where st: "webhook_status (cw_Status wh) = Inr st"
      by (auto elim!: bnd_okE simp del: split_paired_Ex)
    show ?thesis
    proof (cases "\<exists>s. st = Some s \<and> pay_CanTransitionTo (y_status r) s")
      case True
      then obtain s where s: "st = Some s" "pay_CanTransitionTo (y_status r) s" by blast
      with status_webhook_post[of "wrap ''update payment status''" env r s wh w1 u w'] rest False st r w1 pid
      show ?thesis by (auto simp: webhook_effect_def run_bnd)
    next
      case none: False
      with rest False st pid have "w' = w1" by (auto simp: run_bnd split: option.splits if_splits)
      with False r w1 st none show ?thesis by (auto simp: webhook_effect_def moved_def split: option.splits)
    qed
  qed
qed

lemma webhook_post:
  assumes "ProcessCaptureWebhook env wh w = (Inr u, w')"
  shows "webhook_effect wh (data w) (data w')"
  using assms unfolding ProcessCaptureWebhook_def
  by (rule InTransaction_post) (rule webhook_tx_post)

lemma webhook_refused: "ProcessCaptureWebhook env wh w = (Inl e, w') \<Longrightarrow> data w' = data w"
  unfolding ProcessCaptureWebhook_def by (rule InTransaction_err_data)

section \<open>The system\<close>

text \<open>
  The service's state is its rows; \<open>ws\<close> remembers, oldest first, the refund webhooks it
  accepted. A step is a request, a goroutine or a webhook, run in an environment of its own
  (faults, clock, provider, replica). A step runs to its end: what a concurrent one could
  change between the reads of a request and its writes is covered by the reads of the
  replica, which may show any rows.
\<close>

datatype pay_request =
    ReqCreate string CreatePaymentRequest
  | ReqVoid string
  | ReqRefund string int64
  | RunCapture string string int64
  | RunDelayedCapture string string int64

definition run_request :: "('b) penv_scheme \<Rightarrow> Client \<Rightarrow> pay_request \<Rightarrow> unit pm" where
  "run_request env c q = (case q of
      ReqCreate m req \<Rightarrow> bnd (CreatePayment env c m req) (\<lambda>_. ret ())
    | ReqVoid i \<Rightarrow> bnd (payment_Void env c i) (\<lambda>_. ret ())
    | ReqRefund i a \<Rightarrow> bnd (payment_Refund env c i a) (\<lambda>_. ret ())
    | RunCapture i t a \<Rightarrow> captureInBackground env c i t a
    | RunDelayedCapture i t a \<Rightarrow> captureWithDelay env c i t a)"

type_synonym pay_state = "pm_data \<times> CaptureWebhook list"

definition remember :: "CaptureWebhook \<Rightarrow> goerr + unit \<Rightarrow> CaptureWebhook list \<Rightarrow> CaptureWebhook list" where
  "remember wh res ws = (if cw_Event wh = ''transaction.refunded'' \<and> res = Inr () then ws @ [wh] else ws)"

inductive pay_step :: "Client \<Rightarrow> pay_state \<Rightarrow> pay_state \<Rightarrow> bool" for c where
  request: "run_request (env :: unit penv_scheme) c q w = (res, w') \<Longrightarrow> pay_step c (data w, ws) (data w', ws)"
| webhook: "ProcessCaptureWebhook (env :: unit penv_scheme) wh w = (res, w') \<Longrightarrow>
    pay_step c (data w, ws) (data w', remember wh res ws)"

definition pm_empty :: pm_data where
  "pm_empty = \<lparr>payments = [], events = [], orders = [], order_events = [], disputes = [],
     dispute_events = [], evidence = []\<rparr>"

definition pay_reachable :: "Client \<Rightarrow> pay_state \<Rightarrow> bool" where
  "pay_reachable c s \<longleftrightarrow> (pay_step c)\<^sup>*\<^sup>* (pm_empty, []) s"

text \<open>The refund webhooks of one transaction.\<close>

abbreviation refunds_of :: "string \<Rightarrow> CaptureWebhook list \<Rightarrow> CaptureWebhook list" where
  "refunds_of tid ws \<equiv> filter (\<lambda>wh. cw_TransactionID wh = tid) ws"

fun tid_inv :: "pm_data \<Rightarrow> pay_row option \<Rightarrow> CaptureWebhook list \<Rightarrow> bool" where
  "tid_inv d None ws = (ws = [])"
| "tid_inv d (Some r) ws = (y_refunded_amount r = sum_list (map cw_Amount ws)
     \<and> distinct (map cw_RefundID ws)
     \<and> (\<forall>wh\<in>set ws. (''payment'', y_id r, refund_event_key wh) \<in> event_key ` set (events d)))"

fun pay_inv :: "pay_state \<Rightarrow> bool" where
  "pay_inv (d, ws) = (payments_ok d \<and> (\<forall>wh\<in>set ws. cw_Event wh = ''transaction.refunded'')
     \<and> (\<forall>tid. tid_inv d (payment_of tid d) (refunds_of tid ws)))"

lemma tid_inv_books:
  assumes "tid_inv d r ws" and "books_at r r'" and "set (events d) \<subseteq> set (events d')"
  shows "tid_inv d' r' ws"
proof -
  from assms(3) have "event_key ` set (events d) \<subseteq> event_key ` set (events d')" by (rule image_mono)
  with assms(1,2) show ?thesis by (cases r; cases r') (auto simp: same_refunds_def simp del: image_iff)
qed

lemma pay_inv_books: "pay_inv (d, ws) \<Longrightarrow> books_kept d d' \<Longrightarrow> pay_inv (d', ws)"
  unfolding books_kept_def pay_inv.simps by (blast intro: tid_inv_books)

lemma payments_distinct: "payments_ok d \<Longrightarrow> distinct (map y_id (payments d))"
  unfolding rows_ok_def payments_schema_def by (simp add: no_clash_key)

text \<open>The update of one payment by its identifier reaches no other transaction.\<close>

lemma payment_of_other:
  assumes "payments_ok d" and "payment_of tid d = Some r" and "payment_of tid' d = Some r'" and "y_id r' = y_id r"
  shows "tid' = tid"
proof -
  from assms(2,3) have mem: "r \<in> set (payments d)" "r' \<in> set (payments d)"
    and tid: "y_provider_tx_id r = Some tid" "y_provider_tx_id r' = Some tid'"
    unfolding payment_of_def by (auto dest: find_SomeD)
  with assms(4) payments_distinct[OF assms(1)] have "r = r'" by (auto simp: distinct_map dest: inj_onD)
  with tid show ?thesis by simp
qed

lemma pay_inv_counted:
  assumes inv: "pay_inv (d, ws)" and "counted wh r d d'" and "payments_ok d'"
    and "cw_Event wh = ''transaction.refunded''"
  shows "pay_inv (d', ws @ [wh])"
proof -
  let ?st = "refunded_status r (cw_Amount wh)"
  from assms(2) obtain now ev where r: "payment_of (cw_TransactionID wh) d = Some r"
    and new: "(''payment'', y_id r, refund_event_key wh) \<notin> event_key ` set (events d)"
    and ev: "event_key ev = (''payment'', y_id r, refund_event_key wh)"
    and d': "d' = d\<lparr>payments := set_where (\<lambda>x. y_id x = y_id r)
        (\<lambda>x. x\<lparr>y_status := ?st, y_refunded_amount := y_refunded_amount r + cw_Amount wh, y_updated_at := now\<rparr>)
        (payments d), events := events d @ [ev]\<rparr>"
    unfolding counted_def by blast
  let ?f = "\<lambda>x. x\<lparr>y_status := ?st, y_refunded_amount := y_refunded_amount r + cw_Amount wh, y_updated_at := now\<rparr>"
  have found: "payment_of tid d' = map_option (\<lambda>x. if y_id x = y_id r then ?f x else x) (payment_of tid d)" for tid
    unfolding d' payment_of_event by (rule payment_of_written) simp
  have sub: "set (events d) \<subseteq> set (events d')" unfolding d' by auto
  then have keysub: "event_key ` set (events d) \<subseteq> event_key ` set (events d')" by (rule image_mono)
  have "event_key ev \<in> event_key ` set (events d')" unfolding d' by simp
  then have evd': "(''payment'', y_id r, refund_event_key wh) \<in> event_key ` set (events d')" unfolding ev .
  have ok: "payments_ok d" and old: "\<And>tid. tid_inv d (payment_of tid d) (refunds_of tid ws)"
    and ev_ok: "\<forall>wh\<in>set ws. cw_Event wh = ''transaction.refunded''"
    using inv by auto
  have "tid_inv d' (payment_of tid d') (refunds_of tid (ws @ [wh]))" for tid
  proof (cases "tid = cw_TransactionID wh")
    case True
    let ?ws = "refunds_of tid ws"
    from old[of tid] r True have t: "y_refunded_amount r = sum_list (map cw_Amount ?ws)"
      "distinct (map cw_RefundID ?ws)"
      and keys: "\<forall>w\<in>set ?ws. (''payment'', y_id r, refund_event_key w) \<in> event_key ` set (events d)" by simp_all
    have "cw_RefundID wh \<noteq> cw_RefundID x" if "x \<in> set ?ws" for x
    proof
      assume "cw_RefundID wh = cw_RefundID x"
      with that ev_ok assms(4) True have "refund_event_key wh = refund_event_key x"
        by (simp add: refund_event_key_def)
      with keys that new show False by auto
    qed
    moreover have "(''payment'', y_id r, refund_event_key w) \<in> event_key ` set (events d')" if "w \<in> set ?ws \<or> w = wh" for w
      using that keys evd' keysub by blast
    ultimately show ?thesis using t found[of tid] r True by (auto simp: ac_simps)
  next
    case False
    with payment_of_other[OF ok r] have "books_at (payment_of tid d) (payment_of tid d')"
      using found[of tid] old[of tid] by (cases "payment_of tid d") (auto simp: same_refunds_def)
    from tid_inv_books[OF old[of tid] this sub] False show ?thesis by simp
  qed
  with assms(3,4) ev_ok show ?thesis by simp
qed

lemma keeps_scanPayment [keeps_intros]: "keeps_data I (scanPayment env x p)"
  unfolding scanPayment_def by (intro keeps_intros keeps_data_read_db read_only_query)

lemma keeps_ok_update [keeps_intros]: "keeps_data payments_ok (sql env (update_payments p f))"
  by (rule keeps_data_sql) (auto simp: update_payments_ok)

lemma keeps_ok_event [keeps_intros]: "keeps_data payments_ok (payment_event env i ety key)"
  unfolding payment_event_def CreateEvent_def
  by (intro keeps_intros keeps_data_sql) (auto simp: in_table_ok)

lemma keeps_ok_webhook: "keeps_data payments_ok (ProcessCaptureWebhook env wh)"
  unfolding ProcessCaptureWebhook_def webhook_tx_def refund_webhook_def payrepo_GetPaymentByProviderTxID_def
    payrepo_UpdatePaymentRefund_def payrepo_UpdatePaymentStatus_def Let_def
  by (intro keeps_intros)

lemma keeps_run_request: "keeps_data (books_kept d0) (run_request env c q)"
  unfolding run_request_def
  by (cases q) (simp_all, (intro keeps_intros keeps_CreatePayment keeps_payment_requests)+)

lemma books_kept_both:
  assumes "books_kept d (d\<lparr>payments := rows\<rparr>)"
  shows "books_kept d (d\<lparr>payments := rows, events := events d @ [ev]\<rparr>)"
  using books_kept_trans[OF assms books_kept_event[of "d\<lparr>payments := rows\<rparr>" ev]] by simp

lemma moved_books:
  assumes "moved wh r d d'" and "payments_ok d'"
  shows "books_kept d d'"
proof (cases "d' = d")
  case False
  with assms(1) obtain st now ev where d': "d' = d\<lparr>payments := set_where (\<lambda>x. y_id x = y_id r)
      (\<lambda>x. x\<lparr>y_status := st, y_updated_at := now\<rparr>) (payments d), events := events d @ [ev]\<rparr>"
    unfolding moved_def by blast
  with assms(2) show ?thesis
    by (auto simp: same_refunds_def intro!: books_kept_both books_kept_written)
qed (simp add: books_kept_refl)

lemma pay_step_inv: "pay_step c s s' \<Longrightarrow> pay_inv s \<Longrightarrow> pay_inv s'"
proof (induction rule: pay_step.induct)
  case (request env q w res w' ws)
  have "books_kept (data w) (data w')"
    using keepsD[OF keeps_run_request request(1), of "data w"] by (simp add: books_kept_refl)
  with request show ?case by (blast intro: pay_inv_books)
next
  case (webhook env wh w res w' ws)
  have ok: "payments_ok (data w')"
    using keepsD[OF keeps_ok_webhook webhook(1)] webhook(2) by simp
  show ?case
  proof (cases res)
    case (Inl e)
    with webhook show ?thesis by (auto simp: remember_def dest: webhook_refused)
  next
    case (Inr u)
    with webhook(1) have "webhook_effect wh (data w) (data w')" by (auto dest: webhook_post)
    with webhook(2) ok Inr show ?thesis
      by (auto simp: webhook_effect_def remember_def simp del: pay_inv.simps split: if_splits
          intro: pay_inv_counted pay_inv_books moved_books)
  qed
qed

lemma pay_reachable_inv: "pay_reachable c s \<Longrightarrow> pay_inv s"
  unfolding pay_reachable_def
proof (induction rule: rtranclp_induct)
  case base
  show ?case by (simp add: pm_empty_def payment_of_def rows_ok_def payments_schema_def)
next
  case (step s s')
  then show ?case by (blast intro: pay_step_inv)
qed

end
