(* ===== verification/PmPaymentApi.thy ===== *)
theory PmPaymentApi
  imports PmPaymentLedger Messaging
begin

text \<open>
  Paymanager, package \<open>paymentcontroller\<close>: the HTTP handlers and the Kafka handler of
  payments, and what holds of payments as a whole.
\<close>

section \<open>HTTP\<close>

definition payment_json :: "Payment \<Rightarrow> json" where
  "payment_json p = JObj (
     [(''id'', JStr (py_ID p)), (''amount'', json_int64 (py_Amount p)), (''currency'', JStr (py_Currency p)),
      (''card_token'', JStr (py_CardToken p)), (''status'', JStr (py_Status p))]
     @ omitempty ''decline_reason'' (py_DeclineReason p)
     @ omitempty ''provider_tx_id'' (py_ProviderTxID p)
     @ [(''merchant_id'', JStr (py_MerchantID p)), (''refunded_amount'', json_int64 (py_RefundedAmount p))]
     @ (case py_CaptureAt p of None \<Rightarrow> [] | Some t \<Rightarrow> [(''capture_at'', json_time t)])
     @ [(''created_at'', json_time (py_CreatedAt p)), (''updated_at'', json_time (py_UpdatedAt p))])"

definition payment_Create_handler ::
  "('b) penv_scheme \<Rightarrow> Client \<Rightarrow> string \<Rightarrow> goerr + CreatePaymentRequest \<Rightarrow> reply pm" where
  "payment_Create_handler env c merchantID bound = (case bound of
      Inl err \<Rightarrow> reply_JSON 400 (error_body (Error err))
    | Inr req \<Rightarrow> respond (CreatePayment env c merchantID req)
        (\<lambda>err. \<lparr>rp_code = 500, rp_body = error_body ''payment creation failed''\<rparr>)
        (\<lambda>p. \<lparr>rp_code = 200, rp_body = payment_json p\<rparr>))"

definition payment_Get_handler :: "('b) penv_scheme \<Rightarrow> gin_ctx \<Rightarrow> reply pm" where
  "payment_Get_handler env ctx =
    (let i = param ctx ''id'' in
     if i = '''' then reply_JSON 400 (error_body ''missing payment id'')
     else respond (payment_Get env i)
       (\<lambda>err. if errors_Is err Payment_ErrNotFound then \<lparr>rp_code = 404, rp_body = error_body ''payment not found''\<rparr>
              else \<lparr>rp_code = 500, rp_body = error_body (Error err)\<rparr>)
       (\<lambda>p. \<lparr>rp_code = 200, rp_body = payment_json p\<rparr>))"

definition payment_void_error :: "goerr \<Rightarrow> reply" where
  "payment_void_error err =
    (if errors_Is err Payment_ErrNotFound
       then \<lparr>rp_code = 404, rp_body = error_body ''payment not found''\<rparr>
     else if errors_Is err Payment_ErrInvalidStatus
       then \<lparr>rp_code = 409, rp_body = error_body ''payment cannot be voided in current state''\<rparr>
     else \<lparr>rp_code = 500, rp_body = error_body ''void failed''\<rparr>)"

definition payment_Void_handler :: "('b) penv_scheme \<Rightarrow> Client \<Rightarrow> gin_ctx \<Rightarrow> reply pm" where
  "payment_Void_handler env c ctx =
    (let i = param ctx ''id'' in
     if i = '''' then reply_JSON 400 (error_body ''missing payment id'')
     else respond (payment_Void env c i) payment_void_error
       (\<lambda>p. \<lparr>rp_code = 200, rp_body = payment_json p\<rparr>))"

definition payment_refund_error :: "goerr \<Rightarrow> reply" where
  "payment_refund_error err =
    (if errors_Is err Payment_ErrNotFound
       then \<lparr>rp_code = 404, rp_body = error_body ''payment not found''\<rparr>
     else if errors_Is err Payment_ErrInvalidStatus
       then \<lparr>rp_code = 409, rp_body = error_body ''payment cannot be refunded in current state''\<rparr>
     else if errors_Is err Payment_ErrRefundExceedsAmount
       then \<lparr>rp_code = 422, rp_body = error_body ''refund amount exceeds remaining balance''\<rparr>
     else \<lparr>rp_code = 500, rp_body = error_body ''refund failed''\<rparr>)"

text \<open>The bound body of a refund is its amount.\<close>

definition payment_Refund_handler ::
  "('b) penv_scheme \<Rightarrow> Client \<Rightarrow> gin_ctx \<Rightarrow> goerr + int64 \<Rightarrow> reply pm" where
  "payment_Refund_handler env c ctx bound =
    (let i = param ctx ''id'' in
     if i = '''' then reply_JSON 400 (error_body ''missing payment id'')
     else case bound of
       Inl err \<Rightarrow> reply_JSON 400 (error_body (Error err))
     | Inr amount \<Rightarrow> respond (payment_Refund env c i amount) payment_refund_error
         (\<lambda>p. \<lparr>rp_code = 202, rp_body = payment_json p\<rparr>))"

definition failure_body :: "string \<Rightarrow> json" where
  "failure_body msg = JObj [(''success'', JBool False), (''message'', JStr msg)]"

definition payment_HandleWebhook :: "('b) penv_scheme \<Rightarrow> goerr + CaptureWebhook \<Rightarrow> reply pm" where
  "payment_HandleWebhook env bound = (case bound of
      Inl err \<Rightarrow> reply_JSON 400 (failure_body (Error err))
    | Inr wh \<Rightarrow> respond (ProcessCaptureWebhook env wh)
        (\<lambda>err. \<lparr>rp_code = 500, rp_body = failure_body (Error err)\<rparr>)
        (\<lambda>_. \<lparr>rp_code = 200, rp_body = JObj [(''success'', JBool True)]\<rparr>))"

section \<open>Kafka\<close>

definition read_CaptureWebhook :: "json \<Rightarrow> goerr + CaptureWebhook" where
  "read_CaptureWebhook j =
     bind_sum (fields_of j) (\<lambda>fs.
     bind_sum (str_field fs ''event'') (\<lambda>ev.
     bind_sum (str_field fs ''transaction_id'') (\<lambda>tid.
     bind_sum (str_field fs ''refund_id'') (\<lambda>rid.
     bind_sum (str_field fs ''order_id'') (\<lambda>oid.
     bind_sum (str_field fs ''merchant_id'') (\<lambda>mid.
     bind_sum (str_field fs ''status'') (\<lambda>st.
     bind_sum (int64_field fs ''amount'') (\<lambda>a.
     bind_sum (str_field fs ''currency'') (\<lambda>cur.
     bind_sum (str_field fs ''timestamp'') (\<lambda>ts.
     Inr \<lparr>cw_Event = ev, cw_TransactionID = tid, cw_RefundID = rid, cw_OrderID = oid, cw_MerchantID = mid,
          cw_Status = st, cw_Amount = a, cw_Currency = cur, cw_Timestamp = ts\<rparr>))))))))))"

text \<open>A webhook that was stored before is acknowledged.\<close>

definition payment_HandleMessage :: "('b) penv_scheme \<Rightarrow> message \<Rightarrow> unit pm" where
  "payment_HandleMessage env m =
     bnd (open_message read_CaptureWebhook m) (\<lambda>wh.
     bnd (attempt (ProcessCaptureWebhook env wh)) (\<lambda>r. case r of
         Inl err \<Rightarrow> if errors_Is err Eventstore_ErrEventAlreadyStored then ret () else throw err
       | Inr _ \<Rightarrow> ret ()))"

section \<open>Webhooks delivered again\<close>

text \<open>
  A webhook has had its effect when its event is stored, or when it moves the status and
  the status no longer allows the move.
\<close>

definition webhook_event_key :: "CaptureWebhook \<Rightarrow> string" where
  "webhook_event_key wh = (if cw_Event wh = ''transaction.refunded'' then refund_event_key wh
     else ''webhook_'' @ cw_TransactionID wh @ ''_'' @ cw_Event wh)"

definition webhook_settled :: "CaptureWebhook \<Rightarrow> pm_data \<Rightarrow> bool" where
  "webhook_settled wh d \<longleftrightarrow> (\<exists>r. payment_of (cw_TransactionID wh) d = Some r
     \<and> ((''payment'', y_id r, webhook_event_key wh) \<in> event_key ` set (events d)
        \<or> (cw_Event wh \<noteq> ''transaction.refunded'' \<and> (case webhook_status (cw_Status wh) of
              Inl _ \<Rightarrow> False | Inr None \<Rightarrow> True | Inr (Some st) \<Rightarrow> \<not> pay_CanTransitionTo (y_status r) st))))"

text \<open>What a webhook writes leaves every payment in place and its status where no webhook may move it.\<close>

lemma webhook_target_final:
  assumes "webhook_status s = Inr (Some st)" and "webhook_status s' = Inr (Some st')"
  shows "\<not> pay_CanTransitionTo st st'"
  using assms by (auto simp: webhook_status_def pay_CanTransitionTo_iff split: if_splits)

lemma payment_of_written_id:
  assumes "d' = d\<lparr>payments := set_where (\<lambda>x. y_id x = i) f (payments d), events := es\<rparr>"
    and "\<And>x. y_provider_tx_id (f x) = y_provider_tx_id x"
  shows "payment_of tid d' = map_option (\<lambda>x. if y_id x = i then f x else x) (payment_of tid d)"
  unfolding assms(1) payment_of_event by (rule payment_of_written) (rule assms(2))

definition webhook_write :: "string \<Rightarrow> string \<Rightarrow> string \<Rightarrow> pm_data \<Rightarrow> pm_data \<Rightarrow> bool" where
  "webhook_write i st key d d' \<longleftrightarrow> (\<exists>f ev. event_key ev = (''payment'', i, key)
     \<and> d' = d\<lparr>payments := set_where (\<lambda>x. y_id x = i) f (payments d), events := events d @ [ev]\<rparr>
     \<and> (\<forall>x. y_provider_tx_id (f x) = y_provider_tx_id x \<and> y_id (f x) = y_id x \<and> y_status (f x) = st))"

text \<open>The two kinds of effect in one shape.\<close>

lemma webhook_effect_cases:
  assumes "webhook_effect wh d d'"
  obtains (idle) "d' = d" and "webhook_settled wh d"
  | (wrote) r st where "payment_of (cw_TransactionID wh) d = Some r"
      and "webhook_write (y_id r) st (webhook_event_key wh) d d'"
      and "\<And>s st'. webhook_status s = Inr (Some st') \<Longrightarrow> \<not> pay_CanTransitionTo st st'"
proof (cases "cw_Event wh = ''transaction.refunded''")
  case True
  with assms obtain r where c: "counted wh r d d'" by (auto simp: webhook_effect_def)
  show thesis
  proof (rule wrote)
    show "payment_of (cw_TransactionID wh) d = Some r" using c by (simp add: counted_def)
    show "webhook_write (y_id r) (refunded_status r (cw_Amount wh)) (webhook_event_key wh) d d'"
      using c True by (fastforce simp: counted_def webhook_write_def webhook_event_key_def)
    show "\<not> pay_CanTransitionTo (refunded_status r (cw_Amount wh)) st'" if "webhook_status s = Inr (Some st')" for s st'
      using that by (auto simp: webhook_status_def refunded_status_def pay_CanTransitionTo_iff split: if_splits)
  qed
next
  case False
  with assms obtain r where mv: "moved wh r d d'" by (auto simp: webhook_effect_def)
  then have r: "payment_of (cw_TransactionID wh) d = Some r" by (simp add: moved_def)
  have wr: "webhook_write (y_id r) st (webhook_event_key wh) d d'"
    if "event_key ev = (''payment'', y_id r, ''webhook_'' @ cw_TransactionID wh @ ''_'' @ cw_Event wh)"
      and "d' = d\<lparr>payments := set_where (\<lambda>x. y_id x = y_id r)
        (\<lambda>x. x\<lparr>y_status := st, y_updated_at := now\<rparr>) (payments d), events := events d @ [ev]\<rparr>" for st now ev
    unfolding webhook_write_def
    by (rule exI[of _ "\<lambda>x. x\<lparr>y_status := st, y_updated_at := now\<rparr>"], rule exI[of _ ev])
      (use that False in \<open>simp add: webhook_event_key_def\<close>)
  from mv consider "d' = d" "case webhook_status (cw_Status wh) of Inl _ \<Rightarrow> False | Inr None \<Rightarrow> True
      | Inr (Some st) \<Rightarrow> \<not> pay_CanTransitionTo (y_status r) st"
    | st where "webhook_status (cw_Status wh) = Inr (Some st)" "webhook_write (y_id r) st (webhook_event_key wh) d d'"
    using wr unfolding moved_def by blast
  then show thesis
  proof cases
    case 1
    with r False show thesis by (intro idle) (auto simp: webhook_settled_def)
  next
    case (2 st)
    with r show thesis by (intro wrote) (auto dest: webhook_target_final)
  qed
qed

lemma webhook_write_settles:
  assumes "payment_of (cw_TransactionID wh) d = Some r"
    and "webhook_write (y_id r) st (webhook_event_key wh) d d'"
  shows "webhook_settled wh d'"
proof -
  from assms(2) obtain f ev where d': "d' = d\<lparr>payments := set_where (\<lambda>x. y_id x = y_id r) f (payments d), events := events d @ [ev]\<rparr>"
    and ev: "event_key ev = (''payment'', y_id r, webhook_event_key wh)"
    and f: "\<And>x. y_provider_tx_id (f x) = y_provider_tx_id x" "\<And>x. y_id (f x) = y_id x"
    unfolding webhook_write_def by blast
  have "payment_of (cw_TransactionID wh) d' = Some (f r)"
    using payment_of_written_id[OF d' f(1)] assms(1) by simp
  moreover have "(''payment'', y_id (f r), webhook_event_key wh) \<in> event_key ` set (events d')"
    unfolding d' f(2) using ev by (auto simp: image_iff)
  ultimately show ?thesis unfolding webhook_settled_def by blast
qed

lemma webhook_write_keeps_settled:
  assumes "webhook_settled wh d" and "webhook_write i st key d d'"
    and "\<And>s st'. webhook_status s = Inr (Some st') \<Longrightarrow> \<not> pay_CanTransitionTo st st'"
  shows "webhook_settled wh d'"
proof -
  from assms(2) obtain f ev where d': "d' = d\<lparr>payments := set_where (\<lambda>x. y_id x = i) f (payments d), events := events d @ [ev]\<rparr>"
    and f: "\<And>x. y_provider_tx_id (f x) = y_provider_tx_id x" "\<And>x. y_id (f x) = y_id x" "\<And>x. y_status (f x) = st"
    unfolding webhook_write_def by blast
  from assms(1) obtain r where r: "payment_of (cw_TransactionID wh) d = Some r"
    and s: "(''payment'', y_id r, webhook_event_key wh) \<in> event_key ` set (events d)
        \<or> (cw_Event wh \<noteq> ''transaction.refunded'' \<and> (case webhook_status (cw_Status wh) of
              Inl _ \<Rightarrow> False | Inr None \<Rightarrow> True | Inr (Some st) \<Rightarrow> \<not> pay_CanTransitionTo (y_status r) st))"
    unfolding webhook_settled_def by blast
  let ?r' = "if y_id r = i then f r else r"
  have "payment_of (cw_TransactionID wh) d' = Some ?r'"
    using payment_of_written_id[OF d' f(1)] r by simp
  moreover have "event_key ` set (events d) \<subseteq> event_key ` set (events d')" unfolding d' by auto
  ultimately show ?thesis
    using s assms(3) f unfolding webhook_settled_def
    by (intro exI[of _ ?r']) (auto split: sum.splits option.splits)
qed

text \<open>A settled webhook that is handled again changes nothing: it is idle, or refused by the event table.\<close>

lemma settled_unchanged:
  assumes "webhook_settled wh (data w)" and "ProcessCaptureWebhook env wh w = (res, w')"
  shows "data w' = data w"
proof (cases res)
  case (Inl e)
  with assms(2) show ?thesis by (auto dest: webhook_refused)
next
  case (Inr u)
  with assms(2) have eff: "webhook_effect wh (data w) (data w')" by (auto dest: webhook_post)
  from assms(1) obtain r where r: "payment_of (cw_TransactionID wh) (data w) = Some r" and s:
    "(''payment'', y_id r, webhook_event_key wh) \<in> event_key ` set (events (data w))
      \<or> (cw_Event wh \<noteq> ''transaction.refunded'' \<and> (case webhook_status (cw_Status wh) of
            Inl _ \<Rightarrow> False | Inr None \<Rightarrow> True | Inr (Some st) \<Rightarrow> \<not> pay_CanTransitionTo (y_status r) st))"
    unfolding webhook_settled_def by blast
  show ?thesis
  proof (cases "cw_Event wh = ''transaction.refunded''")
    case True
    with eff r have "(''payment'', y_id r, webhook_event_key wh) \<notin> event_key ` set (events (data w))"
      by (auto simp: webhook_effect_def counted_def webhook_event_key_def)
    with s True show ?thesis by simp
  next
    case False
    with eff r have "moved wh r (data w) (data w')" by (auto simp: webhook_effect_def moved_def)
    with s False show ?thesis unfolding moved_def webhook_event_key_def by fastforce
  qed
qed

interpretation pay_webhooks: redelivery "ProcessCaptureWebhook env" webhook_settled for env
proof
  fix m w w'
  assume "ProcessCaptureWebhook env m w = (Inr (), w')"
  then have "webhook_effect m (data w) (data w')" by (rule webhook_post)
  then show "webhook_settled m (data w')"
    by (cases rule: webhook_effect_cases) (auto intro: webhook_write_settles)
next
  fix m w r w'
  assume "webhook_settled m (data w)" and "ProcessCaptureWebhook env m w = (r, w')"
  then show "data w' = data w" by (rule settled_unchanged)
next
  fix m w m' r w'
  assume s: "webhook_settled m (data w)" and run: "ProcessCaptureWebhook env m' w = (r, w')"
  show "webhook_settled m (data w')"
  proof (cases r)
    case (Inl e)
    with s run show ?thesis by (auto dest: webhook_refused)
  next
    case (Inr u)
    with run have "webhook_effect m' (data w) (data w')" by (auto dest: webhook_post)
    then show ?thesis using s
      by (cases rule: webhook_effect_cases) (auto intro: webhook_write_keeps_settled)
  qed
next
  fix m w e w'
  assume "ProcessCaptureWebhook env m w = (Inl e, w')"
  then show "data w' = data w" by (rule webhook_refused)
qed

end
