(* ===== verification/PmPaymentFacts.thy ===== *)
theory PmPaymentFacts
  imports PmPaymentApi
begin

text \<open>
  The properties of paymanager's payments, each with a run of the definitions it is about.
\<close>

section \<open>A sample run\<close>

definition demo_answer :: http_answer where
  "demo_answer = \<lparr>ha_StatusCode = 200, ha_Status = ''200 OK'', ha_Raw = '''',
     ha_JSON = Inr (JObj [(''transaction_id'', JStr ''tx''), (''status'', JStr ''authorized''), (''order_id'', JStr ''o'')])\<rparr>"

definition demo_penv :: "unit penv_scheme" where
  "demo_penv = \<lparr>fault = \<lambda>_. None,
     commit_err = \<lambda>_ failed. if failed then Some (ErrText ''commit unexpectedly resulted in rollback'') else None,
     clock = int, fresh = \<lambda>n. ''u'' @ show_nat n, http_Post = \<lambda>_ _ _. Inr demo_answer, replica = \<lambda>_. None\<rparr>"

definition demo_client :: Client where
  "demo_client = Client_New ''http://s'' ''/r'' ''/capture'' ''/auth'' ''/void''"

definition demo_request :: CreatePaymentRequest where
  "demo_request = \<lparr>cp_Amount = 500, cp_Currency = ''EUR'', cp_CardToken = ''tok'', cp_CaptureDelay = ''''\<rparr>"

definition demo_refunded :: "string \<Rightarrow> CaptureWebhook" where
  "demo_refunded rid = \<lparr>cw_Event = ''transaction.refunded'', cw_TransactionID = ''tx'', cw_RefundID = rid,
     cw_OrderID = ''o'', cw_MerchantID = ''m'', cw_Status = ''refunded'', cw_Amount = 200, cw_Currency = ''EUR'',
     cw_Timestamp = ''''\<rparr>"

text \<open>A payment is created, and two refunds of 200 are reported.\<close>

definition demo_w1 :: "(pm_data, pm_effect) world" where
  "demo_w1 = snd (run_request demo_penv demo_client (ReqCreate ''m'' demo_request) (init_world pm_empty))"

definition demo_w2 :: "(pm_data, pm_effect) world" where
  "demo_w2 = snd (ProcessCaptureWebhook demo_penv (demo_refunded ''r1'') demo_w1)"

definition demo_w3 :: "(pm_data, pm_effect) world" where
  "demo_w3 = snd (ProcessCaptureWebhook demo_penv (demo_refunded ''r2'') demo_w2)"

lemma demo_runs:
  "fst (ProcessCaptureWebhook demo_penv (demo_refunded ''r1'') demo_w1) = Inr ()"
  "fst (ProcessCaptureWebhook demo_penv (demo_refunded ''r2'') demo_w2) = Inr ()"
  by code_simp+

lemma demo_row:
  "payment_of ''tx'' (data demo_w3) = Some \<lparr>y_id = ''u3'', y_amount = 500, y_currency = ''EUR'', y_card_token = ''tok'',
     y_status = ''partially_refunded'', y_decline_reason = None, y_provider_tx_id = Some ''tx'', y_merchant_id = ''m'',
     y_refunded_amount = 400, y_capture_at = None, y_created_at = 2, y_updated_at = 20\<rparr>"
  by code_simp

lemma demo_pay_reachable:
  "pay_reachable demo_client (data demo_w3, [demo_refunded ''r1'', demo_refunded ''r2''])"
proof -
  have "pay_step demo_client (pm_empty, []) (data demo_w1, [])"
    using pay_step.request[of demo_penv demo_client "ReqCreate ''m'' demo_request" "init_world pm_empty" _ demo_w1]
    by (simp add: demo_w1_def init_world_def prod_eq_iff)
  moreover have "pay_step demo_client (data demo_w1, []) (data demo_w2, [demo_refunded ''r1''])"
    using pay_step.webhook[of demo_penv "demo_refunded ''r1''" demo_w1 "Inr ()" demo_w2 demo_client "[]"] demo_runs
    by (simp add: demo_w2_def prod_eq_iff remember_def demo_refunded_def)
  moreover have "pay_step demo_client (data demo_w2, [demo_refunded ''r1'']) (data demo_w3, [demo_refunded ''r1'', demo_refunded ''r2''])"
    using pay_step.webhook[of demo_penv "demo_refunded ''r2''" demo_w2 "Inr ()" demo_w3 demo_client "[demo_refunded ''r1'']"] demo_runs
    by (simp add: demo_w3_def prod_eq_iff remember_def demo_refunded_def)
  ultimately show ?thesis unfolding pay_reachable_def by simp
qed

section \<open>Refunds\<close>

text \<open>
  C2. Every refund is counted once: in every reachable state the refunded amount of the
  payment behind a transaction is the sum of the refund webhooks that were accepted for
  it, and no two of those report the same refund.
\<close>

theorem refunds_counted_once:
  assumes "pay_reachable c (d, ws)" and "payment_of tid d = Some r"
  shows "y_refunded_amount r = sum_list (map cw_Amount (refunds_of tid ws))
       \<and> distinct (map cw_RefundID (refunds_of tid ws))"
proof -
  have "tid_inv d (payment_of tid d) (refunds_of tid ws)"
    using pay_reachable_inv[OF assms(1)] by simp
  with assms(2) show ?thesis by simp
qed

theorem refunds_counted_once_witness:
  "(400 :: int64) = sum_list (map cw_Amount (refunds_of ''tx'' [demo_refunded ''r1'', demo_refunded ''r2'']))"
  using refunds_counted_once[OF demo_pay_reachable demo_row] by simp

text \<open>
  C6. A webhook counts once: after it was accepted, and whatever webhooks are handled in
  between, delivering it again changes no row.
\<close>

theorem webhook_redelivered:
  assumes "ProcessCaptureWebhook env wh w = (Inr (), w1)"
    and "consume (ProcessCaptureWebhook env) between w1 = (r2, w2)"
    and "ProcessCaptureWebhook env wh w2 = (r3, w3)"
  shows "data w3 = data w2"
proof -
  have "webhook_settled wh (data w1)" using assms(1) by (rule pay_webhooks.settles)
  then have "webhook_settled wh (data w2)"
    using pay_webhooks.consume_keeps_settled[of wh w1 env between] assms(2) by simp
  then show ?thesis using assms(3) by (rule pay_webhooks.unchanged)
qed

theorem webhook_redelivered_witness:
  "data (snd (ProcessCaptureWebhook demo_penv (demo_refunded ''r1'') demo_w3)) = data demo_w3"
proof (rule webhook_redelivered)
  show "ProcessCaptureWebhook demo_penv (demo_refunded ''r1'') demo_w1 = (Inr (), demo_w2)"
    using demo_runs by (simp add: demo_w2_def prod_eq_iff)
  show "consume (ProcessCaptureWebhook demo_penv) [demo_refunded ''r2''] demo_w2 = (Inr (), demo_w3)"
    by (simp add: demo_w3_def run_simps)
  show "ProcessCaptureWebhook demo_penv (demo_refunded ''r1'') demo_w3
      = (fst (ProcessCaptureWebhook demo_penv (demo_refunded ''r1'') demo_w3),
         snd (ProcessCaptureWebhook demo_penv (demo_refunded ''r1'') demo_w3))" by simp
qed

text \<open>
  C24. A webhook moves the status of a payment only along the table of transitions. The
  exception is a reported refund, which is recorded whatever the status was: the payment
  becomes refunded when the refunds reach its amount, and partially refunded before.
\<close>

theorem webhook_moves_along_table:
  assumes "ProcessCaptureWebhook env wh w = (Inr (), w')"
    and "payment_of (cw_TransactionID wh) (data w) = Some r"
  shows "\<exists>r'. payment_of (cw_TransactionID wh) (data w') = Some r' \<and> y_amount r' = y_amount r
    \<and> (if cw_Event wh = ''transaction.refunded''
       then y_refunded_amount r' = y_refunded_amount r + cw_Amount wh
          \<and> y_status r' = (if sint (y_amount r) \<le> sint (y_refunded_amount r') then PayRefunded else PayPartiallyRefunded)
       else y_refunded_amount r' = y_refunded_amount r
          \<and> (y_status r' = y_status r \<or> pay_CanTransitionTo (y_status r) (y_status r')))"
proof -
  have eff: "webhook_effect wh (data w) (data w')" using assms(1) by (rule webhook_post)
  show ?thesis
  proof (cases "cw_Event wh = ''transaction.refunded''")
    case True
    with eff assms(2) have "counted wh r (data w) (data w')" by (auto simp: webhook_effect_def counted_def)
    then obtain now ev where d': "data w' = (data w)\<lparr>payments := set_where (\<lambda>x. y_id x = y_id r)
        (\<lambda>x. x\<lparr>y_status := refunded_status r (cw_Amount wh), y_refunded_amount := y_refunded_amount r + cw_Amount wh,
          y_updated_at := now\<rparr>) (payments (data w)), events := events (data w) @ [ev]\<rparr>"
      unfolding counted_def by blast
    have "payment_of (cw_TransactionID wh) (data w') = Some (r\<lparr>y_status := refunded_status r (cw_Amount wh),
        y_refunded_amount := y_refunded_amount r + cw_Amount wh, y_updated_at := now\<rparr>)"
      using payment_of_written_id[OF d', of "cw_TransactionID wh"] assms(2) by simp
    with True show ?thesis unfolding refunded_status_def by simp
  next
    case False
    with eff assms(2) have mv: "moved wh r (data w) (data w')" by (auto simp: webhook_effect_def moved_def)
    show ?thesis
    proof (cases "data w' = data w")
      case True
      with assms(2) False show ?thesis by simp
    next
      case changed: False
      with mv obtain st now ev where t: "pay_CanTransitionTo (y_status r) st"
        and d': "data w' = (data w)\<lparr>payments := set_where (\<lambda>x. y_id x = y_id r)
          (\<lambda>x. x\<lparr>y_status := st, y_updated_at := now\<rparr>) (payments (data w)), events := events (data w) @ [ev]\<rparr>"
        unfolding moved_def by blast
      have "payment_of (cw_TransactionID wh) (data w') = Some (r\<lparr>y_status := st, y_updated_at := now\<rparr>)"
        using payment_of_written_id[OF d', of "cw_TransactionID wh"] assms(2) by simp
      with False t show ?thesis by simp
    qed
  qed
qed

theorem webhook_moves_along_table_witness:
  "\<exists>r'. payment_of ''tx'' (data demo_w2) = Some r' \<and> y_status r' = PayPartiallyRefunded"
proof -
  have run: "ProcessCaptureWebhook demo_penv (demo_refunded ''r1'') demo_w1 = (Inr (), demo_w2)"
    using demo_runs by (simp add: demo_w2_def prod_eq_iff)
  have row: "map_option (\<lambda>r. (y_amount r, y_refunded_amount r)) (payment_of ''tx'' (data demo_w1)) = Some (500, 0)"
    by code_simp
  then obtain r where r: "payment_of ''tx'' (data demo_w1) = Some r" "y_amount r = 500" "y_refunded_amount r = 0"
    by (auto simp: map_option_case split: option.splits)
  from webhook_moves_along_table[OF run, of r] r show ?thesis by (auto simp: demo_refunded_def)
qed

section \<open>Requests to the provider\<close>

lemma scanPayment_okE:
  assumes "scanPayment env x p w = (Inr y, w')"
  obtains d r where "d = data w \<or> replica env (ticks w) = Some d"
    and "find p (payments d) = Some r" and "y = pay_of_row r"
proof -
  from assms obtain row w1 where q: "read_db env x (query_row payments p) w = (Inr row, w1)"
    and y: "case row of None \<Rightarrow> False | Some z \<Rightarrow> y = pay_of_row z"
    unfolding scanPayment_def by (auto elim!: bnd_okE map_err_okE split: option.splits)
  from q have "\<exists>d. (d = data w \<or> replica env (ticks w) = Some d) \<and> row = find p (payments d)"
    by (rule read_db_okE) (auto simp: query_row_def)
  with y that show thesis by (auto split: option.splits)
qed

text \<open>
  C25. A refund is asked of the provider only for a payment that was captured, and for no
  more than what the payment read has left. One request is sent, under a key made of the
  payment and the amount.
\<close>

theorem refund_asked_within_balance:
  assumes "payment_Refund env c i a w = (res, w')" and "trace w' \<noteq> trace w"
  shows "\<exists>d r. (d = data w \<or> replica env (ticks w) = Some d) \<and> r \<in> set (payments d) \<and> y_id r = i
    \<and> (y_status r = PayCaptured \<or> y_status r = PayPartiallyRefunded)
    \<and> sint a \<le> sint (y_amount r - y_refunded_amount r)
    \<and> trace w' = trace w @ [HttpPost (cl_BaseURL c @ ''/api/v1/refund'')
        (JObj [(''transaction_id'', JStr (text_of (y_provider_tx_id r))), (''amount'', JNum (sint a)),
               (''idempotency_key'', JStr (refund_key i a))])]"
proof -
  let ?look = "payrepo_GetPaymentByID env Pool i"
  have silent: "keeps_trace (\<lambda>t. t = trace w) ?look"
    unfolding payrepo_GetPaymentByID_def scanPayment_def by (intro keeps_intros)
  obtain q w1 where look: "?look w = (q, w1)" by (cases "?look w")
  then have tr: "trace w1 = trace w" using keepsD[OF silent look] by simp
  from assms look tr obtain p where q: "q = Inr p" by (cases q) (auto simp: payment_Refund_def run_simps)
  obtain d r where d: "d = data w \<or> replica env (ticks w) = Some d"
    and find: "find (\<lambda>r. y_id r = i) (payments d) = Some r" and p: "p = pay_of_row r"
    using look[unfolded q payrepo_GetPaymentByID_def] by (rule scanPayment_okE)
  have guards: "y_status r = PayCaptured \<or> y_status r = PayPartiallyRefunded"
    "sint a \<le> sint (y_amount r - y_refunded_amount r)"
    using assms look q p tr
    by (auto simp: payment_Refund_def run_simps pay_of_row_def Let_def not_less split: if_splits)
  have "trace w' = trace w @ [HttpPost (cl_BaseURL c @ ''/api/v1/refund'')
      (JObj [(''transaction_id'', JStr (py_ProviderTxID p)), (''amount'', json_int64 a),
             (''idempotency_key'', JStr (refund_key i a))])]"
    using assms look q p tr guards
    by (auto simp: payment_Refund_def RefundPayment_def post_json_def run_simps provider_Post_run pay_of_row_def
        Let_def not_less simp del: of_int_sint split: if_splits sum.splits prod.splits)
  with d find guards p show ?thesis
    by (intro exI[of _ d] exI[of _ r]) (auto simp: pay_of_row_def json_int64_def dest: find_SomeD)
qed

text \<open>The amount as it was read: 500, of which 400 are refunded.\<close>

theorem refund_asked_within_balance_witness:
  "\<exists>r\<in>set (payments (data demo_w3)). y_id r = ''u3'' \<and> sint (100 :: int64) \<le> sint (y_amount r - y_refunded_amount r)"
proof -
  let ?run = "payment_Refund demo_penv demo_client ''u3'' 100 demo_w3"
  have len: "length (trace (snd ?run)) = 3 \<and> length (trace demo_w3) = 2" by code_simp
  then have "trace (snd ?run) \<noteq> trace demo_w3" by auto
  from refund_asked_within_balance[OF prod.collapse[symmetric] this] show ?thesis
    by (auto simp: demo_penv_def)
qed

lemma capture_trace:
  "trace (snd (captureInBackground env c i t a w)) = trace w @ [HttpPost (cl_CaptureUrl c)
     (JObj [(''transaction_id'', JStr t), (''amount'', json_int64 (int64_of_float64 (float64_of_int64 a))),
            (''idempotency_key'', JStr (''capture_'' @ i))])]"
  unfolding captureInBackground_def CapturePayment_def post_json_def
  by (simp add: run_simps provider_Post_run split: sum.splits prod.splits)

text \<open>
  C33. The capture in the background asks for the amount of the payment exactly, although
  the amount passes through a \<open>float64\<close>, as long as it is at most 2 to the 53.
\<close>

theorem capture_amount_exact:
  assumes "\<bar>sint a\<bar> \<le> 2 ^ 53"
  shows "trace (snd (captureInBackground env c i t a w)) = trace w @ [HttpPost (cl_CaptureUrl c)
     (JObj [(''transaction_id'', JStr t), (''amount'', JNum (sint a)), (''idempotency_key'', JStr (''capture_'' @ i))])]"
  unfolding capture_trace amount_survives_float[OF assms] json_int64_def by (rule refl)

theorem capture_amount_exact_witness:
  "trace (snd (captureInBackground demo_penv demo_client ''p'' ''tx'' 500 demo_w1)) = trace demo_w1
     @ [HttpPost ''http://s/capture'' (JObj [(''transaction_id'', JStr ''tx''), (''amount'', JNum 500),
          (''idempotency_key'', JStr ''capture_p'')])]"
  using capture_amount_exact[of 500 demo_penv demo_client "''p''" "''tx''" demo_w1]
  by (simp add: demo_client_def Client_New_def)

text \<open>Above that bound the neighbouring amount is asked for.\<close>

lemma capture_amount_rounded:
  "trace (snd (captureInBackground env c i t 9007199254740993 w)) = trace w @ [HttpPost (cl_CaptureUrl c)
     (JObj [(''transaction_id'', JStr t), (''amount'', JNum 9007199254740992), (''idempotency_key'', JStr (''capture_'' @ i))])]"
proof -
  have e: "excess_bits 9007199254740993 = 1"
    by (subst excess_bits.simps) (subst excess_bits.simps, simp)
  have "round_sig 9007199254740993 = 9007199254740992"
    unfolding round_sig_def e by simp
  then have "float64_of_int64 9007199254740993 = of_int 9007199254740992"
    by (simp add: float64_of_int64_def)
  then have "int64_of_float64 (float64_of_int64 9007199254740993) = 9007199254740992"
    using int64_of_float64_int[of 9007199254740992] by simp
  then show ?thesis unfolding capture_trace json_int64_def by simp
qed

text \<open>Two refunds of one amount are asked for under one key.\<close>

lemma refund_key_same: "refund_key i a = refund_key i b \<longleftrightarrow> a = b"
  by (simp add: refund_key_def sint_i64_inject del: of_int_sint)

section \<open>The queue\<close>

lemma payment_event_refused:
  assumes "healthy env" and "\<not> tx_failed w" and "(''payment'', i, key) \<in> event_key ` set (events (data w))"
  shows "fst (payment_event env i ety key w) = Inl (wrap ''write event'' (Sentinel Eventstore_ErrEventAlreadyStored))"
proof -
  let ?ev = "\<lparr>ne_AggregateType = ''payment'', ne_AggregateID = i, ne_EventType = ety, ne_IdempotencyKey = key,
    ne_Payload = JObj [], ne_CreatedAt = clock env (ticks w)\<rparr>"
  have "CreateEvent env ?ev (tick w) = (Inl (Sentinel Eventstore_ErrEventAlreadyStored), (tick (tick (tick w)))\<lparr>tx_failed := in_tx (tick w)\<rparr>)"
    using assms by (intro CreateEvent_refused) simp_all
  then show ?thesis by (simp add: payment_event_def run_bnd run_ask run_map_err)
qed

lemma refund_update_ok:
  assumes "payments_ok d" and "st \<in> set payment_statuses"
  shows "rows_ok payments_schema (set_where (\<lambda>x. y_id x = i)
    (\<lambda>x. x\<lparr>y_status := st, y_refunded_amount := t, y_updated_at := now\<rparr>) (payments d))"
  using assms by (intro rows_ok_set_where) (auto simp: payments_schema_def)

lemma refund_webhook_duplicate:
  assumes env: "healthy env" "\<not> tx_failed w" and "payments_ok (data w)"
    and r: "payment_of tid (data w) = Some r"
    and key: "(''payment'', y_id r, refund_event_key wh) \<in> event_key ` set (events (data w))"
  shows "\<exists>e. fst (refund_webhook env (pay_of_row r) wh w) = Inl e \<and> errors_Is e Eventstore_ErrEventAlreadyStored"
proof -
  let ?t = "y_refunded_amount r + cw_Amount wh" and ?now = "clock env (ticks w)"
  let ?rows = "set_where (\<lambda>x. y_id x = y_id r)
    (\<lambda>x. x\<lparr>y_status := refunded_status r (cw_Amount wh), y_refunded_amount := ?t, y_updated_at := ?now\<rparr>) (payments (data w))"
  let ?w1 = "w\<lparr>ticks := Suc (Suc (ticks w)), data := (data w)\<lparr>payments := ?rows\<rparr>\<rparr>"
  have ok: "rows_ok payments_schema ?rows"
    using assms(3) by (rule refund_update_ok) (simp add: refunded_status_def payment_statuses_def)
  then have enf: "enforce payments_schema ?rows = Inr ?rows" by (simp add: enforce_ok)
  have mem: "filter (\<lambda>x. y_id x = y_id r) (payments (data w)) \<noteq> []"
    using r unfolding payment_of_def by (auto simp: filter_empty_conv dest: find_SomeD)
  have upd: "payrepo_UpdatePaymentRefund env (y_id r) (refunded_status r (cw_Amount wh)) ?t w = (Inr (), ?w1)"
    unfolding payrepo_UpdatePaymentRefund_def update_payments_def
    using enf mem env by (simp add: run_simps sql_run in_table_def sql_update_def)
  have "refund_webhook env (pay_of_row r) wh w = payment_event env (y_id r) (cw_Event wh) (refund_event_key wh) ?w1"
    unfolding refund_webhook_def Let_def refund_event_key_def
    using upd by (simp add: pay_of_row_def refunded_status_def run_bnd run_map_err)
  moreover have "fst (payment_event env (y_id r) (cw_Event wh) (refund_event_key wh) ?w1)
      = Inl (wrap ''write event'' (Sentinel Eventstore_ErrEventAlreadyStored))"
    using env key by (intro payment_event_refused) simp_all
  ultimately show ?thesis by simp
qed

text \<open>
  A refund reported again over Kafka is acknowledged: the service refuses it as stored,
  the handler returns no error, so the message is not retried, and no row changes.
\<close>

theorem duplicate_refund_acknowledged:
  assumes "healthy env" and "open_message read_CaptureWebhook m w = (Inr wh, w)"
    and "cw_Event wh = ''transaction.refunded''"
    and "payment_of (cw_TransactionID wh) (data w) = Some r" and "payments_ok (data w)"
    and "(''payment'', y_id r, refund_event_key wh) \<in> event_key ` set (events (data w))"
  shows "fst (payment_HandleMessage env m w) = Inr () \<and> data (snd (payment_HandleMessage env m w)) = data w"
proof -
  let ?w1 = "(tick w)\<lparr>in_tx := True, tx_failed := False\<rparr>"
  let ?look = "payrepo_GetPaymentByProviderTxID env Tx (cw_TransactionID wh)"
  have look: "?look ?w1 = (Inr (pay_of_row r), tick ?w1)"
    using assms(1,4) by (simp add: payrepo_GetPaymentByProviderTxID_def scanPayment_def payment_of_def
        run_simps sql_run query_row_def)
  have "\<exists>e. fst (refund_webhook env (pay_of_row r) wh (tick ?w1)) = Inl e \<and> errors_Is e Eventstore_ErrEventAlreadyStored"
    using assms by (intro refund_webhook_duplicate) simp_all
  then obtain e w2 where dup: "refund_webhook env (pay_of_row r) wh (tick ?w1) = (Inl e, w2)"
    and e: "errors_Is e Eventstore_ErrEventAlreadyStored" by (metis prod.collapse)
  have tx: "webhook_tx env wh ?w1 = (Inl e, w2)"
    unfolding webhook_tx_def using look dup assms(3) by (simp add: run_bnd run_map_err)
  have "ProcessCaptureWebhook env wh w = (Inl e, rollback (data w) w2)"
    unfolding ProcessCaptureWebhook_def using InTransaction_run[where fn = "webhook_tx env wh", OF assms(1) tx] by simp
  with e assms(2) show ?thesis
    by (simp add: payment_HandleMessage_def run_bnd run_attempt rollback_def)
qed

definition demo_message :: message where
  "demo_message = \<lparr>ms_Key = ''tx'', ms_Value = Inr (JObj
     [(''event_id'', JStr ''e''), (''key'', JStr ''tx''), (''type'', JStr ''payment''),
      (''payload'', JObj
        [(''event'', JStr ''transaction.refunded''), (''transaction_id'', JStr ''tx''), (''refund_id'', JStr ''r1''),
         (''order_id'', JStr ''o''), (''merchant_id'', JStr ''m''), (''status'', JStr ''refunded''),
         (''amount'', JNum 200), (''currency'', JStr ''EUR''), (''timestamp'', JStr '''')])])\<rparr>"

lemma demo_message_read: "open_message read_CaptureWebhook demo_message w = (Inr (demo_refunded ''r1''), w)"
proof -
  have "bind_sum (ms_Value demo_message) read_Envelope = Inr \<lparr>nv_EventID = ''e'', nv_Key = ''tx'', nv_Type = ''payment'',
      nv_Payload = raw_field (case ms_Value demo_message of Inr (JObj fs) \<Rightarrow> fs | _ \<Rightarrow> []) ''payload'', nv_Timestamp = zero_time\<rparr>"
    by code_simp
  moreover have "bind_sum (case raw_field (case ms_Value demo_message of Inr (JObj fs) \<Rightarrow> fs | _ \<Rightarrow> []) ''payload'' of
      None \<Rightarrow> Inl (ErrText '''') | Some j \<Rightarrow> Inr j) read_CaptureWebhook = Inr (demo_refunded ''r1'')"
    by code_simp
  ultimately show ?thesis
    by (auto simp: open_message_def payload_of_def run_simps split: option.splits)
qed

theorem duplicate_refund_acknowledged_witness:
  "fst (payment_HandleMessage demo_penv demo_message demo_w3) = Inr ()
   \<and> data (snd (payment_HandleMessage demo_penv demo_message demo_w3)) = data demo_w3"
proof (rule duplicate_refund_acknowledged)
  show "healthy demo_penv" by (simp add: healthy_def demo_penv_def)
  show "open_message read_CaptureWebhook demo_message demo_w3 = (Inr (demo_refunded ''r1''), demo_w3)"
    by (rule demo_message_read)
  show "cw_Event (demo_refunded ''r1'') = ''transaction.refunded''" by (simp add: demo_refunded_def)
  show "payments_ok (data demo_w3)" by code_simp
  show "payment_of (cw_TransactionID (demo_refunded ''r1'')) (data demo_w3) = Some
    \<lparr>y_id = ''u3'', y_amount = 500, y_currency = ''EUR'', y_card_token = ''tok'',
     y_status = ''partially_refunded'', y_decline_reason = None, y_provider_tx_id = Some ''tx'', y_merchant_id = ''m'',
     y_refunded_amount = 400, y_capture_at = None, y_created_at = 2, y_updated_at = 20\<rparr>"
    unfolding demo_row[symmetric] by (simp add: demo_refunded_def)
  show "(''payment'', y_id \<lparr>y_id = ''u3'', y_amount = 500 :: int64, y_currency = ''EUR'', y_card_token = ''tok'',
     y_status = ''partially_refunded'', y_decline_reason = None, y_provider_tx_id = Some ''tx'', y_merchant_id = ''m'',
     y_refunded_amount = 400, y_capture_at = None, y_created_at = 2, y_updated_at = 20\<rparr>, refund_event_key (demo_refunded ''r1''))
    \<in> event_key ` set (events (data demo_w3))" by code_simp
qed

end
