(* ===== verification/EventSink.thy ===== *)
theory EventSink
  imports PmDatabase EventStore Keyset Cursors
begin

text \<open>
  Paymanager, the event sinks of orders and disputes (\<open>pg_event_sink.go\<close>, twice the same
  code over the tables \<open>order_events\<close> and \<open>dispute_events\<close>): events are appended once
  each, and listed page by page behind a cursor, whose text is that of \<open>Cursors\<close>.
\<close>

section \<open>Sinks\<close>

record NewSunkEvent =
  nk_Owner :: string
  nk_Kind :: string
  nk_ProviderEventID :: string
  nk_Data :: json
  nk_CreatedAt :: time

record sink =
  sk_rows :: "pm_data \<Rightarrow> sunk_row list"
  sk_write :: "(sunk_row list \<Rightarrow> sunk_row list) \<Rightarrow> pm_data \<Rightarrow> pm_data"
  sk_schema :: "sunk_row schema"
  sk_stored :: sentinel
  sk_noun :: string
  sk_owner :: string
  sk_owners :: "pm_data \<Rightarrow> string list"
  sk_fkey :: string

definition order_sink :: sink where
  "order_sink = \<lparr>sk_rows = order_events, sk_write = order_events_update, sk_schema = order_events_schema,
     sk_stored = Order_ErrEventAlreadyStored, sk_noun = ''order event'', sk_owner = ''order_id'',
     sk_owners = \<lambda>d. map o_id (orders d), sk_fkey = ''fk_order_event_order''\<rparr>"

definition dispute_sink :: sink where
  "dispute_sink = \<lparr>sk_rows = dispute_events, sk_write = dispute_events_update, sk_schema = dispute_events_schema,
     sk_stored = Dispute_ErrEventAlreadyStored, sk_noun = ''dispute event'', sk_owner = ''dispute_id'',
     sk_owners = \<lambda>d. map d_id (disputes d), sk_fkey = ''fk_dispute_event_dispute''\<rparr>"

definition sunk_row_of :: "string \<Rightarrow> NewSunkEvent \<Rightarrow> sunk_row" where
  "sunk_row_of i ev = \<lparr>k_id = i, k_owner = nk_Owner ev, k_kind = nk_Kind ev,
     k_provider_event_id = nk_ProviderEventID ev, k_data = nk_Data ev, k_created_at = nk_CreatedAt ev\<rparr>"

text \<open>The insertion, with the foreign key to the owner of the event.\<close>

definition insert_sunk :: "sink \<Rightarrow> sunk_row \<Rightarrow> pm_data \<Rightarrow> goerr + unit \<times> pm_data" where
  "insert_sunk s r d =
    (case in_table (sk_rows s) (sk_write s) (sql_insert (sk_schema s) r) d of
       Inl e \<Rightarrow> Inl e
     | Inr (u, d') \<Rightarrow> if k_owner r \<in> set (sk_owners s d) then Inr (u, d') else Inl (foreign_key_violation (sk_fkey s)))"

definition sink_Create :: "sink \<Rightarrow> ('b) penv_scheme \<Rightarrow> NewSunkEvent \<Rightarrow> sunk_row pm" where
  "sink_Create s env ev =
     bnd (uuid_New env) (\<lambda>i.
     bnd (map_err (stored_or_wrapped (sk_stored s) (''create '' @ sk_noun s))
       (sql env (insert_sunk s (sunk_row_of i ev)))) (\<lambda>_.
     ret (sunk_row_of i ev)))"

definition CreateOrderEvent :: "('b) penv_scheme \<Rightarrow> NewSunkEvent \<Rightarrow> sunk_row pm" where
  "CreateOrderEvent = sink_Create order_sink"

definition CreateDisputeEvent :: "('b) penv_scheme \<Rightarrow> NewSunkEvent \<Rightarrow> sunk_row pm" where
  "CreateDisputeEvent = sink_Create dispute_sink"

section \<open>Pages\<close>

record EventQuery =
  eq_Owners :: "string list"
  eq_Kinds :: "string list"
  eq_TimeFrom :: "time option"
  eq_TimeTo :: "time option"
  eq_Limit :: int
  eq_Cursor :: string
  eq_SortAsc :: bool

text \<open>The cursor: creation time and identifier of the last event of a page.\<close>

definition event_cursor_of :: "sunk_row \<Rightarrow> event_cursor" where
  "event_cursor_of r = (k_created_at r, k_id r)"

text \<open>\<open>(created_at, id) > (?, ?)\<close> in ascending order, \<open><\<close> in descending order.\<close>

definition event_after :: "bool \<Rightarrow> event_cursor \<Rightarrow> event_cursor \<Rightarrow> bool" where
  "event_after asc c k \<longleftrightarrow> (if asc then c < k else k < c)"

definition event_where :: "EventQuery \<Rightarrow> sunk_row \<Rightarrow> bool" where
  "event_where q r \<longleftrightarrow> (eq_Owners q = [] \<or> k_owner r \<in> set (eq_Owners q))
     \<and> (eq_Kinds q = [] \<or> k_kind r \<in> set (eq_Kinds q))
     \<and> (case eq_TimeFrom q of None \<Rightarrow> True | Some t \<Rightarrow> t \<le> k_created_at r)
     \<and> (case eq_TimeTo q of None \<Rightarrow> True | Some t \<Rightarrow> k_created_at r < t)"

definition event_order :: "bool \<Rightarrow> sunk_row list \<Rightarrow> sunk_row list" where
  "event_order asc rows = (let up = sort_key event_cursor_of rows in if asc then up else rev up)"

text \<open>The statement that \<open>buildOrderEventPageQuery\<close> writes, for \<open>n\<close> rows.\<close>

definition select_events :: "EventQuery \<Rightarrow> event_cursor option \<Rightarrow> nat \<Rightarrow> sunk_row list \<Rightarrow> sunk_row list" where
  "select_events q c n rows =
     take n (filter (\<lambda>r. event_where q r
       \<and> (case c of None \<Rightarrow> True | Some k \<Rightarrow> event_after (eq_SortAsc q) k (event_cursor_of r)))
       (event_order (eq_SortAsc q) rows))"

definition event_limit :: "int \<Rightarrow> nat" where
  "event_limit limit = nat (if limit \<le> 0 then 10 else if 1000 < limit then 1000 else limit)"

record EventPage =
  ep_Items :: "sunk_row list"
  ep_NextCursor :: string
  ep_HasMore :: bool

definition cut_events :: "nat \<Rightarrow> sunk_row list \<Rightarrow> EventPage" where
  "cut_events n found =
    (let hasMore = n < length found; items = (if hasMore then take n found else found)
     in \<lparr>ep_Items = items,
         ep_NextCursor = (if hasMore \<and> items \<noteq> [] then encodeEventCursor (event_cursor_of (last items)) else ''''),
         ep_HasMore = hasMore\<rparr>)"

definition decode_cursor :: "string \<Rightarrow> goerr + event_cursor option" where
  "decode_cursor s = (if s = '''' then Inr None else case decodeEventCursor s of
      Inl e \<Rightarrow> Inl (wrap ''decode cursor'' e) | Inr c \<Rightarrow> Inr (Some c))"

definition sink_Get :: "sink \<Rightarrow> ('b) penv_scheme \<Rightarrow> EventQuery \<Rightarrow> EventPage pm" where
  "sink_Get s env q =
    (let n = event_limit (eq_Limit q) in
     bnd (map_err (wrap (''build '' @ sk_noun s @ '' query'')) (of_sum (decode_cursor (eq_Cursor q)))) (\<lambda>c.
     bnd (map_err (wrap (''query '' @ sk_noun s @ ''s''))
       (read_db env Pool (\<lambda>d. Inr (select_events q c (n + 1) (sk_rows s d), d)))) (\<lambda>found.
     ret (cut_events n found))))"

definition GetOrderEvents :: "('b) penv_scheme \<Rightarrow> EventQuery \<Rightarrow> EventPage pm" where
  "GetOrderEvents = sink_Get order_sink"

definition GetDisputeEvents :: "('b) penv_scheme \<Rightarrow> EventQuery \<Rightarrow> EventPage pm" where
  "GetDisputeEvents = sink_Get dispute_sink"

text \<open>The services' \<open>GetEvents\<close>: a limit that is not positive becomes 10 here, too.\<close>

definition events_service ::
  "string \<Rightarrow> (EventQuery \<Rightarrow> EventPage pm) \<Rightarrow> EventQuery \<Rightarrow> EventPage pm" where
  "events_service msg get q =
     map_err (wrap msg) (get (if eq_Limit q \<le> 0 then q\<lparr>eq_Limit := 10\<rparr> else q))"

text \<open>An event as JSON; the slice of the items is nil when there are none.\<close>

definition sunk_json :: "string \<Rightarrow> sunk_row \<Rightarrow> json" where
  "sunk_json owner r = JObj
     [(''event_id'', JStr (k_id r)), (owner, JStr (k_owner r)), (''kind'', JStr (k_kind r)),
      (''provider_event_id'', JStr (k_provider_event_id r)), (''data'', k_data r),
      (''created_at'', json_time (k_created_at r))]"

definition event_page_json :: "string \<Rightarrow> EventPage \<Rightarrow> json" where
  "event_page_json owner p = JObj
     [(''items'', if ep_Items p = [] then JNull else JArr (map (sunk_json owner) (ep_Items p))),
      (''next_cursor'', JStr (ep_NextCursor p)), (''has_more'', JBool (ep_HasMore p))]"

section \<open>The log of an order\<close>

definition sunk_key :: "sunk_row \<Rightarrow> string \<times> string" where
  "sunk_key r = (k_owner r, k_provider_event_id r)"

interpretation order_log: idempotent_log "sql_insert order_events_schema" sunk_key
proof (rule unique_index_log)
  have "(\<lambda>a b. sunk_key a = sunk_key b) = (\<lambda>a b. k_owner a = k_owner b
      \<and> k_provider_event_id a = k_provider_event_id b)"
    by (auto simp: sunk_key_def fun_eq_iff)
  then show "(''idx_order_events_idempotency'', \<lambda>a b. sunk_key a = sunk_key b) \<in> set (uniques order_events_schema)"
    by (simp add: order_events_schema_def)
qed (simp add: order_events_schema_def)

text \<open>The index of disputes has the time as well: the log refuses an event only at the same instant.\<close>

definition dated_key :: "sunk_row \<Rightarrow> string \<times> string \<times> time" where
  "dated_key r = (k_owner r, k_provider_event_id r, k_created_at r)"

interpretation dispute_log: idempotent_log "sql_insert dispute_events_schema" dated_key
proof (rule unique_index_log)
  have "(\<lambda>a b. dated_key a = dated_key b) = (\<lambda>a b. k_owner a = k_owner b
      \<and> k_provider_event_id a = k_provider_event_id b \<and> k_created_at a = k_created_at b)"
    by (auto simp: dated_key_def fun_eq_iff)
  then show "(''idx_dispute_events_idempotency'', \<lambda>a b. dated_key a = dated_key b) \<in> set (uniques dispute_events_schema)"
    by (simp add: dispute_events_schema_def)
qed (simp add: dispute_events_schema_def)

text \<open>What an appended event has done, and that a refused one has done nothing.\<close>

lemma insert_sunk_ok:
  "insert_sunk s r d = Inr (u, d') \<longleftrightarrow> k_owner r \<in> set (sk_owners s d)
     \<and> d' = sk_write s (\<lambda>_. sk_rows s d @ [r]) d \<and> rows_ok (sk_schema s) (sk_rows s d @ [r])"
proof (cases "in_table (sk_rows s) (sk_write s) (sql_insert (sk_schema s) r) d")
  case (Inl e)
  then have "\<not> rows_ok (sk_schema s) (sk_rows s d @ [r])"
    using enforce_ok[of "sk_schema s" "sk_rows s d @ [r]"] by (auto simp: in_table_err sql_insert_err)
  with Inl show ?thesis by (simp add: insert_sunk_def)
next
  case (Inr p)
  obtain d0 where p: "p = ((), d0)" by (cases p) auto
  from Inr p have eq: "in_table (sk_rows s) (sk_write s) (sql_insert (sk_schema s) r) d = Inr ((), d0)" by simp
  then have "d0 = sk_write s (\<lambda>_. sk_rows s d @ [r]) d \<and> rows_ok (sk_schema s) (sk_rows s d @ [r])"
    by (auto simp: in_table_ok sql_insert_ok)
  with eq show ?thesis by (auto simp: insert_sunk_def split: if_splits)
qed

lemma sink_Create_okE:
  assumes "sink_Create s env ev w = (Inr r, w')"
  obtains i where "r = sunk_row_of i ev" and "data w' = sk_write s (\<lambda>_. sk_rows s (data w) @ [r]) (data w)"
    and "nk_Owner ev \<in> set (sk_owners s (data w))" and "rows_ok (sk_schema s) (sk_rows s (data w) @ [r])"
    and "trace w' = trace w"
  using assms unfolding sink_Create_def
  by (auto simp: insert_sunk_ok sunk_row_of_def elim!: bnd_okE ask_okE map_err_okE sql_okE)

lemma sink_Create_errE:
  assumes "sink_Create s env ev w = (Inl e, w')"
  obtains "data w' = data w" and "trace w' = trace w"
  using assms unfolding sink_Create_def
  by (auto elim!: bnd_errE ask_okE ask_errE map_err_errE sql_errE)

section \<open>Paging lists everything\<close>

lemma event_order_sorted:
  assumes "distinct (map event_cursor_of rows)"
  shows "sorted_wrt (\<lambda>a b. event_after asc (event_cursor_of a) (event_cursor_of b)) (event_order asc rows)"
proof -
  have "distinct (map event_cursor_of (sort_key event_cursor_of rows))"
    using assms by (simp add: distinct_map)
  then have "sorted_wrt (<) (map event_cursor_of (sort_key event_cursor_of rows))"
    by (simp add: strict_sorted_iff)
  then have up: "sorted_wrt (\<lambda>a b. event_cursor_of a < event_cursor_of b) (sort_key event_cursor_of rows)"
    by (simp add: sorted_wrt_map)
  show ?thesis
  proof (cases asc)
    case True
    with up show ?thesis by (simp add: event_order_def event_after_def Let_def)
  next
    case False
    with up show ?thesis
      by (simp add: event_order_def event_after_def Let_def sorted_wrt_rev)
  qed
qed

definition event_listing :: "bool \<Rightarrow> sunk_row list \<times> EventQuery \<Rightarrow> sunk_row list" where
  "event_listing asc q = (case q of (rows, eq) \<Rightarrow> filter (event_where eq) (event_order asc rows))"

text \<open>A page with its cursor before encoding.\<close>

definition event_fetch ::
  "bool \<Rightarrow> sunk_row list \<times> EventQuery \<Rightarrow> nat \<Rightarrow> event_cursor option \<Rightarrow> sunk_row list \<times> event_cursor option" where
  "event_fetch asc q n c = (case q of (rows, eq) \<Rightarrow>
     let found = select_events (eq\<lparr>eq_SortAsc := asc\<rparr>) c (n + 1) rows
     in (take n found, if n < length found then Some (event_cursor_of (last (take n found))) else None))"

lemma event_where_asc [simp]: "event_where (q\<lparr>eq_SortAsc := asc\<rparr>) = event_where q"
  by (simp add: event_where_def fun_eq_iff)

lemma select_events_after:
  "select_events (q\<lparr>eq_SortAsc := asc\<rparr>) c n rows
   = take n (after (event_after asc) event_cursor_of c (event_listing asc (rows, q)))"
  by (cases c) (simp_all add: select_events_def event_listing_def conj_commute)

interpretation event_pages: keyset "event_after asc" event_cursor_of "event_listing asc" "event_fetch asc"
  "\<lambda>(rows, _). distinct (map event_cursor_of rows)" for asc
proof
  fix k l m :: event_cursor
  show "\<not> event_after asc k k" by (simp add: event_after_def)
  show "event_after asc k l \<Longrightarrow> event_after asc l m \<Longrightarrow> event_after asc k m"
    unfolding event_after_def by (auto split: if_splits)
next
  fix q :: "sunk_row list \<times> EventQuery" and n :: nat and c
  assume "case q of (rows, _) \<Rightarrow> distinct (map event_cursor_of rows)"
  then show "sorted_wrt (\<lambda>a b. event_after asc (event_cursor_of a) (event_cursor_of b)) (event_listing asc q)"
    by (cases q) (simp add: event_listing_def event_order_sorted sorted_wrt_filter)
  assume "0 < n"
  obtain rows eq where q: "q = (rows, eq)" by (cases q)
  show "fst (event_fetch asc q n c) = take n (after (event_after asc) event_cursor_of c (event_listing asc q))"
    by (simp add: q event_fetch_def select_events_after Let_def min_def)
  show "snd (event_fetch asc q n c) = (if n < length (after (event_after asc) event_cursor_of c (event_listing asc q))
      then Some (event_cursor_of (last (fst (event_fetch asc q n c)))) else None)"
    by (auto simp: q event_fetch_def select_events_after Let_def min_def)
qed

text \<open>What a client does with the answers: the items, and the cursor for the next request.\<close>

definition client_page ::
  "(EventQuery \<Rightarrow> EventPage pm) \<Rightarrow> EventQuery \<Rightarrow> (pm_data, pm_effect) world \<Rightarrow> string option
   \<Rightarrow> sunk_row list \<times> string option" where
  "client_page get q w s =
    (case fst (get (q\<lparr>eq_Cursor := (case s of None \<Rightarrow> '''' | Some x \<Rightarrow> x)\<rparr>) w) of
       Inl _ \<Rightarrow> ([], None)
     | Inr p \<Rightarrow> (ep_Items p, if ep_HasMore p then Some (ep_NextCursor p) else None))"

text \<open>Rows whose cursor can be written: ASCII identifiers, as UUIDs are, and years with four digits.\<close>

definition cursors_ok :: "sunk_row list \<Rightarrow> bool" where
  "cursors_ok rows \<longleftrightarrow> list_all (\<lambda>r. ascii (k_id r) \<and> json_years (k_created_at r)) rows"

lemma cursors_ok_read:
  assumes "cursors_ok rows" and "r \<in> set rows"
  shows "encodeEventCursor (event_cursor_of r) \<noteq> ''''"
    and "decodeEventCursor (encodeEventCursor (event_cursor_of r)) = Inr (event_cursor_of r)"
  using assms event_cursor_roundtrip[of "k_created_at r" "k_id r"]
  by (auto simp: cursors_ok_def list_all_iff event_cursor_of_def)

lemma event_limit_pos: "0 < event_limit l"
  by (simp add: event_limit_def)

lemma select_events_cursor [simp]: "select_events (q\<lparr>eq_Cursor := s\<rparr>) = select_events q"
proof -
  have "event_where (q\<lparr>eq_Cursor := s\<rparr>) = event_where q" by (simp add: event_where_def fun_eq_iff)
  then show ?thesis by (intro ext) (simp add: select_events_def cong: option.case_cong)
qed

lemma client_page_fetch:
  assumes "healthy env" and "\<And>n. replica env n = None" and "\<not> tx_failed w"
    and "cursors_ok (sk_rows s (data w))" and "c = None \<or> c \<in> Some ` event_cursor_of ` set (sk_rows s (data w))"
  shows "client_page (sink_Get s env) q w (map_option (encodeEventCursor) c)
    = map_prod id (map_option (encodeEventCursor)) (event_fetch (eq_SortAsc q) (sk_rows s (data w), q) (event_limit (eq_Limit q)) c)"
proof -
  have dec: "decode_cursor (case map_option (encodeEventCursor) c of None \<Rightarrow> '''' | Some x \<Rightarrow> x) = Inr c"
    using assms(5) cursors_ok_read[OF assms(4)] by (auto simp: decode_cursor_def)
  let ?n = "event_limit (eq_Limit q)"
  have "q\<lparr>eq_SortAsc := eq_SortAsc q\<rparr> = q" by simp
  moreover have "read_db env Pool (\<lambda>d. Inr (select_events q c (?n + 1) (sk_rows s d), d)) w
      = (Inr (select_events q c (?n + 1) (sk_rows s (data w))), tick w)"
    using assms(1-3) by (simp add: read_db_def sql_run split: option.splits)
  ultimately show ?thesis
    using dec event_limit_pos[of "eq_Limit q"]
    by (simp add: client_page_def sink_Get_def run_simps event_fetch_def cut_events_def Let_def)
qed

lemma event_fetch_cursor:
  assumes "0 < n" and "snd (event_fetch asc (rows, q) n c) = Some k"
  shows "k \<in> event_cursor_of ` set rows"
proof -
  let ?found = "select_events (q\<lparr>eq_SortAsc := asc\<rparr>) c (n + 1) rows"
  from assms have len: "n < length ?found" and k: "k = event_cursor_of (last (take n ?found))"
    by (auto simp: event_fetch_def Let_def split: if_splits)
  then have "last (take n ?found) \<in> set (take n ?found)"
    using assms(1) by (intro last_in_set) auto
  then have "last (take n ?found) \<in> set ?found" by (rule in_set_takeD)
  then have "last (take n ?found) \<in> set rows"
    by (auto simp: select_events_def event_order_def Let_def dest!: in_set_takeD split: if_splits)
  with k show ?thesis by blast
qed

text \<open>
  C34. Following the cursors of the event pages of an order or a dispute lists every event
  the query admits, each once, in the order asked for, whatever the limit.
\<close>

theorem event_paging_complete:
  assumes "healthy env" and "\<And>n. replica env n = None" and "\<not> tx_failed w"
    and "distinct (map event_cursor_of (sk_rows s (data w)))" and "cursors_ok (sk_rows s (data w))"
  shows "concat (follow (client_page (sink_Get s env) q w) (Suc (length (sk_rows s (data w)))) None)
    = filter (event_where q) (event_order (eq_SortAsc q) (sk_rows s (data w)))"
proof -
  let ?rows = "sk_rows s (data w)" and ?n = "event_limit (eq_Limit q)"
  let ?g = "event_fetch (eq_SortAsc q) (?rows, q) ?n"
  let ?ok = "\<lambda>c. c = None \<or> c \<in> Some ` event_cursor_of ` set ?rows"
  have "follow (client_page (sink_Get s env) q w) (Suc (length ?rows)) (map_option (encodeEventCursor) None)
      = follow ?g (Suc (length ?rows)) None"
  proof (rule follow_encoded[where ok = ?ok])
    fix c assume ok: "?ok c"
    have "?ok (snd (?g c))"
      using event_fetch_cursor[OF event_limit_pos, of "eq_SortAsc q" ?rows q "eq_Limit q" c]
      by (cases "snd (?g c)") auto
    then show "client_page (sink_Get s env) q w (map_option (encodeEventCursor) c)
        = (fst (?g c), map_option (encodeEventCursor) (snd (?g c))) \<and> ?ok (snd (?g c))"
      using client_page_fetch[OF assms(1-3,5) ok, of q] by (simp add: map_prod_def split: prod.splits)
  qed simp
  moreover have "length (event_order (eq_SortAsc q) ?rows) = length ?rows"
    by (simp add: event_order_def Let_def)
  then have "length (event_listing (eq_SortAsc q) (?rows, q)) \<le> length ?rows"
    unfolding event_listing_def prod.case by (metis length_filter_le)
  then have "length (after (event_after (eq_SortAsc q)) event_cursor_of None (event_listing (eq_SortAsc q) (?rows, q)))
      < Suc (length ?rows)" by simp
  from event_pages.follow_all[OF _ event_limit_pos this] assms(4)
  have "concat (follow ?g (Suc (length ?rows)) None) = event_listing (eq_SortAsc q) (?rows, q)" by simp
  ultimately show ?thesis by (simp add: event_listing_def)
qed

definition demo_event :: "string \<Rightarrow> time \<Rightarrow> sunk_row" where
  "demo_event i t = \<lparr>k_id = i, k_owner = ''o'', k_kind = ''hold_set'', k_provider_event_id = i, k_data = JNull, k_created_at = t\<rparr>"

definition sink_penv :: "unit penv_scheme" where
  "sink_penv = \<lparr>fault = \<lambda>_. None, commit_err = \<lambda>_ failed. if failed then Some (ErrText ''rolled back'') else None,
     clock = int, fresh = \<lambda>n. ''u'' @ show_nat n, http_Post = \<lambda>_ _ _. Inl (ErrText ''no route''), replica = \<lambda>_. None\<rparr>"

definition sink_world :: "(pm_data, pm_effect) world" where
  "sink_world = init_world \<lparr>payments = [], events = [], orders = [],
     order_events = [demo_event ''a'' 3, demo_event ''b'' 5, demo_event ''c'' 3],
     disputes = [], dispute_events = [], evidence = []\<rparr>"

definition demo_query :: EventQuery where
  "demo_query = \<lparr>eq_Owners = [''o''], eq_Kinds = [], eq_TimeFrom = Some 1, eq_TimeTo = None, eq_Limit = 2,
     eq_Cursor = '''', eq_SortAsc = True\<rparr>"

theorem event_paging_complete_witness:
  "map k_id (concat (follow (client_page (sink_Get order_sink sink_penv) demo_query sink_world)
       (Suc (length (sk_rows order_sink (data sink_world)))) None)) = [''a'', ''c'', ''b'']"
proof -
  have "concat (follow (client_page (sink_Get order_sink sink_penv) demo_query sink_world)
       (Suc (length (sk_rows order_sink (data sink_world)))) None)
     = filter (event_where demo_query) (event_order (eq_SortAsc demo_query) (sk_rows order_sink (data sink_world)))"
  proof (rule event_paging_complete)
    show "healthy sink_penv" by (simp add: healthy_def sink_penv_def)
    show "replica sink_penv n = None" for n by (simp add: sink_penv_def)
    show "\<not> tx_failed sink_world" by (simp add: sink_world_def init_world_def)
    show "distinct (map event_cursor_of (sk_rows order_sink (data sink_world)))" by code_simp
    show "cursors_ok (sk_rows order_sink (data sink_world))"
      unfolding cursors_ok_def json_years_def year_of_def ascii_def by code_simp
  qed
  moreover have "map k_id (filter (event_where demo_query)
      (event_order (eq_SortAsc demo_query) (sk_rows order_sink (data sink_world)))) = [''a'', ''c'', ''b'']"
    by code_simp
  ultimately show ?thesis by simp
qed

end
