(* ===== verification/PmOrder.thy ===== *)
theory PmOrder
  imports EventSink EventStore SilvergateClient StatusMachine GoTime
begin

text \<open>
  Paymanager, packages \<open>order\<close> and \<open>orderrepo\<close>: orders, their status table, the
  repository, and the service that handles updates of the provider, holds and captures.
\<close>

section \<open>Orders\<close>

abbreviation OrderCreated :: string where "OrderCreated \<equiv> ''created''"
abbreviation OrderUpdated :: string where "OrderUpdated \<equiv> ''updated''"
abbreviation OrderFailed :: string where "OrderFailed \<equiv> ''failed''"
abbreviation OrderSuccess :: string where "OrderSuccess \<equiv> ''success''"

definition AvailableStatuses :: "string list" where
  "AvailableStatuses = [OrderCreated, OrderUpdated, OrderFailed, OrderSuccess]"

definition CanBeUpdatedTo :: "string \<Rightarrow> string \<Rightarrow> bool" where
  "CanBeUpdatedTo s newStatus =
    (if s = OrderCreated then newStatus \<in> set [OrderUpdated, OrderFailed, OrderSuccess]
     else if s = OrderUpdated then newStatus \<in> set [OrderUpdated, OrderFailed, OrderSuccess]
     else if s = OrderFailed \<or> s = OrderSuccess then False
     else False)"

definition NewStatus :: "string \<Rightarrow> goerr + string" where
  "NewStatus raw = (if raw \<in> set AvailableStatuses then Inr raw else Inl (ErrText ''invalid order status''))"

definition order_rank :: "string \<Rightarrow> nat" where
  "order_rank s = (if s = OrderCreated then 0 else if s = OrderUpdated then 1 else 2)"

interpretation order_status: status_machine CanBeUpdatedTo order_rank
  by unfold_locales (auto simp: CanBeUpdatedTo_def order_rank_def split: if_splits)

record Order =
  od_OrderId :: string
  od_UserId :: string
  od_Status :: string
  od_OnHold :: bool
  od_HoldReason :: "string option"
  od_CreatedAt :: time
  od_UpdatedAt :: time

text \<open>The webhook of the provider about an order.\<close>

record OrderUpdate =
  ou_ProviderEventID :: string
  ou_OrderId :: string
  ou_UserId :: string
  ou_Status :: string
  ou_UpdatedAt :: time
  ou_CreatedAt :: time
  ou_Meta :: go_map

definition OrderUpdate_json :: "OrderUpdate \<Rightarrow> json" where
  "OrderUpdate_json u = JObj
     [(''provider_event_id'', JStr (ou_ProviderEventID u)), (''order_id'', JStr (ou_OrderId u)),
      (''user_id'', JStr (ou_UserId u)), (''status'', JStr (ou_Status u)),
      (''updated_at'', json_time (ou_UpdatedAt u)), (''created_at'', json_time (ou_CreatedAt u)),
      (''meta'', json_map (ou_Meta u))]"

section \<open>Queries\<close>

record OrdersQuery =
  oq_IDs :: "string list"
  oq_UserIDs :: "string list"
  oq_Statuses :: "string list"
  oq_Pagination :: "(int64 \<times> int64) option"
  oq_SortBy :: "string option"
  oq_SortOrder :: "string option"

definition NewOrdersQuery :: OrdersQuery where
  "NewOrdersQuery = \<lparr>oq_IDs = [], oq_UserIDs = [], oq_Statuses = [], oq_Pagination = None,
     oq_SortBy = None, oq_SortOrder = None\<rparr>"

definition OrdersQuery_Validate :: "OrdersQuery \<Rightarrow> goerr + unit" where
  "OrdersQuery_Validate q =
    (case (oq_SortBy q, oq_SortOrder q) of
       (Some s, _) \<Rightarrow> if s \<noteq> ''created_at'' \<and> s \<noteq> ''updated_at'' then Inl (ErrText (''invalid sort by: '' @ s))
         else (case oq_SortOrder q of None \<Rightarrow> Inr ()
           | Some t \<Rightarrow> if t \<noteq> ''asc'' \<and> t \<noteq> ''desc'' then Inl (ErrText (''invalid sort order: '' @ t)) else Inr ())
     | (None, Some t) \<Rightarrow> if t \<noteq> ''asc'' \<and> t \<noteq> ''desc'' then Inl (ErrText (''invalid sort order: '' @ t)) else Inr ()
     | (None, None) \<Rightarrow> Inr ())"

definition OrdersQuery_Build :: "OrdersQuery \<Rightarrow> goerr + OrdersQuery" where
  "OrdersQuery_Build q = (case OrdersQuery_Validate q of
      Inl err \<Rightarrow> Inl (Wrapped '''' (Sentinel Order_ErrInvalidQuery) ('': '' @ Error err))
    | Inr _ \<Rightarrow> Inr q)"

definition WithIDs :: "string list \<Rightarrow> OrdersQuery \<Rightarrow> OrdersQuery" where
  "WithIDs ids q = q\<lparr>oq_IDs := ids\<rparr>"

definition WithUserIDs :: "string list \<Rightarrow> OrdersQuery \<Rightarrow> OrdersQuery" where
  "WithUserIDs ids q = q\<lparr>oq_UserIDs := ids\<rparr>"

definition WithStatuses :: "string list \<Rightarrow> OrdersQuery \<Rightarrow> OrdersQuery" where
  "WithStatuses sts q = q\<lparr>oq_Statuses := sts\<rparr>"

definition WithSort :: "string \<Rightarrow> string \<Rightarrow> OrdersQuery \<Rightarrow> OrdersQuery" where
  "WithSort sortBy sortOrder q = q\<lparr>oq_SortBy := Some sortBy, oq_SortOrder := Some sortOrder\<rparr>"

text \<open>Page size and page number.\<close>

definition WithPagination :: "int64 \<times> int64 \<Rightarrow> OrdersQuery \<Rightarrow> OrdersQuery" where
  "WithPagination p q = q\<lparr>oq_Pagination := Some p\<rparr>"

text \<open>
  The statement of \<open>buildOrdersQuery\<close>. \<open>LIMIT\<close> and \<open>OFFSET\<close> are converted to \<open>uint64\<close>; the
  server refuses what is not a \<open>bigint\<close>. Rows come in the order of the table unless sorted.
\<close>

definition order_where :: "OrdersQuery \<Rightarrow> order_row \<Rightarrow> bool" where
  "order_where q r \<longleftrightarrow> (oq_IDs q = [] \<or> o_id r \<in> set (oq_IDs q))
     \<and> (oq_UserIDs q = [] \<or> o_user_id r \<in> set (oq_UserIDs q))
     \<and> (oq_Statuses q = [] \<or> o_status r \<in> set (oq_Statuses q))"

definition order_sorted :: "OrdersQuery \<Rightarrow> order_row list \<Rightarrow> order_row list" where
  "order_sorted q rows = (case (oq_SortBy q, oq_SortOrder q) of
      (Some s, Some t) \<Rightarrow>
        let up = sort_key (if s = ''created_at'' then o_created_at else o_updated_at) rows
        in if t = ''desc'' then rev up else up
    | _ \<Rightarrow> rows)"

definition bigint_range :: goerr where
  "bigint_range = PgErr (PgError ''22003'' '''' ''bigint out of range'')"

definition select_orders :: "OrdersQuery \<Rightarrow> order_row list \<Rightarrow> goerr + order_row list" where
  "select_orders q rows =
    (let found = order_sorted q (filter (order_where q) rows)
     in case oq_Pagination q of
       None \<Rightarrow> Inr found
     | Some (pageSize, pageNumber) \<Rightarrow>
         let offset = (pageNumber - 1) * pageSize
         in if 2 ^ 63 \<le> unat pageSize \<or> 2 ^ 63 \<le> unat offset then Inl bigint_range
            else Inr (take (unat pageSize) (drop (unat offset) found)))"

section \<open>The repository\<close>

definition order_of_row :: "order_row \<Rightarrow> string \<Rightarrow> Order" where
  "order_of_row r st = \<lparr>od_OrderId = o_id r, od_UserId = o_user_id r, od_Status = st, od_OnHold = o_on_hold r,
     od_HoldReason = o_hold_reason r, od_CreatedAt = o_created_at r, od_UpdatedAt = o_updated_at r\<rparr>"

fun parseOrderRows :: "order_row list \<Rightarrow> goerr + Order list" where
  "parseOrderRows [] = Inr []"
| "parseOrderRows (r # rs) = (case NewStatus (o_status r) of
      Inl err \<Rightarrow> Inl (wrap ''invalid status in database'' err)
    | Inr st \<Rightarrow> bind_sum (parseOrderRows rs) (\<lambda>os. Inr (order_of_row r st # os)))"

definition orderrepo_GetOrders :: "('b) penv_scheme \<Rightarrow> executor \<Rightarrow> OrdersQuery \<Rightarrow> Order list pm" where
  "orderrepo_GetOrders env x q =
     bnd (map_err (wrap ''query orders'')
       (read_db env x (\<lambda>d. bind_sum (select_orders q (orders d)) (\<lambda>found. Inr (found, d))))) (\<lambda>found.
     of_sum (parseOrderRows found))"

definition update_orders ::
  "(order_row \<Rightarrow> bool) \<Rightarrow> (order_row \<Rightarrow> order_row) \<Rightarrow> pm_data \<Rightarrow> goerr + nat \<times> pm_data" where
  "update_orders p f = in_table orders orders_update (sql_update orders_schema p f)"

definition orderrepo_UpdateOrder :: "('b) penv_scheme \<Rightarrow> OrderUpdate \<Rightarrow> unit pm" where
  "orderrepo_UpdateOrder env u =
     bnd (map_err (wrap ''update order'') (sql env (update_orders (\<lambda>r. o_id r = ou_OrderId u)
       (\<lambda>r. r\<lparr>o_status := ou_Status u, o_updated_at := ou_UpdatedAt u\<rparr>)))) (\<lambda>_. ret ())"

record UpdateOrderHoldRequest =
  uh_OrderID :: string
  uh_OnHold :: bool
  uh_Reason :: "string option"

text \<open>\<open>NOW()\<close> is the server's clock.\<close>

definition orderrepo_UpdateOrderHold :: "('b) penv_scheme \<Rightarrow> UpdateOrderHoldRequest \<Rightarrow> unit pm" where
  "orderrepo_UpdateOrderHold env req =
     bnd (time_Now env) (\<lambda>now.
     bnd (map_err (wrap ''update order hold'') (sql env (update_orders (\<lambda>r. o_id r = uh_OrderID req)
       (\<lambda>r. r\<lparr>o_on_hold := uh_OnHold req, o_hold_reason := uh_Reason req, o_updated_at := now\<rparr>)))) (\<lambda>_. ret ()))"

text \<open>\<open>strings.Contains\<close>.\<close>

fun contains :: "string \<Rightarrow> string \<Rightarrow> bool" where
  "contains [] sub = (sub = [])"
| "contains (c # cs) sub = (take (length sub) (c # cs) = sub \<or> contains cs sub)"

definition order_insert_err :: "goerr \<Rightarrow> goerr" where
  "order_insert_err err =
    (if contains (Error err) ''duplicate key'' \<and> contains (Error err) ''orders_pkey''
     then Sentinel Order_ErrAlreadyExists else wrap ''create order by event'' err)"

definition orderrepo_CreateOrder :: "('b) penv_scheme \<Rightarrow> OrderUpdate \<Rightarrow> unit pm" where
  "orderrepo_CreateOrder env u =
     map_err order_insert_err (sql env (in_table orders orders_update (sql_insert orders_schema
       \<lparr>o_id = ou_OrderId u, o_user_id = ou_UserId u, o_status = ou_Status u, o_on_hold = False,
        o_hold_reason = None, o_created_at = ou_CreatedAt u, o_updated_at = ou_UpdatedAt u\<rparr>)))"

section \<open>The service\<close>

definition getOrderByID :: "('b) penv_scheme \<Rightarrow> executor \<Rightarrow> string \<Rightarrow> Order pm" where
  "getOrderByID env x i =
     bnd (map_err (wrap ''get order'') (orderrepo_GetOrders env x (WithIDs [i] NewOrdersQuery))) (\<lambda>found.
     case found of [] \<Rightarrow> throw (Sentinel Order_ErrNotFound) | o1 # _ \<Rightarrow> ret o1)"

definition GetOrderByID :: "('b) penv_scheme \<Rightarrow> string \<Rightarrow> Order pm" where
  "GetOrderByID env i = getOrderByID env Pool i"

definition GetOrders :: "('b) penv_scheme \<Rightarrow> OrdersQuery \<Rightarrow> Order list pm" where
  "GetOrders env q = map_err (wrap ''filter orders'') (orderrepo_GetOrders env Pool q)"

abbreviation OrderEventWebhookReceived :: string where "OrderEventWebhookReceived \<equiv> ''webhook_received''"
abbreviation OrderEventHoldSet :: string where "OrderEventHoldSet \<equiv> ''hold_set''"
abbreviation OrderEventHoldCleared :: string where "OrderEventHoldCleared \<equiv> ''hold_cleared''"
abbreviation OrderEventCaptureRequested :: string where "OrderEventCaptureRequested \<equiv> ''capture_requested''"
abbreviation OrderEventCaptureCompleted :: string where "OrderEventCaptureCompleted \<equiv> ''capture_completed''"
abbreviation OrderEventCaptureFailed :: string where "OrderEventCaptureFailed \<equiv> ''capture_failed''"

definition order_update_tx :: "('b) penv_scheme \<Rightarrow> OrderUpdate \<Rightarrow> unit pm" where
  "order_update_tx env u =
     bnd (if ou_Status u = OrderCreated
          then map_err (wrap ''create order from event'') (orderrepo_CreateOrder env u)
          else bnd (map_err (wrap ''load order'') (getOrderByID env Tx (ou_OrderId u))) (\<lambda>ord.
               bnd (fail_if (\<not> CanBeUpdatedTo (od_Status ord) (ou_Status u)) (Sentinel Order_ErrInvalidStatus)) (\<lambda>_.
               map_err (wrap ''update order'') (orderrepo_UpdateOrder env u)))) (\<lambda>_.
     writeEvent env AggregateOrder (ou_OrderId u) OrderEventWebhookReceived (ou_ProviderEventID u) (OrderUpdate_json u))"

definition createWebhookReceivedEvent :: "('b) penv_scheme \<Rightarrow> OrderUpdate \<Rightarrow> unit pm" where
  "createWebhookReceivedEvent env u =
     bnd (time_Now env) (\<lambda>now.
     bnd (CreateOrderEvent env \<lparr>nk_Owner = ou_OrderId u, nk_Kind = OrderEventWebhookReceived,
       nk_ProviderEventID = ou_ProviderEventID u, nk_Data = OrderUpdate_json u, nk_CreatedAt = now\<rparr>) (\<lambda>_. ret ()))"

definition ProcessOrderUpdate :: "('b) penv_scheme \<Rightarrow> OrderUpdate \<Rightarrow> unit pm" where
  "ProcessOrderUpdate env u =
     bnd (InTransaction env RepeatableRead (order_update_tx env u)) (\<lambda>_.
     map_err (wrap ''failed to create webhook event'') (createWebhookReceivedEvent env u))"

definition order_GetEvents :: "('b) penv_scheme \<Rightarrow> EventQuery \<Rightarrow> EventPage pm" where
  "order_GetEvents env = events_service ''get order events'' (GetOrderEvents env)"

record HoldRequest =
  hr_Action :: string
  hr_Reason :: "string option"

definition HoldRequest_Validate :: "HoldRequest \<Rightarrow> goerr + unit" where
  "HoldRequest_Validate r =
    (if hr_Action r = ''set'' \<and> hr_Reason r = None
     then Inl (ErrText (''reason is required when action is '' @ [CHR 0x27] @ ''set'' @ [CHR 0x27])) else Inr ())"

definition HoldRequest_json :: "HoldRequest \<Rightarrow> json" where
  "HoldRequest_json r = JObj ([(''action'', JStr (hr_Action r))]
     @ (case hr_Reason r of None \<Rightarrow> [] | Some x \<Rightarrow> [(''reason'', JStr x)]))"

record HoldResponse =
  hs_OrderID :: string
  hs_OnHold :: bool
  hs_Reason :: "string option"
  hs_UpdatedAt :: time

definition hold_event_kind :: "HoldRequest \<Rightarrow> string" where
  "hold_event_kind r = (if hr_Action r = ''clear'' then OrderEventHoldCleared else OrderEventHoldSet)"

definition hold_tx :: "('b) penv_scheme \<Rightarrow> string \<Rightarrow> HoldRequest \<Rightarrow> HoldResponse pm" where
  "hold_tx env orderID req =
     bnd (map_err (wrap ''load order'') (getOrderByID env Tx orderID)) (\<lambda>ord.
     bnd (map_err (wrap ''update order hold status'') (orderrepo_UpdateOrderHold env
       \<lparr>uh_OrderID = od_OrderId ord, uh_OnHold = (hr_Action req = ''set''),
        uh_Reason = (if hr_Action req = ''set'' then hr_Reason req else None)\<rparr>)) (\<lambda>_.
     bnd (map_err (wrap ''get updated order'') (getOrderByID env Tx (od_OrderId ord))) (\<lambda>upd.
     bnd (uuid_New env) (\<lambda>key.
     bnd (writeEvent env AggregateOrder orderID (hold_event_kind req) key (HoldRequest_json req)) (\<lambda>_.
     ret \<lparr>hs_OrderID = od_OrderId upd, hs_OnHold = od_OnHold upd, hs_Reason = od_HoldReason upd,
          hs_UpdatedAt = od_UpdatedAt upd\<rparr>)))))"

definition createHoldEvent :: "('b) penv_scheme \<Rightarrow> string \<Rightarrow> string \<Rightarrow> HoldRequest \<Rightarrow> unit pm" where
  "createHoldEvent env orderID kind req =
     bnd (uuid_New env) (\<lambda>key.
     bnd (time_Now env) (\<lambda>now.
     bnd (CreateOrderEvent env \<lparr>nk_Owner = orderID, nk_Kind = kind, nk_ProviderEventID = key,
       nk_Data = HoldRequest_json req, nk_CreatedAt = now\<rparr>) (\<lambda>_. ret ())))"

definition UpdateOrderHold :: "('b) penv_scheme \<Rightarrow> string \<Rightarrow> HoldRequest \<Rightarrow> HoldResponse pm" where
  "UpdateOrderHold env orderID req =
     bnd (map_err (wrap ''invalid hold request'') (of_sum (HoldRequest_Validate req))) (\<lambda>_.
     bnd (InTransaction env RepeatableRead (hold_tx env orderID req)) (\<lambda>response.
     bnd (attempt (createHoldEvent env orderID (hold_event_kind req) req)) (\<lambda>_.
     ret response)))"

record OrderCaptureRequest =
  oc_Amount :: rat
  oc_Currency :: string
  oc_IdempotencyKey :: string

definition OrderCaptureRequest_json :: "OrderCaptureRequest \<Rightarrow> json" where
  "OrderCaptureRequest_json r = JObj [(''amount'', JFloat (oc_Amount r)), (''currency'', JStr (oc_Currency r)),
     (''idempotency_key'', JStr (oc_IdempotencyKey r))]"

record OrderCaptureResponse =
  or_OrderID :: string
  or_Amount :: rat
  or_Currency :: string
  or_Status :: string
  or_ProviderTxID :: string
  or_CapturedAt :: time

definition OrderCaptureResponse_json :: "OrderCaptureResponse \<Rightarrow> json" where
  "OrderCaptureResponse_json r = JObj [(''order_id'', JStr (or_OrderID r)), (''amount'', JFloat (or_Amount r)),
     (''currency'', JStr (or_Currency r)), (''status'', JStr (or_Status r)),
     (''provider_tx_id'', JStr (or_ProviderTxID r)), (''captured_at'', json_time (or_CapturedAt r))]"

definition capture_event_kind :: "OrderCaptureResponse \<Rightarrow> string" where
  "capture_event_kind r = (if or_Status r = ''failed'' then OrderEventCaptureFailed else OrderEventCaptureCompleted)"

definition order_capture_tx ::
  "('b) penv_scheme \<Rightarrow> Client \<Rightarrow> string \<Rightarrow> OrderCaptureRequest \<Rightarrow> OrderCaptureResponse pm" where
  "order_capture_tx env c orderID req =
     bnd (map_err (wrap ''load order'') (getOrderByID env Tx orderID)) (\<lambda>ord.
     bnd (fail_if (od_OnHold ord) (Sentinel Order_ErrOnHold)) (\<lambda>_.
     bnd (fail_if (od_Status ord = OrderSuccess \<or> od_Status ord = OrderFailed) (Sentinel Order_ErrInFinalStatus)) (\<lambda>_.
     bnd (map_err (wrap ''provider capture failed'') (CapturePayment env c
       \<lparr>gc_OrderID = od_OrderId ord, gc_Amount = oc_Amount req, gc_Currency = oc_Currency req,
        gc_IdempotencyKey = oc_IdempotencyKey req\<rparr>)) (\<lambda>result.
     bnd (time_Now env) (\<lambda>now.
     let response = \<lparr>or_OrderID = od_OrderId ord, or_Amount = oc_Amount req, or_Currency = oc_Currency req,
           or_Status = gs_Status result, or_ProviderTxID = gs_ProviderTxID result, or_CapturedAt = now\<rparr> in
     bnd (writeEvent env AggregateOrder orderID OrderEventCaptureRequested (oc_IdempotencyKey req)
       (OrderCaptureRequest_json req)) (\<lambda>_.
     bnd (writeEvent env AggregateOrder orderID (capture_event_kind response) (or_ProviderTxID response)
       (OrderCaptureResponse_json response)) (\<lambda>_.
     ret response)))))))"

definition createCaptureRequestedEvent :: "('b) penv_scheme \<Rightarrow> string \<Rightarrow> OrderCaptureRequest \<Rightarrow> unit pm" where
  "createCaptureRequestedEvent env orderID req =
     bnd (time_Now env) (\<lambda>now.
     bnd (CreateOrderEvent env \<lparr>nk_Owner = orderID, nk_Kind = OrderEventCaptureRequested,
       nk_ProviderEventID = oc_IdempotencyKey req, nk_Data = OrderCaptureRequest_json req, nk_CreatedAt = now\<rparr>) (\<lambda>_. ret ()))"

definition createCaptureResultEvent :: "('b) penv_scheme \<Rightarrow> string \<Rightarrow> string \<Rightarrow> OrderCaptureResponse \<Rightarrow> unit pm" where
  "createCaptureResultEvent env orderID kind response =
     bnd (time_Now env) (\<lambda>now.
     bnd (CreateOrderEvent env \<lparr>nk_Owner = orderID, nk_Kind = kind,
       nk_ProviderEventID = or_ProviderTxID response, nk_Data = OrderCaptureResponse_json response, nk_CreatedAt = now\<rparr>) (\<lambda>_. ret ()))"

definition order_CapturePayment ::
  "('b) penv_scheme \<Rightarrow> Client \<Rightarrow> string \<Rightarrow> OrderCaptureRequest \<Rightarrow> OrderCaptureResponse pm" where
  "order_CapturePayment env c orderID req =
     bnd (InTransaction env RepeatableRead (order_capture_tx env c orderID req)) (\<lambda>response.
     bnd (attempt (createCaptureRequestedEvent env orderID req)) (\<lambda>_.
     bnd (attempt (createCaptureResultEvent env orderID (capture_event_kind response) response)) (\<lambda>_.
     ret response)))"

end
