(* ===== verification/PmOrderFacts.thy ===== *)
theory PmOrderFacts
  imports PmOrder
begin

text \<open>
  What holds of paymanager's orders: how a status moves, when a capture is refused, what a
  hold does, and what a webhook that is delivered again meets.
\<close>

section \<open>Reading an order\<close>

abbreviation orders_ok :: "pm_data \<Rightarrow> bool" where
  "orders_ok d \<equiv> rows_ok orders_schema (orders d)"

lemma orders_distinct: "orders_ok d \<Longrightarrow> distinct (map o_id (orders d))"
  unfolding rows_ok_def orders_schema_def by (simp add: no_clash_key)

lemma select_one: "select_orders (WithIDs [i] NewOrdersQuery) rows = Inr (filter (\<lambda>r. o_id r = i) rows)"
proof -
  have "order_where (WithIDs [i] NewOrdersQuery) = (\<lambda>r. o_id r = i)"
    by (auto simp: WithIDs_def NewOrdersQuery_def order_where_def)
  then show ?thesis by (simp add: select_orders_def order_sorted_def) (simp add: WithIDs_def NewOrdersQuery_def)
qed

lemma read_only_orders [simp]: "read_only (\<lambda>d. bind_sum (select_orders q (orders d)) (\<lambda>found. Inr (found, d)))"
  by (auto simp: read_only_def bind_sum_ok)

lemma keeps_orders_read [keeps_intros]:
  "keeps_data I (orderrepo_GetOrders env x q)" "keeps_data I (getOrderByID env x i)"
  unfolding getOrderByID_def orderrepo_GetOrders_def
  by (intro keeps_intros keeps_data_read_db read_only_orders; simp split: list.split add: keeps_ret keeps_throw)+

lemma keeps_orders_read_trace [keeps_intros]:
  "keeps_trace I (orderrepo_GetOrders env x q)" "keeps_trace I (getOrderByID env x i)"
  unfolding getOrderByID_def orderrepo_GetOrders_def
  by (intro keeps_intros; simp split: list.split add: keeps_ret keeps_throw)+

lemma getOrderByID_okE:
  assumes "getOrderByID env x i w = (Inr ord, w')"
  obtains d r where "d = data w \<or> x = Pool" and "r \<in> set (orders d)" and "o_id r = i"
    and "ord = order_of_row r (o_status r)" and "data w' = data w"
proof -
  have same: "data w' = data w"
    using keepsD[OF keeps_orders_read(2)[of "\<lambda>d. d = data w"] assms] by simp
  from assms obtain found w1 rest where p: "parseOrderRows found = Inr (ord # rest)"
    and q: "read_db env x (\<lambda>d. bind_sum (select_orders (WithIDs [i] NewOrdersQuery) (orders d)) (\<lambda>found. Inr (found, d))) w = (Inr found, w1)"
    unfolding getOrderByID_def orderrepo_GetOrders_def
    by (auto elim!: bnd_okE map_err_okE split: list.splits)
  from q obtain d where d: "d = data w \<or> x = Pool" and f: "found = filter (\<lambda>r. o_id r = i) (orders d)"
    by (rule read_db_okE[OF _ read_only_orders]) (auto simp: select_one)
  from p obtain r rs where r: "found = r # rs" "ord = order_of_row r (o_status r)"
    by (cases found) (auto simp: NewStatus_def bind_sum_ok split: sum.splits if_splits)
  then have "r \<in> set found" by simp
  then have "r \<in> set (orders d) \<and> o_id r = i" unfolding f by simp
  with d r same that show thesis by blast
qed

section \<open>Status\<close>

text \<open>An order that was in the table is still there, its status moved along the table of transitions.\<close>

definition order_grew :: "order_row \<Rightarrow> order_row \<Rightarrow> bool" where
  "order_grew r r' \<longleftrightarrow> o_id r' = o_id r \<and> o_user_id r' = o_user_id r \<and> o_created_at r' = o_created_at r
     \<and> CanBeUpdatedTo\<^sup>*\<^sup>* (o_status r) (o_status r')"

definition orders_grew :: "pm_data \<Rightarrow> pm_data \<Rightarrow> bool" where
  "orders_grew d d' \<longleftrightarrow> orders_ok d' \<and> (\<forall>r\<in>set (orders d). \<exists>r'\<in>set (orders d'). order_grew r r')"

lemma order_grew_refl: "order_grew r r"
  by (simp add: order_grew_def)

lemma order_grew_trans: "order_grew a b \<Longrightarrow> order_grew b c \<Longrightarrow> order_grew a c"
  unfolding order_grew_def by (auto intro: rtranclp_trans)

lemma orders_grew_refl: "orders_ok d \<Longrightarrow> orders_grew d d"
  by (auto simp: orders_grew_def intro: order_grew_refl)

lemma orders_grew_same: "orders_grew d0 d \<Longrightarrow> orders d' = orders d \<Longrightarrow> orders_grew d0 d'"
  by (simp add: orders_grew_def)

lemma orders_grew_insert:
  "orders_grew d0 d \<Longrightarrow> rows_ok orders_schema (orders d @ [r]) \<Longrightarrow> orders d' = orders d @ [r] \<Longrightarrow> orders_grew d0 d'"
  unfolding orders_grew_def by fastforce

lemma orders_grew_written:
  assumes "orders_grew d0 d" and "rows_ok orders_schema (set_where p f (orders d))"
    and "\<And>r. r \<in> set (orders d) \<Longrightarrow> p r \<Longrightarrow> order_grew r (f r)"
    and "orders d' = set_where p f (orders d)"
  shows "orders_grew d0 d'"
  unfolding orders_grew_def
proof (intro conjI ballI)
  show "orders_ok d'" using assms(2,4) by simp
next
  fix r assume "r \<in> set (orders d0)"
  with assms(1) obtain r1 where r1: "r1 \<in> set (orders d)" "order_grew r r1" unfolding orders_grew_def by blast
  let ?r' = "if p r1 then f r1 else r1"
  have "?r' \<in> set (orders d')" unfolding assms(4) set_set_where using r1(1) by blast
  moreover have "order_grew r ?r'" using r1 assms(3)[of r1] by (auto intro: order_grew_trans)
  ultimately show "\<exists>r'\<in>set (orders d'). order_grew r r'" by blast
qed

lemma update_orders_ok:
  "update_orders p f d = Inr (n, d') \<longleftrightarrow> n = length (filter p (orders d))
     \<and> d' = d\<lparr>orders := set_where p f (orders d)\<rparr> \<and> rows_ok orders_schema (set_where p f (orders d))"
  by (auto simp: update_orders_def in_table_ok sql_update_ok)

text \<open>The guarded update: the row the status was read from is the row that is written.\<close>

lemma keeps_guarded_update:
  "keeps_data (orders_grew d0)
     (bnd (map_err g (getOrderByID env Tx (ou_OrderId u))) (\<lambda>ord.
      bnd (fail_if (\<not> CanBeUpdatedTo (od_Status ord) (ou_Status u)) e) (\<lambda>_.
      map_err h (orderrepo_UpdateOrder env u))))" (is "keeps_data _ ?m")
proof (rule keepsI)
  fix w r w' assume I: "orders_grew d0 (data w)" and run: "?m w = (r, w')"
  obtain q w1 where look: "getOrderByID env Tx (ou_OrderId u) w = (q, w1)" by fastforce
  have same: "data w1 = data w" using keepsD[OF keeps_orders_read(2)[of "\<lambda>d. d = data w"] look] by simp
  show "orders_grew d0 (data w')"
  proof (cases "\<exists>ord. q = Inr ord \<and> CanBeUpdatedTo (od_Status ord) (ou_Status u)")
    case False
    with look run same I show ?thesis by (auto simp: run_simps split: sum.splits)
  next
    case True
    then obtain ord where q: "q = Inr ord" and can: "CanBeUpdatedTo (od_Status ord) (ou_Status u)" by blast
    from look[unfolded q] obtain r0 where r0: "r0 \<in> set (orders (data w))" "o_id r0 = ou_OrderId u" "od_Status ord = o_status r0"
      by (rule getOrderByID_okE) (auto simp: order_of_row_def)
    have ok: "distinct (map o_id (orders (data w)))" using I by (auto simp: orders_grew_def intro: orders_distinct)
    have upd: "map_err h (orderrepo_UpdateOrder env u) w1 = (r, w')"
      using look run q can by (simp add: run_bnd run_map_err run_fail_if)
    show ?thesis
    proof (cases r)
      case (Inl e')
      with upd have "data w' = data w1"
        unfolding orderrepo_UpdateOrder_def by (auto elim!: map_err_errE bnd_errE sql_errE)
      with I same show ?thesis by simp
    next
      case (Inr x)
      with upd have st: "data w' = (data w1)\<lparr>orders := set_where (\<lambda>r. o_id r = ou_OrderId u)
            (\<lambda>r. r\<lparr>o_status := ou_Status u, o_updated_at := ou_UpdatedAt u\<rparr>) (orders (data w1))\<rparr>"
        and ok': "rows_ok orders_schema (set_where (\<lambda>r. o_id r = ou_OrderId u)
            (\<lambda>r. r\<lparr>o_status := ou_Status u, o_updated_at := ou_UpdatedAt u\<rparr>) (orders (data w1)))"
        unfolding orderrepo_UpdateOrder_def
        by (auto simp: update_orders_ok elim!: map_err_okE bnd_okE sql_okE)
      show ?thesis
      proof (rule orders_grew_written[OF I])
        fix r1 assume r1: "r1 \<in> set (orders (data w))" "o_id r1 = ou_OrderId u"
        with r0 ok have "r1 = r0" unfolding distinct_map by (metis inj_onD)
        with can r0 show "order_grew r1 (r1\<lparr>o_status := ou_Status u, o_updated_at := ou_UpdatedAt u\<rparr>)"
          by (simp add: order_grew_def)
      qed (use st ok' same in simp_all)
    qed
  qed
qed

lemma keeps_order_statement:
  assumes "\<And>d y d'. stmt d = Inr (y, d') \<Longrightarrow> orders d' = orders d"
  shows "keeps_data (orders_grew d0) (sql env stmt)"
  using assms by (intro keeps_data_sql) (blast intro: orders_grew_same)

lemma keeps_orders_event [keeps_intros]:
  "keeps_data (orders_grew d0) (writeEvent env aty aid ety key payload)"
  unfolding writeEvent_def CreateEvent_def
  by (intro keeps_intros keeps_order_statement) (auto simp: in_table_ok)

lemma keeps_orders_sunk [keeps_intros]: "keeps_data (orders_grew d0) (CreateOrderEvent env ev)"
  unfolding CreateOrderEvent_def sink_Create_def
  by (intro keeps_intros keeps_order_statement) (auto simp: insert_sunk_ok order_sink_def)

lemma keeps_orders_create [keeps_intros]: "keeps_data (orders_grew d0) (orderrepo_CreateOrder env u)"
  unfolding orderrepo_CreateOrder_def
  by (intro keeps_intros keeps_data_sql)
    (auto simp: in_table_ok sql_insert_ok intro: orders_grew_insert)

lemma keeps_orders_hold [keeps_intros]: "keeps_data (orders_grew d0) (orderrepo_UpdateOrderHold env req)"
  unfolding orderrepo_UpdateOrderHold_def
  by (intro keeps_intros keeps_data_sql)
    (auto simp: update_orders_ok order_grew_def intro: orders_grew_written)

lemma keeps_capture [keeps_intros]: "keeps_data I (CapturePayment env c req)"
  unfolding CapturePayment_def post_json_def provider_Post_def by (intro keeps_intros)

lemma keeps_order_requests:
  "keeps_data (orders_grew d0) (ProcessOrderUpdate env u)"
  "keeps_data (orders_grew d0) (UpdateOrderHold env i hreq)"
  "keeps_data (orders_grew d0) (order_CapturePayment env c i creq)"
  unfolding ProcessOrderUpdate_def order_update_tx_def createWebhookReceivedEvent_def UpdateOrderHold_def hold_tx_def
    createHoldEvent_def order_CapturePayment_def order_capture_tx_def createCaptureRequestedEvent_def
    createCaptureResultEvent_def Let_def
  by (intro keeps_guarded_update keeps_intros)+

text \<open>The requests of the service, in any order.\<close>

datatype order_request =
    OrderWebhook OrderUpdate
  | OrderHold string HoldRequest
  | OrderCapture string OrderCaptureRequest

definition serve_order :: "('b) penv_scheme \<Rightarrow> Client \<Rightarrow> order_request \<Rightarrow> unit pm" where
  "serve_order env c q = (case q of
      OrderWebhook u \<Rightarrow> ProcessOrderUpdate env u
    | OrderHold i r \<Rightarrow> bnd (UpdateOrderHold env i r) (\<lambda>_. ret ())
    | OrderCapture i r \<Rightarrow> bnd (order_CapturePayment env c i r) (\<lambda>_. ret ()))"

inductive order_step :: "Client \<Rightarrow> pm_data \<Rightarrow> pm_data \<Rightarrow> bool" for c where
  serve: "serve_order (env :: unit penv_scheme) c q w = (res, w') \<Longrightarrow> order_step c (data w) (data w')"

lemma order_step_grew:
  assumes "order_step c d d'" and "orders_grew d0 d"
  shows "orders_grew d0 d'"
  using assms
proof cases
  case (serve env q w res w')
  have "keeps_data (orders_grew d0) (serve_order env c q)"
    unfolding serve_order_def by (cases q) (simp_all, (intro keeps_order_requests keeps_intros)+)
  from keepsD[OF this serve(3)] assms(2) serve show ?thesis by simp
qed

lemma order_steps_grew:
  assumes "(order_step c)\<^sup>*\<^sup>* d d'" and "orders_ok d"
  shows "orders_grew d d'"
  using assms(1)
proof (induction rule: rtranclp_induct)
  case base
  show ?case using assms(2) by (rule orders_grew_refl)
next
  case (step x y)
  then show ?case by (blast intro: order_step_grew)
qed

section \<open>A sample\<close>

definition demo_order :: "string \<Rightarrow> string \<Rightarrow> order_row" where
  "demo_order i st = \<lparr>o_id = i, o_user_id = ''user'', o_status = st, o_on_hold = False, o_hold_reason = None,
     o_created_at = 1, o_updated_at = 2\<rparr>"

definition demo_orders :: "order_row list \<Rightarrow> (pm_data, pm_effect) world" where
  "demo_orders rows = init_world \<lparr>payments = [], events = [], orders = rows, order_events = [],
     disputes = [], dispute_events = [], evidence = []\<rparr>"

definition demo_update :: "string \<Rightarrow> string \<Rightarrow> string \<Rightarrow> OrderUpdate" where
  "demo_update i st ev = \<lparr>ou_ProviderEventID = ev, ou_OrderId = i, ou_UserId = ''user'', ou_Status = st,
     ou_UpdatedAt = 9, ou_CreatedAt = 1, ou_Meta = None\<rparr>"

definition demo_gateway :: Client where
  "demo_gateway = Client_New ''http://s'' ''/r'' ''/capture'' ''/auth'' ''/void''"

text \<open>
  C5. The status of an order moves only along the table of transitions, whatever updates,
  holds and captures are requested, in whatever order and whichever of them fail. The
  order stays in the table with its user and its creation time; an order that has failed
  or succeeded keeps its status for good.
\<close>

theorem order_status_moves:
  assumes "(order_step c)\<^sup>*\<^sup>* d d'" and "orders_ok d" and "r \<in> set (orders d)"
  shows "\<exists>r'\<in>set (orders d'). o_id r' = o_id r \<and> o_user_id r' = o_user_id r \<and> o_created_at r' = o_created_at r
    \<and> CanBeUpdatedTo\<^sup>*\<^sup>* (o_status r) (o_status r')
    \<and> (o_status r = OrderFailed \<or> o_status r = OrderSuccess \<longrightarrow> o_status r' = o_status r)"
proof -
  from order_steps_grew[OF assms(1,2)] assms(3) obtain r' where r': "r' \<in> set (orders d')" "order_grew r r'"
    unfolding orders_grew_def by blast
  have "o_status r' = o_status r" if "o_status r = OrderFailed \<or> o_status r = OrderSuccess"
  proof (rule order_status.final_stays)
    show "\<not> CanBeUpdatedTo (o_status r) t" for t using that by (auto simp: CanBeUpdatedTo_def)
    show "CanBeUpdatedTo\<^sup>*\<^sup>* (o_status r) (o_status r')" using r'(2) by (simp add: order_grew_def)
  qed
  with r' show ?thesis by (auto simp: order_grew_def)
qed

theorem order_status_moves_witness:
  "\<exists>r'\<in>set (orders (data (snd (ProcessOrderUpdate sink_penv (demo_update ''o'' ''success'' ''e'')
     (demo_orders [demo_order ''o'' ''failed'']))))). o_id r' = ''o'' \<and> o_status r' = ''failed''"
proof -
  let ?w = "demo_orders [demo_order ''o'' ''failed'']"
  have "order_step demo_gateway (data ?w) (data (snd (ProcessOrderUpdate sink_penv (demo_update ''o'' ''success'' ''e'') ?w)))"
    using order_step.serve[of sink_penv demo_gateway "OrderWebhook (demo_update ''o'' ''success'' ''e'')" ?w
        "fst (ProcessOrderUpdate sink_penv (demo_update ''o'' ''success'' ''e'') ?w)"]
    by (simp add: serve_order_def)
  then have steps: "(order_step demo_gateway)\<^sup>*\<^sup>* (data ?w) (data (snd (ProcessOrderUpdate sink_penv (demo_update ''o'' ''success'' ''e'') ?w)))"
    by simp
  have "orders_ok (data ?w)" by code_simp
  from order_status_moves[OF steps this, of "demo_order ''o'' ''failed''"] show ?thesis
    by (auto simp: demo_orders_def init_world_def demo_order_def)
qed

section \<open>Captures\<close>

lemma row_unique:
  "orders_ok d \<Longrightarrow> r \<in> set (orders d) \<Longrightarrow> r' \<in> set (orders d) \<Longrightarrow> o_id r' = o_id r \<Longrightarrow> r' = r"
  using orders_distinct[of d] unfolding distinct_map by (metis inj_onD)

definition capture_blocked :: "order_row \<Rightarrow> bool" where
  "capture_blocked r \<longleftrightarrow> o_on_hold r \<or> o_status r = OrderFailed \<or> o_status r = OrderSuccess"

lemma order_capture_tx_blocked:
  assumes "order_capture_tx env c i req w = (res, w')"
    and "orders_ok (data w)" and "r \<in> set (orders (data w))" and "o_id r = i" and "capture_blocked r"
  shows "(\<exists>e. res = Inl e) \<and> trace w' = trace w"
proof -
  obtain q w1 where look: "getOrderByID env Tx i w = (q, w1)" by fastforce
  have tr: "trace w1 = trace w"
    using keepsD[OF keeps_orders_read_trace(2)[of "\<lambda>t. t = trace w"] look] by simp
  show ?thesis
  proof (cases q)
    case (Inl e)
    with look assms(1) tr show ?thesis by (auto simp: order_capture_tx_def run_bnd run_map_err)
  next
    case (Inr ord)
    from look[unfolded Inr] obtain r0 where "r0 \<in> set (orders (data w))" "o_id r0 = i" "ord = order_of_row r0 (o_status r0)"
      by (rule getOrderByID_okE) auto
    with row_unique[OF assms(2,3)] assms(4) have "ord = order_of_row r (o_status r)" by auto
    with look Inr assms(1,5) tr show ?thesis
      by (cases "o_on_hold r")
        (auto simp: order_capture_tx_def run_bnd run_map_err run_fail_if order_of_row_def capture_blocked_def)
  qed
qed

text \<open>
  C4. An order that is on hold, or that has failed or succeeded, is not captured: the
  request is refused, the provider is not called and no row changes.
\<close>

theorem blocked_order_not_captured:
  assumes "order_CapturePayment env c i req w = (res, w')"
    and "orders_ok (data w)" and "r \<in> set (orders (data w))" and "o_id r = i"
    and "o_on_hold r \<or> o_status r = OrderFailed \<or> o_status r = OrderSuccess"
  shows "(\<exists>e. res = Inl e) \<and> trace w' = trace w \<and> data w' = data w"
proof -
  obtain q w1 where tx: "InTransaction env RepeatableRead (order_capture_tx env c i req) w = (q, w1)" by fastforce
  have blocked: "(\<exists>e. q0 = Inl e) \<and> trace v' = trace v"
    if "order_capture_tx env c i req v = (q0, v')" "data v = data w" for v q0 v'
    using order_capture_tx_blocked[OF that(1)] assms(2-5) that(2) by (simp add: capture_blocked_def)
  have "\<exists>e. q = Inl e"
  proof (cases q)
    case (Inr x)
    with tx have False by (auto elim!: InTransaction_okE dest!: blocked)
    then show ?thesis ..
  qed simp
  then obtain e where q: "q = Inl e" by blast
  from tx[unfolded q] have "trace w1 = trace w" by (rule InTransaction_errE) (auto dest!: blocked)
  moreover from tx q have "data w1 = data w" by (auto dest: InTransaction_err_data)
  ultimately show ?thesis using assms(1) tx q by (auto simp: order_CapturePayment_def run_bnd)
qed

definition demo_capture :: OrderCaptureRequest where
  "demo_capture = \<lparr>oc_Amount = 5, oc_Currency = ''EUR'', oc_IdempotencyKey = ''k''\<rparr>"

theorem blocked_order_not_captured_witness:
  "trace (snd (order_CapturePayment sink_penv demo_gateway ''o'' demo_capture
     (demo_orders [demo_order ''o'' ''success'']))) = []"
proof -
  let ?w = "demo_orders [demo_order ''o'' ''success'']"
  have "orders_ok (data ?w)" by code_simp
  from blocked_order_not_captured[OF prod.collapse[symmetric] this, of "demo_order ''o'' ''success''" "''o''"
      sink_penv demo_gateway demo_capture]
  show ?thesis by (auto simp: demo_orders_def init_world_def demo_order_def)
qed

section \<open>Holds\<close>

lemma keeps_orders_eq [keeps_intros]:
  "keeps_data (\<lambda>d. orders d = X) (writeEvent env aty aid ety key payload)"
  "keeps_data (\<lambda>d. orders d = X) (CreateOrderEvent env ev)"
  unfolding writeEvent_def CreateEvent_def CreateOrderEvent_def sink_Create_def
  by (intro keeps_intros keeps_data_sql, auto simp: in_table_ok insert_sunk_ok order_sink_def)+

lemma UpdateOrderHold_statement_okE:
  assumes "orderrepo_UpdateOrderHold env req w = (Inr u, w')"
  obtains now where "orders (data w') = set_where (\<lambda>r. o_id r = uh_OrderID req)
      (\<lambda>r. r\<lparr>o_on_hold := uh_OnHold req, o_hold_reason := uh_Reason req, o_updated_at := now\<rparr>) (orders (data w))"
  using assms unfolding orderrepo_UpdateOrderHold_def
  by (auto simp: update_orders_ok elim!: bnd_okE ask_okE map_err_okE sql_okE)

lemma held_rows:
  assumes "rows' = set_where p (\<lambda>r. r\<lparr>o_on_hold := b, o_hold_reason := x, o_updated_at := now\<rparr>) rows"
    and "r \<in> set rows'" and "p r" and "\<And>s b x now. p (s\<lparr>o_on_hold := b, o_hold_reason := x, o_updated_at := now\<rparr>) = p s"
  shows "o_on_hold r = b \<and> o_hold_reason r = x"
  using assms by (auto simp: set_set_where)

lemma hold_tx_post:
  assumes "hold_tx env i req w = (Inr resp, w')"
  shows "\<exists>r\<in>set (orders (data w')). o_id r = i \<and> o_on_hold r = (hr_Action req = ''set'')
    \<and> o_hold_reason r = (if hr_Action req = ''set'' then hr_Reason req else None)
    \<and> resp = \<lparr>hs_OrderID = i, hs_OnHold = o_on_hold r, hs_Reason = o_hold_reason r, hs_UpdatedAt = o_updated_at r\<rparr>"
proof -
  from assms obtain ord w1 w2 upd w3 key w4 where
    l1: "getOrderByID env Tx i w = (Inr ord, w1)"
    and up: "orderrepo_UpdateOrderHold env \<lparr>uh_OrderID = od_OrderId ord, uh_OnHold = (hr_Action req = ''set''),
        uh_Reason = (if hr_Action req = ''set'' then hr_Reason req else None)\<rparr> w1 = (Inr (), w2)"
    and l2: "getOrderByID env Tx (od_OrderId ord) w2 = (Inr upd, w3)"
    and ev: "writeEvent env AggregateOrder i (hold_event_kind req) key (HoldRequest_json req) w4 = (Inr (), w')"
    and w4: "data w4 = data w3"
    and resp: "resp = \<lparr>hs_OrderID = od_OrderId upd, hs_OnHold = od_OnHold upd, hs_Reason = od_HoldReason upd,
          hs_UpdatedAt = od_UpdatedAt upd\<rparr>"
    unfolding hold_tx_def by (auto elim!: bnd_okE map_err_okE ask_okE)
  from l1 have oid: "od_OrderId ord = i" by (rule getOrderByID_okE) (auto simp: order_of_row_def)
  from l2 obtain r where r: "r \<in> set (orders (data w2))" "o_id r = i" "upd = order_of_row r (o_status r)"
    and w3: "data w3 = data w2" by (rule getOrderByID_okE) (auto simp: oid)
  have "orders (data w') = orders (data w4)"
    using keepsD[OF keeps_orders_eq(1)[of "orders (data w4)"] ev] by simp
  with r w3 w4 have mem: "r \<in> set (orders (data w'))" by simp
  from up obtain now where rows: "orders (data w2) = set_where (\<lambda>r. o_id r = i)
      (\<lambda>r. r\<lparr>o_on_hold := (hr_Action req = ''set''),
        o_hold_reason := (if hr_Action req = ''set'' then hr_Reason req else None), o_updated_at := now\<rparr>) (orders (data w1))"
    unfolding oid by (rule UpdateOrderHold_statement_okE) simp
  have h: "o_on_hold r = (hr_Action req = ''set'')
      \<and> o_hold_reason r = (if hr_Action req = ''set'' then hr_Reason req else None)"
    by (rule held_rows[OF rows r(1)]) (simp_all add: r(2))
  have "resp = \<lparr>hs_OrderID = i, hs_OnHold = o_on_hold r, hs_Reason = o_hold_reason r, hs_UpdatedAt = o_updated_at r\<rparr>"
    unfolding resp r(3) using r(2) by (simp add: order_of_row_def)
  with r(2) h mem show ?thesis by blast
qed

text \<open>
  A hold request that succeeds has put the order on hold with the reason given, or has
  cleared the hold and its reason, and the response shows the order as it now is. The
  driver has to report a commit that the server turned into a rollback.
\<close>

theorem hold_takes_effect:
  assumes "UpdateOrderHold env i req w = (Inr resp, w')" and "commit_reports_rollback env"
  shows "\<exists>r\<in>set (orders (data w')). o_id r = i \<and> o_on_hold r = (hr_Action req = ''set'')
    \<and> o_hold_reason r = (if hr_Action req = ''set'' then hr_Reason req else None)
    \<and> resp = \<lparr>hs_OrderID = i, hs_OnHold = o_on_hold r, hs_Reason = o_hold_reason r, hs_UpdatedAt = o_updated_at r\<rparr>"
proof -
  from assms(1) obtain w0 w1 e where tx: "InTransaction env RepeatableRead (hold_tx env i req) w0 = (Inr resp, w1)"
    and ev: "createHoldEvent env i (hold_event_kind req) req w1 = (e, w')"
    unfolding UpdateOrderHold_def by (auto elim!: bnd_okE map_err_okE attempt_okE)
  from tx assms(2) obtain v v' where body: "hold_tx env i req v = (Inr resp, v')" and d: "data w1 = data v'"
    by (rule InTransaction_reported)
  have "keeps_data (\<lambda>d. orders d = orders (data w1)) (createHoldEvent env i (hold_event_kind req) req)"
    unfolding createHoldEvent_def by (intro keeps_intros)
  from keepsD[OF this ev] have "orders (data w') = orders (data v')" using d by simp
  with hold_tx_post[OF body] show ?thesis by simp
qed

definition demo_hold :: HoldRequest where
  "demo_hold = \<lparr>hr_Action = ''set'', hr_Reason = Some ''risk''\<rparr>"

theorem hold_takes_effect_witness:
  "\<exists>r\<in>set (orders (data (snd (UpdateOrderHold sink_penv ''o'' demo_hold (demo_orders [demo_order ''o'' ''created'']))))).
     o_id r = ''o'' \<and> o_on_hold r \<and> o_hold_reason r = Some ''risk''"
proof -
  let ?run = "UpdateOrderHold sink_penv ''o'' demo_hold (demo_orders [demo_order ''o'' ''created''])"
  have "fst ?run = Inr \<lparr>hs_OrderID = ''o'', hs_OnHold = True, hs_Reason = Some ''risk'', hs_UpdatedAt = 2\<rparr>" by code_simp
  then have "?run = (Inr \<lparr>hs_OrderID = ''o'', hs_OnHold = True, hs_Reason = Some ''risk'', hs_UpdatedAt = 2\<rparr>, snd ?run)"
    by (metis prod.collapse)
  moreover have "commit_reports_rollback sink_penv" by (simp add: commit_reports_rollback_def sink_penv_def)
  ultimately have "\<exists>r\<in>set (orders (data (snd ?run))). o_id r = ''o'' \<and> o_on_hold r = (hr_Action demo_hold = ''set'')
      \<and> o_hold_reason r = (if hr_Action demo_hold = ''set'' then hr_Reason demo_hold else None)
      \<and> \<lparr>hs_OrderID = ''o'', hs_OnHold = True, hs_Reason = Some ''risk'', hs_UpdatedAt = 2\<rparr>
        = \<lparr>hs_OrderID = ''o'', hs_OnHold = o_on_hold r, hs_Reason = o_hold_reason r, hs_UpdatedAt = o_updated_at r\<rparr>"
    by (rule hold_takes_effect)
  then show ?thesis unfolding demo_hold_def by auto
qed

section \<open>Updates delivered again\<close>

lemma getOrderByID_Tx_run:
  assumes "healthy env" and "\<not> tx_failed w" and "orders_ok (data w)" and "r \<in> set (orders (data w))"
    and "o_status r \<in> set AvailableStatuses"
  shows "getOrderByID env Tx (o_id r) w = (Inr (order_of_row r (o_status r)), tick w)"
proof -
  have "filter (\<lambda>x. o_id x = o_id r) (orders (data w)) = [r]"
    using orders_distinct[OF assms(3)] assms(4) by (rule filter_key_unique)
  with assms show ?thesis
    by (simp add: getOrderByID_def orderrepo_GetOrders_def run_simps sql_run select_one NewStatus_def bind_sum_def)
qed

text \<open>
  C35. An update that is delivered again, and that the status would still allow, is not
  recognised as a duplicate: the service skips the stored event, but the refused insertion
  has cost it the transaction, so the commit fails. The caller gets the driver's error, no
  row changes.
\<close>

theorem order_update_redelivered:
  assumes env: "healthy env" "commit_reports_rollback env" and ok: "orders_ok (data w)"
    and r: "r \<in> set (orders (data w))" "o_id r = ou_OrderId u"
    and st: "ou_Status u \<noteq> OrderCreated" "CanBeUpdatedTo (o_status r) (ou_Status u)"
    and stored: "(''order'', ou_OrderId u, ou_ProviderEventID u) \<in> event_key ` set (events (data w))"
  shows "\<exists>n e. commit_err env n True = Some e
    \<and> fst (ProcessOrderUpdate env u w) = Inl (wrap ''failed to commit transaction'' e)
    \<and> data (snd (ProcessOrderUpdate env u w)) = data w"
proof -
  let ?w1 = "(tick w)\<lparr>in_tx := True, tx_failed := False\<rparr>"
  let ?rows = "set_where (\<lambda>r. o_id r = ou_OrderId u)
      (\<lambda>r. r\<lparr>o_status := ou_Status u, o_updated_at := ou_UpdatedAt u\<rparr>) (orders (data w))"
  let ?w2 = "(tick (tick ?w1))\<lparr>data := (data w)\<lparr>orders := ?rows\<rparr>\<rparr>"
  let ?w3 = "(tick (tick (tick ?w2)))\<lparr>tx_failed := True\<rparr>"
  have known: "o_status r \<in> set AvailableStatuses"
    using st(2) by (auto simp: CanBeUpdatedTo_def AvailableStatuses_def split: if_splits)
  have load: "getOrderByID env Tx (ou_OrderId u) ?w1 = (Inr (order_of_row r (o_status r)), tick ?w1)"
    using getOrderByID_Tx_run[OF env(1), of ?w1 r] ok r known by simp
  have "rows_ok orders_schema ?rows"
    using ok by (rule rows_ok_set_where) (auto simp: orders_schema_def)
  then have "update_orders (\<lambda>r. o_id r = ou_OrderId u)
      (\<lambda>r. r\<lparr>o_status := ou_Status u, o_updated_at := ou_UpdatedAt u\<rparr>) (data w)
      = Inr (length (filter (\<lambda>r. o_id r = ou_OrderId u) (orders (data w))), (data w)\<lparr>orders := ?rows\<rparr>)"
    by (simp add: update_orders_ok)
  then have upd: "orderrepo_UpdateOrder env u (tick ?w1) = (Inr (), ?w2)"
    using env(1) by (simp add: orderrepo_UpdateOrder_def run_simps sql_run)
  have ev: "writeEvent env AggregateOrder (ou_OrderId u) OrderEventWebhookReceived (ou_ProviderEventID u)
      (OrderUpdate_json u) ?w2 = (Inr (), ?w3)"
    using writeEvent_taken[OF env(1), of ?w2 "''order''" "ou_OrderId u" "ou_ProviderEventID u"] stored by simp
  have tx: "order_update_tx env u ?w1 = (Inr (), ?w3)"
    using load upd ev st by (simp add: order_update_tx_def run_bnd run_map_err run_fail_if order_of_row_def)
  obtain e where e: "commit_err env (ticks ?w3) True = Some e"
    using env(2) unfolding commit_reports_rollback_def by blast
  have "InTransaction env RepeatableRead (order_update_tx env u) w
      = (Inl (wrap ''failed to commit transaction'' e), rollback (data w) (tick ?w3))"
    using env(1) tx e by (simp add: InTransaction_def begin_tx_def commit_tx_def healthy_def)
  with e show ?thesis
    by (intro exI[of _ "ticks ?w3"] exI[of _ e]) (simp add: ProcessOrderUpdate_def run_bnd rollback_def)
qed

definition demo_stored :: "(pm_data, pm_effect) world" where
  "demo_stored = init_world \<lparr>payments = [], events = [\<lparr>e_id = ''i'', e_aggregate_type = ''order'', e_aggregate_id = ''o'',
       e_event_type = ''webhook_received'', e_idempotency_key = ''ev'', e_payload = JNull, e_created_at = 1\<rparr>],
     orders = [demo_order ''o'' ''updated''], order_events = [], disputes = [], dispute_events = [], evidence = []\<rparr>"

theorem order_update_redelivered_witness:
  "fst (ProcessOrderUpdate sink_penv (demo_update ''o'' ''updated'' ''ev'') demo_stored)
   = Inl (wrap ''failed to commit transaction'' (ErrText ''rolled back''))"
proof -
  have "healthy sink_penv" and "commit_reports_rollback sink_penv"
    by (simp_all add: healthy_def commit_reports_rollback_def sink_penv_def)
  moreover have "orders_ok (data demo_stored)" by code_simp
  moreover have "demo_order ''o'' ''updated'' \<in> set (orders (data demo_stored))"
    by (simp add: demo_stored_def init_world_def)
  moreover have "o_id (demo_order ''o'' ''updated'') = ou_OrderId (demo_update ''o'' ''updated'' ''ev'')"
    "ou_Status (demo_update ''o'' ''updated'' ''ev'') \<noteq> OrderCreated"
    "CanBeUpdatedTo (o_status (demo_order ''o'' ''updated'')) (ou_Status (demo_update ''o'' ''updated'' ''ev''))"
    by (simp_all add: demo_order_def demo_update_def CanBeUpdatedTo_def)
  moreover have "(''order'', ou_OrderId (demo_update ''o'' ''updated'' ''ev''), ou_ProviderEventID (demo_update ''o'' ''updated'' ''ev''))
      \<in> event_key ` set (events (data demo_stored))" by code_simp
  ultimately have "\<exists>n e. commit_err sink_penv n True = Some e
    \<and> fst (ProcessOrderUpdate sink_penv (demo_update ''o'' ''updated'' ''ev'') demo_stored) = Inl (wrap ''failed to commit transaction'' e)
    \<and> data (snd (ProcessOrderUpdate sink_penv (demo_update ''o'' ''updated'' ''ev'') demo_stored)) = data demo_stored"
    by (rule order_update_redelivered)
  then show ?thesis by (auto simp: sink_penv_def)
qed

end
