(* ===== verification/PmOrderApi.thy ===== *)
theory PmOrderApi
  imports PmOrder Messaging
begin

text \<open>
  Paymanager, package \<open>ordercontroller\<close>: the HTTP handlers of orders, the internal handler
  that ingest calls, and the Kafka handler.
\<close>

section \<open>HTTP\<close>

definition message_body :: "string \<Rightarrow> json" where
  "message_body msg = JObj [(''message'', JStr msg)]"

definition Order_json :: "Order \<Rightarrow> json" where
  "Order_json r = JObj ([(''order_id'', JStr (od_OrderId r)), (''user_id'', JStr (od_UserId r)),
      (''status'', JStr (od_Status r)), (''on_hold'', JBool (od_OnHold r))]
     @ (case od_HoldReason r of None \<Rightarrow> [] | Some x \<Rightarrow> [(''hold_reason'', JStr x)])
     @ [(''created_at'', json_time (od_CreatedAt r)), (''updated_at'', json_time (od_UpdatedAt r))])"

text \<open>A nil slice is marshalled as \<open>null\<close>.\<close>

definition Orders_json :: "Order list \<Rightarrow> json" where
  "Orders_json os = (if os = [] then JNull else JArr (map Order_json os))"

definition HoldResponse_json :: "HoldResponse \<Rightarrow> json" where
  "HoldResponse_json r = JObj ([(''order_id'', JStr (hs_OrderID r)), (''on_hold'', JBool (hs_OnHold r))]
     @ (case hs_Reason r of None \<Rightarrow> [] | Some x \<Rightarrow> [(''reason'', JStr x)])
     @ [(''updated_at'', json_time (hs_UpdatedAt r))])"

text \<open>\<open>fmt.Println\<close> with its two operands.\<close>

definition print_order_id :: "string \<Rightarrow> unit pm" where
  "print_order_id i = emit (Stdout (''get orderID: '' @ i @ [CHR 0x0A]))"

definition order_Get_handler :: "('b) penv_scheme \<Rightarrow> gin_ctx \<Rightarrow> reply pm" where
  "order_Get_handler env ctx =
    (let i = param ctx ''order_id'' in
     if i = '''' then reply_JSON 400 (message_body ''Missing order_id'')
     else bnd (print_order_id i) (\<lambda>_. respond (GetOrderByID env i)
       (\<lambda>err. \<lparr>rp_code = (if errors_Is err Order_ErrNotFound then 404 else 500), rp_body = message_body (Error err)\<rparr>)
       (\<lambda>res. \<lparr>rp_code = 200, rp_body = Order_json res\<rparr>)))"

definition order_GetEvents_handler ::
  "('b) penv_scheme \<Rightarrow> goerr + EventQuery \<Rightarrow> reply pm" where
  "order_GetEvents_handler env bound = (case bound of
      Inl err \<Rightarrow> reply_JSON 400 (message_body (Error err))
    | Inr q \<Rightarrow> respond (order_GetEvents env q)
        (\<lambda>err. \<lparr>rp_code = 500, rp_body = message_body (Error err)\<rparr>)
        (\<lambda>res. \<lparr>rp_code = 200, rp_body = event_page_json ''order_id'' res\<rparr>))"

definition createFilter :: "goerr + OrdersQuery" where
  "createFilter = (case OrdersQuery_Build NewOrdersQuery of
      Inl err \<Rightarrow> Inl (wrap ''invalid filter params'' err) | Inr q \<Rightarrow> Inr q)"

definition order_Filter_handler :: "('b) penv_scheme \<Rightarrow> reply pm" where
  "order_Filter_handler env = (case createFilter of
      Inl err \<Rightarrow> reply_JSON 400 (error_body (Error err))
    | Inr q \<Rightarrow> respond (GetOrders env q)
        (\<lambda>err. \<lparr>rp_code = 500, rp_body = error_body (Error err)\<rparr>)
        (\<lambda>res. \<lparr>rp_code = 200, rp_body = Orders_json res\<rparr>))"

definition invalid_body :: "goerr \<Rightarrow> json" where
  "invalid_body err = JObj [(''details'', JStr (Error err)), (''error'', JStr ''Invalid request body'')]"

definition order_Hold_handler :: "('b) penv_scheme \<Rightarrow> gin_ctx \<Rightarrow> goerr + HoldRequest \<Rightarrow> reply pm" where
  "order_Hold_handler env ctx bound =
    (let i = param ctx ''order_id'' in
     if i = '''' then reply_JSON 400 (error_body ''Missing order_id'')
     else case bound of
       Inl err \<Rightarrow> reply_JSON 400 (invalid_body err)
     | Inr req \<Rightarrow> respond (UpdateOrderHold env i req)
         (\<lambda>err. \<lparr>rp_code = (if errors_Is err Order_ErrNotFound then 404 else 400), rp_body = error_body (Error err)\<rparr>)
         (\<lambda>res. \<lparr>rp_code = 200, rp_body = HoldResponse_json res\<rparr>))"

definition order_capture_error :: "goerr \<Rightarrow> reply" where
  "order_capture_error err =
    (if errors_Is err Order_ErrNotFound then \<lparr>rp_code = 404, rp_body = error_body (Error err)\<rparr>
     else if errors_Is err Order_ErrOnHold \<or> errors_Is err Order_ErrInFinalStatus
       then \<lparr>rp_code = 409, rp_body = error_body (Error err)\<rparr>
     else \<lparr>rp_code = 500, rp_body = error_body (Error err)\<rparr>)"

definition order_Capture_handler ::
  "('b) penv_scheme \<Rightarrow> Client \<Rightarrow> gin_ctx \<Rightarrow> goerr + OrderCaptureRequest \<Rightarrow> reply pm" where
  "order_Capture_handler env c ctx bound =
    (let i = param ctx ''order_id'' in
     if i = '''' then reply_JSON 400 (error_body ''Missing order_id'')
     else case bound of
       Inl err \<Rightarrow> reply_JSON 400 (invalid_body err)
     | Inr req \<Rightarrow> respond (order_CapturePayment env c i req) order_capture_error
         (\<lambda>res. \<lparr>rp_code = 200, rp_body = OrderCaptureResponse_json res\<rparr>))"

section \<open>The internal handler\<close>

text \<open>\<open>orderUpdateResponse\<close>; the bound request has the fields of \<open>OrderUpdate\<close>.\<close>

definition update_response :: "bool \<Rightarrow> string \<Rightarrow> json" where
  "update_response success msg = JObj ([(''success'', JBool success)] @ omitempty ''message'' msg)"

definition order_update_error :: "goerr \<Rightarrow> reply" where
  "order_update_error err =
    (if errors_Is err Order_ErrNotFound then \<lparr>rp_code = 404, rp_body = update_response False (Error err)\<rparr>
     else if errors_Is err Order_ErrInvalidStatus then \<lparr>rp_code = 422, rp_body = update_response False (Error err)\<rparr>
     else if errors_Is err Order_ErrEventAlreadyStored
       then \<lparr>rp_code = 200, rp_body = update_response True ''event already processed''\<rparr>
     else \<lparr>rp_code = 500, rp_body = update_response False (Error err)\<rparr>)"

definition order_HandleUpdate :: "('b) penv_scheme \<Rightarrow> goerr + OrderUpdate \<Rightarrow> reply pm" where
  "order_HandleUpdate env bound = (case bound of
      Inl err \<Rightarrow> reply_JSON 400 (update_response False (''invalid request body: '' @ Error err))
    | Inr u \<Rightarrow> respond (ProcessOrderUpdate env u) order_update_error
        (\<lambda>_. \<lparr>rp_code = 200, rp_body = update_response True ''''\<rparr>))"

section \<open>Kafka\<close>

definition read_OrderUpdate :: "json \<Rightarrow> goerr + OrderUpdate" where
  "read_OrderUpdate j =
     bind_sum (fields_of j) (\<lambda>fs.
     bind_sum (str_field fs ''provider_event_id'') (\<lambda>ev.
     bind_sum (str_field fs ''order_id'') (\<lambda>i.
     bind_sum (str_field fs ''user_id'') (\<lambda>usr.
     bind_sum (str_field fs ''status'') (\<lambda>st.
     bind_sum (time_field fs ''updated_at'') (\<lambda>upd.
     bind_sum (time_field fs ''created_at'') (\<lambda>cre.
     bind_sum (map_field fs ''meta'') (\<lambda>meta.
     Inr \<lparr>ou_ProviderEventID = ev, ou_OrderId = i, ou_UserId = usr, ou_Status = st, ou_UpdatedAt = upd,
          ou_CreatedAt = cre, ou_Meta = meta\<rparr>))))))))"

definition order_HandleMessage :: "('b) penv_scheme \<Rightarrow> message \<Rightarrow> unit pm" where
  "order_HandleMessage env m =
     bnd (open_message read_OrderUpdate m) (\<lambda>u.
     bnd (attempt (ProcessOrderUpdate env u)) (\<lambda>r. case r of
         Inl err \<Rightarrow> if errors_Is err Order_ErrEventAlreadyStored then ret ()
                    else if errors_Is err Order_ErrAlreadyExists then ret () else throw err
       | Inr _ \<Rightarrow> ret ()))"

end
