(* ===== verification/PmDispute.thy ===== *)
theory PmDispute
  imports EventSink EventStore SilvergateClient GoTime
begin

text \<open>
  Paymanager, packages \<open>dispute\<close> and \<open>disputerepo\<close>: disputes and their evidence, the
  chargeback webhooks that open and close them, and the submission to the provider.
\<close>

section \<open>Disputes\<close>

abbreviation DisputeOpen :: string where "DisputeOpen \<equiv> ''open''"
abbreviation DisputeUnderReview :: string where "DisputeUnderReview \<equiv> ''under_review''"
abbreviation DisputeSubmitted :: string where "DisputeSubmitted \<equiv> ''submitted''"
abbreviation DisputeWon :: string where "DisputeWon \<equiv> ''won''"
abbreviation DisputeLost :: string where "DisputeLost \<equiv> ''lost''"
abbreviation DisputeClosed :: string where "DisputeClosed \<equiv> ''closed''"
abbreviation DisputeCanceled :: string where "DisputeCanceled \<equiv> ''canceled''"

abbreviation ChargebackOpened :: string where "ChargebackOpened \<equiv> ''opened''"
abbreviation ChargebackUpdated :: string where "ChargebackUpdated \<equiv> ''updated''"
abbreviation ChargebackClosed :: string where "ChargebackClosed \<equiv> ''closed''"

text \<open>A dispute; the fields of \<open>DisputeInfo\<close> and \<open>Money\<close> are embedded.\<close>

record Dispute =
  di_ID :: string
  di_Status :: string
  di_OrderID :: string
  di_SubmittingId :: "string option"
  di_Reason :: string
  di_Amount :: rat
  di_Currency :: string
  di_OpenedAt :: time
  di_EvidenceDueAt :: "time option"
  di_SubmittedAt :: "time option"
  di_ClosedAt :: "time option"

record ChargebackWebhook =
  cb_ProviderEventID :: string
  cb_OrderID :: string
  cb_UserID :: string
  cb_Status :: string
  cb_Reason :: string
  cb_Amount :: rat
  cb_Currency :: string
  cb_OccurredAt :: time
  cb_EvidenceDueAt :: "time option"
  cb_Meta :: go_map

text \<open>\<open>strings.ToLower\<close> on ASCII.\<close>

definition lower :: "char \<Rightarrow> char" where
  "lower c = (if CHR ''A'' \<le> c \<and> c \<le> CHR ''Z'' then char_of (of_char c + 32 :: nat) else c)"

definition Resolution :: "ChargebackWebhook \<Rightarrow> string option" where
  "Resolution e = (if cb_Meta e = None then None
     else let v = map lower (map_get (cb_Meta e) ''resolution'')
          in if v = ''won'' then Some ''won'' else if v = ''lost'' then Some ''lost'' else None)"

definition resolveChargebackStatus :: "ChargebackWebhook \<Rightarrow> goerr + string \<times> time option" where
  "resolveChargebackStatus w =
    (if cb_Status w = ChargebackOpened then Inr (DisputeOpen, None)
     else if cb_Status w = ChargebackUpdated then Inr (DisputeOpen, None)
     else if cb_Status w = ChargebackClosed then
       (case Resolution w of
          Some res \<Rightarrow> if res = ''won'' then Inr (DisputeWon, Some (cb_OccurredAt w))
            else if res = ''lost'' then Inr (DisputeLost, Some (cb_OccurredAt w))
            else Inl (ErrText (''unknown resolution: '' @ map_get (cb_Meta w) ''resolution''))
        | None \<Rightarrow> Inr (DisputeClosed, Some (cb_OccurredAt w)))
     else Inl (ErrText (''unknown chargeback status: '' @ cb_Status w)))"

definition ApplyChargebackWebhook :: "Dispute \<Rightarrow> ChargebackWebhook \<Rightarrow> goerr + Dispute" where
  "ApplyChargebackWebhook dispute ev = (case resolveChargebackStatus ev of
      Inl err \<Rightarrow> Inl (wrap ''convert chargeback status'' err)
    | Inr (status, closedAt) \<Rightarrow>
        let d1 = (if cb_Status ev \<noteq> ChargebackUpdated then dispute\<lparr>di_Status := status\<rparr> else dispute);
            d2 = (if cb_EvidenceDueAt ev \<noteq> None then d1\<lparr>di_EvidenceDueAt := cb_EvidenceDueAt ev\<rparr> else d1);
            d3 = (if closedAt \<noteq> None then d2\<lparr>di_ClosedAt := closedAt\<rparr> else d2)
        in Inr d3)"

definition IsDisputeEditable :: "string \<Rightarrow> bool" where
  "IsDisputeEditable status =
    (if status = DisputeWon \<or> status = DisputeLost \<or> status = DisputeCanceled then False else True)"

abbreviation DisputeEventWebhookOpened :: string where "DisputeEventWebhookOpened \<equiv> ''webhook_opened''"
abbreviation DisputeEventWebhookUpdated :: string where "DisputeEventWebhookUpdated \<equiv> ''webhook_updated''"
abbreviation DisputeEventProviderDecision :: string where "DisputeEventProviderDecision \<equiv> ''provider_decision''"
abbreviation DisputeEventEvidenceSubmitted :: string where "DisputeEventEvidenceSubmitted \<equiv> ''evidence_submitted''"
abbreviation DisputeEventEvidenceAdded :: string where "DisputeEventEvidenceAdded \<equiv> ''evidence_added''"

definition deriveKindFromChargebackStatus :: "string \<Rightarrow> string" where
  "deriveKindFromChargebackStatus status =
    (if status = ChargebackOpened then DisputeEventWebhookOpened
     else if status = ChargebackUpdated then DisputeEventWebhookUpdated
     else if status = ChargebackClosed then DisputeEventProviderDecision
     else DisputeEventWebhookUpdated)"

text \<open>Evidence of a dispute; what is upserted is its first two fields, a \<open>GwEvidence\<close>.\<close>

record Evidence =
  en_DisputeID :: string
  en_Evidence :: GwEvidence
  en_UpdatedAt :: time

definition EvidenceFile_json :: "EvidenceFile \<Rightarrow> json" where
  "EvidenceFile_json f = JObj [(''file_id'', JStr (ef_FileID f)), (''name'', JStr (ef_Name f)),
     (''content_type'', JStr (ef_ContentType f)), (''size'', json_int64 (ef_Size f))]"

definition files_json :: "EvidenceFile slice \<Rightarrow> json" where
  "files_json fs = (case fs of None \<Rightarrow> JNull | Some xs \<Rightarrow> JArr (map EvidenceFile_json xs))"

definition Evidence_json :: "Evidence \<Rightarrow> json" where
  "Evidence_json e = JObj [(''dispute_id'', JStr (en_DisputeID e)), (''fields'', json_map (gv_Fields (en_Evidence e))),
     (''files'', files_json (gv_Files (en_Evidence e))), (''updated_at'', json_time (en_UpdatedAt e))]"

definition Chargeback_json :: "ChargebackWebhook \<Rightarrow> json" where
  "Chargeback_json w = JObj (
     [(''provider_event_id'', JStr (cb_ProviderEventID w)), (''order_id'', JStr (cb_OrderID w)),
      (''user_id'', JStr (cb_UserID w)), (''status'', JStr (cb_Status w)), (''reason'', JStr (cb_Reason w)),
      (''amount'', JFloat (cb_Amount w)), (''currency'', JStr (cb_Currency w)),
      (''occurred_at'', json_time (cb_OccurredAt w))]
     @ (case cb_EvidenceDueAt w of None \<Rightarrow> [] | Some t \<Rightarrow> [(''evidence_due_at'', json_time t)])
     @ [(''meta'', json_map (cb_Meta w))])"

section \<open>The repository\<close>

text \<open>\<open>DECIMAL(10,2)\<close>: rounded to cents, halves away from zero; eight digits before the point.\<close>

definition decimal2 :: "rat \<Rightarrow> rat" where
  "decimal2 x = (let c = rat_of_int \<lfloor>\<bar>x\<bar> * 100 + 1 / 2\<rfloor> / 100 in if x < 0 then - c else c)"

definition numeric_overflow :: goerr where
  "numeric_overflow = PgErr (PgError ''22003'' '''' ''numeric field overflow'')"

definition dispute_to_row :: "Dispute \<Rightarrow> dispute_row" where
  "dispute_to_row d = \<lparr>d_id = di_ID d, d_order_id = di_OrderID d, d_submitting_id = di_SubmittingId d,
     d_status = di_Status d, d_reason = di_Reason d, d_amount = decimal2 (di_Amount d), d_currency = di_Currency d,
     d_opened_at = di_OpenedAt d, d_evidence_due_at = di_EvidenceDueAt d, d_submitted_at = di_SubmittedAt d,
     d_closed_at = di_ClosedAt d\<rparr>"

definition dispute_of_row :: "dispute_row \<Rightarrow> Dispute" where
  "dispute_of_row r = \<lparr>di_ID = d_id r, di_Status = d_status r, di_OrderID = d_order_id r,
     di_SubmittingId = d_submitting_id r, di_Reason = d_reason r, di_Amount = d_amount r,
     di_Currency = d_currency r, di_OpenedAt = d_opened_at r, di_EvidenceDueAt = d_evidence_due_at r,
     di_SubmittedAt = d_submitted_at r, di_ClosedAt = d_closed_at r\<rparr>"

text \<open>A statement that writes the amount of a dispute.\<close>

definition with_amount :: "rat \<Rightarrow> (pm_data \<Rightarrow> goerr + 'a \<times> pm_data) \<Rightarrow> pm_data \<Rightarrow> goerr + 'a \<times> pm_data" where
  "with_amount a stmt d = (if \<bar>decimal2 a\<bar> < 100000000 then stmt d else Inl numeric_overflow)"

definition insert_dispute :: "dispute_row \<Rightarrow> pm_data \<Rightarrow> goerr + unit \<times> pm_data" where
  "insert_dispute r d =
    (case in_table disputes disputes_update (sql_insert disputes_schema r) d of
       Inl e \<Rightarrow> Inl e
     | Inr (u, d') \<Rightarrow> if d_order_id r \<in> set (map o_id (orders d)) then Inr (u, d')
                      else Inl (foreign_key_violation ''fk_dispute_order''))"

definition GetDisputes :: "('b) penv_scheme \<Rightarrow> executor \<Rightarrow> Dispute list pm" where
  "GetDisputes env x =
     bnd (map_err (wrap ''query disputes'')
       (read_db env x (\<lambda>d. Inr (rev (sort_key d_opened_at (disputes d)), d)))) (\<lambda>rows.
     ret (map dispute_of_row rows))"

definition GetDisputeByID :: "('b) penv_scheme \<Rightarrow> executor \<Rightarrow> string \<Rightarrow> Dispute option pm" where
  "GetDisputeByID env x i =
     bnd (map_err (wrap ''query dispute by id'') (read_db env x (query disputes (\<lambda>r. d_id r = i)))) (\<lambda>rows.
     ret (case rows of [] \<Rightarrow> None | r # _ \<Rightarrow> Some (dispute_of_row r)))"

definition GetDisputeByOrderID :: "('b) penv_scheme \<Rightarrow> executor \<Rightarrow> string \<Rightarrow> Dispute option pm" where
  "GetDisputeByOrderID env x i =
     bnd (map_err (wrap ''query dispute by order id'') (read_db env x (query disputes (\<lambda>r. d_order_id r = i)))) (\<lambda>rows.
     ret (case rows of [] \<Rightarrow> None | r # _ \<Rightarrow> Some (dispute_of_row r)))"

text \<open>The argument is the new dispute without its identifier, which is drawn here.\<close>

definition CreateDispute :: "('b) penv_scheme \<Rightarrow> Dispute \<Rightarrow> Dispute pm" where
  "CreateDispute env new =
     bnd (uuid_New env) (\<lambda>i.
     bnd (map_err (wrap ''create dispute'')
       (sql env (with_amount (di_Amount new) (insert_dispute (dispute_to_row (new\<lparr>di_ID := i\<rparr>)))))) (\<lambda>_.
     ret (new\<lparr>di_ID := i\<rparr>)))"

text \<open>Every column but the identifier and the order is written.\<close>

definition UpdateDispute :: "('b) penv_scheme \<Rightarrow> Dispute \<Rightarrow> unit pm" where
  "UpdateDispute env dis =
     bnd (map_err (wrap ''update dispute'')
       (sql env (with_amount (di_Amount dis) (in_table disputes disputes_update (sql_update disputes_schema
         (\<lambda>r. d_id r = di_ID dis)
         (\<lambda>r. (dispute_to_row dis)\<lparr>d_id := d_id r, d_order_id := d_order_id r\<rparr>)))))) (\<lambda>_. ret ())"

text \<open>\<open>INSERT ... ON CONFLICT (dispute_id) DO UPDATE\<close>.\<close>

definition upsert_evidence :: "evidence_row \<Rightarrow> pm_data \<Rightarrow> goerr + unit \<times> pm_data" where
  "upsert_evidence r d =
    (if \<exists>e\<in>set (evidence d). v_dispute_id e = v_dispute_id r
     then Inr ((), d\<lparr>evidence := set_where (\<lambda>e. v_dispute_id e = v_dispute_id r) (\<lambda>_. r) (evidence d)\<rparr>)
     else if v_dispute_id r \<in> set (map d_id (disputes d)) then Inr ((), d\<lparr>evidence := evidence d @ [r]\<rparr>)
     else Inl (foreign_key_violation ''fk_evidence_dispute''))"

definition UpsertEvidence_row :: "('b) penv_scheme \<Rightarrow> string \<Rightarrow> GwEvidence \<Rightarrow> Evidence pm" where
  "UpsertEvidence_row env disputeID ev =
     bnd (time_Now env) (\<lambda>now.
     bnd (map_err (wrap ''upsert evidence'') (sql env (upsert_evidence
       \<lparr>v_dispute_id = disputeID, v_fields = json_map (gv_Fields ev), v_files = files_json (gv_Files ev),
        v_updated_at = now\<rparr>))) (\<lambda>_.
     bnd (time_Now env) (\<lambda>now2.
     ret \<lparr>en_DisputeID = disputeID, en_Evidence = ev, en_UpdatedAt = now2\<rparr>)))"

definition read_EvidenceFile :: "json \<Rightarrow> goerr + EvidenceFile" where
  "read_EvidenceFile j =
     bind_sum (fields_of j) (\<lambda>fs.
     bind_sum (str_field fs ''file_id'') (\<lambda>i.
     bind_sum (str_field fs ''name'') (\<lambda>n.
     bind_sum (str_field fs ''content_type'') (\<lambda>t.
     bind_sum (int64_field fs ''size'') (\<lambda>sz.
     Inr \<lparr>ef_FileID = i, ef_Name = n, ef_ContentType = t, ef_Size = sz\<rparr>)))))"

fun read_files :: "json list \<Rightarrow> goerr + EvidenceFile list" where
  "read_files [] = Inr []"
| "read_files (j # js) = bind_sum (read_EvidenceFile j) (\<lambda>f. bind_sum (read_files js) (\<lambda>fs. Inr (f # fs)))"

definition json_to_files :: "json \<Rightarrow> goerr + EvidenceFile slice" where
  "json_to_files j = (case j of JNull \<Rightarrow> Inr None | JArr js \<Rightarrow> bind_sum (read_files js) (\<lambda>fs. Inr (Some fs)) | _ \<Rightarrow> Inl (unmarshal_type_error ''files''))"

fun parseEvidenceRows :: "evidence_row list \<Rightarrow> goerr + Evidence list" where
  "parseEvidenceRows [] = Inr []"
| "parseEvidenceRows (r # rs) = (case json_to_map (v_fields r) of
      Inl e \<Rightarrow> Inl (wrap ''unmarshal fields'' e)
    | Inr fields' \<Rightarrow> (case json_to_files (v_files r) of
        Inl e \<Rightarrow> Inl (wrap ''unmarshal files'' e)
      | Inr files \<Rightarrow> bind_sum (parseEvidenceRows rs) (\<lambda>es.
          Inr (\<lparr>en_DisputeID = v_dispute_id r, en_Evidence = \<lparr>gv_Fields = fields', gv_Files = files\<rparr>,
                en_UpdatedAt = v_updated_at r\<rparr> # es))))"

definition GetEvidence :: "('b) penv_scheme \<Rightarrow> executor \<Rightarrow> string \<Rightarrow> Evidence option pm" where
  "GetEvidence env x disputeID =
     bnd (map_err (wrap ''query evidence'') (read_db env x (query evidence (\<lambda>r. v_dispute_id r = disputeID)))) (\<lambda>rows.
     bnd (of_sum (parseEvidenceRows rows)) (\<lambda>es.
     ret (case es of [] \<Rightarrow> None | e # _ \<Rightarrow> Some e)))"

section \<open>The service\<close>

definition dispute_GetDisputes :: "('b) penv_scheme \<Rightarrow> Dispute list pm" where
  "dispute_GetDisputes env = map_err (wrap ''get disputes'') (GetDisputes env Pool)"

definition dispute_GetDisputeByID :: "('b) penv_scheme \<Rightarrow> string \<Rightarrow> Dispute option pm" where
  "dispute_GetDisputeByID env i = map_err (wrap ''get dispute by id'') (GetDisputeByID env Pool i)"

definition dispute_GetEvents :: "('b) penv_scheme \<Rightarrow> EventQuery \<Rightarrow> EventPage pm" where
  "dispute_GetEvents env = events_service ''get events'' (GetDisputeEvents env)"

definition dispute_GetEvidence :: "('b) penv_scheme \<Rightarrow> string \<Rightarrow> Evidence option pm" where
  "dispute_GetEvidence env i = map_err (wrap (''get evidence for dispute '' @ i)) (GetEvidence env Pool i)"

text \<open>The dispute that an opened chargeback creates; its identifier comes later.\<close>

definition new_dispute :: "ChargebackWebhook \<Rightarrow> Dispute" where
  "new_dispute w = \<lparr>di_ID = '''', di_Status = DisputeOpen, di_OrderID = cb_OrderID w, di_SubmittingId = None,
     di_Reason = cb_Reason w, di_Amount = cb_Amount w, di_Currency = cb_Currency w, di_OpenedAt = cb_OccurredAt w,
     di_EvidenceDueAt = cb_EvidenceDueAt w, di_SubmittedAt = None, di_ClosedAt = None\<rparr>"

definition chargeback_event :: "('b) penv_scheme \<Rightarrow> Dispute \<Rightarrow> ChargebackWebhook \<Rightarrow> unit pm" where
  "chargeback_event env d w = writeEvent env AggregateDispute (di_ID d)
     (deriveKindFromChargebackStatus (cb_Status w)) (cb_ProviderEventID w) (Chargeback_json w)"

definition chargeback_tx :: "('b) penv_scheme \<Rightarrow> ChargebackWebhook \<Rightarrow> Dispute pm" where
  "chargeback_tx env w =
     bnd (map_err (wrap ''get dispute by order_id'') (GetDisputeByOrderID env Tx (cb_OrderID w))) (\<lambda>found.
     case found of
       None \<Rightarrow>
         bnd (fail_if (cb_Status w \<noteq> ChargebackOpened)
           (ErrText (''dispute not found for order_id: '' @ cb_OrderID w))) (\<lambda>_.
         bnd (map_err (wrap ''create dispute'') (CreateDispute env (new_dispute w))) (\<lambda>created.
         bnd (chargeback_event env created w) (\<lambda>_. ret created)))
     | Some dispute \<Rightarrow>
         bnd (of_sum (ApplyChargebackWebhook dispute w)) (\<lambda>d.
         bnd (map_err (wrap ''update dispute'') (UpdateDispute env d)) (\<lambda>_.
         bnd (chargeback_event env d w) (\<lambda>_. ret d))))"

text \<open>The three writers to the sink of dispute events.\<close>

definition sink_dispute_event ::
  "('b) penv_scheme \<Rightarrow> string \<Rightarrow> string \<Rightarrow> string \<Rightarrow> json \<Rightarrow> unit pm" where
  "sink_dispute_event env disputeID kind key payload =
     bnd (time_Now env) (\<lambda>now.
     bnd (map_err (wrap ''create dispute event'') (CreateDisputeEvent env
       \<lparr>nk_Owner = disputeID, nk_Kind = kind, nk_ProviderEventID = key, nk_Data = payload, nk_CreatedAt = now\<rparr>)) (\<lambda>_.
     ret ()))"

definition saveWebhookEvent :: "('b) penv_scheme \<Rightarrow> Dispute \<Rightarrow> ChargebackWebhook \<Rightarrow> unit pm" where
  "saveWebhookEvent env d w = sink_dispute_event env (di_ID d)
     (deriveKindFromChargebackStatus (cb_Status w)) (cb_ProviderEventID w) (Chargeback_json w)"

definition ProcessChargeback :: "('b) penv_scheme \<Rightarrow> ChargebackWebhook \<Rightarrow> unit pm" where
  "ProcessChargeback env w =
     bnd (map_err (wrap ''process chargeback'') (InTransaction env RepeatableRead (chargeback_tx env w))) (\<lambda>d.
     map_err (wrap ''create dispute event'') (saveWebhookEvent env d w))"

definition evidence_tx :: "('b) penv_scheme \<Rightarrow> string \<Rightarrow> GwEvidence \<Rightarrow> Evidence pm" where
  "evidence_tx env disputeID ev =
     bnd (map_err (wrap ''get dispute by id'') (GetDisputeByID env Tx disputeID)) (\<lambda>found.
     case found of
       None \<Rightarrow> throw (ErrText ''dispute not found'')
     | Some dispute \<Rightarrow>
         bnd (fail_if (\<not> IsDisputeEditable (di_Status dispute))
           (ErrText (''dispute cannot be edited in status: '' @ di_Status dispute))) (\<lambda>_.
         bnd (map_err (wrap ''upsert evidence'') (UpsertEvidence_row env disputeID ev)) (\<lambda>stored.
         bnd (if di_Status dispute = DisputeOpen
              then map_err (wrap ''update dispute status'') (UpdateDispute env (dispute\<lparr>di_Status := DisputeUnderReview\<rparr>))
              else ret ()) (\<lambda>_.
         bnd (uuid_New env) (\<lambda>key.
         bnd (writeEvent env AggregateDispute disputeID DisputeEventEvidenceAdded key (Evidence_json stored)) (\<lambda>_.
         ret stored))))))"

definition createEvidenceAddedEvent :: "('b) penv_scheme \<Rightarrow> string \<Rightarrow> Evidence \<Rightarrow> unit pm" where
  "createEvidenceAddedEvent env disputeID ev =
     bnd (uuid_New env) (\<lambda>key. sink_dispute_event env disputeID DisputeEventEvidenceAdded key (Evidence_json ev))"

definition UpsertEvidence :: "('b) penv_scheme \<Rightarrow> string \<Rightarrow> GwEvidence \<Rightarrow> Evidence pm" where
  "UpsertEvidence env disputeID ev =
     bnd (map_err (wrap ''upsert evidence'') (InTransaction env RepeatableRead (evidence_tx env disputeID ev))) (\<lambda>stored.
     bnd (map_err (wrap ''create evidence event'') (createEvidenceAddedEvent env disputeID stored)) (\<lambda>_.
     ret stored))"

text \<open>\<open>RepresentmentResult\<close> has no tags: its field keeps its name.\<close>

definition Representment_json :: "string \<Rightarrow> json" where
  "Representment_json submissionID = JObj [(''ProviderSubmissionID'', JStr submissionID)]"

definition submit_tx :: "('b) penv_scheme \<Rightarrow> Client \<Rightarrow> string \<Rightarrow> string pm" where
  "submit_tx env c disputeID =
     bnd (map_err (wrap ''get dispute'') (GetDisputeByID env Tx disputeID)) (\<lambda>found.
     case found of
       None \<Rightarrow> throw (ErrText ''dispute not found'')
     | Some d \<Rightarrow>
         bnd (fail_if (di_Status d \<noteq> DisputeOpen \<and> di_Status d \<noteq> DisputeUnderReview)
           (ErrText (''status '' @ di_Status d @ '' not eligible for submission''))) (\<lambda>_.
         bnd (map_err (wrap ''get evidence '') (GetEvidence env Tx disputeID)) (\<lambda>stored.
         case stored of
           None \<Rightarrow> throw (ErrText ''evidence not found'')
         | Some ev \<Rightarrow>
             bnd (map_err (wrap ''provider submit'') (SubmitRepresentment env c (di_OrderID d) (en_Evidence ev))) (\<lambda>sid.
             bnd (time_Now env) (\<lambda>now.
             bnd (map_err (wrap ''update dispute'') (UpdateDispute env
               (d\<lparr>di_SubmittedAt := Some now, di_SubmittingId := Some sid, di_Status := DisputeSubmitted\<rparr>))) (\<lambda>_.
             bnd (writeEvent env AggregateDispute disputeID DisputeEventEvidenceSubmitted sid (Representment_json sid)) (\<lambda>_.
             ret sid)))))))"

definition createEvidenceSubmittedEvent :: "('b) penv_scheme \<Rightarrow> string \<Rightarrow> string \<Rightarrow> unit pm" where
  "createEvidenceSubmittedEvent env disputeID sid =
     sink_dispute_event env disputeID DisputeEventEvidenceSubmitted sid (Representment_json sid)"

definition Submit :: "('b) penv_scheme \<Rightarrow> Client \<Rightarrow> string \<Rightarrow> unit pm" where
  "Submit env c disputeID =
     bnd (map_err (wrap ''submit evidence'') (InTransaction env RepeatableRead (submit_tx env c disputeID))) (\<lambda>sid.
     map_err (wrap ''create submitted event'') (createEvidenceSubmittedEvent env disputeID sid))"

end
