(* ===== verification/PmDisputeFacts.thy ===== *)
theory PmDisputeFacts
  imports PmDispute
begin

text \<open>
  What holds of paymanager's disputes: what a chargeback does to one, that decided and
  submitted disputes carry their times and none loses its terms, when evidence is taken and submitted, and that
  evidence is read back as it was stored.
\<close>

section \<open>Chargebacks\<close>

text \<open>
  A chargeback webhook sets the status it stands for: open, or won, lost or closed by
  its resolution, and none when it is an update. A closing one dates the dispute, a due
  date for evidence is taken over, and nothing else of the dispute changes.
\<close>

theorem chargeback_applied:
  assumes "ApplyChargebackWebhook d ev = Inr d'"
  shows "d' = d\<lparr>di_Status := (if cb_Status ev = ChargebackOpened then DisputeOpen
        else if cb_Status ev = ChargebackClosed
          then (case Resolution ev of None \<Rightarrow> DisputeClosed | Some res \<Rightarrow> res) else di_Status d),
      di_EvidenceDueAt := (if cb_EvidenceDueAt ev = None then di_EvidenceDueAt d else cb_EvidenceDueAt ev),
      di_ClosedAt := (if cb_Status ev = ChargebackClosed then Some (cb_OccurredAt ev) else di_ClosedAt d)\<rparr>
    \<and> cb_Status ev \<in> {ChargebackOpened, ChargebackUpdated, ChargebackClosed}
    \<and> (\<forall>res. Resolution ev = Some res \<longrightarrow> res \<in> {DisputeWon, DisputeLost})"
proof -
  have res: "\<forall>res. Resolution ev = Some res \<longrightarrow> res \<in> {DisputeWon, DisputeLost}"
    by (auto simp: Resolution_def Let_def split: if_splits)
  from assms have st: "cb_Status ev \<in> {ChargebackOpened, ChargebackUpdated, ChargebackClosed}"
    by (auto simp: ApplyChargebackWebhook_def resolveChargebackStatus_def split: if_splits)
  then consider "cb_Status ev = ChargebackOpened" | "cb_Status ev = ChargebackUpdated" | "cb_Status ev = ChargebackClosed"
    by blast
  then have "d' = d\<lparr>di_Status := (if cb_Status ev = ChargebackOpened then DisputeOpen
        else if cb_Status ev = ChargebackClosed
          then (case Resolution ev of None \<Rightarrow> DisputeClosed | Some res \<Rightarrow> res) else di_Status d),
      di_EvidenceDueAt := (if cb_EvidenceDueAt ev = None then di_EvidenceDueAt d else cb_EvidenceDueAt ev),
      di_ClosedAt := (if cb_Status ev = ChargebackClosed then Some (cb_OccurredAt ev) else di_ClosedAt d)\<rparr>"
  proof cases
    case 3
    with assms res show ?thesis
      by (cases "Resolution ev") (auto simp: ApplyChargebackWebhook_def resolveChargebackStatus_def Let_def)
  qed (use assms in \<open>auto simp: ApplyChargebackWebhook_def resolveChargebackStatus_def Let_def\<close>)
  with st res show ?thesis by blast
qed

definition demo_chargeback :: "string \<Rightarrow> go_map \<Rightarrow> ChargebackWebhook" where
  "demo_chargeback st meta = \<lparr>cb_ProviderEventID = ''ev'', cb_OrderID = ''o'', cb_UserID = ''user'', cb_Status = st,
     cb_Reason = ''fraud'', cb_Amount = 12, cb_Currency = ''EUR'', cb_OccurredAt = 77, cb_EvidenceDueAt = None, cb_Meta = meta\<rparr>"

definition demo_dispute :: Dispute where
  "demo_dispute = new_dispute (demo_chargeback ''opened'' None)"

theorem chargeback_applied_witness:
  "ApplyChargebackWebhook demo_dispute (demo_chargeback ''closed'' (Some [(''resolution'', ''WON'')]))
   = Inr (demo_dispute\<lparr>di_Status := ''won'', di_ClosedAt := Some 77\<rparr>)"
proof -
  have res: "Resolution (demo_chargeback ''closed'' (Some [(''resolution'', ''WON'')])) = Some ''won''"
    by code_simp
  have "cb_Status (demo_chargeback ''closed'' m) = ''closed''" for m by (simp add: demo_chargeback_def)
  with res have "\<exists>d'. ApplyChargebackWebhook demo_dispute (demo_chargeback ''closed'' (Some [(''resolution'', ''WON'')])) = Inr d'"
    by (simp add: ApplyChargebackWebhook_def resolveChargebackStatus_def Let_def)
  then obtain d' where d': "ApplyChargebackWebhook demo_dispute (demo_chargeback ''closed'' (Some [(''resolution'', ''WON'')])) = Inr d'"
    by blast
  from chargeback_applied[OF this] res show ?thesis unfolding d' by (simp add: demo_chargeback_def demo_dispute_def new_dispute_def)
qed

text \<open>A chargeback that is reported as opened again reopens a dispute that was won or lost.\<close>

lemma decided_reopened:
  "ApplyChargebackWebhook (d\<lparr>di_Status := DisputeWon\<rparr>) (ev\<lparr>cb_Status := ChargebackOpened, cb_EvidenceDueAt := None\<rparr>)
   = Inr (d\<lparr>di_Status := DisputeOpen\<rparr>)"
  by (simp add: ApplyChargebackWebhook_def resolveChargebackStatus_def)

section \<open>Disputes in order\<close>

text \<open>What the fields of a dispute have to do with its status.\<close>

definition in_order :: "Dispute \<Rightarrow> bool" where
  "in_order d \<longleftrightarrow> di_Status d \<in> {DisputeOpen, DisputeUnderReview, DisputeSubmitted, DisputeWon, DisputeLost, DisputeClosed}
     \<and> (di_Status d \<in> {DisputeWon, DisputeLost, DisputeClosed} \<longrightarrow> di_ClosedAt d \<noteq> None)
     \<and> (di_Status d = DisputeSubmitted \<longrightarrow> di_SubmittedAt d \<noteq> None \<and> di_SubmittingId d \<noteq> None)"

text \<open>What of a dispute is settled when it is opened, as a row keeps it.\<close>

definition dispute_terms :: "Dispute \<Rightarrow> string \<times> string \<times> rat \<times> string \<times> time" where
  "dispute_terms d = (di_OrderID d, di_Reason d, decimal2 (di_Amount d), di_Currency d, di_OpenedAt d)"

text \<open>The disputes with identifiers in \<open>D\<close> have the terms \<open>T\<close>.\<close>

definition sound_dispute :: "string set \<Rightarrow> (string \<Rightarrow> string \<times> string \<times> rat \<times> string \<times> time) \<Rightarrow> Dispute \<Rightarrow> bool" where
  "sound_dispute D T d \<longleftrightarrow> in_order d \<and> (di_ID d \<in> D \<longrightarrow> dispute_terms d = T (di_ID d))"

definition disputes_in_order :: "string set \<Rightarrow> (string \<Rightarrow> string \<times> string \<times> rat \<times> string \<times> time) \<Rightarrow> pm_data \<Rightarrow> bool" where
  "disputes_in_order D T d \<longleftrightarrow>
     (\<forall>r\<in>set (disputes d). sound_dispute D T (dispute_of_row r) \<and> decimal2 (d_amount r) = d_amount r)
     \<and> distinct (map d_id (disputes d)) \<and> D \<subseteq> d_id ` set (disputes d)"

lemma decimal2_twice [simp]: "decimal2 (decimal2 x) = decimal2 x"
proof -
  define n where "n = \<lfloor>\<bar>x\<bar> * 100 + 1 / 2\<rfloor>"
  have n: "0 \<le> n" by (simp add: n_def)
  have again: "\<lfloor>\<bar>rat_of_int n / 100\<bar> * 100 + 1 / 2\<rfloor> = n" "\<lfloor>\<bar>- (rat_of_int n / 100)\<bar> * 100 + 1 / 2\<rfloor> = n"
    using n by (simp_all add: floor_unique)
  have x: "decimal2 x = (if x < 0 then - (rat_of_int n / 100) else rat_of_int n / 100)"
    by (simp add: decimal2_def n_def Let_def)
  have "decimal2 (rat_of_int n / 100) = rat_of_int n / 100"
    using n again(1) by (simp add: decimal2_def Let_def)
  moreover have "decimal2 (- (rat_of_int n / 100)) = - (rat_of_int n / 100)"
    unfolding decimal2_def Let_def again(2) using n by simp
  ultimately show ?thesis by (simp add: x)
qed

lemma the_keyed_row:
  "distinct (map k rows) \<Longrightarrow> i \<in> k ` set rows \<Longrightarrow> \<exists>r. filter (\<lambda>x. k x = i) rows = [r]"
proof (induction rows)
  case (Cons x xs)
  show ?case
  proof (cases "k x = i")
    case True
    with Cons.prems(1) have "k x \<notin> k ` set xs" by simp
    with True have "filter (\<lambda>x. k x = i) xs = []" by (auto simp: filter_empty_conv image_iff)
    with True show ?thesis by simp
  next
    case False
    with Cons show ?thesis by auto
  qed
qed simp

text \<open>A row after its dispute was written: its key and its order stay.\<close>

definition rewritten :: "Dispute \<Rightarrow> dispute_row \<Rightarrow> dispute_row" where
  "rewritten d r = (dispute_to_row d)\<lparr>d_id := d_id r, d_order_id := d_order_id r\<rparr>"

lemma rewritten_fields:
  "di_ID (dispute_of_row (rewritten d r)) = d_id r"
  "in_order (dispute_of_row (rewritten d r)) = in_order d"
  "dispute_terms (dispute_of_row (rewritten d r)) = (d_order_id r, snd (dispute_terms d))"
  by (simp_all add: rewritten_def in_order_def dispute_of_row_def dispute_to_row_def dispute_terms_def)

lemma sound_row:
  assumes "sound_dispute D T d" and "sound_dispute D T (dispute_of_row r)" and "d_id r = di_ID d"
  shows "sound_dispute D T (dispute_of_row (rewritten d r))"
proof -
  have "(d_order_id r, snd (dispute_terms d)) = T (d_id r)" if "d_id r \<in> D"
  proof -
    have i: "di_ID (dispute_of_row r) = d_id r" by (simp add: dispute_of_row_def)
    with assms(2) that have "fst (T (d_id r)) = d_order_id r"
      by (metis sound_dispute_def dispute_terms_def dispute_of_row_def Dispute.select_convs(3) fst_conv)
    moreover from assms(1,3) that have "dispute_terms d = T (d_id r)" by (simp add: sound_dispute_def)
    ultimately show ?thesis by (metis prod.collapse)
  qed
  with assms(1) show ?thesis by (simp add: sound_dispute_def rewritten_fields)
qed

lemma sound_new: "in_order d \<Longrightarrow> i \<notin> D \<Longrightarrow> sound_dispute D T (dispute_of_row (dispute_to_row (d\<lparr>di_ID := i\<rparr>)))"
  by (simp add: sound_dispute_def in_order_def dispute_of_row_def dispute_to_row_def)

lemma in_order_apply:
  assumes "in_order d" and "ApplyChargebackWebhook d ev = Inr d'"
  shows "in_order d'"
proof -
  note ap = chargeback_applied[OF assms(2)]
  note st = conjunct1[OF conjunct2[OF ap]] and res = conjunct2[OF conjunct2[OF ap]]
  have closed: "case Resolution ev of None \<Rightarrow> True | Some res \<Rightarrow> res = DisputeWon \<or> res = DisputeLost"
    using res by (cases "Resolution ev") simp_all
  from st consider "cb_Status ev = ChargebackOpened" | "cb_Status ev = ChargebackUpdated"
    | "cb_Status ev = ChargebackClosed" by blast
  then show ?thesis
  proof cases
    case 1
    then show ?thesis unfolding conjunct1[OF ap] by (simp add: in_order_def)
  next
    case 2
    then show ?thesis using assms(1) unfolding conjunct1[OF ap] by (simp add: in_order_def)
  next
    case 3
    then show ?thesis using closed unfolding conjunct1[OF ap]
      by (cases "Resolution ev") (auto simp: in_order_def)
  qed
qed

lemma sound_apply:
  assumes "sound_dispute D T d" and "ApplyChargebackWebhook d ev = Inr d'"
  shows "sound_dispute D T d'"
proof -
  have "di_ID d' = di_ID d \<and> dispute_terms d' = dispute_terms d"
    unfolding conjunct1[OF chargeback_applied[OF assms(2)]] by (simp add: dispute_terms_def)
  with assms(1) in_order_apply[OF _ assms(2)] show ?thesis by (simp add: sound_dispute_def)
qed

lemma keeps_disputes_same:
  assumes "\<And>d y d'. stmt d = Inr (y, d') \<Longrightarrow> disputes d' = disputes d"
  shows "keeps_data (disputes_in_order D T) (sql env stmt)"
  using assms by (intro keeps_data_sql) (auto simp: disputes_in_order_def)

lemma keeps_disputes_events [keeps_intros]:
  "keeps_data (disputes_in_order D T) (writeEvent env aty aid ety key payload)"
  "keeps_data (disputes_in_order D T) (CreateDisputeEvent env ev)"
  unfolding writeEvent_def CreateEvent_def CreateDisputeEvent_def sink_Create_def
  by (intro keeps_intros keeps_disputes_same, auto simp: in_table_ok insert_sunk_ok dispute_sink_def)+

lemma upsert_evidence_disputes: "upsert_evidence r d = Inr (y, d') \<Longrightarrow> disputes d' = disputes d"
  by (auto simp: upsert_evidence_def split: if_splits)

lemma keeps_disputes_evidence [keeps_intros]: "keeps_data (disputes_in_order D T) (UpsertEvidence_row env i ev)"
  unfolding UpsertEvidence_row_def
  by (intro keeps_intros keeps_disputes_same) (rule upsert_evidence_disputes)

lemma keeps_dispute_reads [keeps_intros]:
  "keeps_data I (GetDisputeByID env x i)" "keeps_data I (GetDisputeByOrderID env x i)" "keeps_data I (GetEvidence env x i)"
  unfolding GetDisputeByID_def GetDisputeByOrderID_def GetEvidence_def
  by (intro keeps_intros keeps_data_read_db read_only_query)+

lemma insert_dispute_ok:
  assumes "insert_dispute r d = Inr (u, d')"
  shows "d' = d\<lparr>disputes := disputes d @ [r]\<rparr> \<and> d_id r \<notin> d_id ` set (disputes d)"
proof -
  have "d' = d\<lparr>disputes := disputes d @ [r]\<rparr>" and "rows_ok disputes_schema (disputes d @ [r])"
    using assms by (auto simp: insert_dispute_def in_table_ok sql_insert_ok split: sum.splits prod.splits if_splits)
  then show ?thesis by (auto simp: rows_ok_def disputes_schema_def clashes_snoc)
qed

lemma keeps_CreateDispute:
  assumes "in_order d"
  shows "keeps_data (disputes_in_order D T) (CreateDispute env d)"
proof -
  have new: "disputes_in_order D T v'"
    if I: "disputes_in_order D T v"
      and ins: "insert_dispute (dispute_to_row (d\<lparr>di_ID := i\<rparr>)) v = Inr (u, v')" for v v' u i
  proof -
    have "i \<notin> D" using insert_dispute_ok[OF ins] I by (auto simp: disputes_in_order_def dispute_to_row_def)
    from sound_new[OF assms this, of T] insert_dispute_ok[OF ins] I show ?thesis
      by (auto simp: disputes_in_order_def dispute_to_row_def)
  qed
  show ?thesis
    unfolding CreateDispute_def
    by (intro keeps_intros keeps_data_sql) (auto simp: with_amount_def split: if_splits intro: new)
qed

lemma keeps_UpdateDispute:
  assumes "sound_dispute D T d"
  shows "keeps_data (disputes_in_order D T) (UpdateDispute env d)"
proof -
  let ?f = "rewritten d"
  have ids: "map d_id (set_where p ?f rows) = map d_id rows" for p and rows :: "dispute_row list"
    by (simp add: set_where_def rewritten_def)
  then have ids': "d_id ` set (set_where p ?f rows) = d_id ` set rows" for p and rows :: "dispute_row list"
    by (metis list.set_map)
  have two: "decimal2 (d_amount (?f x)) = d_amount (?f x)" for x
    by (simp add: rewritten_def dispute_to_row_def)
  have "disputes_in_order D T (v\<lparr>disputes := set_where (\<lambda>r. d_id r = di_ID d) ?f (disputes v)\<rparr>)"
    if I: "disputes_in_order D T v" for v
  proof -
    have "sound_dispute D T (dispute_of_row x) \<and> decimal2 (d_amount x) = d_amount x"
      if x: "x \<in> set (set_where (\<lambda>r. d_id r = di_ID d) ?f (disputes v))" for x
    proof -
      from x obtain r where r: "r \<in> set (disputes v)" and eq: "x = (if d_id r = di_ID d then ?f r else r)"
        by (auto simp: set_set_where)
      from I r have "sound_dispute D T (dispute_of_row r)" "decimal2 (d_amount r) = d_amount r"
        by (simp_all add: disputes_in_order_def)
      then show ?thesis using eq two sound_row[OF assms] by simp
    qed
    with I show ?thesis by (simp add: disputes_in_order_def ids ids')
  qed
  then show ?thesis
    unfolding UpdateDispute_def rewritten_def[symmetric]
    by (intro keeps_intros keeps_data_sql) (auto simp: with_amount_def in_table_ok sql_update_ok split: if_splits)
qed

text \<open>What is read inside a transaction is a row of the table.\<close>

lemma dispute_read_in_order:
  assumes "GetDisputeByID env Tx i w = (Inr (Some d), w') \<or> GetDisputeByOrderID env Tx i w = (Inr (Some d), w')"
    and "disputes_in_order D T (data w)"
  shows "sound_dispute D T d"
  using assms unfolding GetDisputeByID_def GetDisputeByOrderID_def
  by (auto simp: query_def disputes_in_order_def filter_eq_Cons_iff
      elim!: bnd_okE map_err_okE sql_okE split: list.splits)

lemma in_order_created: "in_order (new_dispute w)"
  by (simp add: in_order_def new_dispute_def)

lemma keeps_of_sum_bnd: "(\<And>x. r = Inr x \<Longrightarrow> keeps P (f x)) \<Longrightarrow> keeps P (bnd (of_sum r) f)"
  by (cases r) (auto simp: keeps_def run_bnd)

lemma keeps_dispute_found:
  assumes "m = GetDisputeByID env Tx i \<or> m = GetDisputeByOrderID env Tx i"
    and "\<And>d. sound_dispute D T d \<Longrightarrow> keeps_data (disputes_in_order D T) (f (Some d))" and "keeps_data (disputes_in_order D T) (f None)"
  shows "keeps_data (disputes_in_order D T) (bnd (map_err g m) f)"
proof (rule keeps_bnd_post[where Q = "\<lambda>found. \<forall>d. found = Some d \<longrightarrow> sound_dispute D T d"])
  show "keeps_data (disputes_in_order D T) (map_err g m)"
    using assms(1) by (elim disjE; simp only:; intro keeps_intros)
  show "\<forall>d. x = Some d \<longrightarrow> sound_dispute D T d" if "disputes_in_order D T (data v)" "map_err g m v = (Inr x, v')" for v x v'
    using that assms(1) dispute_read_in_order[of env i v _ v'] by (auto elim!: map_err_okE)
  show "keeps_data (disputes_in_order D T) (f found)" if "\<forall>d. found = Some d \<longrightarrow> sound_dispute D T d" for found
    using that assms(2,3) by (cases found) auto
qed

lemma keeps_chargeback_tx: "keeps_data (disputes_in_order D T) (chargeback_tx env w)"
  unfolding chargeback_tx_def chargeback_event_def
  by (rule keeps_dispute_found[OF disjI2[OF refl]]; simp only: option.case)
    (intro keeps_of_sum_bnd keeps_intros keeps_CreateDispute keeps_UpdateDispute in_order_created, erule (1) sound_apply,
     intro keeps_intros keeps_CreateDispute in_order_created)

lemma keeps_evidence_tx: "keeps_data (disputes_in_order D T) (evidence_tx env i ev)"
proof -
  have u: "sound_dispute D T (d\<lparr>di_Status := DisputeUnderReview\<rparr>)" if "sound_dispute D T d" for d
    using that by (simp add: sound_dispute_def in_order_def dispute_terms_def)
  show ?thesis
    unfolding evidence_tx_def
    by (rule keeps_dispute_found[OF disjI1[OF refl]]; simp only: option.case; intro keeps_intros keeps_UpdateDispute u)
qed

lemma keeps_submit_tx: "keeps_data (disputes_in_order D T) (submit_tx env c i)"
proof -
  have u: "sound_dispute D T (d\<lparr>di_SubmittedAt := Some t, di_SubmittingId := Some sid, di_Status := DisputeSubmitted\<rparr>)"
    if "sound_dispute D T d" for d t sid
    using that by (simp add: sound_dispute_def in_order_def dispute_terms_def)
  show ?thesis
    unfolding submit_tx_def SubmitRepresentment_def post_json_def provider_Post_def
    by (rule keeps_dispute_found[OF disjI1[OF refl]]; simp only: option.case; intro keeps_intros keeps_UpdateDispute u)
qed

lemma keeps_dispute_requests:
  "keeps_data (disputes_in_order D T) (ProcessChargeback env w)"
  "keeps_data (disputes_in_order D T) (UpsertEvidence env i ev)"
  "keeps_data (disputes_in_order D T) (Submit env c i)"
  unfolding ProcessChargeback_def UpsertEvidence_def Submit_def saveWebhookEvent_def createEvidenceAddedEvent_def
    createEvidenceSubmittedEvent_def sink_dispute_event_def
  by (intro keeps_intros keeps_chargeback_tx keeps_evidence_tx keeps_submit_tx)+

datatype dispute_request =
    Chargeback ChargebackWebhook
  | AddEvidence string GwEvidence
  | SubmitDispute string

definition serve_dispute :: "('b) penv_scheme \<Rightarrow> Client \<Rightarrow> dispute_request \<Rightarrow> unit pm" where
  "serve_dispute env c q = (case q of
      Chargeback w \<Rightarrow> ProcessChargeback env w
    | AddEvidence i ev \<Rightarrow> bnd (UpsertEvidence env i ev) (\<lambda>_. ret ())
    | SubmitDispute i \<Rightarrow> Submit env c i)"

inductive dispute_step :: "Client \<Rightarrow> pm_data \<Rightarrow> pm_data \<Rightarrow> bool" for c where
  serve: "serve_dispute (env :: unit penv_scheme) c q w = (res, w') \<Longrightarrow> dispute_step c (data w) (data w')"

lemma dispute_steps_in_order:
  assumes "(dispute_step c)\<^sup>*\<^sup>* d d'" and "disputes_in_order D T d"
  shows "disputes_in_order D T d'"
  using assms(1)
proof (induction rule: rtranclp_induct)
  case base
  show ?case by (rule assms(2))
next
  case (step x y)
  from step(2) show ?case
  proof cases
    case (serve env q w res w')
    have "keeps_data (disputes_in_order D T) (serve_dispute env c q)"
      unfolding serve_dispute_def by (cases q) (simp_all, (intro keeps_dispute_requests keeps_intros)+)
    from keepsD[OF this serve(3)] step(3) serve show ?thesis by simp
  qed
qed

text \<open>
  C18. However chargebacks, evidence and submissions follow each other from an empty table,
  and whichever of them fail, every dispute has one of six statuses; one that is won, lost
  or closed carries the time it was, and one that is submitted the time and the provider's
  identifier of the submission. No dispute is lost and none changes its identifier, its
  order, its reason, its amount, its currency or the time it was opened.
\<close>

theorem disputes_stay_in_order:
  assumes "(dispute_step c)\<^sup>*\<^sup>* d0 d" and "disputes d0 = []" and "r \<in> set (disputes d)"
    and "(dispute_step c)\<^sup>*\<^sup>* d d'"
  shows "(let v = dispute_of_row r in
    di_Status v \<in> {DisputeOpen, DisputeUnderReview, DisputeSubmitted, DisputeWon, DisputeLost, DisputeClosed}
    \<and> (di_Status v \<in> {DisputeWon, DisputeLost, DisputeClosed} \<longrightarrow> di_ClosedAt v \<noteq> None)
    \<and> (di_Status v = DisputeSubmitted \<longrightarrow> di_SubmittedAt v \<noteq> None \<and> di_SubmittingId v \<noteq> None))
    \<and> (\<exists>r'. filter (\<lambda>x. d_id x = d_id r) (disputes d') = [r'] \<and> d_order_id r' = d_order_id r \<and> d_reason r' = d_reason r
        \<and> d_amount r' = d_amount r \<and> d_currency r' = d_currency r \<and> d_opened_at r' = d_opened_at r)"
proof
  let ?T = "\<lambda>_::string. dispute_terms (dispute_of_row r)"
  have "disputes_in_order {} ?T d0" using assms(2) by (simp add: disputes_in_order_def)
  with assms(1) have I: "disputes_in_order {} ?T d" by (rule dispute_steps_in_order)
  with assms(3) show "let v = dispute_of_row r in
    di_Status v \<in> {DisputeOpen, DisputeUnderReview, DisputeSubmitted, DisputeWon, DisputeLost, DisputeClosed}
    \<and> (di_Status v \<in> {DisputeWon, DisputeLost, DisputeClosed} \<longrightarrow> di_ClosedAt v \<noteq> None)
    \<and> (di_Status v = DisputeSubmitted \<longrightarrow> di_SubmittedAt v \<noteq> None \<and> di_SubmittingId v \<noteq> None)"
    unfolding disputes_in_order_def sound_dispute_def in_order_def Let_def by blast
  have one: "x = r" if "x \<in> set (disputes d)" "d_id x = d_id r" for x
    using I that assms(3) by (auto simp: disputes_in_order_def distinct_map inj_on_def)
  have "disputes_in_order {d_id r} ?T d"
    using I assms(3) one unfolding disputes_in_order_def sound_dispute_def
    by (auto simp: dispute_of_row_def)
  with assms(4) have I': "disputes_in_order {d_id r} ?T d'" by (rule dispute_steps_in_order)
  then obtain r' where r': "filter (\<lambda>x. d_id x = d_id r) (disputes d') = [r']"
    using the_keyed_row[of d_id "disputes d'" "d_id r"] by (auto simp: disputes_in_order_def)
  then have "r' \<in> set (disputes d')" "d_id r' = d_id r" by (auto simp: filter_eq_Cons_iff)
  then have "dispute_terms (dispute_of_row r') = dispute_terms (dispute_of_row r)"
    and "decimal2 (d_amount r') = d_amount r'" "decimal2 (d_amount r) = d_amount r"
    using I I' assms(3) by (auto simp: disputes_in_order_def sound_dispute_def dispute_of_row_def)
  then show "\<exists>r'. filter (\<lambda>x. d_id x = d_id r) (disputes d') = [r'] \<and> d_order_id r' = d_order_id r
      \<and> d_reason r' = d_reason r \<and> d_amount r' = d_amount r \<and> d_currency r' = d_currency r \<and> d_opened_at r' = d_opened_at r"
    using r' by (auto simp: dispute_terms_def dispute_of_row_def)
qed

definition dispute_penv :: "unit penv_scheme" where
  "dispute_penv = \<lparr>fault = \<lambda>_. None, commit_err = \<lambda>_ failed. if failed then Some (ErrText ''rolled back'') else None,
     clock = int, fresh = \<lambda>n. ''u'' @ show_nat n,
     http_Post = \<lambda>_ _ _. Inr \<lparr>ha_StatusCode = 202, ha_Status = ''202 Accepted'', ha_Raw = '''',
       ha_JSON = Inr (JObj [(''id'', JStr ''sub'')])\<rparr>, replica = \<lambda>_. None\<rparr>"

definition dispute_client :: Client where
  "dispute_client = Client_New ''http://s'' ''/r'' ''/capture'' ''/auth'' ''/void''"

definition demo_files :: GwEvidence where
  "demo_files = \<lparr>gv_Fields = Some [(''a'', ''1''), (''b'', ''2'')],
     gv_Files = Some [\<lparr>ef_FileID = ''f1'', ef_Name = ''bill'', ef_ContentType = ''pdf'', ef_Size = 10\<rparr>]\<rparr>"

definition disputed :: "string \<Rightarrow> (pm_data, pm_effect) world" where
  "disputed st = init_world \<lparr>payments = [], events = [],
     orders = [\<lparr>o_id = ''o'', o_user_id = ''user'', o_status = ''created'', o_on_hold = False, o_hold_reason = None,
       o_created_at = 1, o_updated_at = 2\<rparr>], order_events = [],
     disputes = [dispute_to_row (demo_dispute\<lparr>di_ID := ''d'', di_Status := st, di_ClosedAt := Some 5\<rparr>)],
     dispute_events = [],
     evidence = [\<lparr>v_dispute_id = ''d'', v_fields = json_map None, v_files = files_json (gv_Files demo_files), v_updated_at = 3\<rparr>]\<rparr>"

definition no_dispute :: "(pm_data, pm_effect) world" where
  "no_dispute = init_world ((data (disputed ''open''))\<lparr>disputes := []\<rparr>)"

definition after_chargeback :: "(pm_data, pm_effect) world \<Rightarrow> string \<Rightarrow> string \<Rightarrow> (pm_data, pm_effect) world" where
  "after_chargeback w i st = snd (ProcessChargeback dispute_penv ((demo_chargeback st None)\<lparr>cb_ProviderEventID := i\<rparr>) w)"

definition opened_and_closed :: "(pm_data, pm_effect) world" where
  "opened_and_closed = after_chargeback (after_chargeback no_dispute ''e1'' ''opened'') ''e2'' ''closed''"

lemma after_chargeback_step: "dispute_step c (data w) (data (after_chargeback w i st))"
  using dispute_step.serve[of dispute_penv c "Chargeback ((demo_chargeback st None)\<lparr>cb_ProviderEventID := i\<rparr>)" w]
  by (simp add: serve_dispute_def after_chargeback_def) (metis prod.collapse)

theorem disputes_stay_in_order_witness:
  "(let opened = hd (disputes (data (after_chargeback no_dispute ''e1'' ''opened'')));
        closed = hd (disputes (data opened_and_closed)) in
    d_status opened = ''open'' \<and> d_status closed = ''closed'' \<and> d_closed_at closed \<noteq> None
    \<and> d_order_id closed = d_order_id opened \<and> d_amount closed = d_amount opened)"
proof -
  let ?w = "after_chargeback no_dispute ''e1'' ''opened''"
  let ?o = "hd (disputes (data ?w))" and ?r = "hd (disputes (data opened_and_closed))"
  have first: "(dispute_step dispute_client)\<^sup>*\<^sup>* (data no_dispute) (data ?w)"
    by (rule r_into_rtranclp, rule after_chargeback_step)
  have second: "(dispute_step dispute_client)\<^sup>*\<^sup>* (data ?w) (data opened_and_closed)"
    unfolding opened_and_closed_def by (rule r_into_rtranclp, rule after_chargeback_step)
  have none: "disputes (data no_dispute) = []" by (simp add: no_dispute_def init_world_def)
  have one: "map d_status (disputes (data ?w)) = [''open'']" by code_simp
  then have o: "?o \<in> set (disputes (data ?w))" "d_status ?o = ''open''" by auto
  have two: "map d_status (disputes (data opened_and_closed)) = [''closed'']" by code_simp
  then have r: "?r \<in> set (disputes (data opened_and_closed))" "d_status ?r = ''closed''"
    and all: "disputes (data opened_and_closed) = [?r]" by auto
  from disputes_stay_in_order[OF first none o(1) second] obtain r' where
    r': "filter (\<lambda>x. d_id x = d_id ?o) (disputes (data opened_and_closed)) = [r']"
      "d_order_id r' = d_order_id ?o" "d_amount r' = d_amount ?o" by blast
  with all have "r' = ?r" by (metis filter.simps list.inject not_Cons_self2)
  moreover from disputes_stay_in_order[OF rtranclp_trans[OF first second] none r(1) rtranclp.rtrancl_refl] r(2)
  have "d_closed_at ?r \<noteq> None" by (simp add: Let_def dispute_of_row_def)
  ultimately show ?thesis using r' o(2) r(2) by (simp add: Let_def)
qed

section \<open>Evidence\<close>

lemma EvidenceFile_roundtrip: "read_EvidenceFile (EvidenceFile_json f) = Inr f"
  by (simp add: read_EvidenceFile_def EvidenceFile_json_def fields_of_def str_field_marshal int64_field_marshal)

lemma files_roundtrip: "json_to_files (files_json fs) = Inr fs"
proof -
  have "read_files (map EvidenceFile_json xs) = Inr xs" for xs
    by (induction xs) (simp_all add: EvidenceFile_roundtrip)
  then show ?thesis by (cases fs) (simp_all add: json_to_files_def files_json_def)
qed

lemma upserted_row:
  assumes "upsert_evidence r d = Inr (u, d')"
  shows "\<exists>rest. filter (\<lambda>e. v_dispute_id e = v_dispute_id r) (evidence d') = r # rest
    \<and> (\<forall>e\<in>set rest. e = r)"
proof (cases "\<exists>e\<in>set (evidence d). v_dispute_id e = v_dispute_id r")
  case True
  let ?p = "\<lambda>e. v_dispute_id e = v_dispute_id r"
  have eq: "filter ?p (set_where ?p (\<lambda>_. r) rows) = map (\<lambda>_. r) (filter ?p rows)" for rows
    by (induction rows) (auto simp: set_where_def)
  from True obtain e es where "filter ?p (evidence d) = e # es"
    by (cases "filter ?p (evidence d)") (auto simp: filter_empty_conv)
  with assms True eq[of "evidence d"] show ?thesis by (auto simp: upsert_evidence_def)
next
  case False
  then have "filter (\<lambda>e. v_dispute_id e = v_dispute_id r) (evidence d) = []" by (auto simp: filter_empty_conv)
  with assms False show ?thesis by (auto simp: upsert_evidence_def split: if_splits)
qed

lemma parseEvidenceRows_same:
  assumes "\<forall>x\<in>set rest. x = r" and "json_to_map (v_fields r) = Inr m" and "json_to_files (v_files r) = Inr fs"
  shows "\<exists>es. parseEvidenceRows rest = Inr es"
  using assms(1) by (induction rest) (use assms(2,3) in auto)

text \<open>
  C19. Evidence is read back as it was stored: its fields and its files pass through their
  two JSON columns unchanged, whether they were stored first or over older evidence.
\<close>

theorem evidence_roundtrip:
  assumes "healthy env" and "\<not> tx_failed w"
    and "UpsertEvidence_row env i ev w = (Inr stored, w')"
    and "\<And>es. gv_Fields ev = Some es \<Longrightarrow> sorted_map es"
  shows "\<exists>e w2. GetEvidence env Tx i w' = (Inr (Some e), w2) \<and> en_DisputeID e = i \<and> en_Evidence e = ev"
proof -
  from assms(3) obtain r where up: "upsert_evidence r (data w) = Inr ((), data w')"
    and r: "v_dispute_id r = i" "v_fields r = json_map (gv_Fields ev)" "v_files r = files_json (gv_Files ev)"
    and calm: "\<not> tx_failed w'"
    unfolding UpsertEvidence_row_def by (auto elim!: bnd_okE ask_okE map_err_okE sql_okE)
  from upserted_row[OF up] obtain rest where rows: "filter (\<lambda>e. v_dispute_id e = i) (evidence (data w')) = r # rest"
    and rest: "\<forall>e\<in>set rest. e = r" unfolding r(1) by blast
  have m: "json_to_map (v_fields r) = Inr (gv_Fields ev)" unfolding r(2) by (rule json_map_roundtrip) (rule assms(4))
  have fs: "json_to_files (v_files r) = Inr (gv_Files ev)" unfolding r(3) by (rule files_roundtrip)
  obtain es where "parseEvidenceRows rest = Inr es" using parseEvidenceRows_same[OF rest m fs] by blast
  with m fs have parse: "parseEvidenceRows (r # rest)
      = Inr (\<lparr>en_DisputeID = i, en_Evidence = \<lparr>gv_Fields = gv_Fields ev, gv_Files = gv_Files ev\<rparr>, en_UpdatedAt = v_updated_at r\<rparr> # es)"
    using r(1) by simp
  have "sql env (query evidence (\<lambda>e. v_dispute_id e = i)) w' = (Inr (r # rest), tick w')"
    using sql_run[OF assms(1) calm, of "query evidence (\<lambda>e. v_dispute_id e = i)"] rows by (simp add: query_def)
  with parse show ?thesis by (simp add: GetEvidence_def run_bnd run_map_err)
qed

theorem evidence_roundtrip_witness:
  "\<exists>e. fst (GetEvidence dispute_penv Tx ''d'' (snd (UpsertEvidence_row dispute_penv ''d'' demo_files (disputed ''open''))))
     = Inr (Some e) \<and> en_Evidence e = demo_files"
proof -
  let ?run = "UpsertEvidence_row dispute_penv ''d'' demo_files (disputed ''open'')"
  have "healthy dispute_penv" by (simp add: healthy_def dispute_penv_def)
  moreover have "\<not> tx_failed (disputed ''open'')" by (simp add: disputed_def init_world_def)
  moreover have "fst ?run = Inr \<lparr>en_DisputeID = ''d'', en_Evidence = demo_files, en_UpdatedAt = 2\<rparr>" by code_simp
  then have "?run = (Inr \<lparr>en_DisputeID = ''d'', en_Evidence = demo_files, en_UpdatedAt = 2\<rparr>, snd ?run)"
    by (metis prod.collapse)
  moreover have "sorted_map es" if "gv_Fields demo_files = Some es" for es
    using that by (auto simp: demo_files_def sorted_map_def)
  ultimately have "\<exists>e w2. GetEvidence dispute_penv Tx ''d'' (snd ?run) = (Inr (Some e), w2) \<and> en_DisputeID e = ''d'' \<and> en_Evidence e = demo_files"
    by (rule evidence_roundtrip)
  then show ?thesis by auto
qed

section \<open>Submission\<close>

lemma keeps_dispute_reads_trace [keeps_intros]:
  "keeps_trace I (GetDisputeByID env x i)" "keeps_trace I (GetEvidence env x i)"
  unfolding GetDisputeByID_def GetEvidence_def by (intro keeps_intros)+

lemma keeps_trace_writes [keeps_intros]:
  "keeps_trace I (UpdateDispute env d)" "keeps_trace I (writeEvent env aty aid ety key payload)"
  "keeps_trace I (sink_dispute_event env i kind key payload)"
  unfolding UpdateDispute_def writeEvent_def CreateEvent_def sink_dispute_event_def CreateDisputeEvent_def sink_Create_def
  by (intro keeps_intros)+

text \<open>What a submission may have sent: nothing, or one request for an open dispute with evidence.\<close>

definition submission_sent :: "Client \<Rightarrow> string \<Rightarrow> pm_data \<Rightarrow> pm_effect list \<Rightarrow> pm_effect list \<Rightarrow> bool" where
  "submission_sent c i d t t' \<longleftrightarrow> t' = t \<or> (\<exists>r\<in>set (disputes d). d_id r = i
     \<and> (d_status r = DisputeOpen \<or> d_status r = DisputeUnderReview) \<and> i \<in> v_dispute_id ` set (evidence d)
     \<and> (\<exists>b. t' = t @ [HttpPost (cl_SubmitRepresentmentUrl c) (JObj ((''order_id'', JStr (d_order_id r)) # b))]))"

lemma GetEvidence_okE:
  assumes "GetEvidence env Tx i w = (Inr (Some e), w')"
  obtains "i \<in> v_dispute_id ` set (evidence (data w))" and "data w' = data w" and "trace w' = trace w"
proof -
  have "data w' = data w" "trace w' = trace w"
    using keepsD[OF keeps_dispute_reads(3)[of "\<lambda>d. d = data w"] assms]
      keepsD[OF keeps_dispute_reads_trace(2)[of "\<lambda>t. t = trace w"] assms] by simp_all
  moreover from assms obtain es where "parseEvidenceRows (filter (\<lambda>r. v_dispute_id r = i) (evidence (data w))) = Inr (e # es)"
    unfolding GetEvidence_def
    by (auto simp: query_def elim!: bnd_okE map_err_okE sql_okE split: list.splits)
  then have "filter (\<lambda>r. v_dispute_id r = i) (evidence (data w)) \<noteq> []" by auto
  then have "i \<in> v_dispute_id ` set (evidence (data w))" by (auto simp: filter_empty_conv)
  ultimately show thesis using that by blast
qed

lemma GetDisputeByID_okE:
  assumes "GetDisputeByID env Tx i w = (Inr (Some d), w')"
  obtains r where "r \<in> set (disputes (data w))" and "d_id r = i" and "d = dispute_of_row r"
    and "data w' = data w" and "trace w' = trace w"
proof -
  have "data w' = data w" "trace w' = trace w"
    using keepsD[OF keeps_dispute_reads(1)[of "\<lambda>d. d = data w"] assms]
      keepsD[OF keeps_dispute_reads_trace(1)[of "\<lambda>t. t = trace w"] assms] by simp_all
  moreover from assms obtain r rs where "filter (\<lambda>r. d_id r = i) (disputes (data w)) = r # rs" "d = dispute_of_row r"
    unfolding GetDisputeByID_def
    by (auto simp: query_def elim!: bnd_okE map_err_okE sql_okE split: list.splits)
  then have "r \<in> set (disputes (data w)) \<and> d_id r = i" "d = dispute_of_row r" by (auto simp: filter_eq_Cons_iff)
  ultimately show thesis using that by blast
qed

lemma SubmitRepresentment_trace:
  assumes "SubmitRepresentment env c oid ev w = (r, w')"
  shows "\<exists>b. trace w' = trace w @ [HttpPost (cl_SubmitRepresentmentUrl c) (JObj ((''order_id'', JStr oid) # b))]"
  using assms unfolding SubmitRepresentment_def post_json_def
  by (auto simp: run_simps provider_Post_run split: sum.splits if_splits prod.splits)

text \<open>A step that is followed only by steps that send nothing.\<close>

lemma then_silent:
  assumes "bnd m f w = (r, w')" and "\<And>x P. keeps_trace P (f x)"
  obtains q w1 where "m w = (q, w1)" and "trace w' = trace w1"
proof -
  obtain q w1 where m: "m w = (q, w1)" by fastforce
  show thesis
  proof (cases q)
    case (Inl e)
    with assms(1) m that show thesis by (auto simp: run_bnd)
  next
    case (Inr x)
    with assms(1) m have "f x w1 = (r, w')" by (simp add: run_bnd)
    with keepsD[OF assms(2)[of "\<lambda>t. t = trace w1" x] this] m that show thesis by simp
  qed
qed

lemma submission_sent_refl: "submission_sent c i d t t"
  by (simp add: submission_sent_def)

lemma submit_tx_sent:
  assumes "submit_tx env c i w = (res, w')"
  shows "submission_sent c i (data w) (trace w) (trace w')"
proof -
  obtain q w1 where look: "GetDisputeByID env Tx i w = (q, w1)" by fastforce
  have tr1: "trace w1 = trace w"
    using keepsD[OF keeps_dispute_reads_trace(1)[of "\<lambda>t. t = trace w"] look] by simp
  show ?thesis
  proof (cases "\<exists>d. q = Inr (Some d) \<and> (di_Status d = DisputeOpen \<or> di_Status d = DisputeUnderReview)")
    case False
    with assms look tr1 show ?thesis
      by (auto simp: submit_tx_def submission_sent_def run_bnd run_map_err run_fail_if split: sum.splits option.splits if_splits)
  next
    case True
    then obtain d where q: "q = Inr (Some d)" and st: "di_Status d = DisputeOpen \<or> di_Status d = DisputeUnderReview" by blast
    from look[unfolded q] obtain r where r: "r \<in> set (disputes (data w))" "d_id r = i" "d = dispute_of_row r"
      and d1: "data w1 = data w" by (rule GetDisputeByID_okE)
    obtain q2 w2 where ev: "GetEvidence env Tx i w1 = (q2, w2)" by fastforce
    have tr2: "trace w2 = trace w"
      using keepsD[OF keeps_dispute_reads_trace(2)[of "\<lambda>t. t = trace w1"] ev] tr1 by simp
    show ?thesis
    proof (cases "\<exists>e. q2 = Inr (Some e)")
      case False
      with assms look q ev tr2 st show ?thesis
        by (auto simp: submit_tx_def submission_sent_def run_bnd run_map_err run_fail_if split: sum.splits option.splits if_splits)
    next
      case True
      then obtain e where q2: "q2 = Inr (Some e)" by blast
      from ev[unfolded q2] have mem: "i \<in> v_dispute_id ` set (evidence (data w))" using d1 by (metis GetEvidence_okE)
      let ?S = "map_err (wrap ''provider submit'') (SubmitRepresentment env c (di_OrderID d) (en_Evidence e))"
      let ?K = "\<lambda>sid. bnd (time_Now env) (\<lambda>now.
             bnd (map_err (wrap ''update dispute'') (UpdateDispute env
               (d\<lparr>di_SubmittedAt := Some now, di_SubmittingId := Some sid, di_Status := DisputeSubmitted\<rparr>))) (\<lambda>_.
             bnd (writeEvent env AggregateDispute i DisputeEventEvidenceSubmitted sid (Representment_json sid)) (\<lambda>_.
             ret sid)))"
      have run: "bnd ?S ?K w2 = (res, w')"
        using assms look q ev q2 st by (auto simp: submit_tx_def run_bnd[of "map_err _ _"] run_bnd[of "fail_if _ _"] run_map_err run_fail_if)
      have "keeps_trace P (?K sid)" for P sid by (intro keeps_intros)
      from then_silent[OF run this] obtain q3 w3 where S: "?S w2 = (q3, w3)" and t: "trace w' = trace w3" by blast
      from S obtain q4 where "SubmitRepresentment env c (di_OrderID d) (en_Evidence e) w2 = (q4, w3)"
        by (auto simp: run_map_err split: prod.splits sum.splits)
      from SubmitRepresentment_trace[OF this] t tr2 obtain b where
        "trace w' = trace w @ [HttpPost (cl_SubmitRepresentmentUrl c) (JObj ((''order_id'', JStr (di_OrderID d)) # b))]" by auto
      with r st mem show ?thesis
        unfolding submission_sent_def by (intro disjI2 bexI[of _ r]) (auto simp: dispute_of_row_def)
    qed
  qed
qed

text \<open>
  C17. A dispute is submitted to the provider only while it is open or under review, only
  with stored evidence, and by one request that names its order.
\<close>

theorem submission_guarded:
  assumes "Submit env c i w = (res, w')" and "trace w' \<noteq> trace w"
  shows "\<exists>r\<in>set (disputes (data w)). d_id r = i \<and> (d_status r = DisputeOpen \<or> d_status r = DisputeUnderReview)
    \<and> i \<in> v_dispute_id ` set (evidence (data w))
    \<and> (\<exists>b. trace w' = trace w @ [HttpPost (cl_SubmitRepresentmentUrl c) (JObj ((''order_id'', JStr (d_order_id r)) # b))])"
proof -
  let ?tx = "InTransaction env RepeatableRead (submit_tx env c i)"
  have run: "bnd (map_err (wrap ''submit evidence'') ?tx) (\<lambda>sid.
      map_err (wrap ''create submitted event'') (createEvidenceSubmittedEvent env i sid)) w = (res, w')"
    using assms(1) by (simp only: Submit_def)
  have silent: "keeps_trace P (map_err (wrap ''create submitted event'') (createEvidenceSubmittedEvent env i sid))" for P sid
    unfolding createEvidenceSubmittedEvent_def by (intro keeps_intros)
  from then_silent[OF run silent] obtain q0 w1 where
    tx0: "map_err (wrap ''submit evidence'') ?tx w = (q0, w1)" and t: "trace w' = trace w1" by blast
  from tx0 obtain q where tx: "?tx w = (q, w1)"
    by (auto simp: run_map_err split: prod.splits sum.splits)
  have body: "submission_sent c i (data w) (trace w) (trace v')"
    if "submit_tx env c i ((tick w)\<lparr>in_tx := True, tx_failed := False\<rparr>) = (q', v')" for q' v'
    using submit_tx_sent[OF that] by simp
  have "submission_sent c i (data w) (trace w) (trace w1)"
  proof (cases q)
    case (Inl e)
    from tx[unfolded this] show ?thesis
      by (rule InTransaction_errE) (auto simp: submission_sent_refl dest: body)
  next
    case (Inr x)
    from tx[unfolded this] show ?thesis by (rule InTransaction_okE) (auto dest: body)
  qed
  with assms(2) t show ?thesis unfolding submission_sent_def by auto
qed

theorem submission_guarded_witness:
  "''d'' \<in> v_dispute_id ` set (evidence (data (disputed ''open'')))"
proof -
  let ?run = "Submit dispute_penv dispute_client ''d'' (disputed ''open'')"
  have "length (trace (snd ?run)) = 1 \<and> trace (disputed ''open'') = []" by (rule conjI; code_simp)
  then have "trace (snd ?run) \<noteq> trace (disputed ''open'')" by auto
  from submission_guarded[OF prod.collapse[symmetric] this] show ?thesis by blast
qed

end
