(* ===== verification/PmDisputeApi.thy ===== *)
theory PmDisputeApi
  imports PmDispute Messaging
begin

text \<open>
  Paymanager, package \<open>disputecontroller\<close>: the HTTP handlers of disputes and evidence, the
  internal handler that ingest calls, and the Kafka handler.
\<close>

section \<open>HTTP\<close>

text \<open>A reply with a JSON body, or one that sets its status only (\<open>c.Status\<close>).\<close>

datatype answer = Json reply | Status int

definition answer_code :: "answer \<Rightarrow> int" where
  "answer_code a = (case a of Json r \<Rightarrow> rp_code r | Status c \<Rightarrow> c)"

definition msg_reply :: "int \<Rightarrow> string \<Rightarrow> reply" where
  "msg_reply c msg = \<lparr>rp_code = c, rp_body = JObj [(''message'', JStr msg)]\<rparr>"

definition opt_member :: "string \<Rightarrow> ('a \<Rightarrow> json) \<Rightarrow> 'a option \<Rightarrow> (string \<times> json) list" where
  "opt_member name f x = (case x of None \<Rightarrow> [] | Some v \<Rightarrow> [(name, f v)])"

definition Dispute_json :: "Dispute \<Rightarrow> json" where
  "Dispute_json d = JObj ([(''dispute_id'', JStr (di_ID d)), (''status'', JStr (di_Status d)),
       (''order_id'', JStr (di_OrderID d))]
     @ opt_member ''submitting_id'' JStr (di_SubmittingId d)
     @ [(''reason'', JStr (di_Reason d)), (''amount'', JFloat (di_Amount d)), (''currency'', JStr (di_Currency d)),
        (''opened_at'', json_time (di_OpenedAt d))]
     @ opt_member ''evidence_due_at'' json_time (di_EvidenceDueAt d)
     @ opt_member ''submitted_at'' json_time (di_SubmittedAt d)
     @ opt_member ''closed_at'' json_time (di_ClosedAt d))"

definition Disputes_json :: "Dispute list \<Rightarrow> json" where
  "Disputes_json ds = (if ds = [] then JNull else JArr (map Dispute_json ds))"

definition dispute_GetDisputes_handler :: "('b) penv_scheme \<Rightarrow> reply pm" where
  "dispute_GetDisputes_handler env = respond (dispute_GetDisputes env)
     (\<lambda>err. msg_reply 500 (Error err)) (\<lambda>ds. \<lparr>rp_code = 200, rp_body = Disputes_json ds\<rparr>)"

text \<open>The handler looks for the order package's error; a missing dispute is a nil pointer.\<close>

definition dispute_GetDispute_handler :: "('b) penv_scheme \<Rightarrow> gin_ctx \<Rightarrow> reply pm" where
  "dispute_GetDispute_handler env ctx =
    (let i = param ctx ''dispute_id'' in
     if i = '''' then ret (msg_reply 400 ''Missing dispute_id'')
     else respond (dispute_GetDisputeByID env i)
       (\<lambda>err. if errors_Is err Order_ErrNotFound then msg_reply 404 ''Dispute not found'' else msg_reply 500 (Error err))
       (\<lambda>d. \<lparr>rp_code = 200, rp_body = (case d of None \<Rightarrow> JNull | Some x \<Rightarrow> Dispute_json x)\<rparr>))"

definition dispute_Submit_handler :: "('b) penv_scheme \<Rightarrow> Client \<Rightarrow> gin_ctx \<Rightarrow> answer pm" where
  "dispute_Submit_handler env c ctx =
    (let i = param ctx ''dispute_id'' in
     if i = '''' then ret (Json (msg_reply 400 ''dispute_id is required''))
     else bnd (attempt (Submit env c i)) (\<lambda>r. case r of
         Inl err \<Rightarrow> ret (Json (msg_reply 500 (Error err)))
       | Inr _ \<Rightarrow> ret (Status 202)))"

definition dispute_UpsertEvidence_handler ::
  "('b) penv_scheme \<Rightarrow> gin_ctx \<Rightarrow> goerr + GwEvidence \<Rightarrow> reply pm" where
  "dispute_UpsertEvidence_handler env ctx bound =
    (let i = param ctx ''dispute_id'' in
     if i = '''' then ret (msg_reply 400 ''dispute_id is required'')
     else case bound of
       Inl err \<Rightarrow> ret (msg_reply 400 (Error err))
     | Inr upsert \<Rightarrow> respond (UpsertEvidence env i upsert)
         (\<lambda>err. if Error err = ''dispute not found'' then msg_reply 404 ''Dispute not found''
               else msg_reply 500 (Error err))
         (\<lambda>ev. \<lparr>rp_code = 200, rp_body = Evidence_json ev\<rparr>))"

definition dispute_GetEvents_handler ::
  "('b) penv_scheme \<Rightarrow> goerr + EventQuery \<Rightarrow> reply pm" where
  "dispute_GetEvents_handler env bound = (case bound of
      Inl err \<Rightarrow> ret (msg_reply 400 (Error err))
    | Inr q \<Rightarrow> respond (dispute_GetEvents env q)
        (\<lambda>err. msg_reply 500 (Error err))
        (\<lambda>res. \<lparr>rp_code = 200, rp_body = event_page_json ''dispute_id'' res\<rparr>))"

definition dispute_GetEvidence_handler :: "('b) penv_scheme \<Rightarrow> gin_ctx \<Rightarrow> reply pm" where
  "dispute_GetEvidence_handler env ctx =
    (let i = param ctx ''dispute_id'' in
     if i = '''' then ret (msg_reply 400 ''Missing dispute_id'')
     else respond (dispute_GetEvidence env i)
       (\<lambda>err. msg_reply 500 (Error err))
       (\<lambda>e. case e of None \<Rightarrow> msg_reply 404 ''Evidence not found''
                    | Some ev \<Rightarrow> \<lparr>rp_code = 200, rp_body = Evidence_json ev\<rparr>))"

section \<open>The internal handler\<close>

text \<open>\<open>disputeUpdateResponse\<close>; the bound request has the fields of \<open>ChargebackWebhook\<close>.\<close>

definition dispute_response :: "bool \<Rightarrow> string \<Rightarrow> json" where
  "dispute_response success msg = JObj ([(''success'', JBool success)] @ omitempty ''message'' msg)"

definition dispute_HandleUpdate :: "('b) penv_scheme \<Rightarrow> goerr + ChargebackWebhook \<Rightarrow> reply pm" where
  "dispute_HandleUpdate env bound = (case bound of
      Inl err \<Rightarrow> reply_JSON 400 (dispute_response False (''invalid request body: '' @ Error err))
    | Inr w \<Rightarrow> respond (ProcessChargeback env w)
        (\<lambda>err. if errors_Is err Dispute_ErrEventAlreadyStored
               then \<lparr>rp_code = 200, rp_body = dispute_response True ''event already processed''\<rparr>
               else \<lparr>rp_code = 500, rp_body = dispute_response False (Error err)\<rparr>)
        (\<lambda>_. \<lparr>rp_code = 200, rp_body = dispute_response True ''''\<rparr>))"

section \<open>Kafka\<close>

definition read_ChargebackWebhook :: "json \<Rightarrow> goerr + ChargebackWebhook" where
  "read_ChargebackWebhook j =
     bind_sum (fields_of j) (\<lambda>fs.
     bind_sum (str_field fs ''provider_event_id'') (\<lambda>ev.
     bind_sum (str_field fs ''order_id'') (\<lambda>i.
     bind_sum (str_field fs ''user_id'') (\<lambda>usr.
     bind_sum (str_field fs ''status'') (\<lambda>st.
     bind_sum (str_field fs ''reason'') (\<lambda>reason.
     bind_sum (float_field fs ''amount'') (\<lambda>amount.
     bind_sum (str_field fs ''currency'') (\<lambda>cur.
     bind_sum (time_field fs ''occurred_at'') (\<lambda>occ.
     bind_sum (opt_time_field fs ''evidence_due_at'') (\<lambda>due.
     bind_sum (map_field fs ''meta'') (\<lambda>meta.
     Inr \<lparr>cb_ProviderEventID = ev, cb_OrderID = i, cb_UserID = usr, cb_Status = st, cb_Reason = reason,
          cb_Amount = amount, cb_Currency = cur, cb_OccurredAt = occ, cb_EvidenceDueAt = due, cb_Meta = meta\<rparr>)))))))))))"

definition dispute_HandleMessage :: "('b) penv_scheme \<Rightarrow> message \<Rightarrow> unit pm" where
  "dispute_HandleMessage env m =
     bnd (open_message read_ChargebackWebhook m) (\<lambda>w.
     bnd (attempt (ProcessChargeback env w)) (\<lambda>r. case r of
         Inl err \<Rightarrow> if errors_Is err Dispute_ErrEventAlreadyStored then ret () else throw err
       | Inr _ \<Rightarrow> ret ()))"

section \<open>What the handlers answer\<close>

text \<open>The two places where a missing dispute is not answered with 404.\<close>

lemma missing_dispute_is_null:
  assumes "param ctx ''dispute_id'' \<noteq> ''''" and "dispute_GetDisputeByID env (param ctx ''dispute_id'') w = (Inr None, w')"
  shows "dispute_GetDispute_handler env ctx w = (Inr \<lparr>rp_code = 200, rp_body = JNull\<rparr>, w')"
  using assms by (simp add: dispute_GetDispute_handler_def run_respond)

lemma Error_wrap_neq: "msg \<noteq> '''' \<Longrightarrow> s \<noteq> '''' \<Longrightarrow> hd msg \<noteq> hd s \<Longrightarrow> Error (wrap msg e) \<noteq> s"
  by (cases msg; cases s) auto

lemma evidence_404_unreachable:
  assumes "dispute_UpsertEvidence_handler env ctx (Inr upsert) w = (Inr rep, w')"
  shows "rp_code rep \<noteq> 404"
proof -
  have "Error e \<noteq> ''dispute not found''" if "UpsertEvidence env i upsert w = (Inl e, v)" for i e v
    using that unfolding UpsertEvidence_def
    by (auto simp: run_bnd run_map_err run_ret Error_wrap_neq split: prod.splits sum.splits)
  with assms show ?thesis
    by (auto simp: dispute_UpsertEvidence_handler_def msg_reply_def run_respond run_simps Let_def
      split: prod.splits sum.splits if_splits)
qed

end
