(* ===== verification/PmWorkers.thy ===== *)
theory PmWorkers
  imports Consumer PmPaymentApi PmOrderApi PmDisputeApi
begin

text \<open>
  The Kafka side of paymanager (\<open>workers.go\<close>): three consumers, each with its topic, its
  group and its dead letter topic, around the three message handlers. What the broker
  answers to commits and to dead letters is a part of the environment; \<open>StartWorkers\<close>
  closes the writers of the dead letters when it returns, after which they answer with
  errors.
\<close>

section \<open>The workers\<close>

record wenv = penv +
  kafka_Write :: "nat \<Rightarrow> string \<Rightarrow> dlq_message \<Rightarrow> goerr option"
  kafka_Commit :: "nat \<Rightarrow> string \<Rightarrow> message fetched \<Rightarrow> goerr option"

record worker_config =
  wk_Topic :: string
  wk_ConsumerGroup :: string
  wk_DLQTopic :: string

record kafka_config =
  kc_Orders :: worker_config
  kc_Disputes :: worker_config
  kc_Payments :: worker_config

definition DLQPublisher :: "('b) wenv_scheme \<Rightarrow> string \<Rightarrow> message \<Rightarrow> goerr \<Rightarrow> unit pm" where
  "DLQPublisher env topic = PublishToDLQ env (\<lambda>n. kafka_Write env n topic) (DeadLetter topic)"

definition NewConsumer :: "('b) wenv_scheme \<Rightarrow> string \<Rightarrow> string \<Rightarrow> (message, pm_effect) kafka_reader" where
  "NewConsumer env topic grp = \<lparr>kr_Topic = topic, kr_GroupID = grp,
     kr_CommitMessages = (\<lambda>n. kafka_Commit env n topic), kr_effect = CommitOffset\<rparr>"

definition worker_runner ::
  "('b) wenv_scheme \<Rightarrow> runtime \<Rightarrow> worker_config \<Rightarrow> (message \<Rightarrow> unit pm) \<Rightarrow> message fetch list
   \<Rightarrow> (message, pm_data, pm_effect) runner" where
  "worker_runner env rt cfg handle fetches =
     \<lparr>rn_workers = [\<lambda>h. Consumer_Start env (NewConsumer env (wk_Topic cfg) (wk_ConsumerGroup cfg)) None h fetches],
      rn_handler = pipeline env ObserveMessage (wk_Topic cfg) (wk_ConsumerGroup cfg)
        (DLQPublisher env (wk_DLQTopic cfg)) rt handle\<rparr>"

text \<open>The goroutines that \<open>StartWorkers\<close> starts, given the messages each of them gets.\<close>

record worker_fetches =
  wf_Orders :: "message fetch list"
  wf_Disputes :: "message fetch list"
  wf_Payments :: "message fetch list"

definition order_worker :: "('b) wenv_scheme \<Rightarrow> runtime \<Rightarrow> kafka_config \<Rightarrow> message fetch list \<Rightarrow> unit pm" where
  "order_worker env rt cfg fetches = Runner_Start (worker_runner env rt (kc_Orders cfg) (order_HandleMessage env) fetches)"

definition dispute_worker :: "('b) wenv_scheme \<Rightarrow> runtime \<Rightarrow> kafka_config \<Rightarrow> message fetch list \<Rightarrow> unit pm" where
  "dispute_worker env rt cfg fetches = Runner_Start (worker_runner env rt (kc_Disputes cfg) (dispute_HandleMessage env) fetches)"

definition payment_worker :: "('b) wenv_scheme \<Rightarrow> runtime \<Rightarrow> kafka_config \<Rightarrow> message fetch list \<Rightarrow> unit pm" where
  "payment_worker env rt cfg fetches = Runner_Start (worker_runner env rt (kc_Payments cfg) (payment_HandleMessage env) fetches)"

definition StartWorkers :: "('b) wenv_scheme \<Rightarrow> runtime \<Rightarrow> kafka_config \<Rightarrow> worker_fetches \<Rightarrow> unit pm list" where
  "StartWorkers env rt cfg fs =
     [order_worker env rt cfg (wf_Orders fs), dispute_worker env rt cfg (wf_Disputes fs),
      payment_worker env rt cfg (wf_Payments fs)]"

section \<open>Runs of a worker\<close>

lemma worker_run:
  assumes "Runner_Start (worker_runner env rt cfg handle fetches) w = (r, w')"
  obtains q where "Consumer_Start env (NewConsumer env (wk_Topic cfg) (wk_ConsumerGroup cfg)) None
      (pipeline env ObserveMessage (wk_Topic cfg) (wk_ConsumerGroup cfg) (DLQPublisher env (wk_DLQTopic cfg)) rt handle)
      fetches w = (q, w')"
proof -
  let ?run = "Consumer_Start env (NewConsumer env (wk_Topic cfg) (wk_ConsumerGroup cfg)) None
      (pipeline env ObserveMessage (wk_Topic cfg) (wk_ConsumerGroup cfg) (DLQPublisher env (wk_DLQTopic cfg)) rt handle)
      fetches w"
  obtain q v where run: "?run = (q, v)" by (cases ?run)
  with assms have "v = w'"
    by (auto simp: Runner_Start_def worker_runner_def run_simps split: sum.splits)
  with run that show thesis by blast
qed

text \<open>The dead letter of a message, with the answer of the broker; it is in the topic when that is no error.\<close>

definition is_letter :: "string \<Rightarrow> message \<Rightarrow> goerr option \<Rightarrow> pm_effect \<Rightarrow> bool" where
  "is_letter topic m a x \<longleftrightarrow> (\<exists>d. x = DeadLetter topic d a \<and> dm_Key d = ms_Key m \<and> dm_Value d = ms_Value m)"

definition dead_lettered :: "string \<Rightarrow> message \<Rightarrow> pm_effect list \<Rightarrow> bool" where
  "dead_lettered topic m es \<longleftrightarrow> (\<exists>x\<in>set es. is_letter topic m None x)"

definition letter_refused :: "string \<Rightarrow> message \<Rightarrow> pm_effect list \<Rightarrow> bool" where
  "letter_refused topic m es \<longleftrightarrow> (\<exists>x\<in>set es. \<exists>e. is_letter topic m (Some e) x)"

lemma DLQPublisher_run:
  "DLQPublisher env topic m e v = (q, v') \<Longrightarrow> data v' = data v \<and> ticks v \<le> ticks v' \<and> (\<exists>y\<in>set (trace v'). \<exists>a. is_letter topic m a y)"
  by (auto simp: DLQPublisher_def PublishToDLQ_def run_simps is_letter_def Let_def split: option.splits)

end
