(* ===== verification/PmWorkerFacts.thy ===== *)
theory PmWorkerFacts
  imports PmWorkers PmPaymentFacts PmOrderFacts
begin

text \<open>
  What the workers of paymanager guarantee: every payment webhook that a worker fetched is
  settled in the rows or written to the dead letter topic, and its offset is committed.

  That an acknowledged duplicate is really stored rests on the environment: errors of the
  driver are not the service's own, and identifiers are not drawn twice.
\<close>

section \<open>Errors a program can return\<close>

definition raises :: "(goerr \<Rightarrow> bool) \<Rightarrow> ('w, 'a) prog \<Rightarrow> bool" where
  "raises P m \<longleftrightarrow> (\<forall>w e w'. m w = (Inl e, w') \<longrightarrow> P e)"

named_theorems raises_intros

lemma raisesD: "raises P m \<Longrightarrow> m w = (Inl e, w') \<Longrightarrow> P e"
  by (auto simp: raises_def)

lemma raises_basic [raises_intros]: "raises P (ret x)" "raises P (ask g)" "P e \<Longrightarrow> raises P (throw e)"
  by (simp_all add: raises_def run_simps)

lemma raises_fail_if [raises_intros]: "P e \<Longrightarrow> raises P (fail_if b e)"
  by (auto simp: raises_def run_simps)

lemma raises_bnd [raises_intros]: "raises P m \<Longrightarrow> (\<And>x. raises P (f x)) \<Longrightarrow> raises P (bnd m f)"
  by (auto simp: raises_def run_bnd split: prod.splits sum.splits)

lemma raises_map_err [raises_intros]: "raises (\<lambda>e. P (g e)) m \<Longrightarrow> raises P (map_err g m)"
  by (auto simp: raises_def run_map_err split: prod.splits sum.splits)

lemma raises_case_option [raises_intros]:
  "raises P a \<Longrightarrow> (\<And>x. raises P (b x)) \<Longrightarrow> raises P (case y of None \<Rightarrow> a | Some x \<Rightarrow> b x)"
  by (cases y) auto

section \<open>The environment\<close>

text \<open>Errors of the driver: none of the service's own, and a unique violation comes from an index.\<close>

definition driver_errors :: "('b) env_scheme \<Rightarrow> bool" where
  "driver_errors env \<longleftrightarrow> (\<forall>n e. fault env n = Some e \<or> (\<exists>b. commit_err env n b = Some e) \<longrightarrow>
     \<not> errors_Is e Eventstore_ErrEventAlreadyStored \<and> \<not> IsPgErrorUniqueViolation e)"

abbreviation not_stored :: "goerr \<Rightarrow> bool" where
  "not_stored e \<equiv> \<not> errors_Is e Eventstore_ErrEventAlreadyStored"

lemma raises_sql:
  assumes "driver_errors env" and "\<And>d e. stmt d = Inl e \<Longrightarrow> not_stored e"
  shows "raises not_stored (sql env stmt)"
  using assms
  by (auto simp: raises_def driver_errors_def pg_in_failed_tx_def elim!: sql_errE)

lemma raises_lookup [raises_intros]:
  "driver_errors env \<Longrightarrow> raises not_stored (payrepo_GetPaymentByProviderTxID env Tx i)"
  unfolding payrepo_GetPaymentByProviderTxID_def scanPayment_def read_db_Tx
  by (intro raises_intros) (simp_all, intro raises_sql, auto simp: query_row_def)

lemma enforce_not_stored: "enforce sch rows = Inl e \<Longrightarrow> not_stored e"
  by (erule enforce_err) (simp_all add: check_violation_def unique_violation_def)

lemma raises_updates [raises_intros]:
  assumes "driver_errors env"
  shows "raises not_stored (payrepo_UpdatePaymentStatus env i st reason)"
    and "raises not_stored (payrepo_UpdatePaymentRefund env i st a)"
proof -
  have upd: "raises not_stored (sql env (update_payments p f))" for p f
    using assms by (rule raises_sql) (auto simp: update_payments_def in_table_err sql_update_err dest: enforce_not_stored)
  show "raises not_stored (payrepo_UpdatePaymentStatus env i st reason)"
    and "raises not_stored (payrepo_UpdatePaymentRefund env i st a)"
    unfolding payrepo_UpdatePaymentStatus_def payrepo_UpdatePaymentRefund_def
    by (intro raises_intros; simp add: upd)+
qed

text \<open>
  The identifiers of the events were drawn before, by this environment or earlier (\<open>ids\<close>),
  and the indexes of the table hold.
\<close>

definition events_drawn :: "('b) env_scheme \<Rightarrow> string set \<Rightarrow> nat \<Rightarrow> (pm_data, 'x) world \<Rightarrow> bool" where
  "events_drawn env ids n0 w \<longleftrightarrow> n0 \<le> ticks w \<and> rows_ok events_schema (events (data w))
     \<and> e_id ` set (events (data w)) \<subseteq> ids \<union> fresh env ` {..<ticks w}"

lemma drawn_later: "A \<subseteq> ids \<union> fresh env ` {..<m} \<Longrightarrow> m \<le> n \<Longrightarrow> A \<subseteq> ids \<union> fresh env ` {..<n}"
proof -
  assume a: "A \<subseteq> ids \<union> fresh env ` {..<m}" and "m \<le> n"
  then have "fresh env ` {..<m} \<subseteq> fresh env ` {..<n}" by (intro image_mono) simp
  with subset_refl have "ids \<union> fresh env ` {..<m} \<subseteq> ids \<union> fresh env ` {..<n}" by (rule Un_mono)
  with a show "A \<subseteq> ids \<union> fresh env ` {..<n}" by (rule subset_trans)
qed

definition fresh_ids :: "('b) env_scheme \<Rightarrow> string set \<Rightarrow> bool" where
  "fresh_ids env ids \<longleftrightarrow> inj (fresh env) \<and> (\<forall>n. fresh env n \<notin> ids)"

lemma events_drawn_later:
  "events_drawn env ids n0 w \<Longrightarrow> events (data v) = events (data w) \<Longrightarrow> ticks w \<le> ticks v \<Longrightarrow> events_drawn env ids n0 v"
proof -
  assume w: "events_drawn env ids n0 w" and v: "events (data v) = events (data w)" "ticks w \<le> ticks v"
  from w have "e_id ` set (events (data w)) \<subseteq> ids \<union> fresh env ` {..<ticks w}" by (simp only: events_drawn_def)
  then have "e_id ` set (events (data w)) \<subseteq> ids \<union> fresh env ` {..<ticks v}" using v(2) by (rule drawn_later)
  then show "events_drawn env ids n0 v"
    using w v unfolding events_drawn_def v(1) by (intro conjI) simp_all
qed

lemma keeps_drawn_basic [keeps_intros]:
  "keeps (events_drawn env ids n0) (ask g)" "keeps (events_drawn env ids n0) (call h)"
  by (rule keepsI, erule events_drawn_later; auto simp: run_simps)+

lemma keeps_drawn_sql:
  assumes "\<And>d x d'. stmt d = Inr (x, d') \<Longrightarrow> events d' = events d"
  shows "keeps (events_drawn env ids n0) (sql env stmt)"
  by (rule keepsI, erule events_drawn_later)
    (auto simp: sql_def dest: assms split: if_splits option.splits sum.splits)

lemma keeps_drawn_lookup [keeps_intros]: "keeps (events_drawn env ids n0) (payrepo_GetPaymentByProviderTxID env Tx i)"
  unfolding payrepo_GetPaymentByProviderTxID_def scanPayment_def read_db_Tx
  by (intro keeps_intros keeps_drawn_sql) (simp add: query_row_def)

lemma keeps_drawn_updates [keeps_intros]:
  "keeps (events_drawn env ids n0) (payrepo_UpdatePaymentStatus env i st reason)"
  "keeps (events_drawn env ids n0) (payrepo_UpdatePaymentRefund env i st a)"
  unfolding payrepo_UpdatePaymentStatus_def payrepo_UpdatePaymentRefund_def update_payments_def
  by (intro keeps_intros keeps_drawn_sql; auto simp: in_table_ok)+

lemma CreateEvent_run:
  assumes "CreateEvent env ev w = (r, w')"
  shows "ticks w' = Suc (Suc (ticks w)) \<and> (data w' = data w \<or> data w' = (data w)\<lparr>events := events (data w)
      @ [event_to_row (fresh env (ticks w)) ev]\<rparr> \<and> rows_ok events_schema (events (data w')))"
  using assms
  by (auto simp: CreateEvent_def run_simps sql_def in_table_ok sql_insert_ok split: if_splits option.splits sum.splits)

lemma keeps_drawn_event [keeps_intros]: "keeps (events_drawn env ids n0) (payment_event env i t key)"
proof -
  have "events_drawn env ids n0 w'" if run: "CreateEvent env ev w = (r, w')" and w: "events_drawn env ids n0 w" for ev r w w'
  proof -
    from CreateEvent_run[OF run] consider "data w' = data w" "ticks w' = Suc (Suc (ticks w))"
      | "data w' = (data w)\<lparr>events := events (data w) @ [event_to_row (fresh env (ticks w)) ev]\<rparr>"
        "rows_ok events_schema (events (data w'))" "ticks w' = Suc (Suc (ticks w))" by blast
    then show ?thesis
    proof cases
      case 1
      with w show ?thesis by (auto intro: events_drawn_later)
    next
      case 2
      have "e_id ` set (events (data w)) \<subseteq> ids \<union> fresh env ` {..<ticks w'}"
        using w 2(3) by (auto simp: events_drawn_def intro: drawn_later)
      with w 2 show ?thesis by (simp add: events_drawn_def event_to_row_def)
    qed
  qed
  then show ?thesis
    unfolding payment_event_def by (intro keeps_intros keepsI) blast
qed

lemma keeps_drawn_tx:
  assumes "\<And>n. keeps (events_drawn env ids n) fn"
  shows "keeps (events_drawn env ids n0) (InTransaction env lvl fn)"
proof (rule keepsI)
  fix w r w'
  assume w: "events_drawn env ids n0 w" and run: "InTransaction env lvl fn w = (r, w')"
  let ?w1 = "(tick w)\<lparr>in_tx := True, tx_failed := False\<rparr>"
  obtain q w2 where body: "fn ?w1 = (q, w2)" by (cases "fn ?w1")
  have "e_id ` set (events (data w)) \<subseteq> ids \<union> fresh env ` {..<Suc (ticks w)}"
    using w by (auto simp: events_drawn_def intro: drawn_later)
  then have "events_drawn env ids (ticks w) ?w1" using w by (simp add: events_drawn_def)
  then have w2: "events_drawn env ids (ticks w) w2" using keepsD[OF assms body] by simp
  have t: "n0 \<le> ticks w" "ticks w \<le> ticks w2" using w w2 by (simp_all add: events_drawn_def)
  have e: "events_drawn env ids n0 w2" using w2 t by (simp add: events_drawn_def)
  show "events_drawn env ids n0 w'"
    using run body t
    by (auto simp: InTransaction_def begin_tx_def commit_tx_def rollback_def split: option.splits sum.splits prod.splits if_splits
        intro: events_drawn_later[OF w] events_drawn_later[OF e])
qed

lemma keeps_drawn_webhook: "keeps (events_drawn env ids n0) (ProcessCaptureWebhook env wh)"
  unfolding ProcessCaptureWebhook_def webhook_tx_def refund_webhook_def Let_def
  by (intro keeps_drawn_tx keeps_intros)

section \<open>An acknowledged duplicate is stored\<close>

lemma event_refused_stored:
  assumes "driver_errors env" "fresh_ids env ids" "events_drawn env ids n0 v"
    and "payment_event env i t key v = (Inl e, v')" and "errors_Is e Eventstore_ErrEventAlreadyStored"
  shows "(''payment'', i, key) \<in> event_key ` set (events (data v))"
proof (rule ccontr)
  assume no: "(''payment'', i, key) \<notin> event_key ` set (events (data v))"
  let ?ev = "\<lparr>ne_AggregateType = ''payment'', ne_AggregateID = i, ne_EventType = t, ne_IdempotencyKey = key,
    ne_Payload = JObj [], ne_CreatedAt = clock env (ticks v)\<rparr>"
  let ?row = "event_to_row (fresh env (Suc (ticks v))) ?ev"
  from assms(4) obtain e0 v1 where ce: "CreateEvent env ?ev (tick v) = (Inl e0, v1)" and e: "e = wrap ''write event'' e0"
    unfolding payment_event_def by (auto simp: run_simps split: prod.splits sum.splits)
  have ids: "e_id ?row \<notin> e_id ` set (events (data v))"
  proof
    assume "e_id ?row \<in> e_id ` set (events (data v))"
    with assms(3) have "fresh env (Suc (ticks v)) \<in> ids \<union> fresh env ` {..<ticks v}"
      by (auto simp: events_drawn_def event_to_row_def)
    with assms(2) show False by (auto simp: fresh_ids_def inj_eq)
  qed
  have "rows_ok events_schema (events (data v) @ [?row])"
    using assms(3) no ids
    by (auto simp: events_drawn_def rows_ok_def events_schema_def clashes_snoc event_key_def event_to_row_def image_iff)
  then have ins: "sql_insert events_schema ?row (events (data v)) = Inr ((), events (data v) @ [?row])"
    by (simp add: sql_insert_ok)
  from ce obtain e1 where sq: "sql env (in_table events events_update (sql_insert events_schema ?row)) (tick (tick v)) = (Inl e1, v1)"
    and e0: "e0 = stored_or_wrapped Eventstore_ErrEventAlreadyStored ''create event'' e1"
    unfolding CreateEvent_def by (auto simp: run_simps split: prod.splits sum.splits)
  from sq have "fault env (Suc (Suc (ticks v))) = Some e1 \<or> e1 = pg_in_failed_tx"
    by (rule sql_errE) (auto simp: in_table_err ins)
  then have "\<not> IsPgErrorUniqueViolation e1" "not_stored e1"
    using assms(1) by (auto simp: driver_errors_def pg_in_failed_tx_def IsPgErrorUniqueViolation_def)
  with assms(5) e e0 show False by (simp add: stored_or_wrapped_def)
qed


text \<open>The two updates leave the events alone.\<close>

lemma keeps_events_updates [keeps_intros]:
  "keeps_data (\<lambda>d. events d = E) (payrepo_UpdatePaymentStatus env i st reason)"
  "keeps_data (\<lambda>d. events d = E) (payrepo_UpdatePaymentRefund env i st a)"
  unfolding payrepo_UpdatePaymentStatus_def payrepo_UpdatePaymentRefund_def update_payments_def
  by (intro keeps_intros keeps_data_sql; auto simp: in_table_ok)+

lemma written_then_refused:
  assumes env: "driver_errors env" "fresh_ids env ids" and drawn: "events_drawn env ids n0 v"
    and upd: "raises not_stored upd" "keeps (events_drawn env ids n0) upd" "\<And>E. keeps_data (\<lambda>d. events d = E) upd"
    and run: "bnd (map_err (wrap msg) upd) (\<lambda>_. payment_event env i t key) v = (Inl e, v')"
    and e: "errors_Is e Eventstore_ErrEventAlreadyStored"
  shows "(''payment'', i, key) \<in> event_key ` set (events (data v))"
proof -
  obtain q v1 where u: "upd v = (q, v1)" by (cases "upd v")
  with run e raisesD[OF upd(1)] obtain x where x: "q = Inr x"
    by (cases q) (auto simp: run_bnd run_map_err)
  with u run have ev: "payment_event env i t key v1 = (Inl e, v')" by (simp add: run_bnd run_map_err)
  have "events (data v1) = events (data v)" using keepsD[OF upd(3) u] by simp
  moreover have "events_drawn env ids n0 v1" using keepsD[OF upd(2) u drawn] .
  ultimately show ?thesis using event_refused_stored[OF env _ ev e] by simp
qed

lemma refused_as_stored:
  assumes env: "driver_errors env" "fresh_ids env ids" and drawn: "events_drawn env ids n0 w"
    and run: "ProcessCaptureWebhook env wh w = (Inl e, w')" and e: "errors_Is e Eventstore_ErrEventAlreadyStored"
  shows "webhook_settled wh (data w)"
proof -
  let ?w1 = "(tick w)\<lparr>in_tx := True, tx_failed := False\<rparr>"
  have tx_err: "not_stored e0" if "fault env n = Some e0 \<or> commit_err env n b = Some e0" for n b e0
    using env(1) that unfolding driver_errors_def by blast
  from run[unfolded ProcessCaptureWebhook_def] obtain w2 where body: "webhook_tx env wh ?w1 = (Inl e, w2)"
    by (rule InTransaction_errE) (use e tx_err in auto)
  have w1: "events_drawn env ids n0 ?w1" using drawn by (rule events_drawn_later) simp_all
  let ?look = "payrepo_GetPaymentByProviderTxID env Tx (cw_TransactionID wh)"
  obtain q w3 where look: "?look ?w1 = (q, w3)" by (cases "?look ?w1")
  have no_look: "raises not_stored ?look" using env(1) by (rule raises_lookup)
  from body look e raisesD[OF no_look] obtain p where p: "q = Inr p"
    by (cases q) (auto simp: webhook_tx_def run_bnd run_map_err)

  from look[unfolded p] obtain r where r: "payment_of (cw_TransactionID wh) (data w) = Some r" "p = pay_of_row r"
    and d3: "data w3 = data w"
    by (auto simp: payrepo_GetPaymentByProviderTxID_def payment_of_def elim!: scanPayment_Tx_okE)
  have drawn3: "events_drawn env ids n0 w3" using keepsD[OF keeps_drawn_lookup look w1] .
  show ?thesis
  proof (cases "cw_Event wh = ''transaction.refunded''")
    case True
    with body look p have "refund_webhook env p wh w3 = (Inl e, w2)"
      by (simp add: webhook_tx_def run_bnd run_map_err)
    then have "(''payment'', py_ID p, refund_event_key wh) \<in> event_key ` set (events (data w3))"
      unfolding refund_webhook_def Let_def refund_event_key_def
      by (rule written_then_refused[OF env drawn3 raises_updates(2)[OF env(1)] keeps_drawn_updates(2) keeps_events_updates(2) _ e])
    with True r d3 show ?thesis by (simp add: webhook_settled_def webhook_event_key_def pay_of_row_def)
  next
    case False
    then obtain st where st: "webhook_status (cw_Status wh) = Inr (Some st)" "pay_CanTransitionTo (py_Status p) st"
      and rest: "bnd (map_err (wrap ''update payment status'') (payrepo_UpdatePaymentStatus env (py_ID p) st '''')) (\<lambda>_.
        payment_event env (py_ID p) (cw_Event wh) (''webhook_'' @ cw_TransactionID wh @ ''_'' @ cw_Event wh)) w3 = (Inl e, w2)"
      using body look p e
      by (auto simp: webhook_tx_def run_bnd run_map_err webhook_status_def run_ret split: if_splits)
    then have "(''payment'', py_ID p, ''webhook_'' @ cw_TransactionID wh @ ''_'' @ cw_Event wh) \<in> event_key ` set (events (data w3))"
      by (intro written_then_refused[OF env drawn3 raises_updates(1)[OF env(1)] keeps_drawn_updates(1) keeps_events_updates(1) _ e])
    with False r d3 show ?thesis by (simp add: webhook_settled_def webhook_event_key_def pay_of_row_def)
  qed
qed


section \<open>Messages\<close>

text \<open>The webhook in a message, if it can be read.\<close>

definition opened :: "(json \<Rightarrow> goerr + 'a) \<Rightarrow> message \<Rightarrow> 'a option" where
  "opened read m = (case bind_sum (bind_sum (ms_Value m) read_Envelope) (\<lambda>e. bind_sum (payload_of e) read) of
      Inl _ \<Rightarrow> None | Inr x \<Rightarrow> Some x)"

lemma open_message_run:
  assumes "open_message read m w = (r, w')"
  shows "w' = w \<and> (case r of Inl _ \<Rightarrow> opened read m = None | Inr x \<Rightarrow> opened read m = Some x)"
  using assms
  by (auto simp: open_message_def opened_def run_simps bind_sum_def split: sum.splits)

definition payment_settled :: "message \<Rightarrow> pm_data \<Rightarrow> bool" where
  "payment_settled m d = (case opened read_CaptureWebhook m of None \<Rightarrow> False | Some wh \<Rightarrow> webhook_settled wh d)"

text \<open>The worlds in which messages may be handled.\<close>

definition sound_world :: "('b) env_scheme \<Rightarrow> string set \<Rightarrow> (pm_data, 'x) world \<Rightarrow> bool" where
  "sound_world env ids w \<longleftrightarrow> driver_errors env \<and> fresh_ids env ids \<and> events_drawn env ids 0 w"

lemma payment_HandleMessage_E:
  assumes "payment_HandleMessage env m w = (r, w')"
  obtains (unread) e where "opened read_CaptureWebhook m = None" and "r = Inl e" and "w' = w"
  | (handled) wh q where "opened read_CaptureWebhook m = Some wh" and "ProcessCaptureWebhook env wh w = (q, w')"
      and "r = (case q of Inl e \<Rightarrow> if errors_Is e Eventstore_ErrEventAlreadyStored then Inr () else Inl e | Inr _ \<Rightarrow> Inr ())"
proof -
  obtain q w1 where op: "open_message read_CaptureWebhook m w = (q, w1)" by (cases "open_message read_CaptureWebhook m w")
  note o1 = open_message_run[OF op]
  show thesis
  proof (cases q)
    case (Inl e)
    with assms op o1 show thesis by (intro unread) (auto simp: payment_HandleMessage_def run_bnd)
  next
    case (Inr wh)
    obtain q2 w2 where p: "ProcessCaptureWebhook env wh w = (q2, w2)" by (cases "ProcessCaptureWebhook env wh w")
    have "r = (case q2 of Inl e \<Rightarrow> if errors_Is e Eventstore_ErrEventAlreadyStored then Inr () else Inl e | Inr _ \<Rightarrow> Inr ()) \<and> w' = w2"
      using assms op o1 Inr p by (auto simp: payment_HandleMessage_def run_simps split: sum.splits if_splits)
    with p o1 Inr show thesis by (intro handled) auto
  qed
qed

interpretation payment_messages: guarded_redelivery "payment_HandleMessage env" payment_settled "sound_world env ids" for env ids
proof
  fix w m w'
  assume ok: "sound_world env ids w" and run: "payment_HandleMessage env m w = (Inr (), w')"
  from run show "payment_settled m (data w')"
  proof (cases rule: payment_HandleMessage_E)
    case (handled wh q)
    show ?thesis
    proof (cases q)
      case (Inl e)
      with handled have "errors_Is e Eventstore_ErrEventAlreadyStored" by (auto split: if_splits)
      with handled(2) Inl ok have "webhook_settled wh (data w)" "data w' = data w"
        by (auto simp: sound_world_def intro: refused_as_stored dest: webhook_refused)
      with handled(1) show ?thesis by (simp add: payment_settled_def)
    next
      case (Inr u)
      with handled(1,2) pay_webhooks.settles show ?thesis by (simp add: payment_settled_def)
    qed
  qed simp
next
  fix w m m' r w'
  assume "payment_settled m (data w)" and run: "payment_HandleMessage env m' w = (r, w')"
  moreover from run have "data w' = data w \<or> (\<exists>wh q. ProcessCaptureWebhook env wh w = (q, w'))"
    by (cases rule: payment_HandleMessage_E) auto
  ultimately show "payment_settled m (data w')"
    unfolding payment_settled_def by (auto split: option.splits dest: pay_webhooks.stays)
next
  fix w m e w'
  assume "payment_HandleMessage env m w = (Inl e, w')"
  then show "data w' = data w"
    by (cases rule: payment_HandleMessage_E) (auto split: sum.splits if_splits dest: webhook_refused)
next
  fix w m r w'
  assume ok: "sound_world env ids w" and run: "payment_HandleMessage env m w = (r, w')"
  from run show "sound_world env ids w'"
    by (cases rule: payment_HandleMessage_E)
      (use ok keepsD[OF keeps_drawn_webhook] in \<open>auto simp: sound_world_def\<close>)
next
  fix w v :: "(pm_data, pm_effect) world"
  assume "sound_world env ids w" and "data v = data w" and "ticks w \<le> ticks v"
  then show "sound_world env ids v" by (auto simp: sound_world_def elim: events_drawn_later)
qed

section \<open>No payment webhook is lost\<close>

lemma keeps_webhook_trace: "keeps_trace P (ProcessCaptureWebhook env wh)"
  unfolding ProcessCaptureWebhook_def webhook_tx_def refund_webhook_def Let_def payment_event_def CreateEvent_def
    payrepo_GetPaymentByProviderTxID_def scanPayment_def payrepo_UpdatePaymentStatus_def payrepo_UpdatePaymentRefund_def
  by (intro keeps_intros)

lemma keeps_payment_message: "keeps_trace P (payment_HandleMessage env m)"
  unfolding payment_HandleMessage_def open_message_def by (intro keeps_intros keeps_webhook_trace)

lemma keeps_DLQ_trace: "(\<And>es d a. P es \<Longrightarrow> P (es @ [DeadLetter topic d a])) \<Longrightarrow> keeps_trace P (DLQPublisher env topic m e)"
  unfolding DLQPublisher_def PublishToDLQ_def Let_def by (intro keeps_intros keeps_trace_emit)

fun is_commit :: "pm_effect \<Rightarrow> bool" where
  "is_commit (CommitOffset t g p n) = True"
| "is_commit _ = False"

lemma payment_worker_E:
  assumes "payment_worker env rt cfg fetches w = (r, w')"
  obtains q where "Consumer_Start env (NewConsumer env (wk_Topic (kc_Payments cfg)) (wk_ConsumerGroup (kc_Payments cfg))) None
      (pipeline env ObserveMessage (wk_Topic (kc_Payments cfg)) (wk_ConsumerGroup (kc_Payments cfg))
        (DLQPublisher env (wk_DLQTopic (kc_Payments cfg))) rt (payment_HandleMessage env)) fetches w = (q, w')"
  using assms unfolding payment_worker_def by (rule worker_run)

lemma payment_worker_settles:
  assumes "payment_worker env rt cfg fetches w = (r, w')" and "sound_world env ids w" and "x \<in> set (received fetches)"
  shows "payment_settled (ft_Message x) (data w')
    \<or> dead_lettered (wk_DLQTopic (kc_Payments cfg)) (ft_Message x) (trace w')
    \<or> letter_refused (wk_DLQTopic (kc_Payments cfg)) (ft_Message x) (trace w')"
  using assms(1)
proof (rule payment_worker_E)
  let ?rd = "NewConsumer env (wk_Topic (kc_Payments cfg)) (wk_ConsumerGroup (kc_Payments cfg))"
  let ?h = "pipeline env ObserveMessage (wk_Topic (kc_Payments cfg)) (wk_ConsumerGroup (kc_Payments cfg))
    (DLQPublisher env (wk_DLQTopic (kc_Payments cfg))) rt (payment_HandleMessage env)"
  fix q
  assume run: "Consumer_Start env ?rd None ?h fetches w = (q, w')"
  have "\<forall>x\<in>set (received fetches). payment_settled (ft_Message x) (data w')
      \<or> (\<exists>y\<in>set (trace w'). \<exists>a. is_letter (wk_DLQTopic (kc_Payments cfg)) (ft_Message x) a y)"
    by (rule payment_messages.consumer_settles[where is_dead = "\<lambda>m y. \<exists>a. is_letter (wk_DLQTopic (kc_Payments cfg)) m a y",
          OF run assms(2), THEN conjunct1])
      (erule DLQPublisher_run, rule keeps_payment_message, rule keeps_DLQ_trace, simp)
  with assms(3) obtain y a where "payment_settled (ft_Message x) (data w')
      \<or> y \<in> set (trace w') \<and> is_letter (wk_DLQTopic (kc_Payments cfg)) (ft_Message x) a y" by blast
  then show ?thesis unfolding dead_lettered_def letter_refused_def by (cases a) blast+
qed

lemma payment_worker_commits:
  assumes "payment_worker env rt cfg fetches w = (r, w')"
  shows "filter is_commit (trace w') = filter is_commit (trace w)
    @ map (\<lambda>x. CommitOffset (wk_Topic (kc_Payments cfg)) (wk_ConsumerGroup (kc_Payments cfg)) (ft_Partition x) (ft_Offset x))
        (received fetches)"
  using assms
proof (rule payment_worker_E)
  let ?rd = "NewConsumer env (wk_Topic (kc_Payments cfg)) (wk_ConsumerGroup (kc_Payments cfg))"
  let ?h = "pipeline env ObserveMessage (wk_Topic (kc_Payments cfg)) (wk_ConsumerGroup (kc_Payments cfg))
    (DLQPublisher env (wk_DLQTopic (kc_Payments cfg))) rt (payment_HandleMessage env)"
  fix q
  assume run: "Consumer_Start env ?rd None ?h fetches w = (q, w')"
  have quiet: "keeps_trace (\<lambda>t. filter is_commit t = es) (?h k m)" for k m es
    by (intro keeps_pipeline keeps_payment_message keeps_DLQ_trace) simp_all
  have "commit_effect ?rd = (\<lambda>x. CommitOffset (wk_Topic (kc_Payments cfg)) (wk_ConsumerGroup (kc_Payments cfg)) (ft_Partition x) (ft_Offset x))"
    by (simp add: fun_eq_iff commit_effect_def NewConsumer_def)
  with consumer_commits[where is_commit = is_commit, OF run pipeline_ok quiet] show ?thesis by simp
qed

text \<open>
  C10. However the database and the broker behave, every payment webhook that the payment worker
  fetched is settled in the rows at the end, or the broker has taken its message into the
  dead letter topic, or it has refused the message there. The worker asks to commit exactly the
  messages it fetched, in their order: a message is lost only when the write of its own dead
  letter failed, and then it is, since that error is ignored.
\<close>

theorem payment_webhooks_not_lost:
  assumes "payment_worker env rt cfg fetches w = (r, w')" and "sound_world env ids w"
  shows "(\<forall>x\<in>set (received fetches). payment_settled (ft_Message x) (data w')
      \<or> dead_lettered (wk_DLQTopic (kc_Payments cfg)) (ft_Message x) (trace w')
      \<or> letter_refused (wk_DLQTopic (kc_Payments cfg)) (ft_Message x) (trace w'))
    \<and> filter is_commit (trace w') = filter is_commit (trace w)
      @ map (\<lambda>x. CommitOffset (wk_Topic (kc_Payments cfg)) (wk_ConsumerGroup (kc_Payments cfg)) (ft_Partition x) (ft_Offset x))
          (received fetches)"
  using payment_worker_settles[OF assms] payment_worker_commits[OF assms(1)] by blast

section \<open>Examples\<close>

definition demo_wenv :: "unit wenv_scheme" where
  "demo_wenv = \<lparr>fault = \<lambda>_. None,
     commit_err = \<lambda>_ failed. if failed then Some (ErrText ''commit unexpectedly resulted in rollback'') else None,
     clock = int, fresh = \<lambda>n. ''u'' @ show_nat n, http_Post = \<lambda>_ _ _. Inr demo_answer, replica = \<lambda>_. None,
     kafka_Write = \<lambda>_ _ _. None, kafka_Commit = \<lambda>_ _ _. None\<rparr>"

definition demo_runtime :: runtime where
  "demo_runtime = \<lparr>rt_Intn = \<lambda>_. 0, rt_done = \<lambda>_ _. False\<rparr>"

definition demo_kafka :: kafka_config where
  "demo_kafka = \<lparr>kc_Orders = \<lparr>wk_Topic = ''o'', wk_ConsumerGroup = ''go'', wk_DLQTopic = ''od''\<rparr>,
     kc_Disputes = \<lparr>wk_Topic = ''d'', wk_ConsumerGroup = ''gd'', wk_DLQTopic = ''dd''\<rparr>,
     kc_Payments = \<lparr>wk_Topic = ''p'', wk_ConsumerGroup = ''gp'', wk_DLQTopic = ''pd''\<rparr>\<rparr>"

definition demo_fetched :: "int \<Rightarrow> message \<Rightarrow> message fetch" where
  "demo_fetched i m = Fetched \<lparr>ft_Partition = 0, ft_Offset = i, ft_Headers = [(KafkaHeaderName, ''c'')], ft_Message = m\<rparr>"

text \<open>A refund, a message that is no JSON, and the refund again.\<close>

definition demo_fetches :: "message fetch list" where
  "demo_fetches = [demo_fetched 4 demo_message, demo_fetched 5 \<lparr>ms_Key = ''k'', ms_Value = Inl (ErrText ''bad'')\<rparr>,
     demo_fetched 6 demo_message]"

lemma demo_sound: "sound_world demo_wenv {} demo_w1"
proof -
  have "events (data demo_w1) = []" by code_simp
  then show ?thesis
    by (auto simp: sound_world_def driver_errors_def fresh_ids_def events_drawn_def demo_wenv_def inj_def
        rows_ok_def events_schema_def IsPgErrorUniqueViolation_def)
qed

theorem payment_webhooks_not_lost_witness:
  "filter is_commit (trace (snd (payment_worker demo_wenv demo_runtime demo_kafka demo_fetches demo_w1)))
     = [CommitOffset ''p'' ''gp'' 0 4, CommitOffset ''p'' ''gp'' 0 5, CommitOffset ''p'' ''gp'' 0 6]
   \<and> (payment_settled demo_message (data (snd (payment_worker demo_wenv demo_runtime demo_kafka demo_fetches demo_w1)))
      \<or> dead_lettered ''pd'' demo_message (trace (snd (payment_worker demo_wenv demo_runtime demo_kafka demo_fetches demo_w1)))
      \<or> letter_refused ''pd'' demo_message (trace (snd (payment_worker demo_wenv demo_runtime demo_kafka demo_fetches demo_w1))))"
proof -
  have none: "filter is_commit (trace demo_w1) = []" by code_simp
  note lost = payment_webhooks_not_lost[where rt = demo_runtime and cfg = demo_kafka and fetches = demo_fetches,
    OF prod.collapse[symmetric] demo_sound]
  show ?thesis
    using lost none by (auto simp: demo_fetches_def demo_fetched_def demo_kafka_def)
qed

end
