(* ===== verification/Health.thy ===== *)
theory Health
  imports Http "HOL-Library.Multiset"
begin

text \<open>
  Package \<open>health\<close>: the checks behind the readiness endpoint of ingest and paymanager. The
  registry runs its checks in goroutines, each of which writes its own element of the result;
  a schedule is the order in which they run. What a broker or the database answers is an
  argument. The time-out of the handler only ends in such answers.
\<close>

section \<open>Checks\<close>

abbreviation StatusUp :: string where "StatusUp \<equiv> ''up''"
abbreviation StatusDown :: string where "StatusDown \<equiv> ''down''"

record Result =
  hr_Status :: string
  hr_Message :: string

text \<open>\<open>Check\<close> has no error; it returns a result in every state.\<close>

record 'w Checker =
  ck_Name :: string
  ck_Check :: "'w \<Rightarrow> Result \<times> 'w"

text \<open>One question to another system: the clock moves on, the answer depends on it.\<close>

definition probe :: "(nat \<Rightarrow> goerr option) \<Rightarrow> ('d, 'x) world \<Rightarrow> goerr option \<times> ('d, 'x) world" where
  "probe answer w = (answer (ticks w), tick w)"

fun kafka_Check :: "(nat \<Rightarrow> string \<Rightarrow> goerr option) \<Rightarrow> string list \<Rightarrow> ('d, 'x) world \<Rightarrow> Result \<times> ('d, 'x) world" where
  "kafka_Check dial [] w = (\<lparr>hr_Status = StatusDown, hr_Message = ''all brokers unreachable''\<rparr>, w)"
| "kafka_Check dial (broker # brokers) w =
     (let (err, w') = probe (\<lambda>n. dial n broker) w in
      case err of None \<Rightarrow> (\<lparr>hr_Status = StatusUp, hr_Message = ''''\<rparr>, w') | Some _ \<Rightarrow> kafka_Check dial brokers w')"

definition KafkaChecker :: "(nat \<Rightarrow> string \<Rightarrow> goerr option) \<Rightarrow> string list \<Rightarrow> ('d, 'x) world Checker" where
  "KafkaChecker dial brokers = \<lparr>ck_Name = ''kafka'', ck_Check = kafka_Check dial brokers\<rparr>"

definition postgres_Check :: "(nat \<Rightarrow> goerr option) \<Rightarrow> ('d, 'x) world \<Rightarrow> Result \<times> ('d, 'x) world" where
  "postgres_Check ping w =
     (let (err, w') = probe ping w in
      (case err of None \<Rightarrow> \<lparr>hr_Status = StatusUp, hr_Message = ''''\<rparr>
         | Some e \<Rightarrow> \<lparr>hr_Status = StatusDown, hr_Message = Error e\<rparr>, w'))"

definition PostgresChecker :: "(nat \<Rightarrow> goerr option) \<Rightarrow> ('d, 'x) world Checker" where
  "PostgresChecker ping = \<lparr>ck_Name = ''postgres'', ck_Check = postgres_Check ping\<rparr>"

section \<open>The registry\<close>

record CheckResult =
  cr_Name :: string
  cr_Status :: string
  cr_Message :: string

record ReadinessResponse =
  rr_Status :: string
  rr_Checks :: "CheckResult list"

definition checked :: "'w Checker \<Rightarrow> Result \<Rightarrow> CheckResult" where
  "checked c res = \<lparr>cr_Name = ck_Name c, cr_Status = hr_Status res, cr_Message = hr_Message res\<rparr>"

text \<open>The goroutines in the order of a schedule of their indexes.\<close>

fun run_checks :: "'w Checker list \<Rightarrow> nat list \<Rightarrow> CheckResult list \<Rightarrow> 'w \<Rightarrow> CheckResult list \<times> 'w" where
  "run_checks cs [] results w = (results, w)"
| "run_checks cs (idx # sched) results w =
     (let c = cs ! idx; (res, w') = ck_Check c w in run_checks cs sched (results[idx := checked c res]) w')"

definition CheckAll :: "'w Checker list \<Rightarrow> nat list \<Rightarrow> 'w \<Rightarrow> ReadinessResponse \<times> 'w" where
  "CheckAll cs sched w =
    (if cs = [] then (\<lparr>rr_Status = StatusUp, rr_Checks = []\<rparr>, w)
     else let (results, w') = run_checks cs sched (replicate (length cs) \<lparr>cr_Name = '''', cr_Status = '''', cr_Message = ''''\<rparr>) w
          in (\<lparr>rr_Status = (if list_ex (\<lambda>r. cr_Status r = StatusDown) results then StatusDown else StatusUp),
               rr_Checks = results\<rparr>, w'))"

section \<open>The endpoints\<close>

definition check_json :: "CheckResult \<Rightarrow> json" where
  "check_json r = JObj ([(''name'', JStr (cr_Name r)), (''status'', JStr (cr_Status r))] @ omitempty ''message'' (cr_Message r))"

definition readiness_json :: "ReadinessResponse \<Rightarrow> json" where
  "readiness_json r = JObj ((''status'', JStr (rr_Status r))
     # (if rr_Checks r = [] then [] else [(''checks'', JArr (map check_json (rr_Checks r)))]))"

definition LivenessHandler :: reply where
  "LivenessHandler = \<lparr>rp_code = 200, rp_body = JObj [(''status'', JStr StatusUp)]\<rparr>"

definition ReadinessHandler :: "'w Checker list \<Rightarrow> nat list \<Rightarrow> 'w \<Rightarrow> reply \<times> 'w" where
  "ReadinessHandler cs sched w =
     (let (response, w') = CheckAll cs sched w in
      (\<lparr>rp_code = (if rr_Status response = StatusDown then 503 else 200), rp_body = readiness_json response\<rparr>, w'))"

section \<open>Runs of the checks\<close>

definition schedule_of :: "'w Checker list \<Rightarrow> nat list \<Rightarrow> bool" where
  "schedule_of cs sched \<longleftrightarrow> mset sched = mset [0..<length cs]"

lemma schedule_set: "schedule_of cs sched \<Longrightarrow> set sched = {..<length cs} \<and> distinct sched"
  unfolding schedule_of_def by (metis atLeast_upt distinct_upt mset_eq_imp_distinct_iff mset_eq_setD)

text \<open>Every scheduled element is the answer of its checker at some moment, the others stay.\<close>

lemma run_checks_E:
  assumes "run_checks cs sched results w = (results', w')" and "distinct sched"
    and "set sched \<subseteq> {..<length cs}" and "length results = length cs"
  shows "length results' = length cs
    \<and> (\<forall>i<length cs. if i \<in> set sched then \<exists>v. results' ! i = checked (cs ! i) (fst (ck_Check (cs ! i) v))
          else results' ! i = results ! i)"
  using assms
proof (induction sched arbitrary: results w)
  case (Cons k sched)
  obtain res w1 where c: "ck_Check (cs ! k) w = (res, w1)" by (cases "ck_Check (cs ! k) w")
  let ?results = "results[k := checked (cs ! k) res]"
  have run: "run_checks cs sched ?results w1 = (results', w')" using Cons.prems(1) c by (simp add: Let_def)
  have len: "length ?results = length cs" using Cons.prems(4) by simp
  have d: "distinct sched" "set sched \<subseteq> {..<length cs}" "k \<notin> set sched" "k < length cs" using Cons.prems(2,3) by auto
  from Cons.IH[OF run d(1,2) len] have "length results' = length cs" and
    at: "\<And>i. i < length cs \<Longrightarrow> if i \<in> set sched then \<exists>v. results' ! i = checked (cs ! i) (fst (ck_Check (cs ! i) v))
          else results' ! i = ?results ! i" by blast+
  moreover have "results' ! k = checked (cs ! k) (fst (ck_Check (cs ! k) w))"
    using at[OF d(4)] d(3,4) Cons.prems(4) c by simp
  ultimately show ?case
    using at Cons.prems(4) by (auto simp: nth_list_update split: if_splits)
qed simp

lemma CheckAll_E:
  assumes "CheckAll cs sched w = (rsp, w')" and "schedule_of cs sched"
  shows "length (rr_Checks rsp) = length cs
    \<and> (\<forall>i<length cs. \<exists>v. rr_Checks rsp ! i = checked (cs ! i) (fst (ck_Check (cs ! i) v)))
    \<and> rr_Status rsp = (if \<exists>r\<in>set (rr_Checks rsp). cr_Status r = StatusDown then StatusDown else StatusUp)"
proof (cases "cs = []")
  case True
  with assms show ?thesis by (auto simp: CheckAll_def)
next
  case False
  let ?zero = "replicate (length cs) \<lparr>cr_Name = '''', cr_Status = '''', cr_Message = ''''\<rparr>"
  obtain results w1 where run: "run_checks cs sched ?zero w = (results, w1)" by (cases "run_checks cs sched ?zero w")
  note s = schedule_set[OF assms(2)]
  from run_checks_E[OF run] s have "length results = length cs"
    "\<forall>i<length cs. \<exists>v. results ! i = checked (cs ! i) (fst (ck_Check (cs ! i) v))" by auto
  with assms(1) run False show ?thesis by (auto simp: CheckAll_def list_ex_iff)
qed

section \<open>Checks are silent\<close>

text \<open>They ask, and change neither rows nor effects.\<close>

definition silent :: "('d, 'x) world Checker \<Rightarrow> bool" where
  "silent c \<longleftrightarrow> (\<forall>w. trace (snd (ck_Check c w)) = trace w \<and> data (snd (ck_Check c w)) = data w)"

lemma silent_kafka: "silent (KafkaChecker dial brokers :: ('d, 'x) world Checker)"
proof -
  have "trace (snd (kafka_Check dial brokers w)) = trace w \<and> data (snd (kafka_Check dial brokers w)) = data w"
    for w :: "('d, 'x) world"
    by (induction dial brokers w rule: kafka_Check.induct) (simp_all add: probe_def split: option.splits)
  then show ?thesis by (simp add: silent_def KafkaChecker_def)
qed

lemma silent_postgres: "silent (PostgresChecker ping)"
  by (simp add: silent_def PostgresChecker_def postgres_Check_def probe_def)

lemma silent_checks:
  assumes "list_all silent cs" and "set sched \<subseteq> {..<length cs}"
  shows "trace (snd (run_checks cs sched results w)) = trace w \<and> data (snd (run_checks cs sched results w)) = data w"
  using assms(2)
proof (induction sched arbitrary: results w)
  case (Cons k sched)
  then have "cs ! k \<in> set cs" by simp
  with assms(1) have "silent (cs ! k)" by (simp add: list_all_iff)
  then have "trace (snd (ck_Check (cs ! k) w)) = trace w \<and> data (snd (ck_Check (cs ! k) w)) = data w" by (simp add: silent_def)
  with Cons show ?case by (cases "ck_Check (cs ! k) w") (simp add: Let_def)
qed simp

lemma silent_readiness:
  assumes "list_all silent cs" and "schedule_of cs sched"
  shows "trace (snd (ReadinessHandler cs sched w)) = trace w \<and> data (snd (ReadinessHandler cs sched w)) = data w"
proof -
  have "set sched \<subseteq> {..<length cs}" using schedule_set[OF assms(2)] by simp
  from silent_checks[OF assms(1) this] have run: "run_checks cs sched results w = (r, w') \<Longrightarrow> trace w' = trace w \<and> data w' = data w"
    for results r w' by (metis snd_conv)
  show ?thesis
    by (auto simp: ReadinessHandler_def CheckAll_def dest: run split: prod.splits)
qed

section \<open>Every check is reported, whatever the schedule\<close>

text \<open>
  C39. The readiness endpoint reports every registered check once, under its name and in the
  order of registration, however its goroutines are scheduled; each result is one its checker
  gave, and the reply is 503 when one of them is down and 200 otherwise.
\<close>

theorem readiness_reports_all:
  assumes "ReadinessHandler cs sched w = (rep, w')" and "schedule_of cs sched"
  shows "\<exists>results :: CheckResult list. map cr_Name results = map ck_Name cs
    \<and> (\<forall>i<length cs. \<exists>v. results ! i = checked (cs ! i) (fst (ck_Check (cs ! i) v)))
    \<and> rep = \<lparr>rp_code = (if \<exists>r\<in>set results. cr_Status r = StatusDown then 503 else 200),
        rp_body = readiness_json \<lparr>rr_Status = (if \<exists>r\<in>set results. cr_Status r = StatusDown then StatusDown else StatusUp),
          rr_Checks = results\<rparr>\<rparr>"
proof -
  obtain rsp w1 where all: "CheckAll cs sched w = (rsp, w1)" by (cases "CheckAll cs sched w")
  note e = CheckAll_E[OF all assms(2)]
  have "map cr_Name (rr_Checks rsp) = map ck_Name cs"
  proof (rule nth_equalityI)
    fix i
    assume "i < length (map cr_Name (rr_Checks rsp))"
    with e obtain v where "rr_Checks rsp ! i = checked (cs ! i) (fst (ck_Check (cs ! i) v))" "i < length cs" by auto
    with e show "map cr_Name (rr_Checks rsp) ! i = map ck_Name cs ! i" by (simp add: checked_def)
  qed (use e in simp)
  moreover have "rep = \<lparr>rp_code = (if rr_Status rsp = StatusDown then 503 else 200), rp_body = readiness_json rsp\<rparr>"
    using assms(1) all by (simp add: ReadinessHandler_def)
  moreover obtain st results where "rsp = \<lparr>rr_Status = st, rr_Checks = results\<rparr>" by (cases rsp)
  ultimately show ?thesis using e by (intro exI[of _ results]) simp
qed

section \<open>Example\<close>

definition demo_checks :: "(unit, unit) world Checker list" where
  "demo_checks = [PostgresChecker (\<lambda>n. None), KafkaChecker (\<lambda>n b. Some (ErrText ''refused'')) [''a'', ''b'']]"

theorem readiness_reports_all_witness:
  "\<exists>results :: CheckResult list. map cr_Name results = [''postgres'', ''kafka'']
    \<and> rp_code (fst (ReadinessHandler demo_checks [1, 0] (init_world ())))
      = (if \<exists>r\<in>set results. cr_Status r = StatusDown then 503 else 200)"
proof -
  have sched: "schedule_of demo_checks [1, 0]" by (simp add: schedule_of_def demo_checks_def add_mset_commute)
  have names: "map ck_Name demo_checks = [''postgres'', ''kafka'']"
    by (simp add: demo_checks_def PostgresChecker_def KafkaChecker_def)
  obtain results where r: "map cr_Name results = map ck_Name demo_checks"
    "fst (ReadinessHandler demo_checks [1, 0] (init_world ()))
      = \<lparr>rp_code = (if \<exists>r\<in>set results. cr_Status r = StatusDown then 503 else 200),
          rp_body = readiness_json \<lparr>rr_Status = (if \<exists>r\<in>set results. cr_Status r = StatusDown then StatusDown else StatusUp),
            rr_Checks = results\<rparr>\<rparr>"
    using readiness_reports_all[OF prod.collapse[symmetric] sched, of "init_world ()"] by blast
  show ?thesis
    by (rule exI[of _ results]) (simp only: r names reply.select_convs simp_thms)
qed

end
