(* ===== verification/PmApp.thy ===== *)
theory PmApp
  imports PmWorkerFacts PmOrderFacts PmDisputeFacts PmPaymentLedger PgPool Health
begin

text \<open>
  Paymanager as it is put together (\<open>app.go\<close>, \<open>router.go\<close>, \<open>internal_router.go\<close>): the pools, the
  routes around the handlers and, in Kafka mode, the workers. A route is given with what gin has
  bound for it; pgxpool, goose and the page of the metrics are arguments. The process runs until
  it is signalled; its shutdown is not modelled.
\<close>

section \<open>Configuration\<close>

record pm_config =
  pc_PgURL :: string
  pc_PgReplicaURL :: string
  pc_PgPoolMax :: "64 word"
  pc_LogLevel :: string
  pc_SilvergateBaseURL :: string
  pc_SilvergateSubmitRepresentmentPath :: string
  pc_SilvergateCapturePath :: string
  pc_SilvergateAuthPath :: string
  pc_SilvergateVoidPath :: string
  pc_MerchantID :: string
  pc_WebhookMode :: string
  pc_KafkaBrokers :: "string list"
  pc_Kafka :: kafka_config

text \<open>The tags \<open>envDefault\<close>, with the variables that are required.\<close>

definition pm_default_config :: "string \<Rightarrow> string \<Rightarrow> string \<Rightarrow> string \<Rightarrow> pm_config" where
  "pm_default_config pgURL baseURL submitPath capturePath =
     \<lparr>pc_PgURL = pgURL, pc_PgReplicaURL = '''', pc_PgPoolMax = 10, pc_LogLevel = ''info'',
      pc_SilvergateBaseURL = baseURL, pc_SilvergateSubmitRepresentmentPath = submitPath,
      pc_SilvergateCapturePath = capturePath, pc_SilvergateAuthPath = ''/api/v1/auth'',
      pc_SilvergateVoidPath = ''/api/v1/void'', pc_MerchantID = ''merchant_1'', pc_WebhookMode = ''sync'', pc_KafkaBrokers = [],
      pc_Kafka = \<lparr>
        kc_Orders = \<lparr>wk_Topic = ''webhooks.orders'', wk_ConsumerGroup = ''payment-app-orders'', wk_DLQTopic = ''webhooks.orders.dlq''\<rparr>,
        kc_Disputes = \<lparr>wk_Topic = ''webhooks.disputes'', wk_ConsumerGroup = ''payment-app-disputes'', wk_DLQTopic = ''webhooks.disputes.dlq''\<rparr>,
        kc_Payments = \<lparr>wk_Topic = ''webhooks.payments'', wk_ConsumerGroup = ''payment-app-payments'', wk_DLQTopic = ''webhooks.payments.dlq''\<rparr>\<rparr>\<rparr>"

section \<open>Routes\<close>

datatype pm_route =
    GET_live
  | GET_ready
  | GET_metrics
  | GET_orders
  | GET_order
  | GET_order_events "goerr + EventQuery"
  | POST_order_hold "goerr + HoldRequest"
  | POST_order_capture "goerr + OrderCaptureRequest"
  | GET_disputes
  | GET_dispute
  | GET_dispute_events "goerr + EventQuery"
  | GET_evidence
  | POST_evidence "goerr + GwEvidence"
  | POST_submit
  | POST_payment "goerr + CreatePaymentRequest"
  | GET_payment
  | POST_payment_void
  | POST_payment_refund "goerr + int64"

datatype internal_route =
    POST_update_order "goerr + OrderUpdate"
  | POST_update_dispute "goerr + ChargebackWebhook"
  | POST_update_payment "goerr + CaptureWebhook"

type_synonym pm_world = "(pm_data, pm_effect) world"

record pm_parts =
  pp_client :: Client
  pp_merchant :: string
  pp_checkers :: "pm_world Checker list"
  pp_schedule :: "nat \<Rightarrow> nat list"
  pp_metrics :: answer

definition json_answer :: "reply pm \<Rightarrow> answer pm" where
  "json_answer m = bnd m (\<lambda>r. ret (Json r))"

definition readiness :: "pm_parts \<Rightarrow> answer pm" where
  "readiness p = (\<lambda>w. let (r, w') = ReadinessHandler (pp_checkers p) (pp_schedule p (ticks w)) w in (Inr (Json r), w'))"

fun Router_SetUp :: "('b) penv_scheme \<Rightarrow> pm_parts \<Rightarrow> pm_route \<Rightarrow> gin_ctx \<Rightarrow> answer pm" where
  "Router_SetUp env p GET_live c = ret (Json LivenessHandler)"
| "Router_SetUp env p GET_ready c = readiness p"
| "Router_SetUp env p GET_metrics c = ret (pp_metrics p)"
| "Router_SetUp env p GET_orders c = json_answer (order_Filter_handler env)"
| "Router_SetUp env p GET_order c = json_answer (order_Get_handler env c)"
| "Router_SetUp env p (GET_order_events q) c = json_answer (order_GetEvents_handler env q)"
| "Router_SetUp env p (POST_order_hold b) c = json_answer (order_Hold_handler env c b)"
| "Router_SetUp env p (POST_order_capture b) c = json_answer (order_Capture_handler env (pp_client p) c b)"
| "Router_SetUp env p GET_disputes c = json_answer (dispute_GetDisputes_handler env)"
| "Router_SetUp env p GET_dispute c = json_answer (dispute_GetDispute_handler env c)"
| "Router_SetUp env p (GET_dispute_events q) c = json_answer (dispute_GetEvents_handler env q)"
| "Router_SetUp env p GET_evidence c = json_answer (dispute_GetEvidence_handler env c)"
| "Router_SetUp env p (POST_evidence b) c = json_answer (dispute_UpsertEvidence_handler env c b)"
| "Router_SetUp env p POST_submit c = dispute_Submit_handler env (pp_client p) c"
| "Router_SetUp env p (POST_payment b) c = json_answer (payment_Create_handler env (pp_client p) (pp_merchant p) b)"
| "Router_SetUp env p GET_payment c = json_answer (payment_Get_handler env c)"
| "Router_SetUp env p POST_payment_void c = json_answer (payment_Void_handler env (pp_client p) c)"
| "Router_SetUp env p (POST_payment_refund b) c = json_answer (payment_Refund_handler env (pp_client p) c b)"

fun InternalRouter_SetUp :: "('b) penv_scheme \<Rightarrow> internal_route \<Rightarrow> gin_ctx \<Rightarrow> answer pm" where
  "InternalRouter_SetUp env (POST_update_order b) c = json_answer (order_HandleUpdate env b)"
| "InternalRouter_SetUp env (POST_update_dispute b) c = json_answer (dispute_HandleUpdate env b)"
| "InternalRouter_SetUp env (POST_update_payment b) c = json_answer (payment_HandleWebhook env b)"

section \<open>The engine\<close>

definition pm_telemetry :: "slogger \<Rightarrow> pm_effect telemetry" where
  "pm_telemetry lg = \<lparr>tm_observe = ObservePmRequest, tm_log = LogPmRequest, tm_logger = lg\<rparr>"

text \<open>A body as it is written; \<open>fl\<close> is how \<open>strconv\<close> writes a \<open>float64\<close>.\<close>

definition write_answer :: "(rat \<Rightarrow> string) \<Rightarrow> answer \<Rightarrow> response" where
  "write_answer fl a = (case a of
      Json r \<Rightarrow> \<lparr>rs_Status = rp_code r, rs_Header = [], rs_Body = write_json fl (rp_body r)\<rparr>
    | Status n \<Rightarrow> \<lparr>rs_Status = n, rs_Header = [], rs_Body = []\<rparr>)"

definition engine_answer :: "(rat \<Rightarrow> string) \<Rightarrow> answer pm \<Rightarrow> request \<Rightarrow> response pm" where
  "engine_answer fl m req = bnd m (\<lambda>a. ret (write_answer fl a))"

definition pm_ServeHTTP :: "('b) penv_scheme \<Rightarrow> slogger \<Rightarrow> (rat \<Rightarrow> string) \<Rightarrow> answer pm \<Rightarrow> request \<Rightarrow> response pm" where
  "pm_ServeHTTP env lg fl m = NewGinEngine env (pm_telemetry lg) (engine_answer fl m)"

section \<open>Start\<close>

record pm_boot =
  pb_ParseConfig :: "string \<Rightarrow> goerr option"
  pb_NewWithConfig :: "nat \<Rightarrow> goerr option"
  pb_migrate :: "string \<Rightarrow> goerr option"
  pb_dial :: "nat \<Rightarrow> string \<Rightarrow> goerr option"
  pb_ping :: "nat \<Rightarrow> goerr option"
  pb_ping_replica :: "nat \<Rightarrow> goerr option"

text \<open>
  What runs: the environment of the handlers, in which reads go to the replica when there is one,
  the client of silvergate, the health checks, and the workers of the Kafka mode.
\<close>

record 'b pm_app =
  pa_env :: "'b wenv_scheme"
  pa_client :: Client
  pa_checkers :: "pm_world Checker list"
  pa_workers :: "runtime \<Rightarrow> worker_fetches \<Rightarrow> unit pm list"

datatype 'b pm_startup = PmExit int | PmRunning "'b pm_app"

definition open_pool :: "pm_boot \<Rightarrow> pm_config \<Rightarrow> string \<Rightarrow> pg_world \<Rightarrow> (goerr + pg_pool) \<times> pg_world" where
  "open_pool bt cfg url = PgNew (pb_ParseConfig bt) (pb_NewWithConfig bt) url [MaxPoolSize (pc_PgPoolMax cfg)]"

definition pm_built :: "('b) wenv_scheme \<Rightarrow> pm_boot \<Rightarrow> pm_config \<Rightarrow> 'b pm_app" where
  "pm_built env bt cfg =
    (let has_replica = (pc_PgReplicaURL cfg \<noteq> ''''); kafka = (pc_WebhookMode cfg = ''kafka'');
         env' = (if has_replica then env else env\<lparr>replica := \<lambda>_. None\<rparr>)
     in \<lparr>pa_env = env',
         pa_client = Client_New (pc_SilvergateBaseURL cfg) (pc_SilvergateSubmitRepresentmentPath cfg)
           (pc_SilvergateCapturePath cfg) (pc_SilvergateAuthPath cfg) (pc_SilvergateVoidPath cfg),
         pa_checkers = [PostgresChecker (pb_ping bt)]
           @ (if has_replica then [PostgresChecker (pb_ping_replica bt)] else [])
           @ (if kafka then [KafkaChecker (pb_dial bt) (pc_KafkaBrokers cfg)] else []),
         pa_workers = (\<lambda>rt fs. if kafka then StartWorkers env' rt (pc_Kafka cfg) fs else [])\<rparr>)"

definition pm_Run :: "('b) wenv_scheme \<Rightarrow> pm_boot \<Rightarrow> pm_config \<Rightarrow> pg_world \<Rightarrow> 'b pm_startup \<times> pg_world" where
  "pm_Run env bt cfg w =
    (case open_pool bt cfg (pc_PgURL cfg) w of
       (Inl _, w1) \<Rightarrow> (PmExit 1, w1)
     | (Inr _, w1) \<Rightarrow>
         (case (if pc_PgReplicaURL cfg = '''' then (Inr None, w1)
                else case open_pool bt cfg (pc_PgReplicaURL cfg) w1 of (r, w2) \<Rightarrow> (map_sum id Some r, w2)) of
            (Inl _, w2) \<Rightarrow> (PmExit 1, w2)
          | (Inr _, w2) \<Rightarrow> (case pb_migrate bt (pc_PgURL cfg) of
              Some _ \<Rightarrow> (PmExit 1, w2)
            | None \<Rightarrow> (PmRunning (pm_built env bt cfg), w2))))"

section \<open>Reading changes nothing\<close>

fun is_GET :: "pm_route \<Rightarrow> bool" where
  "is_GET (POST_order_hold b) = False"
| "is_GET (POST_order_capture b) = False"
| "is_GET (POST_evidence b) = False"
| "is_GET POST_submit = False"
| "is_GET (POST_payment b) = False"
| "is_GET POST_payment_void = False"
| "is_GET (POST_payment_refund b) = False"
| "is_GET r = True"

text \<open>A predicate of rows and effects that a program leaves alone.\<close>

abbreviation keeps_both :: "(pm_data \<Rightarrow> pm_effect list \<Rightarrow> bool) \<Rightarrow> 'a pm \<Rightarrow> bool" where
  "keeps_both P m \<equiv> keeps (\<lambda>w. P (data w) (trace w)) m"

lemma keeps_both_read_db [keeps_intros]:
  assumes "read_only stmt"
  shows "keeps_both P (read_db env x stmt)"
proof (rule keepsI)
  fix w r w' assume p: "P (data w) (trace w)" and run: "read_db env x stmt w = (r, w')"
  have "trace w' = trace w" using keepsD[OF keeps_trace_read_db[of "\<lambda>t. t = trace w"] run] by simp
  moreover have "data w' = data w" using read_db_data[OF run assms] by simp
  ultimately show "P (data w') (trace w')" using p by simp
qed

lemma read_only_pure [simp]: "read_only (\<lambda>d. Inr (f d, d))"
  by (simp add: read_only_def)

lemma keeps_both_sink:
  "keeps_both P (sink_Get s env q)"
  unfolding sink_Get_def Let_def by (intro keeps_intros read_only_pure)

lemma keeps_both_orders:
  "keeps_both P (GetOrders env q)" "keeps_both P (GetOrderByID env i)" "keeps_both P (order_GetEvents env eq)"
  unfolding GetOrders_def GetOrderByID_def getOrderByID_def orderrepo_GetOrders_def order_GetEvents_def events_service_def GetOrderEvents_def
  by (intro keeps_intros keeps_both_sink read_only_orders; simp split: list.split add: keeps_ret keeps_throw)+

lemma keeps_both_disputes:
  "keeps_both P (dispute_GetDisputes env)" "keeps_both P (dispute_GetDisputeByID env i)"
  "keeps_both P (dispute_GetEvidence env i)" "keeps_both P (dispute_GetEvents env eq)"
  unfolding dispute_GetDisputes_def GetDisputes_def dispute_GetDisputeByID_def GetDisputeByID_def dispute_GetEvidence_def
    GetEvidence_def dispute_GetEvents_def events_service_def GetDisputeEvents_def
  by (intro keeps_intros keeps_both_sink read_only_query read_only_pure)+

lemma keeps_both_payments: "keeps_both P (payment_Get env i)"
  unfolding payment_Get_def payrepo_GetPaymentByID_def scanPayment_def
  by (intro keeps_intros read_only_query)

lemma keeps_both_GET:
  assumes "is_GET r" and "list_all silent (pp_checkers p)" and "\<And>n. schedule_of (pp_checkers p) (pp_schedule p n)"
    and "r \<noteq> GET_order"
  shows "keeps_both P (Router_SetUp env p r c)"
proof -
  have ready: "keeps_both P (readiness p)"
    using silent_readiness[OF assms(2,3)] by (auto simp: keeps_def readiness_def Let_def split: prod.split) (metis snd_conv)+
  show ?thesis
    using assms(1,4)
    by (cases r) (auto intro!: keeps_intros keeps_both_orders keeps_both_disputes keeps_both_payments ready
      simp: json_answer_def order_Filter_handler_def order_GetEvents_handler_def dispute_GetDisputes_handler_def
      dispute_GetDispute_handler_def dispute_GetEvents_handler_def dispute_GetEvidence_handler_def payment_Get_handler_def Let_def)
qed

text \<open>The handler of one order prints the identifier it was asked for.\<close>

definition printed :: "pm_route \<Rightarrow> gin_ctx \<Rightarrow> pm_effect list" where
  "printed r c = (if r = GET_order \<and> param c ''order_id'' \<noteq> ''''
     then [Stdout (''get orderID: '' @ param c ''order_id'' @ [CHR 0x0A])] else [])"

lemma GET_route_run:
  assumes "is_GET r" and "list_all silent (pp_checkers p)" and "\<And>n. schedule_of (pp_checkers p) (pp_schedule p n)"
    and run: "Router_SetUp env p r c w = (q, w')"
  shows "data w' = data w \<and> trace w' = trace w @ printed r c"
proof (cases "r = GET_order \<and> param c ''order_id'' \<noteq> ''''")
  case True
  let ?m = "respond (GetOrderByID env (param c ''order_id''))
    (\<lambda>err. \<lparr>rp_code = (if errors_Is err Order_ErrNotFound then 404 else 500), rp_body = message_body (Error err)\<rparr>)
    (\<lambda>res. \<lparr>rp_code = 200, rp_body = Order_json res\<rparr>)"
  let ?v = "w\<lparr>trace := trace w @ printed r c\<rparr>"
  from run True have "json_answer ?m ?v = (q, w')"
    by (simp add: json_answer_def order_Get_handler_def print_order_id_def printed_def run_simps Let_def)
  moreover have "keeps_both (\<lambda>d t. d = data ?v \<and> t = trace ?v) (json_answer ?m)"
    unfolding json_answer_def by (intro keeps_intros keeps_both_orders)
  ultimately show ?thesis by (auto dest: keepsD)
next
  case False
  then have none: "printed r c = []" by (auto simp: printed_def)
  have "keeps_both (\<lambda>d t. d = data w \<and> t = trace w) (Router_SetUp env p r c)"
  proof (cases "r = GET_order")
    case True
    with False show ?thesis
      by (simp add: json_answer_def order_Get_handler_def keeps_intros Let_def)
  next
    case False
    with assms(1-3) show ?thesis by (rule keeps_both_GET)
  qed
  from keepsD[OF this run] none show ?thesis by simp
qed

text \<open>The parts that the routes get; the schedule of the checks and the metrics page stay arguments.\<close>

definition parts_of :: "pm_config \<Rightarrow> (nat \<Rightarrow> nat list) \<Rightarrow> answer \<Rightarrow> 'b pm_app \<Rightarrow> pm_parts" where
  "parts_of cfg sched page a = \<lparr>pp_client = pa_client a, pp_merchant = pc_MerchantID cfg, pp_checkers = pa_checkers a,
     pp_schedule = sched, pp_metrics = page\<rparr>"

lemma pm_Run_silent:
  assumes "pm_Run env bt cfg pw = (PmRunning a, pw')"
  shows "list_all silent (pa_checkers a)"
proof -
  have "a = pm_built env bt cfg"
    using assms by (auto simp: pm_Run_def split: prod.splits sum.splits option.splits if_splits)
  then show ?thesis by (simp add: pm_built_def Let_def silent_postgres silent_kafka)
qed

text \<open>
  C38. A GET request to paymanager, as its engine serves it, leaves every row as it is and has no
  effect but its own log record and observation, and a line on the standard output when an
  order is read: no call to the provider, no Kafka message.
\<close>

theorem reads_change_nothing:
  assumes "pm_Run env bt cfg pw = (PmRunning a, pw')" and "is_GET r"
    and "\<And>n. schedule_of (pa_checkers a) (sched n)"
    and "pm_ServeHTTP (pa_env a) lg fl (Router_SetUp (pa_env a) (parts_of cfg sched page a) r c) req w = (Inr rsp, w')"
  shows "data w' = data w \<and> (\<exists>i more. trace w' = trace w @ printed r c @ more
    \<and> list_all (\<lambda>x. logged (pm_telemetry lg) (Some i) x \<or> observed (pm_telemetry lg) x) more)"
proof -
  let ?p = "parts_of cfg sched page a" and ?m = "Router_SetUp (pa_env a) (parts_of cfg sched page a) r c"
  from assms(4)[unfolded pm_ServeHTTP_def] obtain i v v' rsp0 more where
    run: "engine_answer fl ?m (req\<lparr>rq_Context := Some i\<rparr>) v = (Inr rsp0, v')"
    and v: "data v = data w" "trace v = trace w" and w': "data w' = data v'" "trace w' = trace v' @ more"
    and more: "\<And>x. x \<in> set more \<Longrightarrow> logged (pm_telemetry lg) (Some i) x \<or> observed (pm_telemetry lg) x"
    by (rule NewGinEngine_E) blast
  obtain q v1 where m: "?m v = (q, v1)" by (cases "?m v")
  with run have "v1 = v'" by (auto simp: engine_answer_def run_simps split: sum.splits)
  moreover have "data v1 = data v \<and> trace v1 = trace v @ printed r c"
    using assms(2,3) pm_Run_silent[OF assms(1)] m by (intro GET_route_run) (simp_all add: parts_of_def)
  ultimately show ?thesis
    using v w' more by (intro conjI exI[of _ i] exI[of _ more]) (simp_all add: list_all_iff)
qed

section \<open>Example\<close>

definition demo_wenv :: wenv where
  "demo_wenv = \<lparr>fault = \<lambda>_. None, commit_err = \<lambda>_ _. None, clock = int, fresh = \<lambda>_. ''u'', http_Post = \<lambda>_ _ _. Inl (ErrText ''no route''),
     replica = \<lambda>_. None, kafka_Write = \<lambda>_ _ _. None, kafka_Commit = \<lambda>_ _ _. None\<rparr>"

definition demo_pm_boot :: pm_boot where
  "demo_pm_boot = \<lparr>pb_ParseConfig = \<lambda>_. None, pb_NewWithConfig = \<lambda>_. None, pb_migrate = \<lambda>_. None, pb_dial = \<lambda>_ _. None,
     pb_ping = \<lambda>_. None, pb_ping_replica = \<lambda>_. None\<rparr>"

definition demo_pm_config :: pm_config where
  "demo_pm_config = pm_default_config ''pg'' ''sg'' ''/s'' ''/c''"

definition demo_pm_world :: pm_world where
  "demo_pm_world = init_world \<lparr>payments = [], events = [], orders = [], order_events = [], disputes = [], dispute_events = [],
     evidence = []\<rparr>"

definition demo_pm_request :: request where
  "demo_pm_request = \<lparr>rq_Method = ''GET'', rq_Path = ''/disputes'', rq_FullPath = ''/disputes'', rq_RawQuery = '''',
     rq_Header = \<lambda>n. '''', rq_Body = None, rq_Context = None\<rparr>"

abbreviation "demo_ctx \<equiv> \<lparr>header = \<lambda>_. '''', param = \<lambda>_. '''', query_arg = \<lambda>_. '''', ctx_merchant = None\<rparr>"

abbreviation "demo_a \<equiv> pm_built demo_wenv demo_pm_boot demo_pm_config"

abbreviation "demo_served_get \<equiv> pm_ServeHTTP (pa_env demo_a) (Setup \<lparr>lo_Level = '''', lo_Console = True\<rparr>) (\<lambda>_. '''')
  (Router_SetUp (pa_env demo_a) (parts_of demo_pm_config (\<lambda>_. [0]) (Status 200) demo_a) GET_disputes demo_ctx)
  demo_pm_request demo_pm_world"

lemma demo_pm_runs: "\<exists>pw. pm_Run demo_wenv demo_pm_boot demo_pm_config \<lparr>pg_ticks = 0, pg_trace = []\<rparr> = (PmRunning demo_a, pw)"
  by (simp add: pm_Run_def open_pool_def PgNew_def connect_loop.simps default_options_def MaxPoolSize_def demo_pm_boot_def
      demo_pm_config_def pm_default_config_def Let_def)

lemma demo_pm_served: "\<exists>w'. demo_served_get = (Inr \<lparr>rs_Status = 200, rs_Header = [(HeaderName, ''u'')], rs_Body = ''null''\<rparr>, w')"
  by (simp add: pm_ServeHTTP_def NewGinEngine_def CorrelationMiddleware_def corr_NewID_def GinMiddleware_def GinBodyLogger_def InfoContext_def
      engine_answer_def json_answer_def dispute_GetDisputes_handler_def dispute_GetDisputes_def GetDisputes_def read_db_def sql_def
      run_respond write_answer_def Disputes_json_def run_simps pm_built_def demo_wenv_def demo_pm_config_def pm_default_config_def
      demo_pm_world_def demo_pm_request_def init_world_def Let_def)

theorem reads_change_nothing_witness:
  "\<exists>w'. demo_served_get = (Inr \<lparr>rs_Status = 200, rs_Header = [(HeaderName, ''u'')], rs_Body = ''null''\<rparr>, w')
    \<and> data w' = data demo_pm_world"
proof -
  obtain pw where run: "pm_Run demo_wenv demo_pm_boot demo_pm_config \<lparr>pg_ticks = 0, pg_trace = []\<rparr> = (PmRunning demo_a, pw)"
    using demo_pm_runs by blast
  obtain w' where served: "demo_served_get = (Inr \<lparr>rs_Status = 200, rs_Header = [(HeaderName, ''u'')], rs_Body = ''null''\<rparr>, w')"
    using demo_pm_served by blast
  have sched: "schedule_of (pa_checkers demo_a) [0]"
    by (simp add: schedule_of_def pm_built_def Let_def demo_pm_config_def pm_default_config_def)
  from reads_change_nothing[OF run _ sched served] served show ?thesis by auto
qed

end
