(* ===== verification/Ingest.thy ===== *)
theory Ingest
  imports GinEngine
begin

text \<open>
  The ingest service: the three webhook endpoints, the three ways a webhook is passed on
  (to Kafka, to paymanager over HTTP, or into the inbox table), the inbox repository and
  the worker that forwards the inbox.

  The broker and the HTTP transport are parts of the environment; the JSON that gin binds
  is an argument of the handlers.
\<close>

section \<open>Webhooks\<close>

record OrderUpdateRequest =
  our_ProviderEventID :: string
  our_OrderID :: string
  our_UserID :: string
  our_Status :: string
  our_UpdatedAt :: time
  our_CreatedAt :: time
  our_Meta :: go_map

record DisputeUpdateRequest =
  dur_ProviderEventID :: string
  dur_OrderID :: string
  dur_UserID :: string
  dur_Status :: string
  dur_Reason :: string
  dur_Amount :: rat
  dur_Currency :: string
  dur_OccurredAt :: time
  dur_EvidenceDueAt :: "time option"
  dur_Meta :: go_map

record PaymentWebhookRequest =
  pwr_Event :: string
  pwr_TransactionID :: string
  pwr_RefundID :: string
  pwr_OrderID :: string
  pwr_MerchantID :: string
  pwr_Status :: string
  pwr_Amount :: int64
  pwr_Currency :: string
  pwr_Timestamp :: string

text \<open>\<open>omitempty\<close> on a map leaves out a nil map and an empty one.\<close>

definition omitempty_map :: "string \<Rightarrow> go_map \<Rightarrow> (string \<times> json) list" where
  "omitempty_map name m = (case m of None \<Rightarrow> [] | Some [] \<Rightarrow> [] | Some es \<Rightarrow> [(name, json_map m)])"

definition OrderUpdateRequest_json :: "OrderUpdateRequest \<Rightarrow> json" where
  "OrderUpdateRequest_json r = JObj (
     [(''provider_event_id'', JStr (our_ProviderEventID r)), (''order_id'', JStr (our_OrderID r)),
      (''user_id'', JStr (our_UserID r)), (''status'', JStr (our_Status r)),
      (''updated_at'', json_time (our_UpdatedAt r)), (''created_at'', json_time (our_CreatedAt r))]
     @ omitempty_map ''meta'' (our_Meta r))"

definition DisputeUpdateRequest_json :: "DisputeUpdateRequest \<Rightarrow> json" where
  "DisputeUpdateRequest_json r = JObj (
     [(''provider_event_id'', JStr (dur_ProviderEventID r)), (''order_id'', JStr (dur_OrderID r)),
      (''user_id'', JStr (dur_UserID r)), (''status'', JStr (dur_Status r)), (''reason'', JStr (dur_Reason r)),
      (''amount'', JFloat (dur_Amount r)), (''currency'', JStr (dur_Currency r)),
      (''occurred_at'', json_time (dur_OccurredAt r))]
     @ (case dur_EvidenceDueAt r of None \<Rightarrow> [] | Some t \<Rightarrow> [(''evidence_due_at'', json_time t)])
     @ omitempty_map ''meta'' (dur_Meta r))"

definition PaymentWebhookRequest_json :: "PaymentWebhookRequest \<Rightarrow> json" where
  "PaymentWebhookRequest_json r = JObj (
     [(''event'', JStr (pwr_Event r)), (''transaction_id'', JStr (pwr_TransactionID r))]
     @ omitempty ''refund_id'' (pwr_RefundID r)
     @ [(''order_id'', JStr (pwr_OrderID r)), (''merchant_id'', JStr (pwr_MerchantID r)),
        (''status'', JStr (pwr_Status r)), (''amount'', json_int64 (pwr_Amount r)),
        (''currency'', JStr (pwr_Currency r)), (''timestamp'', JStr (pwr_Timestamp r))])"

definition read_OrderUpdateRequest :: "json \<Rightarrow> goerr + OrderUpdateRequest" where
  "read_OrderUpdateRequest j =
     bind_sum (fields_of j) (\<lambda>fs.
     bind_sum (str_field fs ''provider_event_id'') (\<lambda>ev.
     bind_sum (str_field fs ''order_id'') (\<lambda>i.
     bind_sum (str_field fs ''user_id'') (\<lambda>usr.
     bind_sum (str_field fs ''status'') (\<lambda>st.
     bind_sum (time_field fs ''updated_at'') (\<lambda>upd.
     bind_sum (time_field fs ''created_at'') (\<lambda>cre.
     bind_sum (map_field fs ''meta'') (\<lambda>meta.
     Inr \<lparr>our_ProviderEventID = ev, our_OrderID = i, our_UserID = usr, our_Status = st, our_UpdatedAt = upd,
          our_CreatedAt = cre, our_Meta = meta\<rparr>))))))))"

definition read_DisputeUpdateRequest :: "json \<Rightarrow> goerr + DisputeUpdateRequest" where
  "read_DisputeUpdateRequest j =
     bind_sum (fields_of j) (\<lambda>fs.
     bind_sum (str_field fs ''provider_event_id'') (\<lambda>ev.
     bind_sum (str_field fs ''order_id'') (\<lambda>i.
     bind_sum (str_field fs ''user_id'') (\<lambda>usr.
     bind_sum (str_field fs ''status'') (\<lambda>st.
     bind_sum (str_field fs ''reason'') (\<lambda>reason.
     bind_sum (float_field fs ''amount'') (\<lambda>amount.
     bind_sum (str_field fs ''currency'') (\<lambda>cur.
     bind_sum (time_field fs ''occurred_at'') (\<lambda>occ.
     bind_sum (opt_time_field fs ''evidence_due_at'') (\<lambda>due.
     bind_sum (map_field fs ''meta'') (\<lambda>meta.
     Inr \<lparr>dur_ProviderEventID = ev, dur_OrderID = i, dur_UserID = usr, dur_Status = st, dur_Reason = reason,
          dur_Amount = amount, dur_Currency = cur, dur_OccurredAt = occ, dur_EvidenceDueAt = due,
          dur_Meta = meta\<rparr>)))))))))))"

definition read_PaymentWebhookRequest :: "json \<Rightarrow> goerr + PaymentWebhookRequest" where
  "read_PaymentWebhookRequest j =
     bind_sum (fields_of j) (\<lambda>fs.
     bind_sum (str_field fs ''event'') (\<lambda>ev.
     bind_sum (str_field fs ''transaction_id'') (\<lambda>tid.
     bind_sum (str_field fs ''refund_id'') (\<lambda>rid.
     bind_sum (str_field fs ''order_id'') (\<lambda>oid.
     bind_sum (str_field fs ''merchant_id'') (\<lambda>mid.
     bind_sum (str_field fs ''status'') (\<lambda>st.
     bind_sum (int64_field fs ''amount'') (\<lambda>a.
     bind_sum (str_field fs ''currency'') (\<lambda>cur.
     bind_sum (str_field fs ''timestamp'') (\<lambda>ts.
     Inr \<lparr>pwr_Event = ev, pwr_TransactionID = tid, pwr_RefundID = rid, pwr_OrderID = oid, pwr_MerchantID = mid,
          pwr_Status = st, pwr_Amount = a, pwr_Currency = cur, pwr_Timestamp = ts\<rparr>))))))))))"

section \<open>State, environment, effects\<close>

record inbox_row =
  ib_id :: string
  ib_idempotency_key :: string
  ib_webhook_type :: string
  ib_payload :: json
  ib_status :: string
  ib_received_at :: time
  ib_processed_at :: "time option"
  ib_error_message :: "string option"
  ib_retry_count :: int

definition inbox_schema :: "inbox_row schema" where
  "inbox_schema = \<lparr>
     uniques = [
       (''inbox_pk'', \<lambda>a b. ib_id a = ib_id b),
       (''idx_inbox_idempotency'', \<lambda>a b. ib_idempotency_key a = ib_idempotency_key b)],
     checks = []\<rparr>"

text \<open>A message to Kafka is recorded with the answer of the broker: \<open>None\<close> when it took the message.\<close>

datatype in_effect =
    Publish string "(string \<times> string) list" Envelope "goerr option"
  | ApiPost string "(string \<times> string) list" json
  | ObserveRequest string string string time
  | LogRecord log_record

record api_answer =
  aa_StatusCode :: int
  aa_Body :: string

text \<open>The headers of requests and messages.\<close>

definition corr_header :: "string \<Rightarrow> ctx \<Rightarrow> (string \<times> string) list" where
  "corr_header name cx = (let corrID = corr_FromContext cx in if corrID = '''' then [] else [(name, corrID)])"

text \<open>
  \<open>kafka_Write\<close> answers a write to a topic, \<open>api_Do\<close> a request to paymanager; \<open>rand_Float\<close>
  draws from \<open>math/rand\<close>, \<open>ctx_done\<close> tells whether the context ends before a delay has
  passed, \<open>locked\<close> which rows other transactions hold locked at a moment. \<open>slog_Default\<close> is the
  logger that the process has set up.
\<close>

record ienv = env +
  kafka_Write :: "nat \<Rightarrow> string \<Rightarrow> Envelope \<Rightarrow> goerr option"
  api_Do :: "nat \<Rightarrow> string \<Rightarrow> json \<Rightarrow> goerr + api_answer"
  rand_Float :: "nat \<Rightarrow> rat"
  ctx_done :: "nat \<Rightarrow> time \<Rightarrow> bool"
  locked :: "nat \<Rightarrow> string list"
  slog_Default :: slogger

type_synonym 'a ing = "((inbox_row list, in_effect) world, 'a) prog"

section \<open>The inbox repository\<close>

record NewInboxMessage =
  ni_IdempotencyKey :: string
  ni_WebhookType :: string
  ni_Payload :: json

record InboxMessage =
  im_ID :: string
  im_IdempotencyKey :: string
  im_WebhookType :: string
  im_Payload :: json
  im_RetryCount :: int
  im_ReceivedAt :: time

text \<open>The columns left out take their defaults, which the server draws.\<close>

definition new_inbox_row :: "string \<Rightarrow> time \<Rightarrow> NewInboxMessage \<Rightarrow> inbox_row" where
  "new_inbox_row i now msg = \<lparr>ib_id = i, ib_idempotency_key = ni_IdempotencyKey msg,
     ib_webhook_type = ni_WebhookType msg, ib_payload = ni_Payload msg, ib_status = ''pending'',
     ib_received_at = now, ib_processed_at = None, ib_error_message = None, ib_retry_count = 0\<rparr>"

definition Store :: "('b) ienv_scheme \<Rightarrow> NewInboxMessage \<Rightarrow> unit ing" where
  "Store env msg =
     bnd (uuid_New env) (\<lambda>i.
     bnd (time_Now env) (\<lambda>now.
     map_err (\<lambda>err. if IsPgErrorUniqueViolation err then Sentinel Inbox_ErrAlreadyExists
                    else wrap ''store inbox message'' err)
       (sql env (sql_insert inbox_schema (new_inbox_row i now msg)))))"

definition message_of_row :: "inbox_row \<Rightarrow> InboxMessage" where
  "message_of_row r = \<lparr>im_ID = ib_id r, im_IdempotencyKey = ib_idempotency_key r, im_WebhookType = ib_webhook_type r,
     im_Payload = ib_payload r, im_RetryCount = ib_retry_count r, im_ReceivedAt = ib_received_at r\<rparr>"

text \<open>The rows that \<open>SELECT ... FOR UPDATE SKIP LOCKED\<close> finds: the oldest pending ones that are not locked.\<close>

definition claimable :: "string list \<Rightarrow> inbox_row \<Rightarrow> bool" where
  "claimable lck r \<longleftrightarrow> ib_status r = ''pending'' \<and> ib_id r \<notin> set lck"

definition claim_ids :: "string list \<Rightarrow> nat \<Rightarrow> inbox_row list \<Rightarrow> string list" where
  "claim_ids lck n rows = map ib_id (take n (sort_key ib_received_at (filter (claimable lck) rows)))"

definition negative_limit :: goerr where
  "negative_limit = PgErr (PgError ''2201W'' '''' ''LIMIT must not be negative'')"

text \<open>\<open>RETURNING\<close> gives the updated rows, here in the order of the table.\<close>

definition claim :: "string list \<Rightarrow> int \<Rightarrow> inbox_row list \<Rightarrow> goerr + InboxMessage list \<times> inbox_row list" where
  "claim lck limit rows =
    (if limit < 0 then Inl negative_limit
     else let ids = claim_ids lck (nat limit) rows
          in Inr (map message_of_row (filter (\<lambda>r. ib_id r \<in> set ids) rows),
                  set_where (\<lambda>r. ib_id r \<in> set ids) (\<lambda>r. r\<lparr>ib_status := ''processing''\<rparr>) rows))"

definition FetchPending :: "('b) ienv_scheme \<Rightarrow> int \<Rightarrow> InboxMessage list ing" where
  "FetchPending env limit =
     bnd (ask (locked env)) (\<lambda>lck.
     map_err (wrap ''fetch pending inbox messages'') (sql env (claim lck limit)))"

definition update_inbox :: "('b) ienv_scheme \<Rightarrow> string \<Rightarrow> string \<Rightarrow> (inbox_row \<Rightarrow> inbox_row) \<Rightarrow> unit ing" where
  "update_inbox env what i f =
     bnd (map_err (wrap what) (sql env (sql_update inbox_schema (\<lambda>r. ib_id r = i) f))) (\<lambda>affected.
     fail_if (affected = 0) (Sentinel Pgx_ErrNoRows))"

definition MarkProcessed :: "('b) ienv_scheme \<Rightarrow> string \<Rightarrow> unit ing" where
  "MarkProcessed env i =
     bnd (time_Now env) (\<lambda>now.
     update_inbox env ''mark inbox message processed'' i
       (\<lambda>r. r\<lparr>ib_status := ''processed'', ib_processed_at := Some now\<rparr>))"

definition failed_row :: "string \<Rightarrow> int \<Rightarrow> inbox_row \<Rightarrow> inbox_row" where
  "failed_row errMsg maxRetries r = r\<lparr>ib_retry_count := ib_retry_count r + 1, ib_error_message := Some errMsg,
     ib_status := (if maxRetries \<le> ib_retry_count r + 1 then ''failed'' else ''pending'')\<rparr>"

definition MarkFailed :: "('b) ienv_scheme \<Rightarrow> string \<Rightarrow> string \<Rightarrow> int \<Rightarrow> unit ing" where
  "MarkFailed env i errMsg maxRetries =
     update_inbox env ''mark inbox message failed'' i (failed_row errMsg maxRetries)"

section \<open>The client of paymanager\<close>

record ApiRetryConfig =
  ac_MaxAttempts :: int
  ac_BaseDelay :: time
  ac_MaxDelay :: time

record HTTPClient =
  hc_baseURL :: string
  hc_retryCfg :: ApiRetryConfig

text \<open>\<open>time.Duration(x)\<close> truncates. The float64 arithmetic is that of the rationals here, without rounding.\<close>

definition to_duration :: "rat \<Rightarrow> time" where
  "to_duration x = (if x < 0 then - \<lfloor>- x\<rfloor> else \<lfloor>x\<rfloor>)"

definition calculateBackoff :: "rat \<Rightarrow> nat \<Rightarrow> time \<Rightarrow> time \<Rightarrow> time" where
  "calculateBackoff rnd attempt' baseDelay maxDelay =
    (let delay = of_int baseDelay * 2 ^ attempt';
         jittered = delay + delay * (1 / 4) * (rnd * 2 - 1)
     in to_duration (if of_int maxDelay < jittered then of_int maxDelay else jittered))"

text \<open>The loop of \<open>DoWithRetry\<close>: the attempts that are left, the number of this one, the last error.\<close>

fun api_retry ::
  "('b) ienv_scheme \<Rightarrow> ApiRetryConfig \<Rightarrow> unit ing \<Rightarrow> nat \<Rightarrow> nat \<Rightarrow> goerr option \<Rightarrow> unit ing" where
  "api_retry env cfg fn 0 k lastErr = (case lastErr of None \<Rightarrow> ret () | Some err \<Rightarrow> throw err)"
| "api_retry env cfg fn (Suc left) k lastErr =
     bnd (attempt fn) (\<lambda>r. case r of
         Inr _ \<Rightarrow> ret ()
       | Inl err \<Rightarrow>
           if \<not> errors_Is err Apiclient_ErrServiceUnavailable then throw err
           else if left = 0 then throw err
           else bnd (ask (rand_Float env)) (\<lambda>rnd.
                bnd (ask (\<lambda>t. ctx_done env t (calculateBackoff rnd k (ac_BaseDelay cfg) (ac_MaxDelay cfg)))) (\<lambda>stop.
                if stop then throw (Sentinel Context_Canceled)
                else api_retry env cfg fn left (Suc k) (Some err))))"

definition DoWithRetry :: "('b) ienv_scheme \<Rightarrow> ApiRetryConfig \<Rightarrow> unit ing \<Rightarrow> unit ing" where
  "DoWithRetry env cfg fn = api_retry env cfg fn (nat (ac_MaxAttempts cfg)) 0 None"

definition handleResponse :: "api_answer \<Rightarrow> goerr + unit" where
  "handleResponse resp =
    (let st = aa_StatusCode resp in
     if 200 \<le> st \<and> st < 300 then Inr ()
     else if st = 400 then Inl (Wrapped '''' (Sentinel Apiclient_ErrBadRequest) ('': '' @ aa_Body resp))
     else if st = 404 then Inl (Sentinel Apiclient_ErrNotFound)
     else if st = 409 then Inl (Sentinel Apiclient_ErrConflict)
     else if st = 422 then Inl (Wrapped '''' (Sentinel Apiclient_ErrInvalidStatus) ('': '' @ aa_Body resp))
     else if 500 \<le> st then Inl (Wrapped '''' (Sentinel Apiclient_ErrServiceUnavailable)
       ('': status '' @ show_int st @ '', body: '' @ aa_Body resp))
     else Inl (ErrText (''unexpected status code '' @ show_int st @ '': '' @ aa_Body resp)))"

text \<open>
  One attempt, from the built request on: the bodies that ingest sends can always be marshalled, and the
  configured base URL is taken to be well formed.
\<close>

definition sendRequest :: "('b) ienv_scheme \<Rightarrow> HTTPClient \<Rightarrow> ctx \<Rightarrow> string \<Rightarrow> json \<Rightarrow> unit ing" where
  "sendRequest env c cx path body =
    (let url = hc_baseURL c @ path;
         headers = (''Content-Type'', ''application/json'') # corr_header HeaderName cx in
     bnd (emit (ApiPost url headers body)) (\<lambda>_.
     bnd (map_err (\<lambda>err. Wrapped '''' (Sentinel Apiclient_ErrServiceUnavailable) ('': '' @ Error err))
       (call (\<lambda>n. api_Do env n url body))) (\<lambda>resp.
     of_sum (handleResponse resp))))"

definition SendOrderUpdate :: "('b) ienv_scheme \<Rightarrow> HTTPClient \<Rightarrow> ctx \<Rightarrow> OrderUpdateRequest \<Rightarrow> unit ing" where
  "SendOrderUpdate env c cx req = DoWithRetry env (hc_retryCfg c)
     (sendRequest env c cx ''/internal/updates/orders'' (OrderUpdateRequest_json req))"

definition SendDisputeUpdate :: "('b) ienv_scheme \<Rightarrow> HTTPClient \<Rightarrow> ctx \<Rightarrow> DisputeUpdateRequest \<Rightarrow> unit ing" where
  "SendDisputeUpdate env c cx req = DoWithRetry env (hc_retryCfg c)
     (sendRequest env c cx ''/internal/updates/disputes'' (DisputeUpdateRequest_json req))"

definition SendPaymentWebhook :: "('b) ienv_scheme \<Rightarrow> HTTPClient \<Rightarrow> ctx \<Rightarrow> PaymentWebhookRequest \<Rightarrow> unit ing" where
  "SendPaymentWebhook env c cx req = DoWithRetry env (hc_retryCfg c)
     (sendRequest env c cx ''/internal/updates/payments'' (PaymentWebhookRequest_json req))"

section \<open>The three processors\<close>

record Processor =
  pr_Order :: "ctx \<Rightarrow> OrderUpdateRequest \<Rightarrow> unit ing"
  pr_Dispute :: "ctx \<Rightarrow> DisputeUpdateRequest \<Rightarrow> unit ing"
  pr_Payment :: "ctx \<Rightarrow> PaymentWebhookRequest \<Rightarrow> unit ing"

text \<open>A publisher of package \<open>kafka\<close> is known by its topic; the key of the message is that of the envelope.\<close>

definition slog_at :: "('b) ienv_scheme \<Rightarrow> int \<Rightarrow> ctx \<Rightarrow> log_record \<Rightarrow> unit ing" where
  "slog_at env level cx r =
    (if CorrelationHandler_Enabled (slog_Default env) level then emit (LogRecord (CorrelationHandler_Handle cx r)) else ret ())"

text \<open>\<open>slog.Error\<close> logs without the context of the request, \<open>slog.DebugContext\<close> with it.\<close>

definition publish_failed :: "string \<Rightarrow> Envelope \<Rightarrow> goerr \<Rightarrow> log_record" where
  "publish_failed topic e err = \<lparr>lg_Message = ''Failed to publish message'', lg_Attrs =
     [(''topic'', LogText topic), (''key'', LogText (nv_Key e)), (''error'', LogText (Error err))]\<rparr>"

definition kafka_Publish :: "('b) ienv_scheme \<Rightarrow> string \<Rightarrow> ctx \<Rightarrow> Envelope \<Rightarrow> unit ing" where
  "kafka_Publish env topic cx e =
     bnd (ask (\<lambda>n. kafka_Write env n topic e)) (\<lambda>answer.
     bnd (emit (Publish topic (corr_header KafkaHeaderName cx) e answer)) (\<lambda>_. case answer of
         Some err \<Rightarrow> bnd (slog_at env LevelError None (publish_failed topic e err)) (\<lambda>_. throw err)
       | None \<Rightarrow> slog_at env LevelDebug cx \<lparr>lg_Message = ''Message published'', lg_Attrs =
           [(''topic'', LogText topic), (''key'', LogText (nv_Key e)), (''event_id'', LogText (nv_EventID e))]\<rparr>))"

definition async_Order :: "('b) ienv_scheme \<Rightarrow> string \<Rightarrow> ctx \<Rightarrow> OrderUpdateRequest \<Rightarrow> unit ing" where
  "async_Order env topic cx req =
     bnd (NewEnvelope env (our_UserID req) ''order.webhook'' (OrderUpdateRequest_json req)) (kafka_Publish env topic cx)"

definition async_Dispute :: "('b) ienv_scheme \<Rightarrow> string \<Rightarrow> ctx \<Rightarrow> DisputeUpdateRequest \<Rightarrow> unit ing" where
  "async_Dispute env topic cx req =
     bnd (NewEnvelope env (dur_UserID req) ''dispute.webhook'' (DisputeUpdateRequest_json req)) (kafka_Publish env topic cx)"

definition async_Payment :: "('b) ienv_scheme \<Rightarrow> string \<Rightarrow> ctx \<Rightarrow> PaymentWebhookRequest \<Rightarrow> unit ing" where
  "async_Payment env topic cx req =
     bnd (NewEnvelope env (pwr_TransactionID req) ''payment.webhook'' (PaymentWebhookRequest_json req)) (kafka_Publish env topic cx)"

definition AsyncProcessor :: "('b) ienv_scheme \<Rightarrow> string \<Rightarrow> string \<Rightarrow> string \<Rightarrow> Processor" where
  "AsyncProcessor env orders disputes payments =
     \<lparr>pr_Order = async_Order env orders, pr_Dispute = async_Dispute env disputes, pr_Payment = async_Payment env payments\<rparr>"

definition HTTPSyncProcessor :: "('b) ienv_scheme \<Rightarrow> HTTPClient \<Rightarrow> Processor" where
  "HTTPSyncProcessor env c =
     \<lparr>pr_Order = SendOrderUpdate env c, pr_Dispute = SendDisputeUpdate env c, pr_Payment = SendPaymentWebhook env c\<rparr>"

text \<open>A message that the inbox already has is accepted.\<close>

definition store_once :: "('b) ienv_scheme \<Rightarrow> NewInboxMessage \<Rightarrow> unit ing" where
  "store_once env msg =
     bnd (attempt (Store env msg)) (\<lambda>r. case r of
         Inl err \<Rightarrow> if errors_Is err Inbox_ErrAlreadyExists then ret () else throw err
       | Inr _ \<Rightarrow> ret ())"

definition inbox_Order :: "('b) ienv_scheme \<Rightarrow> ctx \<Rightarrow> OrderUpdateRequest \<Rightarrow> unit ing" where
  "inbox_Order env cx req = store_once env \<lparr>ni_IdempotencyKey = ''order_update:'' @ our_ProviderEventID req,
     ni_WebhookType = ''order_update'', ni_Payload = OrderUpdateRequest_json req\<rparr>"

definition inbox_Dispute :: "('b) ienv_scheme \<Rightarrow> ctx \<Rightarrow> DisputeUpdateRequest \<Rightarrow> unit ing" where
  "inbox_Dispute env cx req = store_once env \<lparr>ni_IdempotencyKey = ''dispute_update:'' @ dur_ProviderEventID req,
     ni_WebhookType = ''dispute_update'', ni_Payload = DisputeUpdateRequest_json req\<rparr>"

definition payment_webhook_key :: "PaymentWebhookRequest \<Rightarrow> string" where
  "payment_webhook_key req = ''payment_webhook:'' @ pwr_TransactionID req @ '':'' @ pwr_Event req"

definition inbox_Payment :: "('b) ienv_scheme \<Rightarrow> ctx \<Rightarrow> PaymentWebhookRequest \<Rightarrow> unit ing" where
  "inbox_Payment env cx req = store_once env \<lparr>ni_IdempotencyKey = payment_webhook_key req,
     ni_WebhookType = ''payment_webhook'', ni_Payload = PaymentWebhookRequest_json req\<rparr>"

definition InboxProcessor :: "('b) ienv_scheme \<Rightarrow> Processor" where
  "InboxProcessor env =
     \<lparr>pr_Order = inbox_Order env, pr_Dispute = inbox_Dispute env, pr_Payment = inbox_Payment env\<rparr>"

section \<open>The worker of the inbox\<close>

record WorkerConfig =
  wc_BatchSize :: int
  wc_MaxRetries :: int

definition isPermanentError :: "goerr \<Rightarrow> bool" where
  "isPermanentError err \<longleftrightarrow> errors_Is err Apiclient_ErrBadRequest \<or> errors_Is err Apiclient_ErrNotFound
     \<or> errors_Is err Apiclient_ErrInvalidStatus"

text \<open>A conflict means that paymanager has processed the webhook before.\<close>

definition unless_conflict :: "unit ing \<Rightarrow> unit ing" where
  "unless_conflict m = bnd (attempt m) (\<lambda>r. case r of
      Inl err \<Rightarrow> if errors_Is err Apiclient_ErrConflict then ret () else throw err | Inr _ \<Rightarrow> ret ())"

text \<open>The context of the worker carries no correlation identifier.\<close>

definition processMessage :: "('b) ienv_scheme \<Rightarrow> HTTPClient \<Rightarrow> InboxMessage \<Rightarrow> unit ing" where
  "processMessage env c msg =
    (if im_WebhookType msg = ''order_update'' then
       bnd (map_err (wrap ''unmarshal order update'') (of_sum (read_OrderUpdateRequest (im_Payload msg)))) (\<lambda>req.
       unless_conflict (SendOrderUpdate env c None req))
     else if im_WebhookType msg = ''dispute_update'' then
       bnd (map_err (wrap ''unmarshal dispute update'') (of_sum (read_DisputeUpdateRequest (im_Payload msg)))) (\<lambda>req.
       unless_conflict (SendDisputeUpdate env c None req))
     else throw (ErrText (''unknown webhook type: '' @ im_WebhookType msg)))"

definition settle_message :: "('b) ienv_scheme \<Rightarrow> HTTPClient \<Rightarrow> WorkerConfig \<Rightarrow> InboxMessage \<Rightarrow> unit ing" where
  "settle_message env c cfg msg =
     bnd (attempt (processMessage env c msg)) (\<lambda>r. case r of
         Inl err \<Rightarrow> bnd (attempt (MarkFailed env (im_ID msg) (Error err)
                     (if isPermanentError err then 0 else wc_MaxRetries cfg))) (\<lambda>_. ret ())
       | Inr _ \<Rightarrow> bnd (attempt (MarkProcessed env (im_ID msg))) (\<lambda>_. ret ()))"

fun settle_all :: "('b) ienv_scheme \<Rightarrow> HTTPClient \<Rightarrow> WorkerConfig \<Rightarrow> InboxMessage list \<Rightarrow> unit ing" where
  "settle_all env c cfg [] = ret ()"
| "settle_all env c cfg (msg # msgs) = bnd (settle_message env c cfg msg) (\<lambda>_. settle_all env c cfg msgs)"

definition poll :: "('b) ienv_scheme \<Rightarrow> HTTPClient \<Rightarrow> WorkerConfig \<Rightarrow> unit ing" where
  "poll env c cfg =
     bnd (attempt (FetchPending env (wc_BatchSize cfg))) (\<lambda>r. case r of
         Inl err \<Rightarrow> ret ()
       | Inr msgs \<Rightarrow> settle_all env c cfg msgs)"

text \<open>\<open>Start\<close>, for the number of ticks before the context is done.\<close>

fun worker_Start :: "('b) ienv_scheme \<Rightarrow> HTTPClient \<Rightarrow> WorkerConfig \<Rightarrow> nat \<Rightarrow> unit ing" where
  "worker_Start env c cfg 0 = throw (Sentinel Context_Canceled)"
| "worker_Start env c cfg (Suc n) = bnd (poll env c cfg) (\<lambda>_. worker_Start env c cfg n)"

section \<open>The endpoints\<close>

text \<open>A reply of a webhook: a JSON message, or the status 202 with an empty body.\<close>

definition webhook_reply :: "int \<Rightarrow> string \<Rightarrow> int \<times> json option" where
  "webhook_reply c msg = (c, Some (JObj [(''message'', JStr msg)]))"

definition webhook_error :: "goerr \<Rightarrow> int \<times> json option" where
  "webhook_error err =
    (if errors_Is err Apiclient_ErrInvalidStatus then webhook_reply 422 (Error err)
     else if errors_Is err Apiclient_ErrNotFound then webhook_reply 404 (Error err)
     else if errors_Is err Apiclient_ErrConflict then webhook_reply 409 (Error err)
     else webhook_reply 500 (Error err))"

text \<open>\<open>answer_webhook process on_err bad bound\<close>: the shape of the three handlers.\<close>

definition answer_webhook ::
  "('r \<Rightarrow> unit ing) \<Rightarrow> (goerr \<Rightarrow> int \<times> json option) \<Rightarrow> string \<Rightarrow> goerr + 'r \<Rightarrow> (int \<times> json option) ing" where
  "answer_webhook process on_err bad bound = (case bound of
      Inl err \<Rightarrow> ret (webhook_reply 400 bad)
    | Inr req \<Rightarrow> bnd (attempt (process req)) (\<lambda>r. case r of
        Inl err \<Rightarrow> ret (on_err err) | Inr _ \<Rightarrow> ret (202, None)))"

definition OrderHandler_Webhook :: "Processor \<Rightarrow> ctx \<Rightarrow> goerr + OrderUpdateRequest \<Rightarrow> (int \<times> json option) ing" where
  "OrderHandler_Webhook p cx = answer_webhook (pr_Order p cx) webhook_error ''Missing order_id''"

definition ChargebackHandler_Webhook :: "Processor \<Rightarrow> ctx \<Rightarrow> goerr + DisputeUpdateRequest \<Rightarrow> (int \<times> json option) ing" where
  "ChargebackHandler_Webhook p cx = answer_webhook (pr_Dispute p cx) webhook_error ''Invalid payload''"

definition PaymentHandler_Webhook :: "Processor \<Rightarrow> ctx \<Rightarrow> goerr + PaymentWebhookRequest \<Rightarrow> (int \<times> json option) ing" where
  "PaymentHandler_Webhook p cx = answer_webhook (pr_Payment p cx) (\<lambda>err. webhook_reply 500 (Error err)) ''Invalid payload''"

end
