(* ===== verification/IngestFacts.thy ===== *)
theory IngestFacts
  imports Ingest IdempotentLog
begin

text \<open>
  What holds of the inbox: webhooks are stored once for each key, a message is held by one
  worker at a time, retries are bounded, and a settled message stays settled. The system is
  a step relation over the operations of the repository and of the workers, in any order,
  with workers that may die at any point.
\<close>

section \<open>Storing\<close>

interpretation inbox_log: idempotent_log "sql_insert inbox_schema" ib_idempotency_key
  by (rule unique_index_log[of "''idx_inbox_idempotency''"]) (simp_all add: inbox_schema_def)

lemma inbox_rows_ok:
  "rows_ok inbox_schema rows \<longleftrightarrow> distinct (map ib_id rows) \<and> distinct (map ib_idempotency_key rows)"
  using no_clash_key[of ib_id rows] no_clash_key[of ib_idempotency_key rows]
  by (simp add: rows_ok_def inbox_schema_def)

text \<open>The server reports a duplicate only where there is one, and draws identifiers that are new.\<close>

definition honest :: "('b) ienv_scheme \<Rightarrow> inbox_row list \<Rightarrow> bool" where
  "honest env rows \<longleftrightarrow> (\<forall>n. fresh env n \<notin> ib_id ` set rows)
     \<and> (\<forall>n e. fault env n = Some e \<longrightarrow> \<not> IsPgErrorUniqueViolation e \<and> \<not> errors_Is e Inbox_ErrAlreadyExists)"

lemma insert_inbox_err:
  assumes "sql_insert inbox_schema row rows = Inl e" and "rows_ok inbox_schema rows" and "ib_id row \<notin> ib_id ` set rows"
  shows "ib_idempotency_key row \<in> ib_idempotency_key ` set rows"
proof (rule ccontr)
  assume "ib_idempotency_key row \<notin> ib_idempotency_key ` set rows"
  with assms(2,3) have "rows_ok inbox_schema (rows @ [row])" by (auto simp: inbox_rows_ok)
  then have "sql_insert inbox_schema row rows = Inr ((), rows @ [row])" by (simp add: sql_insert_ok)
  with assms(1) show False by simp
qed

text \<open>What one call of \<open>Store\<close> does to the rows.\<close>

lemma Store_okE:
  assumes "Store env msg w = (Inr u, w')"
  obtains i now where "data w' = data w @ [new_inbox_row i now msg]" and "rows_ok inbox_schema (data w')"
  using assms by (auto simp: Store_def sql_insert_ok elim!: run_elims)

lemma Store_err_data: "Store env msg w = (Inl e, w') \<Longrightarrow> data w' = data w"
  by (auto simp: Store_def elim!: run_elims)

lemma not_unique_failed_tx: "\<not> IsPgErrorUniqueViolation pg_in_failed_tx" "\<not> errors_Is pg_in_failed_tx s"
  by (simp_all add: IsPgErrorUniqueViolation_def pg_in_failed_tx_def)

lemma Store_duplicate:
  assumes "Store env msg w = (Inl e, w')" and "errors_Is e Inbox_ErrAlreadyExists"
    and "rows_ok inbox_schema (data w)" and "honest env (data w)"
  shows "ni_IdempotencyKey msg \<in> ib_idempotency_key ` set (data w)"
proof -
  let ?row = "new_inbox_row (fresh env (ticks w)) (clock env (Suc (ticks w))) msg"
  let ?w1 = "w\<lparr>ticks := Suc (Suc (ticks w))\<rparr>"
  from assms(1) obtain e0 where run: "sql env (sql_insert inbox_schema ?row) ?w1 = (Inl e0, w')"
    and e: "e = (if IsPgErrorUniqueViolation e0 then Sentinel Inbox_ErrAlreadyExists else wrap ''store inbox message'' e0)"
    by (auto simp: Store_def run_bnd run_ask run_map_err split: prod.splits sum.splits)
  from assms(4) e assms(2) not_unique_failed_tx have "\<not> (\<exists>n. fault env n = Some e0)" and "e0 \<noteq> pg_in_failed_tx"
    by (auto simp: honest_def split: if_splits)
  with run have "sql_insert inbox_schema ?row (data w) = Inl e0" by (auto elim!: sql_errE)
  from insert_inbox_err[OF this assms(3)] assms(4) show ?thesis
    by (simp add: honest_def new_inbox_row_def)
qed

lemma store_once_E:
  assumes "store_once env msg w = (r, w')"
  obtains (stored) i now where "r = Inr ()" and "data w' = data w @ [new_inbox_row i now msg]"
      and "rows_ok inbox_schema (data w')"
  | (known) e w1 where "r = Inr ()" and "data w' = data w" and "Store env msg w = (Inl e, w1)"
      and "errors_Is e Inbox_ErrAlreadyExists"
  | (failed) e where "r = Inl e" and "data w' = data w"
proof -
  obtain r1 w1 where run: "Store env msg w = (r1, w1)" by fastforce
  show thesis
  proof (cases r1)
    case (Inr u)
    with run assms have "r = Inr ()" "w' = w1" by (auto simp: store_once_def run_simps)
    with Store_okE run Inr show thesis by (metis stored)
  next
    case (Inl e)
    with run assms have "w' = w1" "r = (if errors_Is e Inbox_ErrAlreadyExists then Inr () else Inl e)"
      by (auto simp: store_once_def run_simps split: if_splits)
    with run Inl show thesis by (auto dest: Store_err_data intro: known failed split: if_splits)
  qed
qed

text \<open>
  A webhook that the inbox mode accepts is in the inbox, once, whether it was
  delivered for the first time or again.
\<close>

theorem accepted_is_stored:
  assumes "store_once env msg w = (Inr (), w')"
    and "rows_ok inbox_schema (data w)" and "honest env (data w)"
  shows "length (filter (\<lambda>r. ib_idempotency_key r = ni_IdempotencyKey msg) (data w')) = 1
    \<and> (ni_IdempotencyKey msg \<in> ib_idempotency_key ` set (data w) \<longrightarrow> data w' = data w)"
  using assms(1)
proof (cases rule: store_once_E)
  case (stored i now)
  from stored(3) have d: "distinct (map ib_idempotency_key (data w'))" by (simp add: inbox_rows_ok)
  from stored(2) have m: "new_inbox_row i now msg \<in> set (data w')" by simp
  have k: "ib_idempotency_key (new_inbox_row i now msg) = ni_IdempotencyKey msg" by (simp add: new_inbox_row_def)
  from d stored(2) k have "ni_IdempotencyKey msg \<notin> ib_idempotency_key ` set (data w)" by auto
  with filter_key_unique[OF d m] k show ?thesis by simp
next
  case (known e w1)
  from Store_duplicate[OF known(3,4) assms(2,3)] obtain row where row: "row \<in> set (data w)"
    "ib_idempotency_key row = ni_IdempotencyKey msg" by auto
  from assms(2) have "distinct (map ib_idempotency_key (data w))" by (simp add: inbox_rows_ok)
  from filter_key_unique[OF this row(1)] row(2) known(2) show ?thesis by simp
qed simp

section \<open>The operations of the workers\<close>

lemma keeps_data_api_retry:
  assumes "keeps_data I fn"
  shows "keeps_data I (api_retry env cfg fn left k lastErr)"
proof (induction left arbitrary: k lastErr)
  case 0
  show ?case unfolding api_retry.simps by (intro keeps_intros)
next
  case (Suc left)
  with assms show ?case unfolding api_retry.simps by (intro keeps_intros)
qed

lemma keeps_data_send [keeps_intros]:
  "keeps_data I (SendOrderUpdate env c cx req)" "keeps_data I (SendDisputeUpdate env c cx req')"
  "keeps_data I (SendPaymentWebhook env c cx req'')"
  unfolding SendOrderUpdate_def SendDisputeUpdate_def SendPaymentWebhook_def DoWithRetry_def sendRequest_def Let_def
  by (rule keeps_data_api_retry, intro keeps_intros)+

lemma keeps_data_processMessage [keeps_intros]: "keeps_data I (processMessage env c msg)"
  unfolding processMessage_def unless_conflict_def by (intro keeps_intros)

lemma update_inbox_E:
  assumes "update_inbox env what i f w = (r, w')"
  obtains (lost) "data w' = data w"
  | (written) "data w' = set_where (\<lambda>r. ib_id r = i) f (data w)" and "rows_ok inbox_schema (data w')"
proof -
  obtain q w1 where run: "sql env (sql_update inbox_schema (\<lambda>r. ib_id r = i) f) w = (q, w1)" by fastforce
  with assms have w': "w' = w1" by (auto simp: update_inbox_def run_simps split: sum.splits)
  from run w' show thesis
    by (cases q) (auto simp: sql_update_ok elim!: sql_okE sql_errE intro: lost written)
qed

text \<open>What a worker may write to the row of a message it holds.\<close>

definition verdict :: "WorkerConfig \<Rightarrow> (inbox_row \<Rightarrow> inbox_row) \<Rightarrow> bool" where
  "verdict cfg f \<longleftrightarrow> (\<exists>now. f = (\<lambda>r. r\<lparr>ib_status := ''processed'', ib_processed_at := Some now\<rparr>))
     \<or> (\<exists>e n. f = failed_row e n \<and> (n = 0 \<or> n = wc_MaxRetries cfg))"

lemma settle_message_E:
  assumes "settle_message env c cfg msg w = (r, w')"
  obtains (lost) "data w' = data w"
  | (written) f where "verdict cfg f" and "data w' = set_where (\<lambda>r. ib_id r = im_ID msg) f (data w)"
      and "rows_ok inbox_schema (data w')"
proof -
  obtain q w1 where run: "processMessage env c msg w = (q, w1)" by fastforce
  have d: "data w1 = data w"
    using keepsD[OF keeps_data_processMessage[of "\<lambda>d. d = data w"] run] by simp
  show thesis
  proof (cases q)
    case (Inl err)
    let ?n = "if isPermanentError err then 0 else wc_MaxRetries cfg"
    from assms run Inl have "w' = snd (MarkFailed env (im_ID msg) (Error err) ?n w1)"
      by (simp add: settle_message_def run_simps)
    then obtain q2 where "MarkFailed env (im_ID msg) (Error err) ?n w1 = (q2, w')" by (metis prod.collapse)
    from this[unfolded MarkFailed_def] show thesis
    proof (cases rule: update_inbox_E)
      case written
      have "verdict cfg (failed_row (Error err) ?n)" by (auto simp: verdict_def)
      from that(2)[OF this] written d show thesis by simp
    qed (use d that(1) in simp)
  next
    case (Inr u)
    from assms run Inr have "w' = snd (MarkProcessed env (im_ID msg) w1)"
      by (simp add: settle_message_def run_simps)
    then obtain q2 where "MarkProcessed env (im_ID msg) w1 = (q2, w')" by (metis prod.collapse)
    then obtain now w2 where u: "update_inbox env ''mark inbox message processed'' (im_ID msg)
        (\<lambda>r. r\<lparr>ib_status := ''processed'', ib_processed_at := Some now\<rparr>) w2 = (q2, w')" and d2: "data w2 = data w1"
      by (auto simp: MarkProcessed_def run_bnd run_ask)
    from u show thesis
    proof (cases rule: update_inbox_E)
      case written
      have "verdict cfg (\<lambda>r. r\<lparr>ib_status := ''processed'', ib_processed_at := Some now\<rparr>)" by (auto simp: verdict_def)
      from that(2)[OF this] written d d2 show thesis by simp
    qed (use d d2 that(1) in simp)
  qed
qed

lemma FetchPending_okE:
  assumes "FetchPending env limit w = (Inr msgs, w')"
  obtains ids where "ids = claim_ids (locked env (ticks w)) (nat limit) (data w)" and "0 \<le> limit"
    and "msgs = map message_of_row (filter (\<lambda>r. ib_id r \<in> set ids) (data w))"
    and "data w' = set_where (\<lambda>r. ib_id r \<in> set ids) (\<lambda>r. r\<lparr>ib_status := ''processing''\<rparr>) (data w)"
proof -
  from assms have "claim (locked env (ticks w)) limit (data w) = Inr (msgs, data w')"
    by (auto simp: FetchPending_def elim!: run_elims)
  then show thesis by (intro that) (auto simp: claim_def Let_def split: if_splits)
qed

lemma claim_ids_pending:
  assumes "rows_ok inbox_schema rows" and "r \<in> set rows" and "ib_id r \<in> set (claim_ids lck n rows)"
  shows "ib_status r = ''pending''"
proof -
  from assms(3) obtain r' where r': "r' \<in> set rows" "claimable lck r'" "ib_id r' = ib_id r"
    by (auto simp: claim_ids_def dest!: in_set_takeD)
  moreover from assms(1) have "distinct (map ib_id rows)" by (simp add: inbox_rows_ok)
  ultimately have "r' = r" using assms(2) by (simp add: distinct_map inj_on_def)
  with r'(2) show ?thesis by (simp add: claimable_def)
qed

section \<open>The system\<close>

text \<open>The rows, and the messages that workers have fetched and not yet settled.\<close>

record inbox_sys =
  sys_rows :: "inbox_row list"
  sys_held :: "InboxMessage list"

inductive inbox_step :: "WorkerConfig \<Rightarrow> inbox_sys \<Rightarrow> inbox_sys \<Rightarrow> bool" for cfg where
  receive: "store_once (env :: ienv) msg w = (r, w') \<Longrightarrow> data w = sys_rows s \<Longrightarrow>
    inbox_step cfg s (s\<lparr>sys_rows := data w'\<rparr>)"
| fetch: "FetchPending (env :: ienv) (wc_BatchSize cfg) w = (Inr msgs, w') \<Longrightarrow> data w = sys_rows s \<Longrightarrow>
    inbox_step cfg s (s\<lparr>sys_rows := data w', sys_held := sys_held s @ msgs\<rparr>)"
| settle: "settle_message (env :: ienv) c cfg msg w = (r, w') \<Longrightarrow> data w = sys_rows s \<Longrightarrow>
    sys_held s = xs @ msg # ys \<Longrightarrow> inbox_step cfg s (s\<lparr>sys_rows := data w', sys_held := xs @ ys\<rparr>)"
| crash: "sys_held s = xs @ msg # ys \<Longrightarrow> inbox_step cfg s (s\<lparr>sys_held := xs @ ys\<rparr>)"

definition empty_inbox :: inbox_sys where
  "empty_inbox = \<lparr>sys_rows = [], sys_held = []\<rparr>"

definition inbox_reachable :: "WorkerConfig \<Rightarrow> inbox_sys \<Rightarrow> bool" where
  "inbox_reachable cfg s \<longleftrightarrow> (inbox_step cfg)\<^sup>*\<^sup>* empty_inbox s"

definition open_status :: "string \<Rightarrow> bool" where
  "open_status st \<longleftrightarrow> st = ''pending'' \<or> st = ''processing''"

definition final_status :: "string \<Rightarrow> bool" where
  "final_status st \<longleftrightarrow> st = ''processed'' \<or> st = ''failed''"

text \<open>The bounds on the retries of a row.\<close>

definition retries_ok :: "WorkerConfig \<Rightarrow> inbox_row \<Rightarrow> bool" where
  "retries_ok cfg r \<longleftrightarrow> 0 \<le> ib_retry_count r \<and> ib_retry_count r \<le> max 1 (wc_MaxRetries cfg)
     \<and> (open_status (ib_status r) \<longrightarrow> ib_retry_count r = 0 \<or> ib_retry_count r < wc_MaxRetries cfg)
     \<and> (open_status (ib_status r) \<or> final_status (ib_status r))"

definition inbox_inv :: "WorkerConfig \<Rightarrow> inbox_sys \<Rightarrow> bool" where
  "inbox_inv cfg s \<longleftrightarrow> rows_ok inbox_schema (sys_rows s) \<and> distinct (map im_ID (sys_held s))
     \<and> (\<forall>m\<in>set (sys_held s). \<exists>r\<in>set (sys_rows s). message_of_row r = m \<and> ib_status r = ''processing'')
     \<and> (\<forall>r\<in>set (sys_rows s). retries_ok cfg r)"

text \<open>What one step may do to a row.\<close>

definition row_move :: "WorkerConfig \<Rightarrow> inbox_row \<Rightarrow> inbox_row \<Rightarrow> bool" where
  "row_move cfg r r' \<longleftrightarrow> r' = r
     \<or> ib_status r = ''pending'' \<and> r' = r\<lparr>ib_status := ''processing''\<rparr>
     \<or> ib_status r = ''processing'' \<and> (\<exists>f. verdict cfg f \<and> r' = f r)"

lemma row_move_same: "row_move cfg r r' \<Longrightarrow> ib_id r' = ib_id r \<and> ib_idempotency_key r' = ib_idempotency_key r
    \<and> ib_webhook_type r' = ib_webhook_type r \<and> ib_payload r' = ib_payload r \<and> ib_received_at r' = ib_received_at r"
  by (auto simp: row_move_def verdict_def failed_row_def)

lemma row_move_final: "row_move cfg r r' \<Longrightarrow> final_status (ib_status r) \<Longrightarrow> r' = r"
  by (auto simp: row_move_def final_status_def)

lemma verdict_retries:
  assumes "verdict cfg f" and "retries_ok cfg r" and "ib_status r = ''processing''"
  shows "retries_ok cfg (f r)"
proof -
  from assms(2,3) have n: "0 \<le> ib_retry_count r" "ib_retry_count r \<le> max 1 (wc_MaxRetries cfg)"
    "ib_retry_count r = 0 \<or> ib_retry_count r < wc_MaxRetries cfg"
    by (simp_all add: retries_ok_def open_status_def)
  from assms(1) consider now where "f = (\<lambda>r. r\<lparr>ib_status := ''processed'', ib_processed_at := Some now\<rparr>)"
    | e k where "f = failed_row e k" "k = 0 \<or> k = wc_MaxRetries cfg"
    unfolding verdict_def by blast
  then show ?thesis
  proof cases
    case 1
    with n show ?thesis by (simp add: retries_ok_def open_status_def final_status_def)
  next
    case 2
    with n show ?thesis by (cases "k \<le> ib_retry_count r + 1")
      (auto simp: retries_ok_def open_status_def final_status_def failed_row_def)
  qed
qed

lemma row_move_retries: "row_move cfg r r' \<Longrightarrow> retries_ok cfg r \<Longrightarrow> retries_ok cfg r'"
  unfolding row_move_def by (auto simp: verdict_retries) (simp add: retries_ok_def open_status_def)

text \<open>A held message is the row it was read from, and that row is being processed.\<close>

lemma held_row:
  assumes "inbox_inv cfg s" and "m \<in> set (sys_held s)" and "r \<in> set (sys_rows s)" and "ib_id r = im_ID m"
  shows "ib_status r = ''processing''" and "message_of_row r = m"
proof -
  from assms(1,2) obtain r' where r': "r' \<in> set (sys_rows s)" "message_of_row r' = m" "ib_status r' = ''processing''"
    by (auto simp: inbox_inv_def)
  then have "ib_id r' = ib_id r" using assms(4) by (auto simp: message_of_row_def)
  moreover from assms(1) have "distinct (map ib_id (sys_rows s))" by (simp add: inbox_inv_def inbox_rows_ok)
  ultimately have "r' = r" using r'(1) assms(3) by (simp add: distinct_map inj_on_def)
  with r' show "ib_status r = ''processing''" and "message_of_row r = m" by simp_all
qed

text \<open>Every step moves the rows one by one, and adds pending ones at the end.\<close>

lemma inbox_step_rows:
  assumes "inbox_step cfg s s'" and "inbox_inv cfg s"
  obtains g new where "sys_rows s' = map g (sys_rows s) @ new"
    and "\<And>r. r \<in> set (sys_rows s) \<Longrightarrow> row_move cfg r (g r)"
    and "\<And>r. r \<in> set new \<Longrightarrow> retries_ok cfg r"
    and "rows_ok inbox_schema (sys_rows s')"
  using assms(1)
proof cases
  case (receive env msg w r w')
  have same: "\<And>r. row_move cfg r (id r)" by (simp add: row_move_def)
  from receive(2) show thesis
  proof (cases rule: store_once_E)
    case (stored i now)
    have "retries_ok cfg (new_inbox_row i now msg)"
      by (simp add: retries_ok_def new_inbox_row_def open_status_def)
    with stored receive(1,3) same show thesis by (intro that[of id "[new_inbox_row i now msg]"]) auto
  next
    case known
    with receive(1,3) same assms(2) show thesis by (intro that[of id "[]"]) (auto simp: inbox_inv_def)
  next
    case failed
    with receive(1,3) same assms(2) show thesis by (intro that[of id "[]"]) (auto simp: inbox_inv_def)
  qed
next
  case (fetch env w msgs w')
  from fetch(2) obtain ids where ids: "ids = claim_ids (locked env (ticks w)) (nat (wc_BatchSize cfg)) (data w)"
    and d: "data w' = set_where (\<lambda>r. ib_id r \<in> set ids) (\<lambda>r. r\<lparr>ib_status := ''processing''\<rparr>) (data w)"
    by (rule FetchPending_okE)
  let ?g = "\<lambda>r. if ib_id r \<in> set ids then r\<lparr>ib_status := ''processing''\<rparr> else r"
  from assms(2) have ok: "rows_ok inbox_schema (data w)" using fetch(3) by (simp add: inbox_inv_def)
  from claim_ids_pending[OF ok] ids have "row_move cfg r (?g r)" if "r \<in> set (data w)" for r
    using that by (auto simp: row_move_def)
  moreover have "rows_ok inbox_schema (data w')"
    using ok unfolding d inbox_rows_ok by (simp add: set_where_keys)
  ultimately show thesis using fetch(1,3) d by (intro that[of ?g "[]"]) (auto simp: set_where_def)
next
  case (settle env c msg w r w' xs ys)
  from settle(2) show thesis
  proof (cases rule: settle_message_E)
    case lost
    with settle(1,3) assms(2) show thesis by (intro that[of id "[]"]) (auto simp: inbox_inv_def row_move_def)
  next
    case (written f)
    let ?g = "\<lambda>r. if ib_id r = im_ID msg then f r else r"
    have "row_move cfg r (?g r)" if "r \<in> set (sys_rows s)" for r
      using held_row(1)[OF assms(2) _ that, of msg] settle(4) written(1) by (auto simp: row_move_def)
    with written(2,3) settle(1,3) show thesis by (intro that[of ?g "[]"]) (auto simp: set_where_def)
  qed
next
  case crash
  with assms(2) show thesis by (intro that[of id "[]"]) (auto simp: inbox_inv_def row_move_def)
qed

lemma message_of_row_move: "row_move cfg r r' \<Longrightarrow> ib_status r' = ''processing'' \<Longrightarrow> message_of_row r' = message_of_row r"
  by (auto simp: row_move_def verdict_def failed_row_def message_of_row_def split: if_splits)

lemma held_step:
  assumes "inbox_step cfg s s'" and "inbox_inv cfg s"
  shows "distinct (map im_ID (sys_held s'))
    \<and> (\<forall>m\<in>set (sys_held s'). \<exists>r\<in>set (sys_rows s'). message_of_row r = m \<and> ib_status r = ''processing'')"
proof -
  let ?on = "\<lambda>rows m. \<exists>r\<in>set rows. message_of_row r = m \<and> ib_status r = ''processing''"
  from assms(2) have dist: "distinct (map im_ID (sys_held s))" and held: "\<And>m. m \<in> set (sys_held s) \<Longrightarrow> ?on (sys_rows s) m"
    by (auto simp: inbox_inv_def)
  from assms(1) show ?thesis
  proof cases
    case (receive env msg w r w')
    from receive(2) have "set (sys_rows s) \<subseteq> set (data w')"
      unfolding receive(3)[symmetric] by (rule store_once_E) auto
    with held receive(1) dist show ?thesis by fastforce
  next
    case (fetch env w msgs w')
    from fetch(2) obtain ids where ids: "ids = claim_ids (locked env (ticks w)) (nat (wc_BatchSize cfg)) (data w)"
      and m: "msgs = map message_of_row (filter (\<lambda>r. ib_id r \<in> set ids) (data w))"
      and d: "data w' = set_where (\<lambda>r. ib_id r \<in> set ids) (\<lambda>r. r\<lparr>ib_status := ''processing''\<rparr>) (data w)"
      by (rule FetchPending_okE)
    from assms(2) have ok: "rows_ok inbox_schema (data w)" using fetch(3) by (simp add: inbox_inv_def)
    then have "distinct (map ib_id (data w))" by (simp add: inbox_rows_ok)
    then have dm: "distinct (map im_ID msgs)"
      by (simp add: m message_of_row_def comp_def distinct_map_filter)
    have pending: "ib_status r = ''pending''" if "r \<in> set (data w)" "ib_id r \<in> set ids" for r
      using claim_ids_pending[OF ok that(1)] that(2) ids by simp
    have old: "?on (data w') h \<and> im_ID h \<notin> set ids" if "h \<in> set (sys_held s)" for h
    proof -
      from held[OF that] obtain r where r: "r \<in> set (data w)" "message_of_row r = h" "ib_status r = ''processing''"
        using fetch(3) by auto
      with pending have "ib_id r \<notin> set ids" by auto
      with r show ?thesis unfolding d set_set_where by (force simp: message_of_row_def)
    qed
    have new: "?on (data w') h \<and> im_ID h \<in> set ids" if "h \<in> set msgs" for h
    proof -
      from that obtain r where r: "r \<in> set (data w)" "ib_id r \<in> set ids" "h = message_of_row r" by (auto simp: m)
      let ?r = "r\<lparr>ib_status := ''processing''\<rparr>"
      from r(1,2) have "?r \<in> set (data w')" unfolding d set_set_where by (auto intro!: image_eqI[of _ _ r])
      moreover have "message_of_row ?r = h" "ib_status ?r = ''processing''" "im_ID h \<in> set ids"
        using r by (simp_all add: message_of_row_def)
      ultimately show ?thesis by blast
    qed
    have "im_ID ` set msgs \<subseteq> set ids" "im_ID ` set (sys_held s) \<inter> set ids = {}" using old new by auto
    then have "im_ID ` set (sys_held s) \<inter> im_ID ` set msgs = {}" by blast
    with dist dm have "distinct (map im_ID (sys_held s @ msgs))" by simp
    moreover have "?on (data w') h" if "h \<in> set (sys_held s @ msgs)" for h using that old new by auto
    ultimately show ?thesis using fetch(1) by auto
  next
    case (settle env c msg w r w' xs ys)
    from settle(4) dist have "im_ID msg \<notin> im_ID ` set (xs @ ys)" by auto
    then have out: "im_ID h \<noteq> im_ID msg" if "h \<in> set (xs @ ys)" for h using that by (metis image_eqI)
    from settle(4) held have in': "?on (data w) h" if "h \<in> set (xs @ ys)" for h using that settle(3) by auto
    have "?on (data w') h" if "h \<in> set (xs @ ys)" for h
      using settle(2)
    proof (cases rule: settle_message_E)
      case lost
      with in'[OF that] show ?thesis by simp
    next
      case (written f)
      from in'[OF that] obtain r0 where r0: "r0 \<in> set (data w)" "message_of_row r0 = h" "ib_status r0 = ''processing''" by blast
      with out[OF that] have "ib_id r0 \<noteq> im_ID msg" by (auto simp: message_of_row_def)
      with r0 written(2) show ?thesis by (auto simp: set_set_where image_iff intro!: bexI[of _ r0])
    qed
    with settle(1,4) dist show ?thesis by auto
  next
    case (crash xs msg ys)
    with dist held show ?thesis by auto
  qed
qed

lemma inbox_step_inv:
  assumes "inbox_step cfg s s'" and "inbox_inv cfg s"
  shows "inbox_inv cfg s'"
proof -
  obtain g new where "sys_rows s' = map g (sys_rows s) @ new"
    and "\<And>r. r \<in> set (sys_rows s) \<Longrightarrow> row_move cfg r (g r)"
    and "\<And>r. r \<in> set new \<Longrightarrow> retries_ok cfg r" and "rows_ok inbox_schema (sys_rows s')"
    using assms by (rule inbox_step_rows) blast
  moreover from this(1,3) row_move_retries[OF this(2)] assms(2) have "\<forall>r\<in>set (sys_rows s'). retries_ok cfg r"
    by (auto simp: inbox_inv_def)
  ultimately show ?thesis using held_step[OF assms] by (simp add: inbox_inv_def)
qed

lemma inbox_steps_inv: "(inbox_step cfg)\<^sup>*\<^sup>* s s' \<Longrightarrow> inbox_inv cfg s \<Longrightarrow> inbox_inv cfg s'"
  by (induction rule: rtranclp_induct) (auto intro: inbox_step_inv)

lemma inbox_reachable_inv: "inbox_reachable cfg s \<Longrightarrow> inbox_inv cfg s"
  unfolding inbox_reachable_def
  by (erule inbox_steps_inv) (simp add: inbox_inv_def empty_inbox_def inbox_rows_ok)

text \<open>Rows move one by one over any number of steps.\<close>

definition row_life :: "WorkerConfig \<Rightarrow> inbox_row list \<Rightarrow> inbox_row list \<Rightarrow> bool" where
  "row_life cfg rows rows' \<longleftrightarrow> length rows \<le> length rows'
     \<and> (\<forall>i<length rows. (row_move cfg)\<^sup>*\<^sup>* (rows ! i) (rows' ! i))"

lemma inbox_steps_life:
  assumes "(inbox_step cfg)\<^sup>*\<^sup>* s s'" and "inbox_inv cfg s"
  shows "row_life cfg (sys_rows s) (sys_rows s')"
  using assms
proof (induction rule: rtranclp_induct)
  case base
  show ?case by (simp add: row_life_def)
next
  case (step s1 s2)
  from step(1,4) have "inbox_inv cfg s1" by (rule inbox_steps_inv)
  with step(2) obtain g new where g: "sys_rows s2 = map g (sys_rows s1) @ new"
    "\<And>r. r \<in> set (sys_rows s1) \<Longrightarrow> row_move cfg r (g r)" by (rule inbox_step_rows) blast
  with step show ?case
    unfolding row_life_def by (auto simp: nth_append intro: rtranclp.rtrancl_into_rtrancl)
qed

lemma row_moves_same: "(row_move cfg)\<^sup>*\<^sup>* r r' \<Longrightarrow> ib_id r' = ib_id r \<and> ib_idempotency_key r' = ib_idempotency_key r
    \<and> ib_webhook_type r' = ib_webhook_type r \<and> ib_payload r' = ib_payload r"
  by (induction rule: rtranclp_induct) (auto dest: row_move_same)

lemma row_moves_final: "(row_move cfg)\<^sup>*\<^sup>* r r' \<Longrightarrow> final_status (ib_status r) \<Longrightarrow> r' = r"
  by (induction rule: rtranclp_induct) (auto dest: row_move_final)

section \<open>What the inbox guarantees\<close>

text \<open>
  C3. However many workers poll the inbox, fail and die, a message is in the hands of at
  most one of them, and only while its row is being processed.
\<close>

theorem message_held_once:
  assumes "inbox_reachable cfg s"
  shows "distinct (map im_ID (sys_held s)) \<and> im_ID ` set (sys_held s)
    \<subseteq> ib_id ` set (filter (\<lambda>r. ib_status r = ''processing'') (sys_rows s))"
  using inbox_reachable_inv[OF assms] unfolding inbox_inv_def message_of_row_def by force

text \<open>
  C23. A message is tried at most \<open>MaxRetries\<close> times: a row that will be tried again has
  failed less often than that, and no row has failed more often.
\<close>

theorem retries_bounded:
  assumes "inbox_reachable cfg s" and "r \<in> set (sys_rows s)"
  shows "0 \<le> ib_retry_count r \<and> ib_retry_count r \<le> max 1 (wc_MaxRetries cfg)
    \<and> (\<not> final_status (ib_status r) \<longrightarrow> ib_retry_count r = 0 \<or> ib_retry_count r < wc_MaxRetries cfg)"
  using inbox_reachable_inv[OF assms(1)] assms(2) unfolding inbox_inv_def retries_ok_def by fastforce

text \<open>
  C22. A webhook that was stored is never lost nor changed, and once it was processed or
  has failed its row stays as it is, whatever happens afterwards.
\<close>

theorem settled_messages_stay:
  assumes "inbox_reachable cfg s" and "(inbox_step cfg)\<^sup>*\<^sup>* s s'" and "i < length (sys_rows s)"
  shows "i < length (sys_rows s') \<and> ib_id (sys_rows s' ! i) = ib_id (sys_rows s ! i)
    \<and> ib_payload (sys_rows s' ! i) = ib_payload (sys_rows s ! i)
    \<and> (final_status (ib_status (sys_rows s ! i)) \<longrightarrow> sys_rows s' ! i = sys_rows s ! i)"
proof -
  have "row_life cfg (sys_rows s) (sys_rows s')"
    using assms(2) inbox_reachable_inv[OF assms(1)] by (rule inbox_steps_life)
  then have "i < length (sys_rows s')" "(row_move cfg)\<^sup>*\<^sup>* (sys_rows s ! i) (sys_rows s' ! i)"
    using assms(3) by (auto simp: row_life_def)
  with row_moves_same[OF this(2)] row_moves_final[OF this(2)] show ?thesis by blast
qed

section \<open>The inbox as a queue\<close>

text \<open>The abstract queue: the pending messages, oldest first.\<close>

definition pending_queue :: "inbox_row list \<Rightarrow> string list" where
  "pending_queue rows = map ib_id (sort_key ib_received_at (filter (\<lambda>r. ib_status r = ''pending'') rows))"

lemma filter_not_taken:
  assumes "distinct (map k xs)"
  shows "filter (\<lambda>x. k x \<notin> k ` set (take n xs)) xs = drop n xs"
proof -
  have disj: "k ` set (take n xs) \<inter> k ` set (drop n xs) = {}"
    using assms by (metis append_take_drop_id distinct_append map_append set_map)
  let ?P = "\<lambda>x. k x \<notin> k ` set (take n xs)"
  have "filter ?P xs = filter ?P (take n xs) @ filter ?P (drop n xs)"
    by (metis append_take_drop_id filter_append)
  also have "filter ?P (take n xs) = []" by (auto simp: filter_empty_conv)
  also have "filter ?P (drop n xs) = drop n xs" using disj by (intro filter_True) auto
  finally show ?thesis by simp
qed

lemma pending_after_claim:
  "filter (\<lambda>r. ib_status r = ''pending'')
     (set_where (\<lambda>r. ib_id r \<in> I) (\<lambda>r. r\<lparr>ib_status := ''processing''\<rparr>) rows)
   = filter (\<lambda>r. ib_id r \<notin> I) (filter (\<lambda>r. ib_status r = ''pending'') rows)"
  by (induction rows) (auto simp: set_where_def)

text \<open>
  C9. Fetching a batch refines taking the first messages off a queue: when no row is locked
  by another worker, exactly the oldest pending messages are handed out and the others
  remain, in their order.
\<close>

theorem fetch_refines_queue:
  assumes "FetchPending env limit w = (Inr msgs, w')" and "locked env (ticks w) = []"
    and "rows_ok inbox_schema (data w)"
  shows "set (map im_ID msgs) = set (take (nat limit) (pending_queue (data w)))
    \<and> length msgs = length (take (nat limit) (pending_queue (data w)))
    \<and> pending_queue (data w') = drop (nat limit) (pending_queue (data w))"
proof -
  let ?p = "\<lambda>r. ib_status r = ''pending''" and ?n = "nat limit"
  let ?q = "sort_key ib_received_at (filter ?p (data w))"
  from assms(1) obtain ids where ids: "ids = claim_ids (locked env (ticks w)) ?n (data w)"
    and m: "msgs = map message_of_row (filter (\<lambda>r. ib_id r \<in> set ids) (data w))"
    and d: "data w' = set_where (\<lambda>r. ib_id r \<in> set ids) (\<lambda>r. r\<lparr>ib_status := ''processing''\<rparr>) (data w)"
    by (rule FetchPending_okE)
  have claim: "claimable [] = ?p" by (rule ext) (simp add: claimable_def)
  have ids': "ids = take ?n (pending_queue (data w))"
    unfolding ids assms(2) claim_ids_def claim pending_queue_def by (simp add: take_map)
  from assms(3) have dist: "distinct (map ib_id (data w))" by (simp add: inbox_rows_ok)
  then have "distinct (map ib_id (filter ?p (data w)))" by (rule distinct_map_filter)
  then have dq: "distinct (map ib_id ?q)" by (simp add: distinct_map)
  have sub: "set ids \<subseteq> ib_id ` set (data w)"
    unfolding ids' pending_queue_def by (auto dest!: in_set_takeD)
  have ids_m: "map im_ID msgs = filter (\<lambda>i. i \<in> set ids) (map ib_id (data w))"
    by (simp add: m message_of_row_def comp_def filter_map)
  then have set_m: "set (map im_ID msgs) = set ids" using sub by auto
  have "distinct (map im_ID msgs)" unfolding ids_m using dist by simp
  moreover have "distinct ids" using dq unfolding ids' pending_queue_def by simp
  ultimately have len: "length msgs = length ids" using set_m by (metis distinct_card length_map)
  have "filter ?p (data w') = filter (\<lambda>r. ib_id r \<notin> set ids) (filter ?p (data w))"
    unfolding d by (rule pending_after_claim)
  then have "pending_queue (data w') = map ib_id (filter (\<lambda>r. ib_id r \<notin> set ids) ?q)"
    by (simp add: pending_queue_def filter_sort)
  also have "set ids = ib_id ` set (take ?n ?q)" by (simp add: ids' pending_queue_def take_map)
  also have "filter (\<lambda>r. ib_id r \<notin> ib_id ` set (take ?n ?q)) ?q = drop ?n ?q" by (rule filter_not_taken[OF dq])
  finally show ?thesis using set_m len ids' by (simp add: pending_queue_def drop_map)
qed

section \<open>Requests to paymanager\<close>

text \<open>What the retried request may leave behind: some copies of one request, and how the last one ended.\<close>

lemma sendRequest_run:
  "sendRequest env c cx path b w = (case api_Do env (ticks w) (hc_baseURL c @ path) b of
      Inl err \<Rightarrow> Inl (Wrapped '''' (Sentinel Apiclient_ErrServiceUnavailable) ('': '' @ Error err))
    | Inr resp \<Rightarrow> handleResponse resp,
    tick (w\<lparr>trace := trace w @ [ApiPost (hc_baseURL c @ path) ((''Content-Type'', ''application/json'') # corr_header HeaderName cx) b]\<rparr>))"
  by (simp add: sendRequest_def Let_def run_simps split: sum.splits)

lemma handleResponse_ok: "handleResponse resp = Inr u \<longleftrightarrow> 200 \<le> aa_StatusCode resp \<and> aa_StatusCode resp < 300"
  by (auto simp: handleResponse_def Let_def)

definition answered_ok :: "('b) ienv_scheme \<Rightarrow> string \<Rightarrow> json \<Rightarrow> bool" where
  "answered_ok env url b \<longleftrightarrow> (\<exists>t resp. api_Do env t url b = Inr resp \<and> 200 \<le> aa_StatusCode resp \<and> aa_StatusCode resp < 300)"

lemma api_retry_sends:
  assumes "api_retry env cfg (sendRequest env c cx path b) left k lastErr w = (r, w')" and "0 < left"
  shows "\<exists>n. 0 < n \<and> n \<le> left \<and> trace w' = trace w @ replicate n (ApiPost (hc_baseURL c @ path) ((''Content-Type'', ''application/json'') # corr_header HeaderName cx) b)
    \<and> data w' = data w \<and> (r = Inr () \<longrightarrow> answered_ok env (hc_baseURL c @ path) b)"
  using assms
proof (induction left arbitrary: k lastErr w)
  case (Suc left)
  let ?url = "hc_baseURL c @ path"
  obtain q w1 where send: "sendRequest env c cx path b w = (q, w1)" by fastforce
  then have w1: "trace w1 = trace w @ [ApiPost ?url ((''Content-Type'', ''application/json'') # corr_header HeaderName cx) b]" "data w1 = data w"
    by (auto simp: sendRequest_run)
  show ?case
  proof (cases q)
    case (Inr u)
    with send have "answered_ok env ?url b"
      by (auto simp: sendRequest_run answered_ok_def handleResponse_ok split: sum.splits)
    with Suc.prems(1) send Inr w1 show ?thesis by (intro exI[of _ 1]) (simp add: run_simps)
  next
    case (Inl err)
    show ?thesis
    proof (cases "r = Inl err \<and> w' = w1 \<or> (\<exists>v. r = Inl (Sentinel Context_Canceled) \<and> trace w' = trace w1 \<and> data w' = data w1)")
      case True
      with w1 show ?thesis by (intro exI[of _ 1]) auto
    next
      case False
      with Suc.prems(1) send Inl obtain v where v: "api_retry env cfg (sendRequest env c cx path b) left (Suc k) (Some err) v = (r, w')"
        and "trace v = trace w1" "data v = data w1" "0 < left"
        by (auto simp: run_simps split: if_splits)
      with Suc.IH[OF v] obtain n where "0 < n" "n \<le> left" "trace w' = trace w1 @ replicate n (ApiPost ?url ((''Content-Type'', ''application/json'') # corr_header HeaderName cx) b)"
        "data w' = data w1" "r = Inr () \<longrightarrow> answered_ok env ?url b" by auto
      with w1 show ?thesis by (intro exI[of _ "Suc n"]) auto
    qed
  qed
qed simp

text \<open>
  C20. A webhook sent to paymanager is sent at least once and at most \<open>MaxAttempts\<close> times,
  always the same request, and it counts as delivered only if an answer had a 2xx status.
\<close>

theorem requests_bounded:
  assumes "DoWithRetry env cfg (sendRequest env c cx path b) w = (r, w')" and "0 < ac_MaxAttempts cfg"
  shows "\<exists>n. 0 < n \<and> int n \<le> ac_MaxAttempts cfg
    \<and> trace w' = trace w @ replicate n (ApiPost (hc_baseURL c @ path) ((''Content-Type'', ''application/json'') # corr_header HeaderName cx) b)
    \<and> (r = Inr () \<longrightarrow> answered_ok env (hc_baseURL c @ path) b)"
proof -
  have "0 < nat (ac_MaxAttempts cfg)" using assms(2) by simp
  from api_retry_sends[OF assms(1)[unfolded DoWithRetry_def] this] assms(2) show ?thesis by force
qed

text \<open>Without attempts nothing is sent, and nothing is reported.\<close>

lemma no_attempts: "ac_MaxAttempts cfg \<le> 0 \<Longrightarrow> DoWithRetry env cfg fn w = (Inr (), w)"
  by (simp add: DoWithRetry_def)

lemma to_duration_nonneg: "0 \<le> x \<Longrightarrow> to_duration x = \<lfloor>x\<rfloor>"
  by (simp add: to_duration_def)

text \<open>
  The delay before the next attempt is never negative and never above the maximum, and
  within a quarter of the exponential delay below the maximum.
\<close>

theorem backoff_bounded:
  assumes "0 \<le> rnd" and "rnd \<le> 1" and "0 \<le> baseDelay" and "0 \<le> maxDelay"
  shows "0 \<le> calculateBackoff rnd k baseDelay maxDelay \<and> calculateBackoff rnd k baseDelay maxDelay \<le> maxDelay
    \<and> 4 * calculateBackoff rnd k baseDelay maxDelay \<le> 5 * (baseDelay * 2 ^ k)"
proof -
  let ?d = "of_int baseDelay * 2 ^ k :: rat"
  let ?j = "?d + ?d * (1 / 4) * (rnd * 2 - 1)"
  have d: "0 \<le> ?d" using assms(3) by simp
  have "?d * (rnd * 2 - 1) \<le> ?d * 1" by (rule mult_left_mono) (use assms(2) d in simp_all)
  moreover have "?d * (- 1) \<le> ?d * (rnd * 2 - 1)" by (rule mult_left_mono) (use assms(1) d in simp_all)
  ultimately have j: "0 \<le> ?j" "4 * ?j \<le> 5 * ?d" using d by (simp_all add: field_simps)
  let ?x = "if of_int maxDelay < ?j then of_int maxDelay else ?j"
  have x: "0 \<le> ?x" "?x \<le> of_int maxDelay" "4 * ?x \<le> 5 * ?d" using j assms(4) by (auto simp: not_less)
  have b: "calculateBackoff rnd k baseDelay maxDelay = \<lfloor>?x\<rfloor>"
    by (simp only: calculateBackoff_def Let_def to_duration_nonneg[OF x(1)])
  have "of_int (4 * \<lfloor>?x\<rfloor>) \<le> 4 * ?x" by simp
  also note x(3)
  also have "5 * ?d = of_int (5 * (baseDelay * 2 ^ k))" by simp
  finally have "4 * \<lfloor>?x\<rfloor> \<le> 5 * (baseDelay * 2 ^ k)" by (simp only: of_int_le_iff)
  moreover have "0 \<le> \<lfloor>?x\<rfloor>" using x(1) by (simp only: zero_le_floor)
  moreover have "\<lfloor>?x\<rfloor> \<le> maxDelay" using x(2) by (metis floor_mono floor_of_int)
  ultimately show ?thesis by (simp only: b)
qed

section \<open>A poll\<close>

lemma keeps_calm_processMessage [keeps_intros]: "keeps_calm (processMessage env c msg)"
proof -
  have "keeps_calm (api_retry env cfg (sendRequest env c cx path b) left k lastErr)" for cfg cx path b left k lastErr
  proof (induction left arbitrary: k lastErr)
    case 0
    show ?case unfolding api_retry.simps by (intro keeps_intros)
  next
    case (Suc left)
    then show ?case unfolding api_retry.simps sendRequest_def Let_def by (intro keeps_intros)
  qed
  then show ?thesis
    unfolding processMessage_def unless_conflict_def SendOrderUpdate_def SendDisputeUpdate_def DoWithRetry_def
    by (intro keeps_intros)
qed

lemma verdict_row: "verdict cfg f \<Longrightarrow> ib_id (f r) = ib_id r \<and> ib_idempotency_key (f r) = ib_idempotency_key r
    \<and> ib_status (f r) \<noteq> ''processing''"
  by (auto simp: verdict_def failed_row_def split: if_splits)

lemma rows_ok_verdict: "verdict cfg f \<Longrightarrow> rows_ok inbox_schema rows \<Longrightarrow> rows_ok inbox_schema (set_where p f rows)"
  by (simp add: inbox_rows_ok set_where_keys verdict_row)

definition calm :: "(inbox_row list, in_effect) world \<Rightarrow> bool" where
  "calm w \<longleftrightarrow> \<not> in_tx w \<and> \<not> tx_failed w"

lemma update_inbox_run:
  assumes "healthy env" and "calm w" and "verdict cfg f" and "rows_ok inbox_schema (data w)"
  shows "data (snd (update_inbox env what i f w)) = set_where (\<lambda>r. ib_id r = i) f (data w)
    \<and> calm (snd (update_inbox env what i f w))"
proof -
  have "sql_update inbox_schema (\<lambda>r. ib_id r = i) f (data w)
      = Inr (length (filter (\<lambda>r. ib_id r = i) (data w)), set_where (\<lambda>r. ib_id r = i) f (data w))"
    using rows_ok_verdict[OF assms(3,4)] by (simp add: sql_update_ok)
  with assms(1,2) show ?thesis by (simp add: update_inbox_def run_simps sql_run calm_def)
qed

lemma settle_message_run:
  assumes "healthy env" and "calm w" and "rows_ok inbox_schema (data w)" and "settle_message env c cfg msg w = (r, w')"
  obtains f where "verdict cfg f" and "data w' = set_where (\<lambda>r. ib_id r = im_ID msg) f (data w)" and "calm w'"
    and "rows_ok inbox_schema (data w')"
proof -
  obtain q w1 where run: "processMessage env c msg w = (q, w1)" by fastforce
  have d: "data w1 = data w"
    using keepsD[OF keeps_data_processMessage[of "\<lambda>d. d = data w"] run] by simp
  have c1: "calm w1" using keepsD[OF keeps_calm_processMessage run] assms(2) by (simp add: calm_def)
  show thesis
  proof (cases q)
    case (Inl err)
    let ?f = "failed_row (Error err) (if isPermanentError err then 0 else wc_MaxRetries cfg)"
    from assms(4) run Inl have "w' = snd (update_inbox env ''mark inbox message failed'' (im_ID msg) ?f w1)"
      by (simp add: settle_message_def MarkFailed_def run_simps)
    moreover have "verdict cfg ?f" by (auto simp: verdict_def)
    ultimately show thesis using update_inbox_run[OF assms(1) c1, of cfg ?f] d assms(3)
      by (intro that[of ?f]) (simp_all add: rows_ok_verdict)
  next
    case (Inr u)
    let ?f = "\<lambda>r. r\<lparr>ib_status := ''processed'', ib_processed_at := Some (clock env (ticks w1))\<rparr>"
    from assms(4) run Inr have "w' = snd (update_inbox env ''mark inbox message processed'' (im_ID msg) ?f (tick w1))"
      by (simp add: settle_message_def MarkProcessed_def run_simps)
    moreover have "verdict cfg ?f" by (auto simp: verdict_def)
    moreover have "calm (tick w1)" using c1 by (simp add: calm_def)
    ultimately show thesis using update_inbox_run[OF assms(1), of "tick w1" cfg ?f] d assms(3)
      by (intro that[of ?f]) (simp_all add: rows_ok_verdict)
  qed
qed

lemma settle_all_run:
  assumes "healthy env" and "calm w" and "rows_ok inbox_schema (data w)" and "settle_all env c cfg msgs w = (r, w')"
  obtains g where "data w' = map g (data w)" and "\<And>x. ib_id (g x) = ib_id x"
    and "\<And>x. ib_id x \<notin> im_ID ` set msgs \<Longrightarrow> g x = x"
    and "\<And>x. ib_id x \<in> im_ID ` set msgs \<Longrightarrow> ib_status (g x) \<noteq> ''processing''"
  using assms(2-4)
proof (induction msgs arbitrary: w thesis)
  case Nil
  then show ?case by (intro Nil.prems(1)[of id]) auto
next
  case (Cons msg msgs)
  obtain q w1 where m: "settle_message env c cfg msg w = (q, w1)" by fastforce
  from settle_message_run[OF assms(1) Cons.prems(2,3) m] obtain f where f: "verdict cfg f"
    "data w1 = set_where (\<lambda>r. ib_id r = im_ID msg) f (data w)" "calm w1" "rows_ok inbox_schema (data w1)" .
  have "q = Inr ()"
    using m by (auto simp: settle_message_def run_simps split: prod.splits sum.splits)
  with Cons.prems(4) m have rest: "settle_all env c cfg msgs w1 = (r, w')" by (simp add: run_simps)
  from Cons.IH[OF _ f(3,4) rest] obtain g where g: "data w' = map g (data w1)" "\<And>x. ib_id (g x) = ib_id x"
    "\<And>x. ib_id x \<notin> im_ID ` set msgs \<Longrightarrow> g x = x"
    "\<And>x. ib_id x \<in> im_ID ` set msgs \<Longrightarrow> ib_status (g x) \<noteq> ''processing''" by metis
  let ?h = "\<lambda>r. g (if ib_id r = im_ID msg then f r else r)"
  from verdict_row[OF f(1)] g show ?case
    by (intro Cons.prems(1)[of ?h]) (auto simp: f(2) set_where_def, metis+)
qed

text \<open>
  C21. When the database works, a poll settles every message it fetches: the rows that are
  still being processed afterwards are those that another worker had claimed before.
\<close>

theorem poll_settles_batch:
  assumes "healthy env" and "calm w" and "rows_ok inbox_schema (data w)" and "poll env c cfg w = (r, w')"
    and "x \<in> set (data w')" and "ib_status x = ''processing''"
  shows "x \<in> set (data w)"
proof -
  obtain q w1 where fetch: "FetchPending env (wc_BatchSize cfg) w = (q, w1)" by fastforce
  show ?thesis
  proof (cases q)
    case (Inl e)
    with assms(4) fetch have "w' = w1" by (simp add: poll_def run_simps)
    moreover have "data w1 = data w" using fetch unfolding Inl FetchPending_def by (auto elim!: run_elims)
    ultimately show ?thesis using assms(5) by simp
  next
    case (Inr msgs)
    from fetch[unfolded Inr] obtain ids where ids: "ids = claim_ids (locked env (ticks w)) (nat (wc_BatchSize cfg)) (data w)"
      and m: "msgs = map message_of_row (filter (\<lambda>r. ib_id r \<in> set ids) (data w))"
      and d: "data w1 = set_where (\<lambda>r. ib_id r \<in> set ids) (\<lambda>r. r\<lparr>ib_status := ''processing''\<rparr>) (data w)"
      by (rule FetchPending_okE)
    have ok: "rows_ok inbox_schema (data w1)" using assms(3) unfolding d inbox_rows_ok by (simp add: set_where_keys)
    have c1: "calm w1"
      using fetch assms(1,2) by (auto simp: FetchPending_def run_simps sql_run calm_def claim_def Let_def split: if_splits)
    from assms(4) fetch Inr have "settle_all env c cfg msgs w1 = (r, w')" by (simp add: poll_def run_simps)
    from settle_all_run[OF assms(1) c1 ok this] obtain g where g: "data w' = map g (data w1)"
      "\<And>x. ib_id (g x) = ib_id x" "\<And>x. ib_id x \<notin> im_ID ` set msgs \<Longrightarrow> g x = x"
      "\<And>x. ib_id x \<in> im_ID ` set msgs \<Longrightarrow> ib_status (g x) \<noteq> ''processing''" by metis
    have held: "im_ID ` set msgs = ib_id ` {r \<in> set (data w). ib_id r \<in> set ids}"
      by (simp add: m message_of_row_def image_comp comp_def)
    from assms(5) g(1) obtain y where y: "y \<in> set (data w1)" "x = g y" by auto
    with g(4) assms(6) have "ib_id y \<notin> im_ID ` set msgs" by auto
    with y g(3) have "x = y" by simp
    from y(1) obtain z where z: "z \<in> set (data w)" "y = (if ib_id z \<in> set ids then z\<lparr>ib_status := ''processing''\<rparr> else z)"
      unfolding d set_set_where by auto
    with \<open>ib_id y \<notin> im_ID ` set msgs\<close> held have "y = z" by (auto split: if_splits)
    with z(1) \<open>x = y\<close> show ?thesis by simp
  qed
qed

section \<open>Examples\<close>

text \<open>A world in which everything works, an order update, and the steps from its arrival to its delivery.\<close>

definition demo_ienv :: ienv where
  "demo_ienv = \<lparr>fault = (\<lambda>n. None), commit_err = (\<lambda>n b. None), clock = (\<lambda>n. int n),
     fresh = (\<lambda>n. replicate (Suc n) CHR ''i''), kafka_Write = (\<lambda>n t e. None),
     api_Do = (\<lambda>n u b. Inr \<lparr>aa_StatusCode = 200, aa_Body = ''''\<rparr>), rand_Float = (\<lambda>n. 0),
     ctx_done = (\<lambda>n d. False), locked = (\<lambda>n. []), slog_Default = \<lparr>sl_Level = LevelInfo, sl_JSON = True\<rparr>\<rparr>"

definition demo_wcfg :: WorkerConfig where
  "demo_wcfg = \<lparr>wc_BatchSize = 5, wc_MaxRetries = 3\<rparr>"

definition demo_http :: HTTPClient where
  "demo_http = \<lparr>hc_baseURL = ''pm'', hc_retryCfg = \<lparr>ac_MaxAttempts = 3, ac_BaseDelay = 100, ac_MaxDelay = 1000\<rparr>\<rparr>"

definition demo_message :: NewInboxMessage where
  "demo_message = \<lparr>ni_IdempotencyKey = ''order_update:e'', ni_WebhookType = ''order_update'',
     ni_Payload = JObj [(''order_id'', JStr ''o'')]\<rparr>"

definition demo_stored :: "(inbox_row list, in_effect) world" where
  "demo_stored = snd (store_once demo_ienv demo_message (init_world []))"

definition demo_fetched :: "(inbox_row list, in_effect) world" where
  "demo_fetched = snd (FetchPending demo_ienv 5 demo_stored)"

definition demo_batch :: "InboxMessage list" where
  "demo_batch = (case fst (FetchPending demo_ienv 5 demo_stored) of Inl e \<Rightarrow> [] | Inr msgs \<Rightarrow> msgs)"

definition demo_settled :: "(inbox_row list, in_effect) world" where
  "demo_settled = snd (settle_message demo_ienv demo_http demo_wcfg (hd demo_batch) demo_fetched)"

definition demo_held :: inbox_sys where
  "demo_held = \<lparr>sys_rows = data demo_fetched, sys_held = demo_batch\<rparr>"

definition demo_done :: inbox_sys where
  "demo_done = \<lparr>sys_rows = data demo_settled, sys_held = []\<rparr>"

lemma demo_fetch: "FetchPending demo_ienv (wc_BatchSize demo_wcfg) demo_stored = (Inr demo_batch, demo_fetched)"
  by (rule prod_eqI; code_simp)

lemma demo_one: "demo_batch = [hd demo_batch]"
  by code_simp

lemma demo_step1: "inbox_step demo_wcfg empty_inbox (empty_inbox\<lparr>sys_rows := data demo_stored\<rparr>)"
  unfolding demo_stored_def
  by (rule inbox_step.receive[where env = demo_ienv and msg = demo_message and w = "init_world []", OF prod.collapse[symmetric]])
    (simp add: empty_inbox_def init_world_def)

lemma demo_step2: "inbox_step demo_wcfg (empty_inbox\<lparr>sys_rows := data demo_stored\<rparr>) demo_held"
  using inbox_step.fetch[OF demo_fetch, of "empty_inbox\<lparr>sys_rows := data demo_stored\<rparr>"]
  by (simp add: demo_held_def empty_inbox_def)

lemma demo_inbox_reachable: "inbox_reachable demo_wcfg demo_held"
  unfolding inbox_reachable_def using demo_step1 demo_step2 by (meson rtranclp.simps)

lemma demo_step3: "inbox_step demo_wcfg demo_held demo_done"
proof -
  have "settle_message demo_ienv demo_http demo_wcfg (hd demo_batch) demo_fetched
      = (fst (settle_message demo_ienv demo_http demo_wcfg (hd demo_batch) demo_fetched), demo_settled)"
    by (simp add: demo_settled_def)
  from inbox_step.settle[OF this, of demo_held "[]" "[]"] demo_one show ?thesis
    by (simp add: demo_held_def demo_done_def)
qed

theorem accepted_is_stored_witness:
  "length (filter (\<lambda>r. ib_idempotency_key r = ''order_update:e'') (data demo_stored)) = 1"
proof -
  let ?w = "init_world [] :: (inbox_row list, in_effect) world"
  have "fst (store_once demo_ienv demo_message ?w) = Inr ()" by code_simp
  then have run: "store_once demo_ienv demo_message ?w = (Inr (), demo_stored)"
    unfolding demo_stored_def by (metis prod.collapse)
  have "rows_ok inbox_schema (data ?w)" "honest demo_ienv (data ?w)"
    by (simp_all add: init_world_def inbox_rows_ok honest_def demo_ienv_def)
  from accepted_is_stored[OF run this] show ?thesis by (simp add: demo_message_def)
qed

theorem message_held_once_witness:
  "length (sys_held demo_held) = 1 \<and> distinct (map im_ID (sys_held demo_held))"
  using message_held_once[OF demo_inbox_reachable] demo_one by (metis demo_held_def inbox_sys.select_convs(2) length_Cons list.size(3) One_nat_def)

theorem retries_bounded_witness: "ib_retry_count (hd (sys_rows demo_held)) \<le> 3"
proof -
  have "hd (sys_rows demo_held) \<in> set (sys_rows demo_held)" by code_simp
  from retries_bounded[OF demo_inbox_reachable this] show ?thesis by (simp add: demo_wcfg_def)
qed

theorem settled_messages_stay_witness:
  "ib_id (sys_rows demo_done ! 0) = ib_id (sys_rows demo_held ! 0)"
proof -
  have "0 < length (sys_rows demo_held)" by code_simp
  from settled_messages_stay[OF demo_inbox_reachable r_into_rtranclp[of "inbox_step demo_wcfg", OF demo_step3] this] show ?thesis by simp
qed

theorem fetch_refines_queue_witness:
  "set (map im_ID demo_batch) = set (take 5 (pending_queue (data demo_stored))) \<and> demo_batch \<noteq> []"
proof -
  have "locked demo_ienv (ticks demo_stored) = []" by (simp add: demo_ienv_def)
  moreover have "rows_ok inbox_schema (data demo_stored)" by code_simp
  moreover have "demo_batch \<noteq> []" using demo_one by (metis list.distinct(1))
  ultimately show ?thesis using fetch_refines_queue[OF demo_fetch] by (simp add: demo_wcfg_def)
qed

theorem requests_bounded_witness:
  "\<exists>n. 0 < n \<and> int n \<le> 3 \<and> trace (snd (DoWithRetry demo_ienv (hc_retryCfg demo_http)
     (sendRequest demo_ienv demo_http None ''/x'' JNull) (init_world []))) = replicate n (ApiPost ''pm/x'' [(''Content-Type'', ''application/json'')] JNull)"
proof -
  have "0 < ac_MaxAttempts (hc_retryCfg demo_http)" by (simp add: demo_http_def)
  from requests_bounded[OF prod.collapse[symmetric] this, of demo_ienv demo_http None "''/x''" JNull "init_world []"] show ?thesis
    by (auto simp: demo_http_def init_world_def corr_header_def corr_FromContext_def)
qed

theorem backoff_bounded_witness: "calculateBackoff 1 2 100 1000 \<le> 1000"
  using backoff_bounded[of 1 100 1000 2] by simp

theorem poll_settles_batch_witness:
  "list_all (\<lambda>x. ib_status x \<noteq> ''processing'') (data (snd (poll demo_ienv demo_http demo_wcfg demo_stored)))"
proof -
  have "healthy demo_ienv" by (simp add: healthy_def demo_ienv_def)
  moreover have "calm demo_stored" "rows_ok inbox_schema (data demo_stored)" by code_simp+
  moreover have "list_all (\<lambda>x. ib_status x \<noteq> ''processing'') (data demo_stored)" by code_simp
  ultimately show ?thesis
    using poll_settles_batch[OF _ _ _ prod.collapse[symmetric]] by (fastforce simp: list_all_iff)
qed

section \<open>Webhooks of payments\<close>

text \<open>The worker does not know them, so nothing is ever sent; and the keys of two refunds of one transaction are equal.\<close>

lemma payment_webhook_unknown:
  "im_WebhookType msg = ''payment_webhook'' \<Longrightarrow>
   processMessage env c msg w = (Inl (ErrText ''unknown webhook type: payment_webhook''), w)"
  by (simp add: processMessage_def)

lemma refund_webhooks_collide:
  "pwr_TransactionID a = pwr_TransactionID b \<Longrightarrow> pwr_Event a = pwr_Event b \<Longrightarrow> payment_webhook_key a = payment_webhook_key b"
  by (simp add: payment_webhook_key_def)

end
