(* ===== verification/IngestApp.thy ===== *)
theory IngestApp
  imports IngestFacts PgPool Health
begin

text \<open>
  The ingest service as it is put together (\<open>app.go\<close>, \<open>router.go\<close>): the webhook mode chooses the
  processor, the health checks and whether the inbox is worked off; the engine runs every request
  through the middlewares. What is not in the repository is an argument: the binding of request
  bodies, the page of the metrics, gin's answer where there is no route, pgxpool, goose. The
  process runs until it is signalled; its shutdown is not modelled.
\<close>

section \<open>Configuration\<close>

record Config =
  ic_Port :: int
  ic_LogLevel :: string
  ic_WebhookMode :: string
  ic_KafkaBrokers :: "string list"
  ic_KafkaOrdersTopic :: string
  ic_KafkaDisputesTopic :: string
  ic_KafkaPaymentsTopic :: string
  ic_PgURL :: string
  ic_PgPoolMax :: "64 word"
  ic_APIBaseURL :: string
  ic_APITimeout :: time
  ic_APIRetryAttempts :: int
  ic_APIRetryBaseDelay :: time
  ic_APIRetryMaxDelay :: time
  ic_InboxPollInterval :: time
  ic_InboxBatchSize :: int
  ic_InboxMaxRetries :: int

text \<open>The tags \<open>envDefault\<close>; a variable without one is empty.\<close>

definition default_Config :: Config where
  "default_Config = \<lparr>ic_Port = 3001, ic_LogLevel = ''info'', ic_WebhookMode = ''kafka'', ic_KafkaBrokers = [],
     ic_KafkaOrdersTopic = ''webhooks.orders'', ic_KafkaDisputesTopic = ''webhooks.disputes'',
     ic_KafkaPaymentsTopic = ''webhooks.payments'', ic_PgURL = '''', ic_PgPoolMax = 5,
     ic_APIBaseURL = ''http://localhost:3000'', ic_APITimeout = 10000000000, ic_APIRetryAttempts = 3,
     ic_APIRetryBaseDelay = 100000000, ic_APIRetryMaxDelay = 5000000000,
     ic_InboxPollInterval = 100000000, ic_InboxBatchSize = 10, ic_InboxMaxRetries = 5\<rparr>"

definition NewHTTPClient :: "Config \<Rightarrow> HTTPClient" where
  "NewHTTPClient cfg = \<lparr>hc_baseURL = ic_APIBaseURL cfg, hc_retryCfg = \<lparr>ac_MaxAttempts = ic_APIRetryAttempts cfg,
     ac_BaseDelay = ic_APIRetryBaseDelay cfg, ac_MaxDelay = ic_APIRetryMaxDelay cfg\<rparr>\<rparr>"

section \<open>Start\<close>

text \<open>What the start asks of pgxpool, goose and the broker.\<close>

record boot =
  bt_ParseConfig :: "string \<Rightarrow> goerr option"
  bt_NewWithConfig :: "nat \<Rightarrow> goerr option"
  bt_migrate :: "string \<Rightarrow> goerr option"
  bt_dial :: "nat \<Rightarrow> string \<Rightarrow> goerr option"
  bt_ping :: "nat \<Rightarrow> goerr option"

type_synonym ing_world = "(inbox_row list, in_effect) world"

text \<open>The parts that the chosen mode runs; the worker is given the number of its ticks.\<close>

record app =
  ap_processor :: Processor
  ap_worker :: "(nat \<Rightarrow> unit ing) option"
  ap_checkers :: "ing_world Checker list"

datatype startup = Exit int | Running app

definition ingest_Run :: "('b) ienv_scheme \<Rightarrow> boot \<Rightarrow> Config \<Rightarrow> pg_world \<Rightarrow> startup \<times> pg_world" where
  "ingest_Run env bt cfg w =
    (if ic_WebhookMode cfg = ''kafka'' then
       (Running \<lparr>ap_processor = AsyncProcessor env (ic_KafkaOrdersTopic cfg) (ic_KafkaDisputesTopic cfg) (ic_KafkaPaymentsTopic cfg),
          ap_worker = None, ap_checkers = [KafkaChecker (bt_dial bt) (ic_KafkaBrokers cfg)]\<rparr>, w)
     else if ic_WebhookMode cfg = ''http'' then
       (Running \<lparr>ap_processor = HTTPSyncProcessor env (NewHTTPClient cfg), ap_worker = None, ap_checkers = []\<rparr>, w)
     else if ic_WebhookMode cfg = ''inbox'' then
       (if ic_PgURL cfg = '''' then (Exit 1, w)
        else case PgNew (bt_ParseConfig bt) (bt_NewWithConfig bt) (ic_PgURL cfg) [MaxPoolSize (ic_PgPoolMax cfg)] w of
          (Inl _, w') \<Rightarrow> (Exit 1, w')
        | (Inr _, w') \<Rightarrow> (case bt_migrate bt (ic_PgURL cfg) of
            Some _ \<Rightarrow> (Exit 1, w')
          | None \<Rightarrow> (Running \<lparr>ap_processor = InboxProcessor env,
              ap_worker = Some (worker_Start env (NewHTTPClient cfg)
                \<lparr>wc_BatchSize = ic_InboxBatchSize cfg, wc_MaxRetries = ic_InboxMaxRetries cfg\<rparr>),
              ap_checkers = [PostgresChecker (bt_ping bt)]\<rparr>, w')))
     else (Exit 1, w))"

section \<open>Routes\<close>

record outside_gin =
  og_bindOrder :: "string option \<Rightarrow> goerr + OrderUpdateRequest"
  og_bindDispute :: "string option \<Rightarrow> goerr + DisputeUpdateRequest"
  og_bindPayment :: "string option \<Rightarrow> goerr + PaymentWebhookRequest"
  og_metrics :: "request \<Rightarrow> response"
  og_notFound :: "request \<Rightarrow> response"
  og_schedule :: "nat \<Rightarrow> nat list"

definition respond_json :: "int \<Rightarrow> json option \<Rightarrow> response" where
  "respond_json c b = \<lparr>rs_Status = c, rs_Header = [],
     rs_Body = (case b of None \<Rightarrow> [] | Some j \<Rightarrow> write_json (\<lambda>_. []) j)\<rparr>"

definition webhook_route :: "(ctx \<Rightarrow> goerr + 'r \<Rightarrow> (int \<times> json option) ing) \<Rightarrow> (string option \<Rightarrow> goerr + 'r) \<Rightarrow> request \<Rightarrow> response ing" where
  "webhook_route handle bind req =
     bnd (handle (rq_Context req) (bind (rq_Body req))) (\<lambda>(c, b). ret (respond_json c b))"

definition health_route :: "(ing_world \<Rightarrow> reply \<times> ing_world) \<Rightarrow> request \<Rightarrow> response ing" where
  "health_route h req = (\<lambda>w. let (r, w') = h w in (Inr (respond_json (rp_code r) (Some (rp_body r))), w'))"

definition SetUp :: "outside_gin \<Rightarrow> app \<Rightarrow> ((string \<times> string) \<times> (request \<Rightarrow> response ing)) list" where
  "SetUp x a =
     [((''GET'', ''/health/live''), health_route (\<lambda>w. (LivenessHandler, w))),
      ((''GET'', ''/health/ready''), health_route (\<lambda>w. ReadinessHandler (ap_checkers a) (og_schedule x (ticks w)) w)),
      ((''GET'', ''/metrics''), \<lambda>req. ret (og_metrics x req)),
      ((''POST'', ''/webhooks/payments/orders''), webhook_route (OrderHandler_Webhook (ap_processor a)) (og_bindOrder x)),
      ((''POST'', ''/webhooks/payments/chargebacks''), webhook_route (ChargebackHandler_Webhook (ap_processor a)) (og_bindDispute x)),
      ((''POST'', ''/webhooks/silvergate''), webhook_route (PaymentHandler_Webhook (ap_processor a)) (og_bindPayment x))]"

definition ingest_telemetry :: "slogger \<Rightarrow> in_effect telemetry" where
  "ingest_telemetry lg = \<lparr>tm_observe = ObserveRequest, tm_log = LogRecord, tm_logger = lg\<rparr>"

text \<open>The routes have no parameters: the path of a request is its pattern, or there is none.\<close>

definition ServeHTTP :: "('b) ienv_scheme \<Rightarrow> slogger \<Rightarrow> outside_gin \<Rightarrow> app \<Rightarrow> request \<Rightarrow> response ing" where
  "ServeHTTP env lg x a req =
    (case map_of (SetUp x a) (rq_Method req, rq_Path req) of
       Some h \<Rightarrow> NewGinEngine env (ingest_telemetry lg) h (req\<lparr>rq_FullPath := rq_Path req\<rparr>)
     | None \<Rightarrow> NewGinEngine env (ingest_telemetry lg) (\<lambda>req. ret (og_notFound x req)) (req\<lparr>rq_FullPath := ''''\<rparr>))"

section \<open>The correlation identifier travels\<close>

text \<open>The value of a header of a request; one that is not there is empty.\<close>

definition header_of :: "(string \<times> string) list \<Rightarrow> string \<Rightarrow> string" where
  "header_of hs name = (case map_of hs name of None \<Rightarrow> '''' | Some v \<Rightarrow> v)"

text \<open>
  What leaves the service under the identifier \<open>i\<close>. The record of a failed write to Kafka is
  logged without the context, and so without an identifier.
\<close>

fun carries :: "string \<Rightarrow> in_effect \<Rightarrow> bool" where
  "carries i (Publish t hs m a) \<longleftrightarrow> hs = [(KafkaHeaderName, i)]"
| "carries i (ApiPost url hs b) \<longleftrightarrow> header_of hs HeaderName = i"
| "carries i (ObserveRequest p m c d) \<longleftrightarrow> True"
| "carries i (LogRecord r) \<longleftrightarrow> (''correlation_id'', LogText i) \<in> set (lg_Attrs r) \<or> (\<exists>t m err. r = publish_failed t m err)"

definition carried :: "string \<Rightarrow> in_effect list \<Rightarrow> in_effect list \<Rightarrow> bool" where
  "carried i before now \<longleftrightarrow> (\<exists>new. now = before @ new \<and> list_all (carries i) new)"

lemma carried_refl [simp]: "carried i es es" by (simp add: carried_def)

lemma carried_more: "carried i es fs \<Longrightarrow> list_all (carries i) gs \<Longrightarrow> carried i es (fs @ gs)"
  by (auto simp: carried_def)

lemma keeps_carried_emit: "carries i x \<Longrightarrow> keeps_trace (carried i es) (emit x)"
  by (rule keeps_trace_emit) (simp add: carried_more)

lemma corr_header_carried: "i \<noteq> '''' \<Longrightarrow> corr_header n (Some i) = [(n, i)]"
  by (simp add: corr_header_def corr_FromContext_def)

lemma keeps_carried_publish: "i \<noteq> '''' \<Longrightarrow> keeps_trace (carried i es) (kafka_Publish env t (Some i) e)"
  unfolding kafka_Publish_def slog_at_def
  by (intro keeps_intros keeps_carried_emit)
    (auto simp: corr_header_carried CorrelationHandler_Handle_def corr_FromContext_def)

lemma keeps_carried_request: "i \<noteq> '''' \<Longrightarrow> keeps_trace (carried i es) (sendRequest env c (Some i) path b)"
  unfolding sendRequest_def Let_def
  by (intro keeps_intros keeps_carried_emit) (simp add: corr_header_carried header_of_def HeaderName_def)

lemma keeps_carried_retry:
  assumes "keeps_trace P fn"
  shows "keeps_trace P (api_retry env cfg fn left k lastErr)"
  by (induction left arbitrary: k lastErr) (auto intro!: keeps_intros assms split: option.splits)

lemma keeps_carried_send:
  assumes "i \<noteq> ''''"
  shows "keeps_trace (carried i es) (SendOrderUpdate env c (Some i) ord)"
    and "keeps_trace (carried i es) (SendDisputeUpdate env c (Some i) dis)"
    and "keeps_trace (carried i es) (SendPaymentWebhook env c (Some i) pay)"
  unfolding SendOrderUpdate_def SendDisputeUpdate_def SendPaymentWebhook_def DoWithRetry_def
  by (intro keeps_carried_retry keeps_carried_request assms)+

lemma keeps_carried_async:
  assumes "i \<noteq> ''''"
  shows "keeps_trace (carried i es) (async_Order env t (Some i) ord)"
    and "keeps_trace (carried i es) (async_Dispute env t (Some i) dis)"
    and "keeps_trace (carried i es) (async_Payment env t (Some i) pay)"
  unfolding async_Order_def async_Dispute_def async_Payment_def NewEnvelope_def
  by (intro keeps_intros keeps_carried_publish assms)+

lemma keeps_trace_store: "keeps_trace P (store_once env msg)"
  unfolding store_once_def Store_def by (intro keeps_intros)

text \<open>The parts that a mode chooses carry the identifier; their checks are silent.\<close>

definition well_built :: "app \<Rightarrow> bool" where
  "well_built a \<longleftrightarrow> list_all silent (ap_checkers a)
     \<and> (\<forall>i es ord dis pay. i \<noteq> '''' \<longrightarrow>
          keeps_trace (carried i es) (pr_Order (ap_processor a) (Some i) ord)
        \<and> keeps_trace (carried i es) (pr_Dispute (ap_processor a) (Some i) dis)
        \<and> keeps_trace (carried i es) (pr_Payment (ap_processor a) (Some i) pay))"

lemma ingest_Run_well_built:
  assumes "ingest_Run env bt cfg w = (Running a, w')"
  shows "well_built a"
proof -
  consider (kafka) t1 t2 t3 b where "ap_processor a = AsyncProcessor env t1 t2 t3" "ap_checkers a = [KafkaChecker b (ic_KafkaBrokers cfg)]"
    | (http) "ap_processor a = HTTPSyncProcessor env (NewHTTPClient cfg)" "ap_checkers a = []"
    | (inbox) p where "ap_processor a = InboxProcessor env" "ap_checkers a = [PostgresChecker p]"
    using assms unfolding ingest_Run_def by (auto split: if_splits prod.splits sum.splits option.splits)
  then show ?thesis
    unfolding well_built_def
    by cases (auto simp: silent_kafka silent_postgres AsyncProcessor_def HTTPSyncProcessor_def InboxProcessor_def
        keeps_carried_async keeps_carried_send inbox_Order_def inbox_Dispute_def inbox_Payment_def keeps_trace_store)
qed

lemma keeps_answer_webhook:
  assumes "\<And>req. keeps P (process req)"
  shows "keeps P (answer_webhook process on_err bad bound)"
  unfolding answer_webhook_def by (intro keeps_intros assms)

lemma keeps_health_route:
  assumes "\<And>w. trace (snd (h w)) = trace w"
  shows "keeps_trace P (health_route h req)"
  using assms by (auto simp: keeps_def health_route_def Let_def split: prod.split) (metis snd_conv)

lemma keeps_carried_route:
  assumes "well_built a" and "i \<noteq> ''''" and "\<And>n. schedule_of (ap_checkers a) (og_schedule x n)"
    and "map_of (SetUp x a) k = Some h" and "rq_Context req = Some i"
  shows "keeps_trace (carried i es) (h req)"
proof -
  have p: "keeps_trace (carried i es) (pr_Order (ap_processor a) (Some i) ord)"
    "keeps_trace (carried i es) (pr_Dispute (ap_processor a) (Some i) dis)"
    "keeps_trace (carried i es) (pr_Payment (ap_processor a) (Some i) pay)" for ord dis pay
    using assms(1,2) by (simp_all add: well_built_def)
  have c: "list_all silent (ap_checkers a)" using assms(1) by (simp add: well_built_def)
  have "(k, h) \<in> set (SetUp x a)" using assms(4) by (rule map_of_SomeD)
  then show ?thesis
    unfolding SetUp_def
    by (auto simp: webhook_route_def OrderHandler_Webhook_def ChargebackHandler_Webhook_def PaymentHandler_Webhook_def assms(5)
        silent_readiness[OF c assms(3), THEN conjunct1] p intro!: keeps_intros keeps_answer_webhook keeps_health_route)
qed

text \<open>A record under an identifier has it as an attribute, and the reader of a message finds it.\<close>

lemma logged_carries: "i \<noteq> '''' \<Longrightarrow> logged (ingest_telemetry lg) (Some i) y \<Longrightarrow> carries i y"
  by (auto simp: logged_def ingest_telemetry_def CorrelationHandler_Handle_def corr_FromContext_def)

lemma observed_carries: "observed (ingest_telemetry lg) y \<Longrightarrow> carries i y"
  by (auto simp: observed_def ingest_telemetry_def)

text \<open>What the worker of the inbox sends has no identifier: the webhook is stored without it.\<close>

definition anonymous :: "in_effect list \<Rightarrow> in_effect list \<Rightarrow> bool" where
  "anonymous before now \<longleftrightarrow> (\<exists>new. now = before @ new
     \<and> (\<forall>url hs b. ApiPost url hs b \<in> set new \<longrightarrow> header_of hs HeaderName = ''''))"

lemma keeps_anonymous_request: "keeps_trace (anonymous es) (sendRequest env c None path b)"
proof -
  have "anonymous es (t @ [ApiPost url ((''Content-Type'', ''application/json'') # corr_header HeaderName None) b])"
    if "anonymous es t" for t url
  proof -
    from that obtain new where "t = es @ new" "\<forall>url hs b. ApiPost url hs b \<in> set new \<longrightarrow> header_of hs HeaderName = ''''"
      by (auto simp: anonymous_def)
    then show ?thesis
      unfolding anonymous_def
      by (intro exI[of _ "new @ [ApiPost url ((''Content-Type'', ''application/json'') # corr_header HeaderName None) b]"])
        (auto simp: corr_header_def corr_FromContext_def header_of_def HeaderName_def)
  qed
  then show ?thesis
    unfolding sendRequest_def Let_def by (intro keeps_intros keeps_trace_emit)
qed

lemma inbox_forgets_identifier: "keeps_trace (anonymous es) (worker_Start env c cfg n)"
proof -
  have p: "keeps_trace (anonymous es) (processMessage env c msg)" for msg
    unfolding processMessage_def unless_conflict_def SendOrderUpdate_def SendDisputeUpdate_def DoWithRetry_def
    by (intro keeps_intros keeps_carried_retry keeps_anonymous_request)
  have all: "keeps_trace (anonymous es) (settle_all env c cfg msgs)" for msgs
    by (induction msgs) (auto intro!: keeps_intros p simp: settle_message_def MarkFailed_def MarkProcessed_def update_inbox_def)
  show ?thesis
    by (induction n) (auto intro!: keeps_intros all simp: poll_def FetchPending_def)
qed

text \<open>
  C14. In every webhook mode the correlation identifier of a request, or a new one where it has
  none, is put on the response, and on what leaves ingest while the request is answered: the
  Kafka messages, from which the consumer takes it again, the requests to paymanager of the HTTP
  mode, and every log record but one, the error of a failed write to Kafka. In the inbox mode
  nothing is sent while the request is answered; what the worker sends later has no identifier.
\<close>

theorem correlation_travels:
  fixes cenv :: "unit env_scheme" and v :: "(unit, unit) world"
  assumes "ingest_Run env bt cfg pw = (Running a, pw')" and "\<And>n. schedule_of (ap_checkers a) (og_schedule x n)"
    and "\<And>n. fresh env n \<noteq> ''''" and "ServeHTTP env lg x a req w = (Inr rsp, w')"
  shows "\<exists>i new. i \<noteq> '''' \<and> (rq_Header req HeaderName \<noteq> '''' \<longrightarrow> i = rq_Header req HeaderName)
    \<and> header_of (rs_Header rsp) HeaderName = i \<and> trace w' = trace w @ new \<and> list_all (carries i) new
    \<and> (\<forall>t hs m a. Publish t hs m a \<in> set new \<longrightarrow> extractCorrelationID cenv None hs v = (Inr (Some i), v))"
proof -
  obtain h p where h: "NewGinEngine env (ingest_telemetry lg) h (req\<lparr>rq_FullPath := p\<rparr>) w = (Inr rsp, w')"
    and k: "\<And>i req es. i \<noteq> '''' \<Longrightarrow> rq_Context req = Some i \<Longrightarrow> keeps_trace (carried i es) (h req)"
  proof (cases "map_of (SetUp x a) (rq_Method req, rq_Path req)")
    case None
    then show thesis using assms(4) that[of "\<lambda>req. ret (og_notFound x req)" "''''"]
      by (simp add: ServeHTTP_def keeps_intros)
  next
    case (Some h)
    then show thesis
      using assms(4) that[of h "rq_Path req"] keeps_carried_route[OF ingest_Run_well_built[OF assms(1)] _ assms(2) Some]
      by (simp add: ServeHTTP_def)
  qed
  from h obtain i v0 v1 rsp0 more where
    i: "rq_Header (req\<lparr>rq_FullPath := p\<rparr>) HeaderName \<noteq> '''' \<longrightarrow> i = rq_Header (req\<lparr>rq_FullPath := p\<rparr>) HeaderName"
      "rq_Header (req\<lparr>rq_FullPath := p\<rparr>) HeaderName = '''' \<longrightarrow> i = fresh env (ticks w)"
    and run: "h (req\<lparr>rq_FullPath := p, rq_Context := Some i\<rparr>) v0 = (Inr rsp0, v1)"
    and t: "trace v0 = trace w" "trace w' = trace v1 @ more"
    and rsp: "rsp = rsp0\<lparr>rs_Header := (HeaderName, i) # rs_Header rsp0\<rparr>"
    and more: "\<And>y. y \<in> set more \<Longrightarrow> logged (ingest_telemetry lg) (Some i) y \<or> observed (ingest_telemetry lg) y"
    by (rule NewGinEngine_E) blast
  have ne: "i \<noteq> ''''" using i assms(3)[of "ticks w"] by (cases "rq_Header req HeaderName = ''''") auto
  have "keeps_trace (carried i (trace w)) (h (req\<lparr>rq_FullPath := p, rq_Context := Some i\<rparr>))"
    using ne by (intro k) simp_all
  from keepsD[OF this run] have "carried i (trace w) (trace v1)" using t(1) by simp
  moreover have "list_all (carries i) more"
    unfolding list_all_iff using more logged_carries[OF ne] observed_carries by blast
  ultimately have "carried i (trace w) (trace w')" unfolding t(2) by (rule carried_more)
  then obtain new where new: "trace w' = trace w @ new" "list_all (carries i) new" by (auto simp: carried_def)
  have "extractCorrelationID cenv None hs v = (Inr (Some i), v)" if "Publish t' hs m b \<in> set new" for t' hs m b
    using that new(2) by (auto simp: list_all_iff run_simps WithID_def)
  with ne i new rsp show ?thesis by (auto simp: header_of_def)
qed

section \<open>Example\<close>

definition demo_boot :: boot where
  "demo_boot = \<lparr>bt_ParseConfig = \<lambda>_. None, bt_NewWithConfig = \<lambda>_. None, bt_migrate = \<lambda>_. None,
     bt_dial = \<lambda>_ _. None, bt_ping = \<lambda>_. None\<rparr>"

definition demo_pg :: pg_world where
  "demo_pg = \<lparr>pg_ticks = 0, pg_trace = []\<rparr>"

definition demo_app :: app where
  "demo_app = \<lparr>ap_processor = AsyncProcessor demo_ienv ''webhooks.orders'' ''webhooks.disputes'' ''webhooks.payments'',
     ap_worker = None, ap_checkers = [KafkaChecker (\<lambda>_ _. None) []]\<rparr>"

definition demo_gin :: outside_gin where
  "demo_gin = \<lparr>og_bindOrder = \<lambda>_. Inl (ErrText ''EOF''), og_bindDispute = \<lambda>_. Inl (ErrText ''EOF''),
     og_bindPayment = \<lambda>_. Inr \<lparr>pwr_Event = ''transaction.captured'', pwr_TransactionID = ''t'', pwr_RefundID = '''',
       pwr_OrderID = ''o'', pwr_MerchantID = ''m'', pwr_Status = ''captured'', pwr_Amount = 5, pwr_Currency = ''USD'',
       pwr_Timestamp = ''''\<rparr>,
     og_metrics = \<lambda>_. respond_json 200 None, og_notFound = \<lambda>_. respond_json 404 None, og_schedule = \<lambda>_. [0]\<rparr>"

definition demo_request :: request where
  "demo_request = \<lparr>rq_Method = ''POST'', rq_Path = ''/webhooks/silvergate'', rq_FullPath = '''', rq_RawQuery = '''',
     rq_Header = \<lambda>n. if n = HeaderName then ''c-1'' else '''', rq_Body = Some '' {} '', rq_Context = None\<rparr>"

abbreviation "demo_reply \<equiv> ServeHTTP demo_ienv (Setup \<lparr>lo_Level = ''INFO'', lo_Console = False\<rparr>) demo_gin demo_app demo_request (init_world [])"

lemma demo_level: "parseLevel ''INFO'' = LevelInfo" by code_simp

lemma demo_served:
  "\<exists>rsp w. demo_reply = (Inr rsp, w) \<and> (\<exists>hs m. Publish ''webhooks.payments'' hs m None \<in> set (trace w))
    \<and> (\<exists>r. LogRecord r \<in> set (trace w))"
  by (simp add: ServeHTTP_def SetUp_def NewGinEngine_def CorrelationMiddleware_def GinMiddleware_def GinBodyLogger_def InfoContext_def
      webhook_route_def PaymentHandler_Webhook_def answer_webhook_def demo_gin_def demo_app_def AsyncProcessor_def async_Payment_def
      NewEnvelope_def kafka_Publish_def slog_at_def demo_ienv_def demo_request_def run_simps ingest_telemetry_def shouldSkipLog_def
      skipMetricsPaths_def Setup_def demo_level CorrelationHandler_Enabled_def init_world_def Let_def)

theorem correlation_travels_witness:
  "\<exists>rsp w hs m. demo_reply = (Inr rsp, w) \<and> header_of (rs_Header rsp) HeaderName = ''c-1''
    \<and> Publish ''webhooks.payments'' hs m None \<in> set (trace w) \<and> list_all (carries ''c-1'') (trace w)
    \<and> extractCorrelationID \<lparr>fault = \<lambda>_. None, commit_err = \<lambda>_ _. None, clock = int, fresh = \<lambda>_. ''u''\<rparr> None hs
        (init_world () :: (unit, unit) world) = (Inr (Some ''c-1''), init_world ())"
proof -
  obtain rsp w hs m where run: "demo_reply = (Inr rsp, w)" and m: "Publish ''webhooks.payments'' hs m None \<in> set (trace w)"
    using demo_served by blast
  let ?cfg = "default_Config\<lparr>ic_WebhookMode := ''kafka''\<rparr>"
  have a: "ingest_Run demo_ienv demo_boot ?cfg demo_pg = (Running demo_app, demo_pg)"
    by (simp add: ingest_Run_def default_Config_def demo_boot_def demo_app_def)
  have s: "schedule_of (ap_checkers demo_app) (og_schedule demo_gin n)" for n
    by (simp add: schedule_of_def demo_app_def demo_gin_def)
  have f: "fresh demo_ienv n \<noteq> ''''" for n by (simp add: demo_ienv_def)
  have hd: "rq_Header demo_request HeaderName = ''c-1''" by (simp add: demo_request_def)
  from correlation_travels[OF a s f run, where cenv = "\<lparr>fault = \<lambda>_. None, commit_err = \<lambda>_ _. None, clock = int, fresh = \<lambda>_. ''u''\<rparr>"
      and v = "init_world ()"] hd
  have out: "header_of (rs_Header rsp) HeaderName = ''c-1'' \<and> list_all (carries ''c-1'') (trace w)
    \<and> (\<forall>t hs m a. Publish t hs m a \<in> set (trace w) \<longrightarrow>
        extractCorrelationID \<lparr>fault = \<lambda>_. None, commit_err = \<lambda>_ _. None, clock = int, fresh = \<lambda>_. ''u''\<rparr> None hs
          (init_world () :: (unit, unit) world) = (Inr (Some ''c-1''), init_world ()))"
    by (auto simp: init_world_def)
  with run m show ?thesis by blast
qed

end
