(* ===== verification/Cdc.thy ===== *)
theory Cdc
  imports Postgres GoTime
begin

text \<open>
  The CDC service: it follows the logical replication stream of the table \<open>events\<close> and
  publishes every inserted row to Kafka, keyed by the aggregate.

  \<open>pglogrepl\<close>, \<open>pgconn\<close> and the Kafka writer are not part of the repository. What they return
  is given to the model: the messages received, each with the outcome of its parser, and
  the answers to the calls. Whether a payload is valid JSON, which decides whether an event
  can be marshalled, is a function of the environment.
\<close>

section \<open>Messages of the replication protocol\<close>

text \<open>The fields that the service reads. \<open>rm_Columns\<close> holds the names of the columns.\<close>

record RelationMessage =
  rm_RelationID :: "32 word"
  rm_ColumnNum :: nat
  rm_Columns :: "string list"

record TupleColumn =
  tc_DataType :: char
  tc_Data :: string

record InsertMessage =
  in_RelationID :: "32 word"
  in_Tuple :: "TupleColumn list option"

datatype wal_message =
    Relation RelationMessage
  | Insert InsertMessage
  | Begin
  | Commit
  | OtherWal

type_synonym LSN = "64 word"

text \<open>\<open>XLogData\<close>: where it starts, the length of its data, and what \<open>pglogrepl.Parse\<close> makes of them.\<close>

record XLogData =
  xl_WALStart :: LSN
  xl_Length :: nat
  xl_Parsed :: "goerr + wal_message"

text \<open>
  What \<open>ReceiveMessage\<close> gives: an error (with the verdict of \<open>pgconn.Timeout\<close>), copy data with
  a keepalive (whether a reply is requested) or a piece of the log, or something else.
\<close>

datatype received =
    ReceiveError goerr bool
  | KeepAlive "goerr + bool"
  | XLog "goerr + XLogData"
  | OtherCopyData
  | ErrorResponse string string
  | OtherMessage

section \<open>Events\<close>

record walEvent =
  we_ID :: string
  we_AggregateType :: string
  we_AggregateID :: string
  we_EventType :: string
  we_IdempotencyKey :: string
  we_Payload :: "string option"
  we_CreatedAt :: string

text \<open>
  The map from column names to text values. \<open>pglogrepl\<close> gives a relation as many columns as
  it counts; columns that are not sent as text are left out, and of two columns with one
  name the later counts.
\<close>

definition column_values :: "RelationMessage \<Rightarrow> TupleColumn list \<Rightarrow> (string \<times> string) list" where
  "column_values rel cols =
     map (\<lambda>(n, c). (n, tc_Data c))
       (filter (\<lambda>(n, c). tc_DataType c = CHR ''t'') (zip (rm_Columns rel) (take (rm_ColumnNum rel) cols)))"

definition value_of :: "(string \<times> string) list \<Rightarrow> string \<Rightarrow> string" where
  "value_of values name = (case map_of (rev values) name of None \<Rightarrow> '''' | Some s \<Rightarrow> s)"

definition event_of_values :: "(string \<times> string) list \<Rightarrow> walEvent" where
  "event_of_values values = \<lparr>we_ID = value_of values ''id'', we_AggregateType = value_of values ''aggregate_type'',
     we_AggregateID = value_of values ''aggregate_id'', we_EventType = value_of values ''event_type'',
     we_IdempotencyKey = value_of values ''idempotency_key'', we_Payload = map_of (rev values) ''payload'',
     we_CreatedAt = value_of values ''created_at''\<rparr>"

definition decodeInsert :: "RelationMessage \<Rightarrow> InsertMessage \<Rightarrow> goerr + walEvent" where
  "decodeInsert rel msg = (case in_Tuple msg of
      None \<Rightarrow> Inl (ErrText ''InsertMessage has nil tuple'')
    | Some cols \<Rightarrow>
        let evt = event_of_values (column_values rel cols)
        in if we_AggregateID evt = '''' then Inl (ErrText ''missing aggregate_id in WAL tuple'') else Inr evt)"

section \<open>State, environment, effects\<close>

record cdc_state =
  relations :: "32 word \<rightharpoonup> RelationMessage"
  clientXLogPos :: LSN
  nextStandbyDeadline :: time

datatype cdc_call =
    Connect
  | DropReplicationSlot string
  | CreateReplicationSlot string
  | IdentifySystem
  | StartReplication string LSN string
  | SendStandbyStatusUpdate LSN
  | WriteMessage string walEvent
  | CloseConn

text \<open>
  The trace has every call with its answer, which is recorded when it has come: \<open>None\<close> when the call
  returned no error. A message was written when Kafka has answered so.
\<close>

type_synonym cdc_effect = "cdc_call \<times> goerr option"

record cenv = env +
  answer :: "nat \<Rightarrow> cdc_call \<Rightarrow> goerr option"
  json_Valid :: "string \<Rightarrow> bool"

type_synonym 'a cdc = "((cdc_state, cdc_effect) world, 'a) prog"

definition do_call :: "('b) cenv_scheme \<Rightarrow> cdc_call \<Rightarrow> unit cdc" where
  "do_call env e =
     bnd (ask (\<lambda>n. answer env n e)) (\<lambda>a.
     bnd (emit (e, a)) (\<lambda>_. case a of None \<Rightarrow> ret () | Some err \<Rightarrow> throw err))"

definition get_state :: "cdc_state cdc" where
  "get_state = (\<lambda>w. (Inr (data w), w))"

definition update_state :: "(cdc_state \<Rightarrow> cdc_state) \<Rightarrow> unit cdc" where
  "update_state f = (\<lambda>w. (Inr (), w\<lparr>data := f (data w)\<rparr>))"

section \<open>The stream\<close>

definition standbyTimeout :: time where "standbyTimeout = 10000000000"
definition retryBaseDelay :: time where "retryBaseDelay = 2000000000"
definition retryMaxDelay :: time where "retryMaxDelay = 30000000000"

definition marshal_event :: "('b) cenv_scheme \<Rightarrow> walEvent \<Rightarrow> goerr + unit" where
  "marshal_event env evt = (case we_Payload evt of
      None \<Rightarrow> Inr ()
    | Some raw \<Rightarrow> if json_Valid env raw then Inr ()
        else Inl (ErrText ''json: error calling MarshalJSON for type json.RawMessage: invalid JSON''))"

definition handle_insert :: "('b) cenv_scheme \<Rightarrow> RelationMessage \<Rightarrow> InsertMessage \<Rightarrow> unit cdc" where
  "handle_insert env rel m =
     bnd (map_err (wrap ''decode insert'') (of_sum (decodeInsert rel m))) (\<lambda>evt.
     bnd (map_err (wrap ''marshal event'') (of_sum (marshal_event env evt))) (\<lambda>_.
     map_err (wrap ''publish to kafka'') (do_call env (WriteMessage (we_AggregateID evt) evt))))"

definition handleWALMessage :: "('b) cenv_scheme \<Rightarrow> goerr + wal_message \<Rightarrow> unit cdc" where
  "handleWALMessage env parsed =
     bnd (map_err (wrap ''parse WAL message'') (of_sum parsed)) (\<lambda>msg. case msg of
         Relation m \<Rightarrow> update_state (\<lambda>s. s\<lparr>relations := (relations s)(rm_RelationID m \<mapsto> m)\<rparr>)
       | Insert m \<Rightarrow> bnd get_state (\<lambda>s. case relations s (in_RelationID m) of
             None \<Rightarrow> ret ()
           | Some rel \<Rightarrow> handle_insert env rel m)
       | _ \<Rightarrow> ret ())"

text \<open>The position that the server may forget is sent when its deadline has passed.\<close>

definition heartbeat :: "('b) cenv_scheme \<Rightarrow> unit cdc" where
  "heartbeat env =
     bnd (time_Now env) (\<lambda>now.
     bnd get_state (\<lambda>s.
     if nextStandbyDeadline s < now then
       bnd (map_err (wrap ''standby status'') (do_call env (SendStandbyStatusUpdate (clientXLogPos s)))) (\<lambda>_.
       bnd (time_Now env) (\<lambda>now2.
       update_state (\<lambda>s. s\<lparr>nextStandbyDeadline := now2 + standbyTimeout\<rparr>)))
     else ret ()))"

text \<open>How an iteration of the loop ends: with the next one, or with the return of \<open>nil\<close>.\<close>

datatype loop_end = Continue | Stopped

definition handle_received :: "('b) cenv_scheme \<Rightarrow> received \<Rightarrow> loop_end cdc" where
  "handle_received env rv = (case rv of
      ReceiveError err timeout \<Rightarrow>
        if errors_Is err Context_Canceled then ret Stopped
        else if timeout then ret Continue
        else throw (wrap ''receive'' err)
    | KeepAlive r \<Rightarrow> (case r of
        Inl err \<Rightarrow> ret Continue
      | Inr replyRequested \<Rightarrow>
          bnd (if replyRequested then update_state (\<lambda>s. s\<lparr>nextStandbyDeadline := zero_time\<rparr>) else ret ()) (\<lambda>_.
          ret Continue))
    | XLog r \<Rightarrow> (case r of
        Inl err \<Rightarrow> ret Continue
      | Inr xld \<Rightarrow>
          bnd (map_err (wrap ''handle WAL message'') (handleWALMessage env (xl_Parsed xld))) (\<lambda>_.
          bnd (update_state (\<lambda>s. s\<lparr>clientXLogPos := xl_WALStart xld + of_nat (xl_Length xld)\<rparr>)) (\<lambda>_.
          ret Continue)))
    | OtherCopyData \<Rightarrow> ret Continue
    | ErrorResponse msg code \<Rightarrow> throw (ErrText (''server error: '' @ msg @ '' (code '' @ code @ '')''))
    | OtherMessage \<Rightarrow> ret Continue)"

text \<open>The loop over what is received; at the end of the list it waits for the next message.\<close>

fun stream :: "('b) cenv_scheme \<Rightarrow> received list \<Rightarrow> loop_end cdc" where
  "stream env [] = bnd (heartbeat env) (\<lambda>_. ret Continue)"
| "stream env (rv # rvs) =
     bnd (heartbeat env) (\<lambda>_.
     bnd (handle_received env rv) (\<lambda>e. case e of
         Stopped \<Rightarrow> ret Stopped
       | Continue \<Rightarrow> stream env rvs))"

definition streamLoop :: "('b) cenv_scheme \<Rightarrow> received list \<Rightarrow> loop_end cdc" where
  "streamLoop env rvs =
     bnd (time_Now env) (\<lambda>now.
     bnd (update_state (\<lambda>_. \<lparr>relations = Map.empty, clientXLogPos = 0, nextStandbyDeadline = now + standbyTimeout\<rparr>)) (\<lambda>_.
     stream env rvs))"

text \<open>The slot is dropped and created again; the connection is closed when the loop has ended.\<close>

definition replicate_from :: "('b) cenv_scheme \<Rightarrow> string \<Rightarrow> string \<Rightarrow> received list \<Rightarrow> loop_end cdc" where
  "replicate_from env slotName publication rvs =
     bnd (attempt (do_call env (DropReplicationSlot slotName))) (\<lambda>_.
     bnd (map_err (wrap ''create slot'') (do_call env (CreateReplicationSlot slotName))) (\<lambda>_.
     bnd (map_err (wrap ''identify system'') (do_call env IdentifySystem)) (\<lambda>_.
     bnd (map_err (wrap ''start replication'') (do_call env (StartReplication slotName 0 publication))) (\<lambda>_.
     streamLoop env rvs))))"

definition runReplication :: "('b) cenv_scheme \<Rightarrow> string \<Rightarrow> string \<Rightarrow> received list \<Rightarrow> loop_end cdc" where
  "runReplication env slotName publication rvs =
     bnd (map_err (wrap ''connect'') (do_call env Connect)) (\<lambda>_.
     bnd (attempt (replicate_from env slotName publication rvs)) (\<lambda>r.
     bnd (if r = Inr Continue then ret () else bnd (attempt (do_call env CloseConn)) (\<lambda>_. ret ())) (\<lambda>_. of_sum r)))"

text \<open>
  The retry loop of \<open>Run\<close>: the outcome of each call of \<open>runReplication\<close>, with whether the context
  was done then, and the delays that are waited in between.
\<close>

fun retry_delays :: "(goerr option \<times> bool) list \<Rightarrow> time \<Rightarrow> time list" where
  "retry_delays [] delay = []"
| "retry_delays ((err, cancelled) # rs) delay =
    (if err = None \<or> cancelled then [] else delay # retry_delays rs (min (delay * 2) retryMaxDelay))"

definition cdc_Run :: "(goerr option \<times> bool) list \<Rightarrow> time list" where
  "cdc_Run rs = retry_delays rs retryBaseDelay"

end
