(* ===== verification/CdcFacts.thy ===== *)
theory CdcFacts
  imports Cdc
begin

text \<open>
  What the CDC service guarantees: every insert that it reads is published, in the order of
  the log, and the position it reports to the server never runs ahead of what Kafka has taken.
\<close>

section \<open>The specification\<close>

text \<open>The messages that Kafka has taken so far, with their keys; a write that was refused does not count.\<close>

definition published :: "cdc_effect list \<Rightarrow> (string \<times> walEvent) list" where
  "published es = concat (map (\<lambda>e. case e of (WriteMessage k ev, None) \<Rightarrow> [(k, ev)] | _ \<Rightarrow> []) es)"

lemma published_simps [simp]:
  "published [] = []" "published (es @ es') = published es @ published es'"
  "published [(WriteMessage k ev, None)] = [(k, ev)]" "published [(WriteMessage k ev, Some err)] = []"
  "published [(SendStandbyStatusUpdate p, a)] = []"
  by (simp_all add: published_def)

text \<open>
  A row as the log carries it: the text of a column is that of the last column of this name that
  was sent as text, if there is one. This is written down apart from the decoder of the service.
\<close>

definition column_text :: "RelationMessage \<Rightarrow> TupleColumn list \<Rightarrow> string \<Rightarrow> string option" where
  "column_text rel cols name =
    (case filter (\<lambda>k. rm_Columns rel ! k = name \<and> tc_DataType (cols ! k) = CHR ''t'')
        [0..<min (length (rm_Columns rel)) (min (length cols) (rm_ColumnNum rel))] of
       [] \<Rightarrow> None | ks \<Rightarrow> Some (tc_Data (cols ! last ks)))"

definition row_event :: "RelationMessage \<Rightarrow> TupleColumn list \<Rightarrow> walEvent" where
  "row_event rel cols =
    (let column = (\<lambda>name. case column_text rel cols name of None \<Rightarrow> '''' | Some s \<Rightarrow> s) in
     \<lparr>we_ID = column ''id'', we_AggregateType = column ''aggregate_type'', we_AggregateID = column ''aggregate_id'',
      we_EventType = column ''event_type'', we_IdempotencyKey = column ''idempotency_key'',
      we_Payload = column_text rel cols ''payload'', we_CreatedAt = column ''created_at''\<rparr>)"

lemma last_of_name:
  "map_of (rev (map (\<lambda>k. (g k, h k)) ks)) x
   = (case filter (\<lambda>k. g k = x) ks of [] \<Rightarrow> None | l \<Rightarrow> Some (h (last l)))"
  by (induction ks rule: rev_induct) (auto split: list.splits)

lemma column_values_text: "map_of (rev (column_values rel cols)) name = column_text rel cols name"
proof -
  let ?n = "min (length (rm_Columns rel)) (min (length cols) (rm_ColumnNum rel))"
  have "zip (rm_Columns rel) (take (rm_ColumnNum rel) cols) = map (\<lambda>k. (rm_Columns rel ! k, cols ! k)) [0..<?n]"
    by (rule nth_equalityI) simp_all
  then have "column_values rel cols
      = map (\<lambda>k. (rm_Columns rel ! k, tc_Data (cols ! k))) (filter (\<lambda>k. tc_DataType (cols ! k) = CHR ''t'') [0..<?n])"
    by (simp add: column_values_def filter_map comp_def case_prod_beta)
  then show ?thesis
    by (simp only: last_of_name column_text_def filter_filter conj_commute)
qed

lemma decodeInsert_row:
  "decodeInsert rel m = (case in_Tuple m of
      None \<Rightarrow> Inl (ErrText ''InsertMessage has nil tuple'')
    | Some cols \<Rightarrow> if we_AggregateID (row_event rel cols) = '''' then Inl (ErrText ''missing aggregate_id in WAL tuple'')
        else Inr (row_event rel cols))"
  by (auto simp: decodeInsert_def event_of_values_def value_of_def column_values_text row_event_def Let_def split: option.split)

text \<open>The relations known, the position reached and the events due after a prefix of the log.\<close>

type_synonym progress = "(32 word \<rightharpoonup> RelationMessage) \<times> LSN \<times> (string \<times> walEvent) list"

definition due :: "(32 word \<rightharpoonup> RelationMessage) \<Rightarrow> InsertMessage \<Rightarrow> (string \<times> walEvent) list" where
  "due rels m = (case rels (in_RelationID m) of None \<Rightarrow> []
     | Some rel \<Rightarrow> (case in_Tuple m of None \<Rightarrow> []
         | Some cols \<Rightarrow> let e = row_event rel cols in if we_AggregateID e = '''' then [] else [(we_AggregateID e, e)]))"

lemma due_decoded:
  "due rels m = (case rels (in_RelationID m) of None \<Rightarrow> []
     | Some rel \<Rightarrow> (case decodeInsert rel m of Inl e \<Rightarrow> [] | Inr evt \<Rightarrow> [(we_AggregateID evt, evt)]))"
  by (auto simp: due_def decodeInsert_row Let_def split: option.splits)

definition absorb :: "received \<Rightarrow> progress \<Rightarrow> progress" where
  "absorb rv s = (case s of (rels, pos, evs) \<Rightarrow> (case rv of
      XLog (Inr x) \<Rightarrow>
        let p = xl_WALStart x + of_nat (xl_Length x) in
        (case xl_Parsed x of
           Inr (Relation m) \<Rightarrow> (rels(rm_RelationID m \<mapsto> m), p, evs)
         | Inr (Insert m) \<Rightarrow> (rels, p, evs @ due rels m)
         | _ \<Rightarrow> (rels, p, evs))
    | _ \<Rightarrow> s))"

definition absorb_all :: "received list \<Rightarrow> progress \<Rightarrow> progress" where
  "absorb_all rvs s = fold absorb rvs s"

definition progress_of :: "(cdc_state, cdc_effect) world \<Rightarrow> progress" where
  "progress_of w = (relations (data w), clientXLogPos (data w), published (trace w))"

definition is_write :: "cdc_effect \<Rightarrow> bool" where
  "is_write e = (case fst e of WriteMessage k ev \<Rightarrow> True | _ \<Rightarrow> False)"

section \<open>One iteration\<close>

lemma do_call_run: "do_call env e w = (case answer env (ticks w) e of None \<Rightarrow> Inr () | Some err \<Rightarrow> Inl err,
    (tick w)\<lparr>trace := trace w @ [(e, answer env (ticks w) e)]\<rparr>)"
  by (simp add: do_call_def run_simps split: option.splits)

lemma run_get_state [simp]: "get_state w = (Inr (data w), w)"
  by (simp add: get_state_def)

lemma run_update_state [simp]: "update_state f w = (Inr (), w\<lparr>data := f (data w)\<rparr>)"
  by (simp add: update_state_def)

lemma heartbeat_E:
  assumes "heartbeat env w = (r, w')"
  obtains "progress_of w' = progress_of w"
    and "trace w' = trace w \<or> (\<exists>a. trace w' = trace w @ [(SendStandbyStatusUpdate (clientXLogPos (data w)), a)])"
  using assms
  by (auto simp: heartbeat_def do_call_run run_simps progress_of_def split: option.splits if_splits sum.splits)

lemma handle_insert_E:
  assumes "handle_insert env rel m w = (r, w')" and "relations (data w) (in_RelationID m) = Some rel"
  obtains ws where "trace w' = trace w @ ws" and "list_all is_write ws" and "data w' = data w"
    and "published ws = [] \<or> published ws = due (relations (data w)) m"
    and "r = Inr () \<Longrightarrow> published ws = due (relations (data w)) m"
proof (cases "decodeInsert rel m")
  case (Inl e)
  with assms show thesis by (intro that[of "[]"]) (auto simp: handle_insert_def run_simps due_def)
next
  case (Inr evt)
  show thesis
  proof (cases "marshal_event env evt")
    case (Inl e)
    with assms Inr show thesis by (intro that[of "[]"]) (auto simp: handle_insert_def run_simps)
  next
    case ok: (Inr u)
    let ?e = "WriteMessage (we_AggregateID evt) evt"
    from assms Inr ok show thesis
      by (intro that[of "[(?e, answer env (ticks w) ?e)]"])
        (auto simp: handle_insert_def run_simps do_call_run due_decoded is_write_def split: option.splits)
  qed
qed

lemma handle_received_E:
  assumes "handle_received env rv w = (r, w')"
  obtains ws where "trace w' = trace w @ ws" and "list_all is_write ws"
    and "\<And>e. r = Inr e \<Longrightarrow> progress_of w' = absorb rv (progress_of w)"
    and "published (trace w') = snd (snd (progress_of w)) \<or> published (trace w') = snd (snd (absorb rv (progress_of w)))"
proof (cases "\<exists>x m rel. rv = XLog (Inr x) \<and> xl_Parsed x = Inr (Insert m) \<and> relations (data w) (in_RelationID m) = Some rel")
  case True
  then obtain x m rel where rv: "rv = XLog (Inr x)" and x: "xl_Parsed x = Inr (Insert m)"
    and rel: "relations (data w) (in_RelationID m) = Some rel" by blast
  obtain q w1 where run: "handle_insert env rel m w = (q, w1)" by fastforce
  from run rel obtain ws where ws: "trace w1 = trace w @ ws" "list_all is_write ws" "data w1 = data w"
    "published ws = [] \<or> published ws = due (relations (data w)) m"
    "q = Inr () \<Longrightarrow> published ws = due (relations (data w)) m" by (rule handle_insert_E) blast
  from assms rv x rel run have "trace w' = trace w1"
    by (auto simp: handle_received_def handleWALMessage_def run_simps split: sum.splits)
  moreover from assms rv x rel run have "r = Inr e \<Longrightarrow> q = Inr () \<and> relations (data w') = relations (data w1)
      \<and> clientXLogPos (data w') = xl_WALStart x + of_nat (xl_Length x)" for e
    by (auto simp: handle_received_def handleWALMessage_def run_simps split: sum.splits)
  ultimately show thesis using ws rv x
    by (intro that[of ws]) (auto simp: progress_of_def absorb_def Let_def)
next
  case False
  with assms show thesis
    by (intro that[of "[]"])
      (auto simp: handle_received_def handleWALMessage_def run_simps progress_of_def absorb_def Let_def due_def
        split: received.splits sum.splits if_splits wal_message.splits option.splits)
qed

section \<open>The whole stream\<close>

lemma writes_first:
  assumes "ws @ es = pre @ (SendStandbyStatusUpdate p, a) # post" and "list_all is_write ws"
  shows "\<exists>pre'. pre = ws @ pre' \<and> es = pre' @ (SendStandbyStatusUpdate p, a) # post"
  using assms
proof (induction ws arbitrary: pre)
  case (Cons x ws)
  then show ?case by (cases pre) (auto simp: is_write_def)
qed simp

lemma heartbeat_first:
  assumes "hb @ ws @ es = pre @ (SendStandbyStatusUpdate p, a) # post" and "list_all is_write ws"
    and "hb = [] \<or> (\<exists>b. hb = [(SendStandbyStatusUpdate q, b)])"
  shows "pre = [] \<and> p = q \<and> hb \<noteq> [] \<or> (\<exists>pre'. pre = hb @ ws @ pre' \<and> es = pre' @ (SendStandbyStatusUpdate p, a) # post)"
proof (cases "hb = []")
  case True
  with writes_first[of ws es pre p a post] assms(1,2) show ?thesis by simp
next
  case False
  with assms(3) obtain b where hb: "hb = [(SendStandbyStatusUpdate q, b)]" by blast
  show ?thesis
  proof (cases pre)
    case Nil
    with assms(1) hb show ?thesis by simp
  next
    case (Cons x pre')
    with assms(1) hb have x: "x = (SendStandbyStatusUpdate q, b)" and "ws @ es = pre' @ (SendStandbyStatusUpdate p, a) # post" by auto
    with writes_first[OF this(2) assms(2)] Cons hb show ?thesis by auto
  qed
qed

text \<open>What holds of the effects of a run that started with progress \<open>s\<close>.\<close>

definition stream_post :: "received list \<Rightarrow> (string \<times> walEvent) list \<Rightarrow> progress \<Rightarrow> cdc_effect list \<Rightarrow> bool" where
  "stream_post rvs old s es \<longleftrightarrow>
     (\<exists>k\<le>length rvs. old @ published es = snd (snd (absorb_all (take k rvs) s)))
     \<and> (\<forall>pre p a post. es = pre @ (SendStandbyStatusUpdate p, a) # post \<longrightarrow>
          (\<exists>k\<le>length rvs. (p, old @ published pre) = snd (absorb_all (take k rvs) s)))"

lemma absorb_all_simps [simp]:
  "absorb_all [] s = s" "absorb_all (rv # rvs) s = absorb_all rvs (absorb rv s)"
  by (simp_all add: absorb_all_def)

lemma stream_post_stop:
  assumes "list_all is_write ws" and "hb = [] \<or> (\<exists>b. hb = [(SendStandbyStatusUpdate pos, b)])" and "s = (rels, pos, old)"
    and "old @ published ws = old \<or> old @ published ws = snd (snd (absorb rv s))"
  shows "stream_post (rv # rvs) old s (hb @ ws)"
  unfolding stream_post_def
proof (intro conjI allI impI)
  have hb: "published hb = []" using assms(2) by auto
  from assms(4) show "\<exists>k\<le>length (rv # rvs). old @ published (hb @ ws) = snd (snd (absorb_all (take k (rv # rvs)) s))"
  proof
    assume "old @ published ws = old"
    with hb assms(3) show ?thesis by (intro exI[of _ 0]) simp
  next
    assume "old @ published ws = snd (snd (absorb rv s))"
    with hb show ?thesis by (intro exI[of _ 1]) simp
  qed
next
  fix pre p a post assume "hb @ ws = pre @ (SendStandbyStatusUpdate p, a) # post"
  then have "pre = [] \<and> p = pos" using heartbeat_first[of hb ws "[]" pre p a post pos] assms(1,2) by auto
  with assms(3) show "\<exists>k\<le>length (rv # rvs). (p, old @ published pre) = snd (absorb_all (take k (rv # rvs)) s)"
    by (intro exI[of _ 0]) simp
qed

lemma stream_post_Cons:
  assumes "list_all is_write ws" and "hb = [] \<or> (\<exists>b. hb = [(SendStandbyStatusUpdate pos, b)])" and "s = (rels, pos, old)"
    and "absorb rv s = (rels', pos', old @ published ws)" and "stream_post rvs (old @ published ws) (absorb rv s) es"
  shows "stream_post (rv # rvs) old s (hb @ ws @ es)"
  unfolding stream_post_def
proof (intro conjI allI impI)
  have hb: "published hb = []" using assms(2) by auto
  from assms(5) obtain k where "k \<le> length rvs" "old @ published (hb @ ws @ es) = snd (snd (absorb_all (take k rvs) (absorb rv s)))"
    unfolding stream_post_def using hb by auto
  then show "\<exists>k\<le>length (rv # rvs). old @ published (hb @ ws @ es) = snd (snd (absorb_all (take k (rv # rvs)) s))"
    by (intro exI[of _ "Suc k"]) simp
next
  have hb: "published hb = []" using assms(2) by auto
  fix pre p a post assume split: "hb @ ws @ es = pre @ (SendStandbyStatusUpdate p, a) # post"
  show "\<exists>k\<le>length (rv # rvs). (p, old @ published pre) = snd (absorb_all (take k (rv # rvs)) s)"
    using heartbeat_first[OF split assms(1,2)]
  proof
    assume "pre = [] \<and> p = pos \<and> hb \<noteq> []"
    with assms(3) show ?thesis by (intro exI[of _ 0]) simp
  next
    assume "\<exists>pre'. pre = hb @ ws @ pre' \<and> es = pre' @ (SendStandbyStatusUpdate p, a) # post"
    then obtain pre' where pre: "pre = hb @ ws @ pre'" "es = pre' @ (SendStandbyStatusUpdate p, a) # post" by blast
    with assms(5) obtain k where "k \<le> length rvs"
      "(p, (old @ published ws) @ published pre') = snd (absorb_all (take k rvs) (absorb rv s))"
      unfolding stream_post_def by blast
    with hb pre(1) show ?thesis by (intro exI[of _ "Suc k"]) simp
  qed
qed

lemma stream_E:
  assumes "stream env rvs w = (r, w')"
  obtains es where "trace w' = trace w @ es" and "stream_post rvs (published (trace w)) (progress_of w) es"
    and "r = Inr Continue \<Longrightarrow> progress_of w' = absorb_all rvs (progress_of w)"
  using assms
proof (induction rvs arbitrary: w thesis)
  case Nil
  obtain q w1 where hb: "heartbeat env w = (q, w1)" by fastforce
  with Nil.prems(2) have "w' = w1" by (auto simp: run_simps split: sum.splits)
  from hb obtain hbs where "trace w1 = trace w @ hbs" "hbs = [] \<or> (\<exists>b. hbs = [(SendStandbyStatusUpdate (clientXLogPos (data w)), b)])"
    and same: "progress_of w1 = progress_of w" by (rule heartbeat_E) fastforce
  moreover have "stream_post [] (published (trace w)) (progress_of w) hbs"
    using calculation(2) by (auto simp: stream_post_def progress_of_def Cons_eq_append_conv)
  ultimately show ?case using \<open>w' = w1\<close> by (intro Nil.prems(1)[of hbs]) simp_all
next
  case (Cons rv rvs)
  let ?pos = "clientXLogPos (data w)" and ?old = "published (trace w)"
  have s: "progress_of w = (relations (data w), ?pos, ?old)" by (simp add: progress_of_def)
  obtain q w1 where hb: "heartbeat env w = (q, w1)" by fastforce
  from hb obtain hbs where t1: "trace w1 = trace w @ hbs" and hbs: "hbs = [] \<or> (\<exists>b. hbs = [(SendStandbyStatusUpdate ?pos, b)])"
    and same: "progress_of w1 = progress_of w" by (rule heartbeat_E) fastforce
  show ?case
  proof (cases q)
    case (Inl e)
    with Cons.prems(2) hb have "r = Inl e" "w' = w1" by (simp_all add: run_simps)
    with stream_post_stop[of "[]" hbs ?pos "progress_of w" "relations (data w)" ?old rv rvs] hbs s t1 show ?thesis
      by (intro Cons.prems(1)[of hbs]) simp_all
  next
    case (Inr u)
    obtain q2 w2 where hr: "handle_received env rv w1 = (q2, w2)" by fastforce
    from hr obtain ws where ws: "trace w2 = trace w1 @ ws" "list_all is_write ws"
      "\<And>e. q2 = Inr e \<Longrightarrow> progress_of w2 = absorb rv (progress_of w1)"
      "published (trace w2) = snd (snd (progress_of w1)) \<or> published (trace w2) = snd (snd (absorb rv (progress_of w1)))"
      by (rule handle_received_E) blast
    have pub: "published (trace w2) = ?old @ published ws" using ws(1) t1 hbs by auto
    show ?thesis
    proof (cases "q2 = Inr Continue")
      case False
      with Cons.prems(2) hb Inr hr have "w' = w2" "r \<noteq> Inr Continue"
        by (auto simp: run_simps split: sum.splits loop_end.splits)
      moreover have "stream_post (rv # rvs) ?old (progress_of w) (hbs @ ws)"
        using ws(2,4) hbs s pub same by (intro stream_post_stop) simp_all
      ultimately show ?thesis using t1 ws(1) by (intro Cons.prems(1)[of "hbs @ ws"]) simp_all
    next
      case True
      with Cons.prems(2) hb Inr hr have rest: "stream env rvs w2 = (r, w')" by (simp add: run_simps)
      from ws(3)[OF True] same have p2: "progress_of w2 = absorb rv (progress_of w)" by simp
      from Cons.IH[OF _ rest] obtain es where es: "trace w' = trace w2 @ es"
        "stream_post rvs (published (trace w2)) (progress_of w2) es"
        "r = Inr Continue \<Longrightarrow> progress_of w' = absorb_all rvs (progress_of w2)" by blast
      have "absorb rv (progress_of w) = (relations (data w2), clientXLogPos (data w2), ?old @ published ws)"
        using p2 pub by (simp add: progress_of_def)
      from stream_post_Cons[OF ws(2) hbs s this] es(2) pub p2
      have "stream_post (rv # rvs) ?old (progress_of w) (hbs @ ws @ es)" by simp
      with es t1 ws(1) p2 show ?thesis by (intro Cons.prems(1)[of "hbs @ ws @ es"]) simp_all
    qed
  qed
qed

lemma streamLoop_E:
  assumes "streamLoop env rvs w = (r, w')" and "trace w = []"
  shows "stream_post rvs [] (Map.empty, 0, []) (trace w')"
    and "r = Inr Continue \<Longrightarrow> progress_of w' = absorb_all rvs (Map.empty, 0, [])"
proof -
  let ?w0 = "(tick w)\<lparr>data := \<lparr>relations = Map.empty, clientXLogPos = 0, nextStandbyDeadline = clock env (ticks w) + standbyTimeout\<rparr>\<rparr>"
  from assms(1) have run: "stream env rvs ?w0 = (r, w')" by (simp add: streamLoop_def run_simps)
  from stream_E[OF run] obtain es where es: "trace w' = trace ?w0 @ es" "stream_post rvs (published (trace ?w0)) (progress_of ?w0) es"
    "r = Inr Continue \<Longrightarrow> progress_of w' = absorb_all rvs (progress_of ?w0)" by blast
  have "progress_of ?w0 = (Map.empty, 0, [])" using assms(2) by (simp add: progress_of_def)
  with es assms(2) show "stream_post rvs [] (Map.empty, 0, []) (trace w')"
    and "r = Inr Continue \<Longrightarrow> progress_of w' = absorb_all rvs (Map.empty, 0, [])" by simp_all
qed

text \<open>
  C8. The messages that Kafka has taken are, in order and keyed by the aggregate, the rows of the
  inserts in a prefix of the log, every column under its own name, and of the whole log
  while the stream goes on. A refused write ends the stream.
\<close>

theorem log_published_in_order:
  assumes "streamLoop env rvs w = (r, w')" and "trace w = []"
  shows "\<exists>k\<le>length rvs. published (trace w') = snd (snd (absorb_all (take k rvs) (Map.empty, 0, [])))
    \<and> (r = Inr Continue \<longrightarrow> k = length rvs)"
proof (cases "r = Inr Continue")
  case True
  with streamLoop_E(2)[OF assms] have "published (trace w') = snd (snd (absorb_all rvs (Map.empty, 0, [])))"
    by (metis progress_of_def snd_conv)
  then show ?thesis by (intro exI[of _ "length rvs"]) simp
next
  case False
  with streamLoop_E(1)[OF assms] show ?thesis by (auto simp: stream_post_def)
qed

text \<open>
  C7. A position reported to the server, which may then forget the log before it, is the end
  of a prefix of the log whose events Kafka had all taken when it was sent.
\<close>

theorem reported_position_is_published:
  assumes "streamLoop env rvs w = (r, w')" and "trace w = []" and "trace w' = pre @ (SendStandbyStatusUpdate p, a) # post"
  shows "\<exists>k\<le>length rvs. (p, published pre) = snd (absorb_all (take k rvs) (Map.empty, 0, []))"
  using streamLoop_E(1)[OF assms(1,2)] assms(3) by (simp add: stream_post_def)

section \<open>Examples\<close>

definition demo_relation :: RelationMessage where
  "demo_relation = \<lparr>rm_RelationID = 7, rm_ColumnNum = 2, rm_Columns = [''id'', ''aggregate_id'']\<rparr>"

definition demo_insert :: InsertMessage where
  "demo_insert = \<lparr>in_RelationID = 7, in_Tuple = Some
     [\<lparr>tc_DataType = CHR ''t'', tc_Data = ''e''\<rparr>, \<lparr>tc_DataType = CHR ''t'', tc_Data = ''o''\<rparr>]\<rparr>"

definition demo_log :: "received list" where
  "demo_log = [XLog (Inr \<lparr>xl_WALStart = 10, xl_Length = 5, xl_Parsed = Inr (Relation demo_relation)\<rparr>),
     XLog (Inr \<lparr>xl_WALStart = 20, xl_Length = 5, xl_Parsed = Inr (Insert demo_insert)\<rparr>)]"

definition demo_cenv :: cenv where
  "demo_cenv = \<lparr>fault = (\<lambda>n. None), commit_err = (\<lambda>n b. None), clock = (\<lambda>n. int n * 20000000000),
     fresh = (\<lambda>n. ''''), answer = (\<lambda>n e. None), json_Valid = (\<lambda>s. True)\<rparr>"

definition demo_cworld :: "(cdc_state, cdc_effect) world" where
  "demo_cworld = init_world \<lparr>relations = Map.empty, clientXLogPos = 0, nextStandbyDeadline = 0\<rparr>"

theorem log_published_in_order_witness:
  "published (trace (snd (streamLoop demo_cenv demo_log demo_cworld)))
     = snd (snd (absorb_all demo_log (Map.empty, 0, [])))"
proof -
  have "fst (streamLoop demo_cenv demo_log demo_cworld) = Inr Continue" by code_simp
  moreover have "trace demo_cworld = []" by (simp add: demo_cworld_def init_world_def)
  ultimately show ?thesis
    using log_published_in_order[where env = demo_cenv and rvs = demo_log and w = demo_cworld, OF prod.collapse[symmetric]] by auto
qed

theorem reported_position_is_published_witness:
  "\<exists>k\<le>length demo_log. (25, published (butlast (trace (snd (streamLoop demo_cenv demo_log demo_cworld)))))
     = snd (absorb_all (take k demo_log) (Map.empty, 0, []))"
proof -
  let ?t = "trace (snd (streamLoop demo_cenv demo_log demo_cworld))"
  have "?t \<noteq> []" "last ?t = (SendStandbyStatusUpdate 25, None)" by code_simp+
  then have "?t = butlast ?t @ (SendStandbyStatusUpdate 25, None) # []" by (metis append_butlast_last_id)
  moreover have "trace demo_cworld = []" by (simp add: demo_cworld_def init_world_def)
  ultimately show ?thesis using reported_position_is_published[OF prod.collapse[symmetric]] by blast
qed

end
