(* ===== verification/Analytics.thy ===== *)
theory Analytics
  imports Consumer GoTimeFacts
begin

text \<open>
  The analytics service: it reads the events that CDC publishes and keeps them as documents
  of an OpenSearch index, under the identifier of the event. OpenSearch and Kafka are not
  part of the repository: what they answer is given by the environment, and a document is
  stored when the answer is not an error, which is what OpenSearch documents. Time-outs of
  commits are not modelled.
\<close>

section \<open>Events\<close>

record event =
  av_ID :: string
  av_AggregateType :: string
  av_AggregateID :: string
  av_EventType :: string
  av_IdempotencyKey :: string
  av_Payload :: "json option"
  av_CreatedAt :: string

definition read_event :: "json \<Rightarrow> goerr + event" where
  "read_event j =
     bind_sum (fields_of j) (\<lambda>fs.
     bind_sum (str_field fs ''id'') (\<lambda>i.
     bind_sum (str_field fs ''aggregate_type'') (\<lambda>aty.
     bind_sum (str_field fs ''aggregate_id'') (\<lambda>aid.
     bind_sum (str_field fs ''event_type'') (\<lambda>ety.
     bind_sum (str_field fs ''idempotency_key'') (\<lambda>key.
     bind_sum (str_field fs ''created_at'') (\<lambda>cre.
     Inr \<lparr>av_ID = i, av_AggregateType = aty, av_AggregateID = aid, av_EventType = ety, av_IdempotencyKey = key,
          av_Payload = raw_field fs ''payload'', av_CreatedAt = cre\<rparr>)))))))"

text \<open>A nil \<open>RawMessage\<close> is written as null.\<close>

definition event_json :: "event \<Rightarrow> json" where
  "event_json e = JObj
     [(''id'', JStr (av_ID e)), (''aggregate_type'', JStr (av_AggregateType e)), (''aggregate_id'', JStr (av_AggregateID e)),
      (''event_type'', JStr (av_EventType e)), (''idempotency_key'', JStr (av_IdempotencyKey e)),
      (''payload'', case av_Payload e of None \<Rightarrow> JNull | Some j \<Rightarrow> j), (''created_at'', JStr (av_CreatedAt e))]"

section \<open>Timestamps\<close>

text \<open>
  \<open>time.Parse\<close> with the layout \<open>2006-01-02 15:04:05.999999-07\<close>: the hour may have one digit,
  a fraction of any length may follow the seconds after a point or a comma, and the zone is
  a sign and two digits up to 24. The result is the instant and the offset of its zone.
\<close>

definition take_number :: "nat \<Rightarrow> string \<Rightarrow> (int \<times> string) option" where
  "take_number n s = (case digits_at s 0 n of None \<Rightarrow> None | Some v \<Rightarrow> Some (v, drop n s))"

definition take_hour :: "string \<Rightarrow> (int \<times> string) option" where
  "take_hour s = (case digits_at s 0 2 of Some v \<Rightarrow> Some (v, drop 2 s)
     | None \<Rightarrow> (case digits_at s 0 1 of Some v \<Rightarrow> Some (v, drop 1 s) | None \<Rightarrow> None))"

definition take_char :: "char \<Rightarrow> string \<Rightarrow> string option" where
  "take_char c s = (case s of [] \<Rightarrow> None | x # xs \<Rightarrow> if x = c then Some xs else None)"

text \<open>A blank of the layout stands for one or more.\<close>

definition take_blanks :: "string \<Rightarrow> string option" where
  "take_blanks s = (if take 1 s = '' '' then Some (dropWhile (\<lambda>c. c = CHR '' '') s) else None)"

definition take_fraction :: "string \<Rightarrow> int \<times> string" where
  "take_fraction s = (case s of [] \<Rightarrow> (0, s) | c # cs \<Rightarrow>
     if c = CHR '','' then parse_fraction (CHR ''.'' # cs) else parse_fraction s)"

definition take_offset :: "string \<Rightarrow> int option" where
  "take_offset s = (case digits_at s 1 2 of
      Some h \<Rightarrow> if length s = 3 \<and> h \<le> 24
        then (if char_at s 0 CHR ''+'' then Some (h * 3600) else if char_at s 0 CHR ''-'' then Some (- (h * 3600)) else None)
        else None
    | None \<Rightarrow> None)"

definition parse_pgTimestamp :: "string \<Rightarrow> (time \<times> int) option" where
  "parse_pgTimestamp s =
     Option.bind (take_number 4 s) (\<lambda>(y, s). Option.bind (take_char CHR ''-'' s) (\<lambda>s.
     Option.bind (take_number 2 s) (\<lambda>(mo, s). Option.bind (take_char CHR ''-'' s) (\<lambda>s.
     Option.bind (take_number 2 s) (\<lambda>(d, s). Option.bind (take_blanks s) (\<lambda>s.
     Option.bind (take_hour s) (\<lambda>(h, s). Option.bind (take_char CHR '':'' s) (\<lambda>s.
     Option.bind (take_number 2 s) (\<lambda>(mi, s). Option.bind (take_char CHR '':'' s) (\<lambda>s.
     Option.bind (take_number 2 s) (\<lambda>(se, s).
     let (ns, s) = take_fraction s in
     Option.bind (take_offset s) (\<lambda>off.
       if 1 \<le> mo \<and> mo \<le> 12 \<and> 1 \<le> d \<and> d \<le> days_in_month y mo \<and> h \<le> 23 \<and> mi \<le> 59 \<and> se \<le> 59
       then Some ((days_from_civil y mo d * 86400 + h * 3600 + mi * 60 + se - off) * 1000000000 + ns, off)
       else None))))))))))))"

text \<open>\<open>Format(time.RFC3339Nano)\<close> of an instant in the zone of an offset, in whole hours.\<close>

definition format_in_zone :: "time \<Rightarrow> int \<Rightarrow> string" where
  "format_in_zone t off =
    (let s = format_RFC3339Nano (t + off * 1000000000) in
     if off = 0 then s
     else butlast s @ (if off < 0 then ''-'' else ''+'') @ pad 2 (\<bar>off\<bar> div 3600) @ '':00'')"

definition normalizeTimestamp :: "string \<Rightarrow> string" where
  "normalizeTimestamp raw = (case parse_pgTimestamp raw of
      None \<Rightarrow> raw | Some (t, off) \<Rightarrow> format_in_zone t off)"

section \<open>The index\<close>

record os_index =
  ix_docs :: "string \<rightharpoonup> event"

record os_answer =
  oa_StatusCode :: int
  oa_Text :: string

definition IsError :: "os_answer \<Rightarrow> bool" where
  "IsError res \<longleftrightarrow> 299 < oa_StatusCode res"

datatype os_effect =
    IndicesExists string
  | IndicesCreate string
  | IndexDocument string string
  | CommitEvent string string nat int

text \<open>\<open>os_kept n\<close>: whether a request that was answered with an error had its effect anyway.\<close>

record aenv = env +
  os_Exists :: "nat \<Rightarrow> goerr + os_answer"
  os_Create :: "nat \<Rightarrow> goerr + os_answer"
  os_Index :: "nat \<Rightarrow> goerr + os_answer"
  os_kept :: "nat \<Rightarrow> bool"
  os_done :: "nat \<Rightarrow> time \<Rightarrow> bool"

type_synonym 'a ana = "((os_index, os_effect) world, 'a) prog"

definition ensureIndex :: "('b) aenv_scheme \<Rightarrow> string \<Rightarrow> unit ana" where
  "ensureIndex env index =
     bnd (emit (IndicesExists index)) (\<lambda>_.
     bnd (map_err (wrap ''indices.exists'') (call (os_Exists env))) (\<lambda>res.
     if oa_StatusCode res = 200 then ret ()
     else
       bnd (emit (IndicesCreate index)) (\<lambda>_.
       bnd (map_err (wrap ''indices.create'') (call (os_Create env))) (\<lambda>cr.
       fail_if (IsError cr) (ErrText (''indices.create error: '' @ oa_Text cr))))))"

text \<open>The loop of \<open>newIndexer\<close>: the attempts that are left, and the last error.\<close>

definition os_maxRetries :: nat where "os_maxRetries = 30"

fun index_attempts :: "('b) aenv_scheme \<Rightarrow> string \<Rightarrow> nat \<Rightarrow> goerr \<Rightarrow> unit ana" where
  "index_attempts env index 0 err =
     throw (wrap (''opensearch not ready after '' @ show_nat os_maxRetries @ '' retries'') err)"
| "index_attempts env index (Suc left) err =
     bnd (attempt (ensureIndex env index)) (\<lambda>r. case r of
         Inr _ \<Rightarrow> ret ()
       | Inl e \<Rightarrow> bnd (ask (\<lambda>t. os_done env t 2000000000)) (\<lambda>stop.
           if stop then throw (Sentinel Context_Canceled) else index_attempts env index left e))"

definition newIndexer :: "('b) aenv_scheme \<Rightarrow> string list \<Rightarrow> (string list \<Rightarrow> goerr option) \<Rightarrow> string \<Rightarrow> string ana" where
  "newIndexer env urls NewClient index =
     bnd (fail_if (urls = []) (ErrText ''no OpenSearch addresses configured'')) (\<lambda>_.
     bnd (of_sum (case NewClient urls of None \<Rightarrow> Inr () | Some e \<Rightarrow> Inl (wrap ''opensearch client'' e))) (\<lambda>_.
     bnd (index_attempts env index os_maxRetries (ErrText '''')) (\<lambda>_. ret index)))"

text \<open>The document under the identifier of the event is replaced.\<close>

definition put_document :: "('b) aenv_scheme \<Rightarrow> event \<Rightarrow> os_answer ana" where
  "put_document env evt = (\<lambda>w.
    (let stored = (data w)\<lparr>ix_docs := (ix_docs (data w))(av_ID evt \<mapsto> evt)\<rparr> in
     case os_Index env (ticks w) of
       Inl e \<Rightarrow> (Inl e, (tick w)\<lparr>data := (if os_kept env (ticks w) then stored else data w)\<rparr>)
     | Inr res \<Rightarrow> (Inr res, (tick w)\<lparr>data := (if \<not> IsError res \<or> os_kept env (ticks w) then stored else data w)\<rparr>)))"

definition indexEvent :: "('b) aenv_scheme \<Rightarrow> string \<Rightarrow> event \<Rightarrow> unit ana" where
  "indexEvent env index evt =
     bnd (emit (IndexDocument index (av_ID evt))) (\<lambda>_.
     bnd (map_err (wrap ''index'') (put_document env evt)) (\<lambda>res.
     fail_if (IsError res) (ErrText (''index error: '' @ oa_Text res))))"

section \<open>The loop\<close>

definition normalized :: "event \<Rightarrow> event" where
  "normalized evt = evt\<lparr>av_CreatedAt := normalizeTimestamp (av_CreatedAt evt)\<rparr>"

definition commitMessage :: "(message, os_effect) kafka_reader \<Rightarrow> message fetched \<Rightarrow> unit ana" where
  "commitMessage reader m = bnd (attempt (CommitMessages reader m)) (\<lambda>_. ret ())"

text \<open>
  \<open>consumeLoop\<close>, for the messages that are fetched. A message that is no event is committed
  and skipped; one that cannot be indexed is passed over without a commit.
\<close>

fun consumeLoop ::
  "('b) aenv_scheme \<Rightarrow> (message, os_effect) kafka_reader \<Rightarrow> string \<Rightarrow> message fetch list \<Rightarrow> consumer_state ana" where
  "consumeLoop env reader index [] = ret Waiting"
| "consumeLoop env reader index (FetchFailed err # fs) = ret Returned"
| "consumeLoop env reader index (Fetched m # fs) =
     (case bind_sum (ms_Value (ft_Message m)) read_event of
        Inl err \<Rightarrow> bnd (commitMessage reader m) (\<lambda>_. consumeLoop env reader index fs)
      | Inr evt \<Rightarrow> bnd (attempt (indexEvent env index (normalized evt))) (\<lambda>r. case r of
          Inl err \<Rightarrow> consumeLoop env reader index fs
        | Inr _ \<Rightarrow> bnd (commitMessage reader m) (\<lambda>_. consumeLoop env reader index fs)))"

definition analytics_reader ::
  "(nat \<Rightarrow> message fetched \<Rightarrow> goerr option) \<Rightarrow> string \<Rightarrow> string \<Rightarrow> (message, os_effect) kafka_reader" where
  "analytics_reader CommitMsgs topic grp = \<lparr>kr_Topic = topic, kr_GroupID = grp, kr_CommitMessages = CommitMsgs, kr_effect = CommitEvent\<rparr>"

text \<open>\<open>Run\<close>: a service whose index is not ready exits.\<close>

definition analytics_Run ::
  "('b) aenv_scheme \<Rightarrow> (string list \<Rightarrow> goerr option) \<Rightarrow> (nat \<Rightarrow> message fetched \<Rightarrow> goerr option)
   \<Rightarrow> string list \<Rightarrow> string \<Rightarrow> string \<Rightarrow> string \<Rightarrow> message fetch list \<Rightarrow> consumer_state ana" where
  "analytics_Run env NewClient CommitMsgs urls topic grp index fetches =
     bnd (newIndexer env urls NewClient index) (\<lambda>idx.
     consumeLoop env (analytics_reader CommitMsgs topic grp) idx fetches)"

end
