(* ===== verification/AnalyticsFacts.thy ===== *)
theory AnalyticsFacts
  imports Analytics CdcFacts PmDatabase "HOL-Library.Sublist"
begin

text \<open>
  What the projection guarantees: nothing is committed before it is indexed, an event that
  is delivered again leaves the index as it is, and the events of the log arrive as CDC read
  them. The timestamps of PostgreSQL are rewritten to RFC 3339 of the same instant.
\<close>

section \<open>Committed messages are indexed\<close>

definition event_of :: "message fetched \<Rightarrow> event option" where
  "event_of m = (case bind_sum (ms_Value (ft_Message m)) read_event of Inl _ \<Rightarrow> None | Inr e \<Rightarrow> Some (normalized e))"

fun is_commit_event :: "os_effect \<Rightarrow> bool" where
  "is_commit_event (CommitEvent t g p n) = True"
| "is_commit_event _ = False"

definition has_document :: "os_index \<Rightarrow> message fetched \<Rightarrow> bool" where
  "has_document d m = (case event_of m of None \<Rightarrow> True | Some e \<Rightarrow> av_ID e \<in> dom (ix_docs d))"

lemma put_document_E:
  assumes "put_document env evt w = (r, w')"
  shows "trace w' = trace w \<and> ticks w' = Suc (ticks w)
    \<and> (ix_docs (data w') = ix_docs (data w) \<or> ix_docs (data w') = (ix_docs (data w))(av_ID evt \<mapsto> evt))
    \<and> (\<forall>res. r = Inr res \<and> \<not> IsError res \<longrightarrow> ix_docs (data w') = (ix_docs (data w))(av_ID evt \<mapsto> evt))"
  using assms by (auto simp: put_document_def Let_def split: sum.splits if_splits)

lemma indexEvent_E:
  assumes "indexEvent env index evt w = (r, w')"
  shows "trace w' = trace w @ [IndexDocument index (av_ID evt)]
    \<and> dom (ix_docs (data w)) \<subseteq> dom (ix_docs (data w'))
    \<and> (r = Inr () \<longrightarrow> ix_docs (data w') = (ix_docs (data w))(av_ID evt \<mapsto> evt))"
proof -
  let ?w1 = "w\<lparr>trace := trace w @ [IndexDocument index (av_ID evt)]\<rparr>"
  obtain q w2 where put: "put_document env evt ?w1 = (q, w2)" by (cases "put_document env evt ?w1")
  with assms have "w' = w2" "r = Inr () \<Longrightarrow> \<exists>res. q = Inr res \<and> \<not> IsError res"
    by (auto simp: indexEvent_def run_simps split: sum.splits if_splits)
  with put_document_E[OF put] show ?thesis by auto
qed

lemma commitMessage_run:
  "commitMessage reader m w = (Inr (), snd (CommitMessages reader m w))"
  by (auto simp: commitMessage_def run_simps split: prod.splits sum.splits)

text \<open>
  C13. The analytics service commits a message only when it carries no event or its event is
  in the index, whatever OpenSearch and Kafka answer. It commits in the order of the
  messages, and no document is ever taken out of the index.
\<close>

theorem committed_is_indexed:
  assumes "consumeLoop env (analytics_reader CommitMsgs topic grp) index fs w = (r, w')"
  shows "\<exists>kept. subseq kept (received fs)
    \<and> filter is_commit_event (trace w') = filter is_commit_event (trace w)
        @ map (\<lambda>m. CommitEvent topic grp (ft_Partition m) (ft_Offset m)) kept
    \<and> list_all (has_document (data w')) kept \<and> dom (ix_docs (data w)) \<subseteq> dom (ix_docs (data w'))"
  using assms
proof (induction fs arbitrary: w)
  case (Cons f fs)
  let ?rd = "analytics_reader CommitMsgs topic grp"
  show ?case
  proof (cases f)
    case (FetchFailed e)
    with Cons.prems show ?thesis by (auto simp: run_simps intro!: exI[of _ "[]"])
  next
    case (Fetched m)
    have commit: "data (snd (CommitMessages ?rd m v)) = data v
        \<and> trace (snd (CommitMessages ?rd m v)) = trace v @ [CommitEvent topic grp (ft_Partition m) (ft_Offset m)]" for v
      using CommitMessages_E[OF prod.collapse[symmetric], of ?rd m v] by (simp add: analytics_reader_def)
    show ?thesis
    proof (cases "bind_sum (ms_Value (ft_Message m)) read_event")
      case (Inl err)
      with Cons.prems Fetched have "consumeLoop env ?rd index fs (snd (CommitMessages ?rd m w)) = (r, w')"
        by (simp add: run_bnd commitMessage_run)
      from Cons.IH[OF this] obtain kept where k: "subseq kept (received fs)"
        "filter is_commit_event (trace w') = filter is_commit_event (trace w)
          @ map (\<lambda>m. CommitEvent topic grp (ft_Partition m) (ft_Offset m)) (m # kept)"
        "list_all (has_document (data w')) kept" "dom (ix_docs (data w)) \<subseteq> dom (ix_docs (data w'))"
        using commit[of w] by auto
      moreover have "has_document (data w') m" using Inl by (simp add: has_document_def event_of_def)
      ultimately show ?thesis
        unfolding Fetched received.simps by (intro exI[of _ "m # kept"]) simp
    next
      case (Inr evt)
      obtain q w1 where ix: "indexEvent env index (normalized evt) w = (q, w1)"
        by (cases "indexEvent env index (normalized evt) w")
      note i = indexEvent_E[OF ix]
      have grown: "dom (ix_docs (data w)) \<subseteq> dom (ix_docs (data w1))"
        and silent: "filter is_commit_event (trace w1) = filter is_commit_event (trace w)" using i by simp_all
      show ?thesis
      proof (cases q)
        case (Inl e)
        with Cons.prems Fetched Inr ix have "consumeLoop env ?rd index fs w1 = (r, w')" by (simp add: run_simps)
        from Cons.IH[OF this] obtain kept where "subseq kept (received fs)"
          "filter is_commit_event (trace w') = filter is_commit_event (trace w)
            @ map (\<lambda>m. CommitEvent topic grp (ft_Partition m) (ft_Offset m)) kept"
          "list_all (has_document (data w')) kept" "dom (ix_docs (data w1)) \<subseteq> dom (ix_docs (data w'))"
          unfolding silent by blast
        with grown show ?thesis unfolding Fetched received.simps by (intro exI[of _ kept]) auto
      next
        case ok: (Inr u)
        with Cons.prems Fetched Inr ix have "consumeLoop env ?rd index fs (snd (CommitMessages ?rd m w1)) = (r, w')"
          by (simp add: run_simps commitMessage_run)
        from Cons.IH[OF this] obtain kept where k: "subseq kept (received fs)"
          "filter is_commit_event (trace w') = filter is_commit_event (trace w)
            @ map (\<lambda>m. CommitEvent topic grp (ft_Partition m) (ft_Offset m)) (m # kept)"
          "list_all (has_document (data w')) kept" "dom (ix_docs (data w1)) \<subseteq> dom (ix_docs (data w'))"
          using commit[of w1] silent by auto
        moreover have "has_document (data w') m"
          using Inr k(4) i ok by (auto simp: has_document_def event_of_def)
        ultimately show ?thesis
          using grown unfolding Fetched received.simps by (intro exI[of _ "m # kept"]) auto
      qed
    qed
  qed
qed (auto simp: run_simps)

section \<open>The index as a projection\<close>

definition healthy_index :: "('b) aenv_scheme \<Rightarrow> bool" where
  "healthy_index env \<longleftrightarrow> (\<forall>n. \<exists>res. os_Index env n = Inr res \<and> \<not> IsError res)"

definition index_all :: "event list \<Rightarrow> (string \<rightharpoonup> event) \<Rightarrow> (string \<rightharpoonup> event)" where
  "index_all es docs = fold (\<lambda>e d. d(av_ID e \<mapsto> e)) es docs"

definition events_in :: "message fetch list \<Rightarrow> event list" where
  "events_in fs = List.map_filter event_of (received fs)"

lemma indexEvent_healthy:
  assumes "healthy_index env"
  obtains w' where "indexEvent env index evt w = (Inr (), w')"
proof -
  from assms obtain res where "os_Index env (ticks w) = Inr res" "\<not> IsError res"
    unfolding healthy_index_def by blast
  then show thesis by (intro that) (simp add: indexEvent_def put_document_def run_simps Let_def)
qed

lemma consumed_documents:
  assumes "healthy_index env" and "consumeLoop env reader index fs w = (r, w')"
  shows "ix_docs (data w') = index_all (events_in fs) (ix_docs (data w))"
  using assms(2)
proof (induction fs arbitrary: w)
  case (Cons f fs)
  show ?case
  proof (cases f)
    case (FetchFailed e)
    with Cons.prems show ?thesis by (auto simp: run_simps events_in_def index_all_def List.map_filter_simps)
  next
    case (Fetched m)
    have commit: "data (snd (CommitMessages reader m v)) = data v" for v
      using CommitMessages_E[OF prod.collapse[symmetric], of reader m v] by simp
    show ?thesis
    proof (cases "bind_sum (ms_Value (ft_Message m)) read_event")
      case (Inl err)
      with Cons.prems Fetched have "consumeLoop env reader index fs (snd (CommitMessages reader m w)) = (r, w')"
        by (simp add: run_bnd commitMessage_run)
      from Cons.IH[OF this] Inl Fetched show ?thesis
        by (simp add: commit events_in_def event_of_def List.map_filter_simps)
    next
      case (Inr evt)
      obtain w1 where ix: "indexEvent env index (normalized evt) w = (Inr (), w1)"
        by (rule indexEvent_healthy[OF assms(1)])
      with Cons.prems Fetched Inr have "consumeLoop env reader index fs (snd (CommitMessages reader m w1)) = (r, w')"
        by (simp add: run_simps commitMessage_run)
      from Cons.IH[OF this] indexEvent_E[OF ix] Inr Fetched show ?thesis
        by (simp add: commit events_in_def event_of_def index_all_def List.map_filter_simps fun_upd_def)
    qed
  qed
qed (simp add: run_simps events_in_def index_all_def List.map_filter_simps)

text \<open>Events with one identifier are one event: then their order and repetitions do not matter.\<close>

definition one_event_each :: "event set \<Rightarrow> bool" where
  "one_event_each es \<longleftrightarrow> inj_on av_ID es"

lemma index_all_lookup:
  assumes "one_event_each (set es)"
  shows "index_all es docs i = (if i \<in> av_ID ` set es then Some (the_inv_into (set es) av_ID i) else docs i)"
  using assms
proof (induction es rule: rev_induct)
  case (snoc e es)
  have inj: "inj_on av_ID (set (es @ [e]))" using snoc.prems by (simp add: one_event_each_def)
  then have sub: "inj_on av_ID (set es)" by (rule inj_on_subset) auto
  have here: "the_inv_into (set (es @ [e])) av_ID (av_ID e) = e"
    by (rule the_inv_into_f_f[OF inj]) simp
  have rest: "the_inv_into (set (es @ [e])) av_ID (av_ID e') = the_inv_into (set es) av_ID (av_ID e')" if "e' \<in> set es" for e'
    using the_inv_into_f_f[OF inj, of e'] the_inv_into_f_f[OF sub that] that by simp
  have step: "index_all (es @ [e]) docs = (index_all es docs)(av_ID e \<mapsto> e)" by (simp add: index_all_def)
  show ?case
  proof (cases "i = av_ID e")
    case True
    then show ?thesis using here by (simp add: step)
  next
    case False
    then show ?thesis using snoc.IH[unfolded one_event_each_def, OF sub] rest by (auto simp: step)
  qed
qed (simp add: index_all_def)

lemma index_all_same:
  assumes "set es = set es'" and "one_event_each (set es)"
  shows "index_all es docs = index_all es' docs"
  using index_all_lookup[OF assms(2)] index_all_lookup[of es'] assms by (auto simp: fun_eq_iff)

text \<open>
  C36. The index does not depend on how often and in which order the events were delivered:
  two runs that got the same events, whatever else they got, end with the same documents.
\<close>

theorem redelivered_events_indexed_once:
  assumes "healthy_index env" and "healthy_index env'"
    and "consumeLoop env reader index fs w = (r, w1)" and "consumeLoop env' reader' index' fs' w = (r', w2)"
    and "set (events_in fs) = set (events_in fs')" and "one_event_each (set (events_in fs))"
  shows "ix_docs (data w1) = ix_docs (data w2)"
  unfolding consumed_documents[OF assms(1,3)] consumed_documents[OF assms(2,4)]
  using assms(5,6) by (rule index_all_same)

section \<open>Timestamps\<close>

text \<open>How PostgreSQL prints an instant in UTC: a blank for the T of RFC 3339, and the offset for the Z.\<close>

definition pg_timestamp :: "time \<Rightarrow> string" where
  "pg_timestamp t = (let s = format_RFC3339Nano t in take 10 s @ '' '' @ drop 11 (butlast s) @ ''+00'')"

lemma take_number_pad:
  "0 \<le> i \<Longrightarrow> i < 10 ^ n \<Longrightarrow> 0 < n \<Longrightarrow> take_number n (pad n i @ rest) = Some (i, rest)"
  using digits_at_pad[of 0 "pad n i @ rest" n i rest] by (simp add: take_number_def pad_digits)

lemma take_hour_pad: "0 \<le> i \<Longrightarrow> i < 100 \<Longrightarrow> take_hour (pad 2 i @ rest) = Some (i, rest)"
  using digits_at_pad[of 0 "pad 2 i @ rest" 2 i rest] by (simp add: take_hour_def pad_digits)

lemma pad_no_blank:
  assumes "0 \<le> i" and "i < 10 ^ n" and "0 < n"
  shows "dropWhile (\<lambda>c. c = CHR '' '') (pad n i @ rest) = pad n i @ rest"
proof -
  obtain c cs where c: "pad n i = c # cs" using pad_digits(1)[OF assms] assms(3) by (cases "pad n i") auto
  then have "is_digit c" using pad_digits(2)[OF assms] by simp
  then have "c \<noteq> CHR '' ''" by (auto simp: is_digit_def)
  with c show ?thesis by simp
qed

lemma take_offset_zero: "take_offset ''+00'' = Some 0"
  by code_simp

lemma fraction_then_offset:
  assumes "0 \<le> ns" and "ns < 1000000000"
  shows "take_fraction ((if ns = 0 then '''' else ''.'' @ trimmed (pad 9 ns)) @ ''+00'') = (ns, ''+00'')"
proof (cases "ns = 0")
  case True
  then show ?thesis by (simp add: take_fraction_def parse_fraction_def)
next
  case False
  with assms have "0 < ns" by simp
  moreover have "\<not> is_digit CHR ''+''" by (simp add: is_digit_def)
  ultimately have "parse_fraction (''.'' @ trimmed (pad 9 ns) @ ''+00'') = (ns, ''+00'')"
    using assms(2) by (intro fraction_read)
  with False show ?thesis by (simp add: take_fraction_def)
qed

lemma pg_stamp_read:
  assumes "0 \<le> y" "y < 10000" "1 \<le> mo" "mo \<le> 12" "1 \<le> d" "d \<le> days_in_month y mo"
    and "0 \<le> h" "h \<le> 23" "0 \<le> mi" "mi \<le> 59" "0 \<le> se" "se \<le> 59"
    and "take_fraction (fr @ ''+00'') = (ns, ''+00'')"
    and "s = pad 4 y @ ''-'' @ pad 2 mo @ ''-'' @ pad 2 d @ '' '' @ pad 2 h @ '':'' @ pad 2 mi @ '':'' @ pad 2 se @ fr @ ''+00''"
  shows "parse_pgTimestamp s = Some ((days_from_civil y mo d * 86400 + h * 3600 + mi * 60 + se) * 1000000000 + ns, 0)"
proof -
  have d: "d \<le> 31" using assms(6) by (auto simp: days_in_month_def split: if_splits)
  have n: "take_number 4 (pad 4 y @ r) = Some (y, r)" "take_number 2 (pad 2 mo @ r) = Some (mo, r)"
    "take_number 2 (pad 2 d @ r) = Some (d, r)" "take_number 2 (pad 2 mi @ r) = Some (mi, r)"
    "take_number 2 (pad 2 se @ r) = Some (se, r)" for r
    using assms(1-12) d by (simp_all add: take_number_pad)
  have h: "take_hour (pad 2 h @ r) = Some (h, r)" "dropWhile (\<lambda>c. c = CHR '' '') (pad 2 h @ r) = pad 2 h @ r" for r
    using assms(7,8) by (simp_all add: take_hour_pad pad_no_blank)
  show ?thesis
    unfolding parse_pgTimestamp_def assms(14) using assms(3-12)
    by (simp add: n h assms(13) take_blanks_def take_char_def take_offset_zero)
qed

text \<open>
  The timestamps that PostgreSQL writes in UTC are rewritten to RFC 3339 of the same
  instant, for the years that have four digits.
\<close>

lemma pg_timestamp_read:
  assumes "0 \<le> year_of t" and "year_of t < 10000"
  shows "normalizeTimestamp (pg_timestamp t) = format_RFC3339Nano t
    \<and> parse_RFC3339 (normalizeTimestamp (pg_timestamp t)) = Inr t"
proof -
  let ?secs = "t div 1000000000" and ?ns = "t mod 1000000000"
  let ?sod = "?secs mod 86400"
  let ?fr = "if ?ns = 0 then '''' else ''.'' @ trimmed (pad 9 ?ns)"
  obtain y mo d where civil: "civil_from_days (?secs div 86400) = (y, mo, d)" by (metis prod_cases3)
  note cal = civil_roundtrip[OF civil]
  have y: "0 \<le> y" "y < 10000" using assms civil by (simp_all add: year_of_def)
  have d: "d \<le> 31" using cal(5) by (auto simp: days_in_month_def split: if_splits)
  have hms: "0 \<le> ?sod div 3600" "?sod div 3600 \<le> 23" "0 \<le> ?sod div 60 mod 60" "?sod div 60 mod 60 \<le> 59"
    "0 \<le> ?sod mod 60" "?sod mod 60 \<le> 59"
    and sod: "?sod div 3600 * 3600 + ?sod div 60 mod 60 * 60 + ?sod mod 60 = ?sod"
    using hours_minutes_seconds[of ?secs] by blast+
  have l: "length (pad 4 y) = 4" "length (pad 2 mo) = 2" "length (pad 2 d) = 2"
    using y cal(2-4) d by (simp_all add: pad_digits)
  have stamp: "pg_timestamp t = pad 4 y @ ''-'' @ pad 2 mo @ ''-'' @ pad 2 d @ '' '' @ pad 2 (?sod div 3600) @ '':''
      @ pad 2 (?sod div 60 mod 60) @ '':'' @ pad 2 (?sod mod 60) @ ?fr @ ''+00''"
    unfolding pg_timestamp_def Let_def format_split[OF civil] by (simp add: l butlast_append)
  have "parse_pgTimestamp (pg_timestamp t)
      = Some ((days_from_civil y mo d * 86400 + ?sod div 3600 * 3600 + ?sod div 60 mod 60 * 60 + ?sod mod 60) * 1000000000 + ?ns, 0)"
    by (rule pg_stamp_read[OF y cal(2-5) hms fraction_then_offset stamp]) simp_all
  also have "(days_from_civil y mo d * 86400 + ?sod div 3600 * 3600 + ?sod div 60 mod 60 * 60 + ?sod mod 60) * 1000000000 + ?ns = t"
  proof -
    have "days_from_civil y mo d * 86400 + ?sod div 3600 * 3600 + ?sod div 60 mod 60 * 60 + ?sod mod 60 = ?secs"
      using sod div_mult_mod_eq[of ?secs 86400] unfolding cal(1) by linarith
    then show ?thesis by (simp only: div_mult_mod_eq)
  qed
  finally have "normalizeTimestamp (pg_timestamp t) = format_RFC3339Nano t"
    by (simp add: normalizeTimestamp_def format_in_zone_def)
  with instant_roundtrip[OF assms] show ?thesis by simp
qed

section \<open>From the log to the index\<close>

text \<open>
  The message that CDC writes for an event. \<open>decode\<close> is what a JSON reader makes of the text
  of a payload column.
\<close>

definition walEvent_json :: "(string \<Rightarrow> json) \<Rightarrow> walEvent \<Rightarrow> json" where
  "walEvent_json decode e = JObj
     [(''id'', JStr (we_ID e)), (''aggregate_type'', JStr (we_AggregateType e)), (''aggregate_id'', JStr (we_AggregateID e)),
      (''event_type'', JStr (we_EventType e)), (''idempotency_key'', JStr (we_IdempotencyKey e)),
      (''payload'', case we_Payload e of None \<Rightarrow> JNull | Some raw \<Rightarrow> decode raw), (''created_at'', JStr (we_CreatedAt e))]"

definition cdc_message :: "(string \<Rightarrow> json) \<Rightarrow> string \<times> walEvent \<Rightarrow> message" where
  "cdc_message decode p = \<lparr>ms_Key = fst p, ms_Value = Inr (walEvent_json decode (snd p))\<rparr>"

text \<open>The document of an event.\<close>

definition projected :: "(string \<Rightarrow> json) \<Rightarrow> walEvent \<Rightarrow> event" where
  "projected decode e = \<lparr>av_ID = we_ID e, av_AggregateType = we_AggregateType e, av_AggregateID = we_AggregateID e,
     av_EventType = we_EventType e, av_IdempotencyKey = we_IdempotencyKey e,
     av_Payload = Some (case we_Payload e of None \<Rightarrow> JNull | Some raw \<Rightarrow> decode raw),
     av_CreatedAt = normalizeTimestamp (we_CreatedAt e)\<rparr>"

lemma read_written_event:
  "bind_sum (ms_Value (cdc_message decode p)) read_event
   = Inr ((projected decode (snd p))\<lparr>av_CreatedAt := we_CreatedAt (snd p)\<rparr>)"
  by (simp add: cdc_message_def read_event_def walEvent_json_def fields_of_def str_field_def raw_field_def projected_def)

lemma event_of_written: "ft_Message m = cdc_message decode p \<Longrightarrow> event_of m = Some (projected decode (snd p))"
  unfolding event_of_def using read_written_event[of decode p] by (simp add: normalized_def projected_def)

lemma events_in_written:
  assumes "ft_Message ` set (received fs) = cdc_message decode ` ps"
  shows "set (events_in fs) = projected decode ` snd ` ps"
proof -
  have "set (events_in fs) = {e. \<exists>m\<in>set (received fs). event_of m = Some e}"
    by (force simp: events_in_def List.map_filter_def image_iff)
  also have "\<dots> = projected decode ` snd ` ps"
  proof (intro set_eqI iffI)
    fix e
    assume "e \<in> {e. \<exists>m\<in>set (received fs). event_of m = Some e}"
    then obtain m where m: "m \<in> set (received fs)" "event_of m = Some e" by blast
    then obtain p where "p \<in> ps" "ft_Message m = cdc_message decode p" using assms by blast
    with m(2) event_of_written show "e \<in> projected decode ` snd ` ps" by (metis image_eqI option.inject)
  next
    fix e
    assume "e \<in> projected decode ` snd ` ps"
    then obtain p where p: "p \<in> ps" "e = projected decode (snd p)" by blast
    then obtain m where "m \<in> set (received fs)" "ft_Message m = cdc_message decode p" using assms by (metis imageE imageI)
    with p(2) event_of_written show "e \<in> {e. \<exists>m\<in>set (received fs). event_of m = Some e}" by blast
  qed
  finally show ?thesis .
qed

text \<open>
  The table \<open>events\<close> in the log: its relation has the columns of the migration, and every row is
  an insert of their texts; \<open>enc\<close> is how PostgreSQL writes \<open>jsonb\<close>. The relation comes before the
  first row and may come again; anything that inserts no row may stand in between.
\<close>

definition events_relation :: "32 word \<Rightarrow> RelationMessage" where
  "events_relation i = \<lparr>rm_RelationID = i, rm_ColumnNum = 7, rm_Columns =
     [''id'', ''aggregate_type'', ''aggregate_id'', ''event_type'', ''idempotency_key'', ''payload'', ''created_at'']\<rparr>"

definition row_insert :: "32 word \<Rightarrow> (json \<Rightarrow> string) \<Rightarrow> event_row \<Rightarrow> InsertMessage" where
  "row_insert i enc r = \<lparr>in_RelationID = i, in_Tuple = Some (map (\<lambda>s. \<lparr>tc_DataType = CHR ''t'', tc_Data = s\<rparr>)
     [e_id r, e_aggregate_type r, e_aggregate_id r, e_event_type r, e_idempotency_key r, enc (e_payload r),
      pg_timestamp (e_created_at r)])\<rparr>"

definition logged_relations :: "received list \<Rightarrow> RelationMessage set" where
  "logged_relations rvs = {m. \<exists>x. XLog (Inr x) \<in> set rvs \<and> xl_Parsed x = Inr (Relation m)}"

fun logged_inserts :: "received list \<Rightarrow> InsertMessage list" where
  "logged_inserts [] = []"
| "logged_inserts (rv # rvs) = (case rv of
      XLog (Inr x) \<Rightarrow> (case xl_Parsed x of Inr (Insert m) \<Rightarrow> m # logged_inserts rvs | _ \<Rightarrow> logged_inserts rvs)
    | _ \<Rightarrow> logged_inserts rvs)"

definition logs_table :: "32 word \<Rightarrow> (json \<Rightarrow> string) \<Rightarrow> event_row list \<Rightarrow> received list \<Rightarrow> bool" where
  "logs_table i enc rows rvs \<longleftrightarrow> (\<exists>before x after. rvs = before @ XLog (Inr x) # after
     \<and> xl_Parsed x = Inr (Relation (events_relation i)) \<and> logged_inserts before = []
     \<and> logged_relations after \<subseteq> {events_relation i} \<and> logged_inserts after = map (row_insert i enc) rows)"

text \<open>Rows that can be written and read again: what the columns require, and years with four digits.\<close>

definition loggable :: "(json \<Rightarrow> string) \<Rightarrow> (string \<Rightarrow> json) \<Rightarrow> event_row \<Rightarrow> bool" where
  "loggable enc decode r \<longleftrightarrow> e_aggregate_id r \<noteq> '''' \<and> decode (enc (e_payload r)) = e_payload r
     \<and> 0 \<le> year_of (e_created_at r) \<and> year_of (e_created_at r) < 10000"

definition logged_row :: "(json \<Rightarrow> string) \<Rightarrow> event_row \<Rightarrow> walEvent" where
  "logged_row enc r = \<lparr>we_ID = e_id r, we_AggregateType = e_aggregate_type r, we_AggregateID = e_aggregate_id r,
     we_EventType = e_event_type r, we_IdempotencyKey = e_idempotency_key r, we_Payload = Some (enc (e_payload r)),
     we_CreatedAt = pg_timestamp (e_created_at r)\<rparr>"

lemma upt_7: "[0..<7] = [0, 1, 2, 3, 4, 5, 6 :: nat]"
  by (simp add: upt_rec)

lemma row_due:
  assumes "rels i = Some (events_relation i)" and "e_aggregate_id r \<noteq> ''''"
  shows "due rels (row_insert i enc r) = [(e_aggregate_id r, logged_row enc r)]"
  using assms
  by (simp add: due_def row_insert_def row_event_def column_text_def events_relation_def upt_7 logged_row_def Let_def)

lemma absorb_no_insert:
  "logged_inserts before = [] \<Longrightarrow> snd (snd (absorb_all before s)) = snd (snd s)"
proof (induction before arbitrary: s)
  case (Cons rv rvs)
  obtain rels p evs where s: "s = (rels, p, evs)" by (cases s)
  from Cons.prems have "snd (snd (absorb rv s)) = snd (snd s)" "logged_inserts rvs = []"
    by (auto simp: s absorb_def Let_def split: received.splits sum.splits wal_message.splits)
  with Cons.IH show ?case by simp
qed simp

lemma absorb_rows:
  assumes "logged_inserts rvs = map (row_insert i enc) rows" and "logged_relations rvs \<subseteq> {events_relation i}"
    and "fst s i = Some (events_relation i)" and "\<forall>r\<in>set rows. e_aggregate_id r \<noteq> ''''"
  shows "snd (snd (absorb_all rvs s)) = snd (snd s) @ map (\<lambda>r. (e_aggregate_id r, logged_row enc r)) rows"
  using assms
proof (induction rvs arbitrary: s rows)
  case (Cons rv rvs)
  obtain rels p evs where s: "s = (rels, p, evs)" by (cases s)
  have rest: "logged_relations rvs \<subseteq> {events_relation i}" using Cons.prems(2) by (auto simp: logged_relations_def)
  show ?case
  proof (cases "\<exists>x m. rv = XLog (Inr x) \<and> xl_Parsed x = Inr (Insert m)")
    case True
    then obtain x m where rv: "rv = XLog (Inr x)" "xl_Parsed x = Inr (Insert m)" by blast
    with Cons.prems(1) obtain r rs where rows: "rows = r # rs" "m = row_insert i enc r"
      "logged_inserts rvs = map (row_insert i enc) rs" by (cases rows) auto
    have "due rels m = [(e_aggregate_id r, logged_row enc r)]"
      using Cons.prems(3,4) unfolding rows by (intro row_due) (simp_all add: s)
    then have step: "absorb rv s = (rels, xl_WALStart x + of_nat (xl_Length x), evs @ [(e_aggregate_id r, logged_row enc r)])"
      by (simp add: absorb_def s rv Let_def)
    have "snd (snd (absorb_all rvs (absorb rv s))) = snd (snd (absorb rv s)) @ map (\<lambda>r. (e_aggregate_id r, logged_row enc r)) rs"
      using Cons.prems(3,4) rows by (intro Cons.IH[OF rows(3) rest]) (simp_all add: step[unfolded s] s)
    then show ?thesis by (simp add: step[unfolded s] s rows)
  next
    case False
    then have ins: "logged_inserts rvs = map (row_insert i enc) rows"
      using Cons.prems(1) by (auto split: received.splits sum.splits wal_message.splits)
    have "fst (absorb rv s) i = Some (events_relation i)" "snd (snd (absorb rv s)) = evs"
      using False Cons.prems(2,3)
      by (auto simp: absorb_def s Let_def logged_relations_def events_relation_def split: received.splits sum.splits wal_message.splits)
    with Cons.IH[OF ins rest _ Cons.prems(4), of "absorb rv s"] show ?thesis by (simp add: s)
  qed
qed simp

lemma logged_table_events:
  assumes "logs_table i enc rows rvs" and "\<forall>r\<in>set rows. e_aggregate_id r \<noteq> ''''"
  shows "snd (snd (absorb_all rvs (Map.empty, 0, []))) = map (\<lambda>r. (e_aggregate_id r, logged_row enc r)) rows"
proof -
  from assms(1) obtain before x after where rvs: "rvs = before @ XLog (Inr x) # after"
    and x: "xl_Parsed x = Inr (Relation (events_relation i))" and b: "logged_inserts before = []"
    and a: "logged_relations after \<subseteq> {events_relation i}" "logged_inserts after = map (row_insert i enc) rows"
    unfolding logs_table_def by blast
  let ?s = "absorb_all before (Map.empty, 0, [])"
  have "fst (absorb (XLog (Inr x)) ?s) i = Some (events_relation i)" "snd (snd (absorb (XLog (Inr x)) ?s)) = []"
    using x absorb_no_insert[OF b, of "(Map.empty, 0, [])"]
    by (auto simp: absorb_def Let_def events_relation_def split: prod.splits)
  with absorb_rows[OF a(2,1) _ assms(2), of "absorb (XLog (Inr x)) ?s"] show ?thesis
    by (simp add: rvs absorb_all_def)
qed

text \<open>The document of a row: its columns, the payload as a document, the time in RFC 3339.\<close>

definition row_document :: "event_row \<Rightarrow> event" where
  "row_document r = \<lparr>av_ID = e_id r, av_AggregateType = e_aggregate_type r, av_AggregateID = e_aggregate_id r,
     av_EventType = e_event_type r, av_IdempotencyKey = e_idempotency_key r, av_Payload = Some (e_payload r),
     av_CreatedAt = format_RFC3339Nano (e_created_at r)\<rparr>"

lemma projected_row: "loggable enc decode r \<Longrightarrow> projected decode (logged_row enc r) = row_document r"
  using pg_timestamp_read[of "e_created_at r"]
  by (simp add: loggable_def projected_def logged_row_def row_document_def)

lemma index_all_map_of:
  assumes "set es = row_document ` set rows" and "distinct (map e_id rows)"
  shows "index_all es Map.empty = map_of (map (\<lambda>r. (e_id r, row_document r)) rows)"
proof -
  have id: "av_ID (row_document r) = e_id r" for r by (simp add: row_document_def)
  have inj: "inj_on av_ID (set es)"
    using assms by (auto simp: inj_on_def distinct_map id)
  have keys: "map_of (map (\<lambda>r. (e_id r, row_document r)) rows) (e_id r) = Some (row_document r)" if "r \<in> set rows" for r
    using that assms(2) by (intro map_of_is_SomeI) (auto simp: comp_def)
  show ?thesis
  proof
    fix k
    show "index_all es Map.empty k = map_of (map (\<lambda>r. (e_id r, row_document r)) rows) k"
    proof (cases "k \<in> e_id ` set rows")
      case True
      then obtain r where r: "r \<in> set rows" "k = e_id r" by blast
      then have "row_document r \<in> set es" using assms(1) by blast
      then have "the_inv_into (set es) av_ID k = row_document r"
        using the_inv_into_f_f[OF inj] r(2) id by metis
      moreover have "k \<in> av_ID ` set es" using \<open>row_document r \<in> set es\<close> r(2) id by (metis imageI)
      ultimately show ?thesis using index_all_lookup[of es Map.empty k] inj keys[OF r(1)] r(2) by (simp add: one_event_each_def)
    next
      case False
      then have "k \<notin> av_ID ` set es" unfolding assms(1) by (auto simp: id)
      moreover have "map_of (map (\<lambda>r. (e_id r, row_document r)) rows) k = None"
        using False by (auto simp: map_of_eq_None_iff image_iff)
      ultimately show ?thesis using index_all_lookup[of es Map.empty k] inj by (simp add: one_event_each_def)
    qed
  qed
qed

text \<open>
  C12. The index implements the table \<open>events\<close>: when CDC has streamed a log with the rows of the table
  and the analytics service was given the messages that Kafka took, in any order and any number of times, the
  index has one document for each row, under its identifier, with its columns, its payload and its time
  in RFC 3339, and nothing else.
\<close>

theorem index_projects_log:
  assumes "logs_table i enc rows rvs" and "\<forall>r\<in>set rows. loggable enc decode r" and "distinct (map e_id rows)"
    and "streamLoop env rvs w = (Inr Continue, w')" and "trace w = []"
    and "ft_Message ` set (received fs) = cdc_message decode ` set (published (trace w'))"
    and "healthy_index aenv" and "consumeLoop aenv reader index fs v = (r, v')" and "ix_docs (data v) = Map.empty"
  shows "ix_docs (data v') = map_of (map (\<lambda>r. (e_id r, row_document r)) rows)"
proof -
  have "published (trace w') = snd (snd (absorb_all rvs (Map.empty, 0, [])))"
    using streamLoop_E(2)[OF assms(4,5)] by (metis progress_of_def snd_conv)
  also have "\<dots> = map (\<lambda>r. (e_aggregate_id r, logged_row enc r)) rows"
    using assms(2) by (intro logged_table_events[OF assms(1)]) (simp add: loggable_def)
  finally have "set (events_in fs) = (\<lambda>r. projected decode (logged_row enc r)) ` set rows"
    using events_in_written[OF assms(6)] by (simp add: image_image)
  also have "\<dots> = row_document ` set rows"
    using assms(2) projected_row by (intro image_cong) auto
  finally show ?thesis
    unfolding consumed_documents[OF assms(7,8)] assms(9) using assms(3) by (rule index_all_map_of)
qed

section \<open>Examples\<close>

definition demo_aenv :: aenv where
  "demo_aenv = \<lparr>fault = (\<lambda>n. None), commit_err = (\<lambda>n b. None), clock = int, fresh = (\<lambda>n. ''''),
     os_Exists = (\<lambda>n. Inr \<lparr>oa_StatusCode = 404, oa_Text = ''''\<rparr>), os_Create = (\<lambda>n. Inr \<lparr>oa_StatusCode = 200, oa_Text = ''''\<rparr>),
     os_Index = (\<lambda>n. Inr \<lparr>oa_StatusCode = 201, oa_Text = ''''\<rparr>), os_kept = (\<lambda>n. False), os_done = (\<lambda>n t. False)\<rparr>"

text \<open>OpenSearch refuses the first request.\<close>

definition demo_refusing :: aenv where
  "demo_refusing = demo_aenv\<lparr>os_Index := (\<lambda>n. if n = 0 then Inr \<lparr>oa_StatusCode = 429, oa_Text = ''''\<rparr>
     else Inr \<lparr>oa_StatusCode = 201, oa_Text = ''''\<rparr>)\<rparr>"

definition demo_written :: "string \<Rightarrow> (string \<times> walEvent)" where
  "demo_written i = (''o'', \<lparr>we_ID = i, we_AggregateType = '''', we_AggregateID = ''o'', we_EventType = '''',
     we_IdempotencyKey = '''', we_Payload = None, we_CreatedAt = ''''\<rparr>)"

definition demo_delivery :: "int \<Rightarrow> string \<Rightarrow> message fetch" where
  "demo_delivery i e = Fetched \<lparr>ft_Partition = 0, ft_Offset = i, ft_Headers = [],
     ft_Message = cdc_message (\<lambda>s. JNull) (demo_written e)\<rparr>"

definition demo_aworld :: "(os_index, os_effect) world" where
  "demo_aworld = init_world \<lparr>ix_docs = Map.empty\<rparr>"

definition demo_indexing :: "aenv \<Rightarrow> message fetch list \<Rightarrow> (goerr + consumer_state) \<times> (os_index, os_effect) world" where
  "demo_indexing env fs = consumeLoop env (analytics_reader (\<lambda>n m. None) ''events'' ''analytics'') ''events'' fs demo_aworld"

theorem committed_is_indexed_witness:
  "\<exists>kept. subseq kept (received [demo_delivery 1 ''e'', demo_delivery 2 ''f''])
    \<and> filter is_commit_event (trace (snd (demo_indexing demo_refusing [demo_delivery 1 ''e'', demo_delivery 2 ''f''])))
      = map (\<lambda>m. CommitEvent ''events'' ''analytics'' (ft_Partition m) (ft_Offset m)) kept
    \<and> list_all (has_document (data (snd (demo_indexing demo_refusing [demo_delivery 1 ''e'', demo_delivery 2 ''f''])))) kept
    \<and> kept \<noteq> []"
proof -
  let ?fs = "[demo_delivery 1 ''e'', demo_delivery 2 ''f'']"
  have some: "filter is_commit_event (trace (snd (demo_indexing demo_refusing ?fs))) \<noteq> []" by code_simp
  have none: "trace demo_aworld = []" by (simp add: demo_aworld_def init_world_def)
  obtain kept where "subseq kept (received ?fs)" "list_all (has_document (data (snd (demo_indexing demo_refusing ?fs)))) kept"
    "filter is_commit_event (trace (snd (demo_indexing demo_refusing ?fs)))
      = map (\<lambda>m. CommitEvent ''events'' ''analytics'' (ft_Partition m) (ft_Offset m)) kept"
    using committed_is_indexed[where env = demo_refusing and CommitMsgs = "\<lambda>n m. None" and topic = "''events''"
        and grp = "''analytics''" and index = "''events''" and fs = ?fs and w = demo_aworld, OF prod.collapse[symmetric]]
    unfolding demo_indexing_def none by auto
  with some show ?thesis by (intro exI[of _ kept]) auto
qed

theorem redelivered_events_indexed_once_witness:
  "ix_docs (data (snd (demo_indexing demo_aenv [demo_delivery 1 ''e'', demo_delivery 2 ''f'', demo_delivery 1 ''e''])))
   = ix_docs (data (snd (demo_indexing demo_aenv [demo_delivery 2 ''f'', demo_delivery 1 ''e''])))"
proof -
  have ok: "healthy_index demo_aenv" by (simp add: healthy_index_def demo_aenv_def IsError_def)
  have once: "set (events_in [demo_delivery 1 ''e'', demo_delivery 2 ''f'', demo_delivery 1 ''e''])
        = set (events_in [demo_delivery 2 ''f'', demo_delivery 1 ''e''])"
    "one_event_each (set (events_in [demo_delivery 1 ''e'', demo_delivery 2 ''f'', demo_delivery 1 ''e'']))"
    by (auto simp: events_in_def demo_delivery_def event_of_written List.map_filter_simps one_event_each_def projected_def demo_written_def)
  show ?thesis
    unfolding demo_indexing_def
    by (rule redelivered_events_indexed_once[OF ok ok prod.collapse[symmetric] prod.collapse[symmetric] once])
qed

text \<open>A table of two rows, as it is logged.\<close>

definition demo_event_row :: "string \<Rightarrow> event_row" where
  "demo_event_row i = \<lparr>e_id = i, e_aggregate_type = ''order'', e_aggregate_id = ''o'', e_event_type = ''order.created'',
     e_idempotency_key = i, e_payload = JObj [], e_created_at = 0\<rparr>"

definition demo_table_log :: "received list" where
  "demo_table_log = KeepAlive (Inr False) # map (\<lambda>m. XLog (Inr \<lparr>xl_WALStart = 10, xl_Length = 5, xl_Parsed = Inr m\<rparr>))
     [Begin, Relation (events_relation 7), Insert (row_insert 7 (\<lambda>_. '' {} '') (demo_event_row ''e'')),
      Insert (row_insert 7 (\<lambda>_. '' {} '') (demo_event_row ''f'')), Commit]"

definition demo_stream :: "(goerr + loop_end) \<times> (cdc_state, cdc_effect) world" where
  "demo_stream = streamLoop demo_cenv demo_table_log demo_cworld"

text \<open>Every message of the stream is delivered, and once more.\<close>

definition demo_deliveries :: "message fetch list" where
  "demo_deliveries = concat (replicate 2 (map (\<lambda>p. Fetched \<lparr>ft_Partition = 0, ft_Offset = 1, ft_Headers = [],
     ft_Message = cdc_message (\<lambda>s. JObj []) p\<rparr>) (published (trace (snd demo_stream)))))"

lemma demo_table_logged: "logs_table 7 (\<lambda>_. '' {} '') [demo_event_row ''e'', demo_event_row ''f''] demo_table_log"
  unfolding logs_table_def
proof (intro exI conjI)
  show "demo_table_log = [KeepAlive (Inr False), XLog (Inr \<lparr>xl_WALStart = 10, xl_Length = 5, xl_Parsed = Inr Begin\<rparr>)]
    @ XLog (Inr \<lparr>xl_WALStart = 10, xl_Length = 5, xl_Parsed = Inr (Relation (events_relation 7))\<rparr>) # drop 3 demo_table_log"
    by (simp add: demo_table_log_def)
qed (auto simp: demo_table_log_def logged_relations_def)

lemma demo_row_decoded:
  "decodeInsert (events_relation 7) (row_insert 7 enc (demo_event_row i)) = Inr (logged_row enc (demo_event_row i))"
  by (simp add: decodeInsert_row row_insert_def row_event_def column_text_def events_relation_def upt_7 logged_row_def
      demo_event_row_def Let_def)

lemma demo_streams: "fst demo_stream = Inr Continue"
proof -
  have i: "in_RelationID (row_insert 7 enc r) = 7" "rm_RelationID (events_relation 7) = 7" for enc r
    by (simp_all add: row_insert_def events_relation_def)
  show ?thesis
    by (simp add: demo_stream_def demo_table_log_def streamLoop_def run_simps heartbeat_def do_call_run handle_received_def
        handleWALMessage_def handle_insert_def marshal_event_def demo_row_decoded i demo_cenv_def logged_row_def split: if_splits)
qed

theorem index_projects_log_witness:
  "\<exists>d. ix_docs (data (snd (demo_indexing demo_aenv demo_deliveries))) ''f'' = Some d
     \<and> av_AggregateID d = ''o'' \<and> av_CreatedAt d = format_RFC3339Nano 0"
proof -
  let ?rows = "[demo_event_row ''e'', demo_event_row ''f'']"
  have stream: "streamLoop demo_cenv demo_table_log demo_cworld = (Inr Continue, snd demo_stream)"
    using demo_streams unfolding demo_stream_def by (metis prod.collapse)
  have start: "trace demo_cworld = []" "ix_docs (data demo_aworld) = Map.empty" "healthy_index demo_aenv"
    by (simp_all add: demo_cworld_def demo_aworld_def init_world_def healthy_index_def demo_aenv_def IsError_def)
  have fs: "ft_Message ` set (received demo_deliveries) = cdc_message (\<lambda>s. JObj []) ` set (published (trace (snd demo_stream)))"
  proof -
    have "received (map Fetched ms) = ms" for ms :: "message fetched list" by (induction ms) simp_all
    from this[of "concat (replicate 2 (map (\<lambda>p. \<lparr>ft_Partition = 0, ft_Offset = 1, ft_Headers = [],
      ft_Message = cdc_message (\<lambda>s. JObj []) p\<rparr>) (published (trace (snd demo_stream)))))"]
    show ?thesis by (auto simp: demo_deliveries_def numeral_2_eq_2 image_iff comp_def)
  qed
  have "year_of 0 = 1970" by code_simp
  then have rows: "\<forall>r\<in>set ?rows. loggable (\<lambda>_. '' {} '') (\<lambda>_. JObj []) r" "distinct (map e_id ?rows)"
    by (simp_all add: loggable_def demo_event_row_def)
  show ?thesis
    using index_projects_log[OF demo_table_logged rows stream start(1) fs start(3) prod.collapse[symmetric] start(2),
      where index = "''events''" and reader = "analytics_reader (\<lambda>n m. None) ''events'' ''analytics''"]
    by (simp add: demo_indexing_def demo_event_row_def row_document_def)
qed

text \<open>
  The comment of the loop expects that a message without a commit is delivered again. A later
  commit of the same partition covers it: here the first event is not in the index, and the
  second, of the next offset, is committed.
\<close>

lemma failed_event_covered:
  "let (r, w) = demo_indexing demo_refusing [demo_delivery 1 ''e'', demo_delivery 2 ''f''] in
     ix_docs (data w) ''e'' = None \<and> CommitEvent ''events'' ''analytics'' 0 2 \<in> set (trace w)"
  by code_simp

end
