(* ===== verification/WebhookPath.thy ===== *)
theory WebhookPath
  imports Ingest PmWorkerFacts SgService GoTimeFacts
begin

text \<open>
  The way of a webhook through the three services: silvergate posts it, ingest binds it and
  writes it to Kafka or posts it again, and paymanager reads it. Each service has its own
  type for it; the lemmas of the codecs connect them.
\<close>

section \<open>The webhook in the three services\<close>

text \<open>What ingest makes of an event that silvergate posts, and paymanager of what ingest sends.\<close>

definition ingested :: "Event \<Rightarrow> PaymentWebhookRequest" where
  "ingested e = \<lparr>pwr_Event = ev_Event e, pwr_TransactionID = ev_TransactionID e, pwr_RefundID = ev_RefundID e,
     pwr_OrderID = ev_OrderID e, pwr_MerchantID = ev_MerchantID e, pwr_Status = ev_Status e, pwr_Amount = ev_Amount e,
     pwr_Currency = ev_Currency e, pwr_Timestamp = ev_Timestamp e\<rparr>"

definition received_webhook :: "Event \<Rightarrow> CaptureWebhook" where
  "received_webhook e = \<lparr>cw_Event = ev_Event e, cw_TransactionID = ev_TransactionID e, cw_RefundID = ev_RefundID e,
     cw_OrderID = ev_OrderID e, cw_MerchantID = ev_MerchantID e, cw_Status = ev_Status e, cw_Amount = ev_Amount e,
     cw_Currency = ev_Currency e, cw_Timestamp = ev_Timestamp e\<rparr>"

lemma posted_event_bound: "read_PaymentWebhookRequest (Event_json e) = Inr (ingested e)"
  by (cases "ev_RefundID e = ''''")
    (simp_all add: read_PaymentWebhookRequest_def Event_json_def fields_of_def omitempty_def ingested_def
      str_field_marshal str_field_missing int64_field_marshal)

lemma sent_webhook_read: "read_CaptureWebhook (PaymentWebhookRequest_json (ingested e)) = Inr (received_webhook e)"
  by (cases "ev_RefundID e = ''''")
    (simp_all add: read_CaptureWebhook_def PaymentWebhookRequest_json_def fields_of_def omitempty_def ingested_def
      received_webhook_def str_field_marshal str_field_missing int64_field_marshal)

section \<open>The message in Kafka\<close>

text \<open>The value of a message is the envelope as JSON; a nil \<open>RawMessage\<close> is written as null.\<close>

definition Envelope_json :: "Envelope \<Rightarrow> json" where
  "Envelope_json e = JObj
     [(''event_id'', JStr (nv_EventID e)), (''key'', JStr (nv_Key e)), (''type'', JStr (nv_Type e)),
      (''payload'', case nv_Payload e of None \<Rightarrow> JNull | Some j \<Rightarrow> j), (''timestamp'', json_time (nv_Timestamp e))]"

definition written_message :: "Envelope \<Rightarrow> message" where
  "written_message e = \<lparr>ms_Key = nv_Key e, ms_Value = Inr (Envelope_json e)\<rparr>"

lemma written_envelope_read:
  assumes "0 \<le> year_of (nv_Timestamp e)" and "year_of (nv_Timestamp e) < 10000" and "nv_Payload e = Some j"
  shows "read_Envelope (Envelope_json e) = Inr e"
  using assms(3) time_field_marshal[OF assms(1,2)]
  by (simp add: read_Envelope_def Envelope_json_def fields_of_def str_field_marshal raw_field_def)

lemma open_written_message:
  assumes "0 \<le> year_of (nv_Timestamp e)" and "year_of (nv_Timestamp e) < 10000" and "nv_Payload e = Some j"
    and "read j = Inr x"
  shows "open_message read (written_message e) w = (Inr x, w)"
  using written_envelope_read[OF assms(1-3)] assms(3,4)
  by (simp add: open_message_def written_message_def payload_of_def bind_sum_def run_simps)

text \<open>An asynchronous webhook that is accepted was taken by the broker into its topic; a log record may follow.\<close>

lemma async_Payment_ok:
  assumes "async_Payment env topic cx req w = (Inr (), w')"
  obtains e n logs where "trace w' = trace w @ Publish topic (corr_header KafkaHeaderName cx) e None # logs" and "data w' = data w"
    and "nv_Key e = pwr_TransactionID req" and "nv_Payload e = Some (PaymentWebhookRequest_json req)"
    and "nv_Timestamp e = clock env n"
  using assms
  by (auto simp: async_Payment_def NewEnvelope_def kafka_Publish_def slog_at_def run_simps split: option.splits sum.splits if_splits)

section \<open>A refund from end to end\<close>

lemma posted_refund:
  assumes "SendRefundResult env url tx rf w = (r, w')"
  obtains now where "trace w' = trace w @ [Post url (Event_json
    \<lparr>ev_Event = (if rf_Status rf = RefundStatusFailed then ''transaction.refund_failed'' else ''transaction.refunded''),
     ev_TransactionID = tx_ID tx, ev_RefundID = rf_ID rf, ev_OrderID = tx_OrderRef tx, ev_MerchantID = tx_MerchantID tx,
     ev_Status = rf_Status rf, ev_Amount = rf_Amount rf, ev_Currency = tx_Currency tx, ev_Timestamp = format_RFC3339 now\<rparr>)]"
  using assms
  by (auto simp: SendRefundResult_def sendEvent_def Let_def run_simps split: sum.splits if_splits)

lemma accepted_asynchronously:
  assumes "PaymentHandler_Webhook (AsyncProcessor env ot dt topic) cx (Inr req) w = (Inr (202, None), w')"
  obtains e n logs where "trace w' = trace w @ Publish topic (corr_header KafkaHeaderName cx) e None # logs" and "data w' = data w"
    and "nv_Key e = pwr_TransactionID req" and "nv_Payload e = Some (PaymentWebhookRequest_json req)"
    and "nv_Timestamp e = clock env n"
proof -
  obtain q v where run: "async_Payment env topic cx req w = (q, v)" by (cases "async_Payment env topic cx req w")
  with assms have "q = Inr () \<and> v = w'"
    by (auto simp: PaymentHandler_Webhook_def answer_webhook_def AsyncProcessor_def webhook_reply_def run_simps split: sum.splits)
  with run have "async_Payment env topic cx req w = (Inr (), w')" by simp
  then show thesis by (rule async_Payment_ok) (rule that)
qed

text \<open>The years that RFC 3339 can write.\<close>

definition writable_times :: "('b) env_scheme \<Rightarrow> bool" where
  "writable_times env \<longleftrightarrow> (\<forall>n. 0 \<le> year_of (clock env n) \<and> year_of (clock env n) < 10000)"

text \<open>An event that silvergate posts, accepted by ingest, is read by paymanager as it was.\<close>

lemma posted_event_opened:
  assumes "PaymentHandler_Webhook (AsyncProcessor env ot dt topic) cx
      (read_PaymentWebhookRequest (Event_json evt)) w = (Inr (202, None), w')" and "writable_times env"
  obtains e logs where "trace w' = trace w @ Publish topic (corr_header KafkaHeaderName cx) e None # logs"
    and "opened read_CaptureWebhook (written_message e) = Some (received_webhook evt)"
proof -
  from assms(1)[unfolded posted_event_bound] obtain e n logs
    where e: "trace w' = trace w @ Publish topic (corr_header KafkaHeaderName cx) e None # logs"
      "nv_Payload e = Some (PaymentWebhookRequest_json (ingested evt))" "nv_Timestamp e = clock env n"
    by (rule accepted_asynchronously)
  have "open_message read_CaptureWebhook (written_message e) v = (Inr (received_webhook evt), v)" for v :: unit
    by (rule open_written_message[where read = read_CaptureWebhook, OF _ _ e(2) sent_webhook_read]) (use assms(2) e(3) in \<open>simp_all add: writable_times_def\<close>)
  from open_message_run[OF this] have "opened read_CaptureWebhook (written_message e) = Some (received_webhook evt)" by simp
  with e(1) show thesis by (rule that)
qed

text \<open>
  C11. A refund that silvergate reports, and ingest accepts in the Kafka mode, arrives: the broker has
  taken its message, and when a payment worker has gone through deliveries with the message
  among them, once or several times and between any others, the refund is counted for the
  payment of the transaction, under an event that names this refund, or the broker has taken the
  message into the dead letter topic, or it has refused it there, the only way to lose it.
\<close>

theorem refund_report_arrives:
  assumes "SendRefundResult senv url tx rf sw = (sr, sw')" and "rf_Status rf \<noteq> RefundStatusFailed"
    and "trace sw' = trace sw @ [Post url body]"
    and "PaymentHandler_Webhook (AsyncProcessor ienv ot dt topic) cx (read_PaymentWebhookRequest body) iw
      = (Inr (202, None), iw')" and "trace iw' = trace iw @ Publish topic headers e answer # logs" and "writable_times ienv"
    and "payment_worker penv rt cfg fetches w = (r, w')" and "sound_world penv ids w"
    and "x \<in> set (received fetches)" and "ft_Message x = written_message e"
  shows "answer = None \<and> ((\<exists>p. payment_of (tx_ID tx) (data w') = Some p
      \<and> (''payment'', y_id p, ''webhook_'' @ tx_ID tx @ ''_transaction.refunded_'' @ rf_ID rf) \<in> event_key ` set (events (data w')))
    \<or> dead_lettered (wk_DLQTopic (kc_Payments cfg)) (ft_Message x) (trace w')
    \<or> letter_refused (wk_DLQTopic (kc_Payments cfg)) (ft_Message x) (trace w'))"
proof -
  from assms(1) obtain now where post: "trace sw' = trace sw @ [Post url (Event_json
    \<lparr>ev_Event = (if rf_Status rf = RefundStatusFailed then ''transaction.refund_failed'' else ''transaction.refunded''),
     ev_TransactionID = tx_ID tx, ev_RefundID = rf_ID rf, ev_OrderID = tx_OrderRef tx, ev_MerchantID = tx_MerchantID tx,
     ev_Status = rf_Status rf, ev_Amount = rf_Amount rf, ev_Currency = tx_Currency tx, ev_Timestamp = format_RFC3339 now\<rparr>)]"
    (is "_ = _ @ [Post url (Event_json ?evt)]") by (rule posted_refund)
  with assms(3) have body: "body = Event_json ?evt" by simp
  from assms(4,6)[unfolded body] obtain e' logs' where "trace iw' = trace iw @ Publish topic (corr_header KafkaHeaderName cx) e' None # logs'"
    "opened read_CaptureWebhook (written_message e') = Some (received_webhook ?evt)"
    by (rule posted_event_opened)
  with assms(5) have answer: "answer = None"
    and opened: "opened read_CaptureWebhook (written_message e) = Some (received_webhook ?evt)" by simp_all
  from payment_worker_settles[OF assms(7,8,9)] show ?thesis
    using assms(2) answer unfolding assms(10)
    by (auto simp: payment_settled_def opened webhook_settled_def webhook_event_key_def refund_event_key_def received_webhook_def)
qed

section \<open>The report of a settlement\<close>

lemma posted_capture:
  assumes "SendCaptureResult env url tx w = (r, w')"
  obtains now where "trace w' = trace w @ [Post url (Event_json
    \<lparr>ev_Event = capture_event_name (tx_Status tx), ev_TransactionID = tx_ID tx, ev_RefundID = '''',
     ev_OrderID = tx_OrderRef tx, ev_MerchantID = tx_MerchantID tx, ev_Status = tx_Status tx,
     ev_Amount = tx_Amount tx, ev_Currency = tx_Currency tx, ev_Timestamp = format_RFC3339 now\<rparr>)]"
  using assms
  by (auto simp: SendCaptureResult_def sendEvent_def Let_def run_simps split: sum.splits if_splits)

lemma keeps_settle_update: "keeps_trace P (txrepo_CompareAndUpdateStatus env i from to)"
  unfolding txrepo_CompareAndUpdateStatus_def by (intro keeps_intros)

text \<open>A settlement up to the update of the row, and whole.\<close>

definition settle_update :: "('b) senv_scheme \<Rightarrow> Transaction \<Rightarrow> int64 \<Rightarrow> unit sg" where
  "settle_update env tx a w = txrepo_CompareAndUpdateStatus env (tx_ID tx) StatusCapturePending
     (settle_status (acq_Settle env (ticks w) (tx_ID tx) a)) (tick (w\<lparr>trace := trace w @ [AcqSettle (tx_ID tx) a]\<rparr>))"

lemma settleAsync_run:
  "settle_update env tx a w = (q, w2) \<Longrightarrow>
   snd (settleAsync env url tx a w) = (case q of Inl e \<Rightarrow> w2 | Inr _ \<Rightarrow> snd (SendCaptureResult env url tx w2))"
  by (auto simp: settle_update_def settleAsync_def Settle_call_def run_simps split: sum.splits prod.splits)

lemma settle_posts:
  assumes "settleAsync env url tx a w = (r, w')" and "Post u body \<in> set (trace w')" and "Post u body \<notin> set (trace w)"
  obtains evt where "body = Event_json evt" and "ev_Event evt = capture_event_name (tx_Status tx)" and "ev_Status evt = tx_Status tx"
proof -
  obtain q w2 where cas: "settle_update env tx a w = (q, w2)" by (cases "settle_update env tx a w")
  have quiet: "Post u body \<notin> set (trace w2)"
    using keepsD[OF keeps_settle_update[where P = "\<lambda>t. Post u body \<notin> set t"] cas[unfolded settle_update_def]] assms(3) by simp
  from settleAsync_run[OF cas, of url] assms(1,2) quiet have w': "w' = snd (SendCaptureResult env url tx w2)" by (auto split: sum.splits)
  obtain now where "trace w' = trace w2 @ [Post url (Event_json
    \<lparr>ev_Event = capture_event_name (tx_Status tx), ev_TransactionID = tx_ID tx, ev_RefundID = '''',
     ev_OrderID = tx_OrderRef tx, ev_MerchantID = tx_MerchantID tx, ev_Status = tx_Status tx,
     ev_Amount = tx_Amount tx, ev_Currency = tx_Currency tx, ev_Timestamp = format_RFC3339 now\<rparr>)]"
    (is "_ = _ @ [Post url (Event_json ?evt)]")
    by (rule posted_capture[where w = w2 and env = env and url = url and tx = tx, OF prod.collapse[symmetric], folded w'])
  with assms(2) quiet have "body = Event_json ?evt" by simp
  then show thesis by (rule that) simp_all
qed

text \<open>
  C37. The webhook that a settlement sends carries the status the transaction had when the
  capture was asked for, capture_pending, whatever the bank answered. Paymanager refuses it:
  no row changes, and a payment is not moved to captured or capture_failed by it.
\<close>

theorem settlement_report_refused:
  assumes "settleAsync senv url tx a sw = (sr, sw')" and "tx_Status tx = StatusCapturePending"
    and "Post u body \<in> set (trace sw')" and "Post u body \<notin> set (trace sw)"
    and "read_PaymentWebhookRequest body = Inr req" and "read_CaptureWebhook (PaymentWebhookRequest_json req) = Inr wh"
    and "ProcessCaptureWebhook penv wh w = (r, w')"
  shows "data w' = data w \<and> (\<exists>e. r = Inl e)"
proof -
  from assms(1,3,4) obtain evt where evt: "body = Event_json evt" "ev_Event evt = capture_event_name (tx_Status tx)"
    "ev_Status evt = tx_Status tx" by (rule settle_posts)
  have "wh = received_webhook evt"
    using assms(5,6) unfolding evt(1) posted_event_bound by (auto simp: sent_webhook_read)
  then have wh: "cw_Event wh = ''transaction.capture_pending''" "cw_Status wh = ''capture_pending''"
    using evt(2,3) assms(2) by (simp_all add: received_webhook_def capture_event_name_def)
  have "\<exists>e. r = Inl e"
  proof (rule ccontr)
    assume "\<nexists>e. r = Inl e"
    then obtain u where "r = Inr u" by (cases r) auto
    with assms(7) have "webhook_effect wh (data w) (data w')" by (auto dest: webhook_post)
    with wh show False by (auto simp: webhook_effect_def PmPaymentLedger.moved_def webhook_status_def)
  qed
  with assms(7) webhook_refused show ?thesis by blast
qed

section \<open>Examples\<close>

definition demo_reported_tx :: Transaction where
  "demo_reported_tx = \<lparr>tx_ID = ''tx'', tx_MerchantID = ''m'', tx_OrderRef = ''o'', tx_Amount = 500, tx_Currency = ''EUR'',
     tx_CardToken = ''tok'', tx_Status = StatusCapturePending, tx_DeclineReason = '''', tx_IdempotencyKey = ''k'',
     tx_PurchaseIdempotencyKey = '''', tx_ProductID = None, tx_RefundedAmount = 200, tx_CreatedAt = 0, tx_UpdatedAt = 0\<rparr>"

definition demo_reported_refund :: Refund where
  "demo_reported_refund = \<lparr>rf_ID = ''r1'', rf_TransactionID = ''tx'', rf_Amount = 200, rf_Status = RefundStatusDone,
     rf_IdempotencyKey = ''k'', rf_CreatedAt = 0, rf_UpdatedAt = 0\<rparr>"

definition demo_receiver :: ienv where
  "demo_receiver = \<lparr>fault = (\<lambda>n. None), commit_err = (\<lambda>n b. None), clock = (\<lambda>n. 0),
     fresh = (\<lambda>n. ''i''), ienv.kafka_Write = (\<lambda>n t e. None),
     api_Do = (\<lambda>n u b. Inr \<lparr>aa_StatusCode = 200, aa_Body = ''''\<rparr>), rand_Float = (\<lambda>n. 0),
     ctx_done = (\<lambda>n d. False), locked = (\<lambda>n. []), slog_Default = \<lparr>sl_Level = LevelInfo, sl_JSON = True\<rparr>\<rparr>"

definition demo_accept :: "json \<Rightarrow> (goerr + int \<times> json option) \<times> (inbox_row list, in_effect) world" where
  "demo_accept body = PaymentHandler_Webhook (AsyncProcessor demo_receiver ''o'' ''d'' ''p'') (Some ''c'')
     (read_PaymentWebhookRequest body) (init_world [])"

lemma demo_accepts: "fst (demo_accept (Event_json evt)) = Inr (202, None)"
  by (simp add: demo_accept_def posted_event_bound PaymentHandler_Webhook_def answer_webhook_def AsyncProcessor_def
      async_Payment_def NewEnvelope_def kafka_Publish_def slog_at_def demo_receiver_def run_simps)

lemma demo_receiver_times: "writable_times demo_receiver"
proof -
  have "year_of 0 = 1970" by code_simp
  then show ?thesis by (simp add: writable_times_def demo_receiver_def)
qed

text \<open>The message of the refund is delivered twice.\<close>

theorem refund_report_arrives_witness:
  "\<exists>e p w'. snd (payment_worker demo_wenv demo_runtime demo_kafka [demo_fetched 4 (written_message e), demo_fetched 5 (written_message e)] demo_w1) = w'
    \<and> ((payment_of ''tx'' (data w') = Some p
        \<and> (''payment'', y_id p, ''webhook_tx_transaction.refunded_r1'') \<in> event_key ` set (events (data w')))
      \<or> dead_lettered ''pd'' (written_message e) (trace w') \<or> letter_refused ''pd'' (written_message e) (trace w'))"
proof -
  let ?sent = "SendRefundResult (demo_env 0) ''cb'' demo_reported_tx demo_reported_refund (init_world \<lparr>transactions = [], refunds = [], products = []\<rparr>)"
  obtain evt where post: "trace (snd ?sent) = [] @ [Post ''cb'' (Event_json evt)]"
    by (rule posted_refund[OF prod.collapse[symmetric], of "demo_env 0" "''cb''" demo_reported_tx demo_reported_refund
        "init_world \<lparr>transactions = [], refunds = [], products = []\<rparr>"]) (simp add: init_world_def)
  have accept: "demo_accept (Event_json evt) = (Inr (202, None), snd (demo_accept (Event_json evt)))"
    using demo_accepts[of evt] by (metis prod.collapse)
  from posted_event_opened[OF accept[unfolded demo_accept_def] demo_receiver_times] obtain e logs
    where pub: "trace (snd (demo_accept (Event_json evt))) = [] @ Publish ''p'' (corr_header KafkaHeaderName (Some ''c'')) e None # logs"
    unfolding demo_accept_def append_Nil by (simp add: init_world_def) blast
  let ?fs = "[demo_fetched 4 (written_message e), demo_fetched 5 (written_message e)]"
  let ?x = "\<lparr>ft_Partition = 0, ft_Offset = 4, ft_Headers = [(KafkaHeaderName, ''c'')], ft_Message = written_message e\<rparr>"
  have st: "rf_Status demo_reported_refund \<noteq> RefundStatusFailed" by (simp add: demo_reported_refund_def)
  have sent: "trace (snd ?sent) = trace (init_world \<lparr>transactions = [], refunds = [], products = []\<rparr> :: (sg_data, sg_effect) world)
      @ [Post ''cb'' (Event_json evt)]" using post by (simp add: init_world_def)
  have written: "trace (snd (demo_accept (Event_json evt))) = trace (init_world [] :: (inbox_row list, in_effect) world)
      @ Publish ''p'' (corr_header KafkaHeaderName (Some ''c'')) e None # logs" using pub by (simp add: init_world_def)
  have x: "?x \<in> set (received ?fs)" "ft_Message ?x = written_message e" by (simp_all add: demo_fetched_def)
  note arrives = refund_report_arrives[OF prod.collapse[symmetric] st sent accept[unfolded demo_accept_def] written[unfolded demo_accept_def]
      demo_receiver_times prod.collapse[symmetric] demo_sound x]
  show ?thesis
    using arrives[where rt = demo_runtime and cfg = demo_kafka]
    by (auto simp: demo_kafka_def demo_reported_refund_def demo_reported_tx_def)
qed

definition demo_pending :: "(sg_data, sg_effect) world" where
  "demo_pending = init_world \<lparr>transactions =
     [\<lparr>t_id = ''tx'', t_merchant_id = ''m'', t_order_ref = ''o'', t_amount = 500, t_currency = ''EUR'', t_card_token = ''tok'',
       t_status = StatusCapturePending, t_decline_reason = None, t_idempotency_key = Some ''k'', t_purchase_idempotency_key = None,
       t_product_id = None, t_refunded_amount = 0, t_created_at = 0, t_updated_at = 0\<rparr>], refunds = [], products = []\<rparr>"

text \<open>The bank accepted the settlement; the row is captured, and paymanager does not learn of it.\<close>

theorem settlement_report_refused_witness:
  "\<exists>body req wh. Post ''cb'' body \<in> set (trace (snd (settleAsync (demo_env 0) ''cb'' demo_reported_tx 500 demo_pending)))
   \<and> map t_status (transactions (data (snd (settleAsync (demo_env 0) ''cb'' demo_reported_tx 500 demo_pending)))) = [StatusCaptured]
   \<and> read_PaymentWebhookRequest body = Inr req \<and> read_CaptureWebhook (PaymentWebhookRequest_json req) = Inr wh
   \<and> data (snd (ProcessCaptureWebhook demo_penv wh demo_w1)) = data demo_w1"
proof -
  obtain q w2 where cas: "settle_update (demo_env 0) demo_reported_tx 500 demo_pending = (q, w2)"
    by (cases "settle_update (demo_env 0) demo_reported_tx 500 demo_pending")
  have "let (q, w) = settle_update (demo_env 0) demo_reported_tx 500 demo_pending in
    q = Inr () \<and> map t_status (transactions (data w)) = [StatusCaptured]" by code_simp
  then have ok: "q = Inr ()" "map t_status (transactions (data w2)) = [StatusCaptured]" by (simp_all add: cas)
  let ?run = "settleAsync (demo_env 0) ''cb'' demo_reported_tx 500 demo_pending"
  have run: "snd ?run = snd (SendCaptureResult (demo_env 0) ''cb'' demo_reported_tx w2)"
    using settleAsync_run[OF cas] ok(1) by simp
  obtain evt where "trace (snd ?run) = trace w2 @ [Post ''cb'' (Event_json evt)]"
    unfolding run by (rule posted_capture[where w = w2 and tx = demo_reported_tx, OF prod.collapse[symmetric]]) blast
  then have posted: "Post ''cb'' (Event_json evt) \<in> set (trace (snd ?run))" by simp
  have st: "tx_Status demo_reported_tx = StatusCapturePending" by (simp add: demo_reported_tx_def)
  have new: "Post ''cb'' (Event_json evt) \<notin> set (trace demo_pending)" by (simp add: demo_pending_def init_world_def)
  have "data (snd (ProcessCaptureWebhook demo_penv (received_webhook evt) demo_w1)) = data demo_w1"
    using settlement_report_refused[OF prod.collapse[symmetric] st posted new posted_event_bound sent_webhook_read prod.collapse[symmetric]]
    by blast
  moreover have "data (snd ?run) = data w2" unfolding run by (rule Send_data(1)[OF prod.collapse[symmetric]])
  ultimately show ?thesis using posted ok(2) posted_event_bound sent_webhook_read by metis
qed

end
