(* ===== verification/LoadTest.thy ===== *)
theory LoadTest
  imports Ingest PmOrder PmDispute GoTimeFacts
begin

text \<open>
  The load generator (\<open>src/loadtest\<close>): virtual users that walk orders through their statuses, read
  them back and dispute some of them, against ingest and paymanager. The draws of
  \<open>math/rand\<close>, the answers and the end of the context are parts of the environment; the process runs
  in UTC. The loops have no bound of their own; they are given fuel, and answer \<open>None\<close> without it.
\<close>

section \<open>Results and statistics\<close>

record lt_result =
  lr_Endpoint :: string
  lr_Duration :: time
  lr_Status :: int
  lr_Error :: "goerr option"

record Stats =
  st_Total :: int64
  st_Success :: int64
  st_Errors :: int64
  st_Orders :: int64
  st_Disputes :: int64
  st_Reads :: int64
  st_Latencies :: "time list"

abbreviation orders_endpoint :: string where "orders_endpoint \<equiv> ''/webhooks/payments/orders''"
abbreviation chargebacks_endpoint :: string where "chargebacks_endpoint \<equiv> ''/webhooks/payments/chargebacks''"

definition refused :: "lt_result \<Rightarrow> bool" where
  "refused r \<longleftrightarrow> lr_Error r \<noteq> None \<or> 400 \<le> lr_Status r"

definition Stats_Record :: "lt_result \<Rightarrow> Stats \<Rightarrow> Stats" where
  "Stats_Record r s =
    (let s1 = s\<lparr>st_Total := st_Total s + 1\<rparr>;
         s2 = (if refused r then s1\<lparr>st_Errors := st_Errors s1 + 1\<rparr> else s1\<lparr>st_Success := st_Success s1 + 1\<rparr>);
         s3 = (if lr_Endpoint r = orders_endpoint then s2\<lparr>st_Orders := st_Orders s2 + 1\<rparr>
               else if lr_Endpoint r = chargebacks_endpoint then s2\<lparr>st_Disputes := st_Disputes s2 + 1\<rparr>
               else s2\<lparr>st_Reads := st_Reads s2 + 1\<rparr>)
     in s3\<lparr>st_Latencies := st_Latencies s3 @ [lr_Duration r]\<rparr>)"

definition no_stats :: Stats where
  "no_stats = \<lparr>st_Total = 0, st_Success = 0, st_Errors = 0, st_Orders = 0, st_Disputes = 0, st_Reads = 0, st_Latencies = []\<rparr>"

section \<open>Requests\<close>

datatype lt_effect = Posted string json | Fetched_url string

type_synonym 'a lt = "((Stats, lt_effect) world, 'a) prog"

record lenv = env +
  lt_Post :: "nat \<Rightarrow> string \<Rightarrow> json \<Rightarrow> goerr + int"
  lt_Get :: "nat \<Rightarrow> string \<Rightarrow> goerr + int"
  lt_Intn :: "nat \<Rightarrow> nat \<Rightarrow> nat"
  lt_Float :: "nat \<Rightarrow> rat"
  lt_done :: "nat \<Rightarrow> bool"

definition Record_lt :: "lt_result \<Rightarrow> unit lt" where
  "Record_lt r = (\<lambda>w. (Inr (), w\<lparr>data := Stats_Record r (data w)\<rparr>))"

text \<open>A request with the time it took; without an answer the status stays zero.\<close>

definition timed :: "('b) lenv_scheme \<Rightarrow> string \<Rightarrow> int lt \<Rightarrow> lt_result lt" where
  "timed env endpoint req =
     bnd (time_Now env) (\<lambda>start.
     bnd (attempt req) (\<lambda>r.
     bnd (time_Now env) (\<lambda>now.
     ret \<lparr>lr_Endpoint = endpoint, lr_Duration = now - start,
          lr_Status = (case r of Inl _ \<Rightarrow> 0 | Inr n \<Rightarrow> n), lr_Error = (case r of Inl e \<Rightarrow> Some e | Inr _ \<Rightarrow> None)\<rparr>)))"

definition sendGET :: "('b) lenv_scheme \<Rightarrow> string \<Rightarrow> string \<Rightarrow> lt_result lt" where
  "sendGET env target endpoint =
     timed env endpoint (bnd (emit (Fetched_url (target @ endpoint))) (\<lambda>_. call (\<lambda>n. lt_Get env n (target @ endpoint))))"

definition sendWebhook :: "('b) lenv_scheme \<Rightarrow> string \<Rightarrow> string \<Rightarrow> json \<Rightarrow> lt_result lt" where
  "sendWebhook env target endpoint payload =
     timed env endpoint (bnd (emit (Posted (target @ endpoint) payload)) (\<lambda>_. call (\<lambda>n. lt_Post env n (target @ endpoint) payload)))"

text \<open>\<open>json.Marshal\<close> writes the keys of a map in their order.\<close>

definition order_payload :: "string \<Rightarrow> string \<Rightarrow> string \<Rightarrow> string \<Rightarrow> time \<Rightarrow> json" where
  "order_payload eventID orderID userID status now = JObj
     [(''created_at'', JStr (format_RFC3339 now)), (''order_id'', JStr orderID), (''provider_event_id'', JStr eventID),
      (''status'', JStr status), (''updated_at'', JStr (format_RFC3339 now)), (''user_id'', JStr userID)]"

definition sendOrderWebhook :: "('b) lenv_scheme \<Rightarrow> string \<Rightarrow> string \<Rightarrow> string \<Rightarrow> string \<Rightarrow> time \<Rightarrow> lt_result lt" where
  "sendOrderWebhook env target orderID userID status now =
     bnd (uuid_New env) (\<lambda>i. sendWebhook env target orders_endpoint (order_payload i orderID userID status now))"

definition chargeback_payload ::
  "string \<Rightarrow> string \<Rightarrow> string \<Rightarrow> string \<Rightarrow> string \<Rightarrow> time \<Rightarrow> time option \<Rightarrow> json" where
  "chargeback_payload eventID orderID userID status resolution now evidenceDue = JObj (
     [(''amount'', JFloat (9999 / 100)), (''currency'', JStr ''USD'')]
     @ (case evidenceDue of None \<Rightarrow> [] | Some t \<Rightarrow> [(''evidence_due_at'', JStr (format_RFC3339 t))])
     @ (if resolution = '''' then [] else [(''meta'', JObj [(''resolution'', JStr resolution)])])
     @ [(''occurred_at'', JStr (format_RFC3339 now)), (''order_id'', JStr orderID), (''provider_event_id'', JStr eventID),
        (''reason'', JStr ''fraudulent''), (''status'', JStr status), (''user_id'', JStr userID)])"

definition sendChargebackWebhook ::
  "('b) lenv_scheme \<Rightarrow> string \<Rightarrow> string \<Rightarrow> string \<Rightarrow> string \<Rightarrow> string \<Rightarrow> time \<Rightarrow> time option \<Rightarrow> lt_result lt" where
  "sendChargebackWebhook env target orderID userID status resolution now evidenceDue =
     bnd (uuid_New env) (\<lambda>i.
       sendWebhook env target chargebacks_endpoint (chargeback_payload i orderID userID status resolution now evidenceDue))"

section \<open>Orders\<close>

definition orderTransitions :: "string \<Rightarrow> string list" where
  "orderTransitions s = (if s = OrderCreated \<or> s = OrderUpdated then [OrderUpdated, OrderSuccess, OrderFailed] else [])"

definition pickNextStatus :: "('b) lenv_scheme \<Rightarrow> string \<Rightarrow> string lt" where
  "pickNextStatus env current =
    (let candidates = orderTransitions current in
     if candidates = [] then ret ''''
     else bnd (ask (\<lambda>n. lt_Intn env n (length candidates))) (\<lambda>k. ret (candidates ! k)))"

fun order_loop :: "('b) lenv_scheme \<Rightarrow> string \<Rightarrow> string \<Rightarrow> string \<Rightarrow> nat \<Rightarrow> string \<Rightarrow> string option lt" where
  "order_loop env target orderID userID 0 current = ret None"
| "order_loop env target orderID userID (Suc fuel) current =
     bnd (ask (lt_done env)) (\<lambda>stop.
     if stop then ret (Some current)
     else bnd (pickNextStatus env current) (\<lambda>next.
       if next = '''' then ret (Some current)
       else bnd (time_Now env) (\<lambda>now.
            bnd (sendOrderWebhook env target orderID userID next now) (\<lambda>result.
            bnd (Record_lt result) (\<lambda>_.
            if refused result then ret (Some current)
            else if next = OrderSuccess \<or> next = OrderFailed then ret (Some next)
            else order_loop env target orderID userID fuel next)))))"

definition runOrderScenario :: "('b) lenv_scheme \<Rightarrow> nat \<Rightarrow> string \<Rightarrow> (string \<times> string \<times> string option) lt" where
  "runOrderScenario env fuel target =
     bnd (uuid_New env) (\<lambda>orderID.
     bnd (uuid_New env) (\<lambda>userID.
     bnd (time_Now env) (\<lambda>now.
     bnd (sendOrderWebhook env target orderID userID OrderCreated now) (\<lambda>result.
     bnd (Record_lt result) (\<lambda>_.
     if refused result then ret (orderID, userID, Some OrderCreated)
     else bnd (order_loop env target orderID userID fuel OrderCreated) (\<lambda>st. ret (orderID, userID, st)))))))"

section \<open>Disputes and reads\<close>

definition hours :: "int \<Rightarrow> time" where "hours n = n * 3600 * 1000000000"

text \<open>One webhook of a dispute, and the rest when it was taken and the context still runs.\<close>

definition closing_webhook :: "('b) lenv_scheme \<Rightarrow> string \<Rightarrow> string \<Rightarrow> string \<Rightarrow> unit lt" where
  "closing_webhook env target orderID userID =
     bnd (ask (lt_Float env)) (\<lambda>x.
     bnd (time_Now env) (\<lambda>now.
     bnd (sendChargebackWebhook env target orderID userID ''closed'' (if x < 1 / 2 then ''lost'' else ''won'') now None) Record_lt))"

definition unless_stopped :: "('b) lenv_scheme \<Rightarrow> lt_result \<Rightarrow> unit lt \<Rightarrow> unit lt" where
  "unless_stopped env result m =
    (if refused result then ret () else bnd (ask (lt_done env)) (\<lambda>stop. if stop then ret () else m))"

definition runDisputeScenario :: "('b) lenv_scheme \<Rightarrow> string \<Rightarrow> string \<Rightarrow> string \<Rightarrow> unit lt" where
  "runDisputeScenario env target orderID userID =
     bnd (time_Now env) (\<lambda>now.
     bnd (sendChargebackWebhook env target orderID userID ''opened'' '''' now (Some (now + hours (14 * 24)))) (\<lambda>result.
     bnd (Record_lt result) (\<lambda>_.
     unless_stopped env result (
       bnd (ask (lt_Float env)) (\<lambda>x.
       if x < 1 / 2 then
         bnd (time_Now env) (\<lambda>now.
         bnd (sendChargebackWebhook env target orderID userID ''updated'' '''' now (Some (now + hours (7 * 24)))) (\<lambda>result.
         bnd (Record_lt result) (\<lambda>_.
         unless_stopped env result (closing_webhook env target orderID userID))))
       else closing_webhook env target orderID userID)))))"

fun read_all :: "('b) lenv_scheme \<Rightarrow> string \<Rightarrow> string list \<Rightarrow> unit lt" where
  "read_all env apiTarget [] = ret ()"
| "read_all env apiTarget (ep # eps) =
     bnd (ask (lt_done env)) (\<lambda>stop.
     if stop then ret ()
     else bnd (sendGET env apiTarget ep) (\<lambda>result.
          bnd (Record_lt result) (\<lambda>_. read_all env apiTarget eps)))"

definition runReadQueries :: "('b) lenv_scheme \<Rightarrow> string \<Rightarrow> string \<Rightarrow> unit lt" where
  "runReadQueries env apiTarget orderID =
     read_all env apiTarget [''/orders/'' @ orderID, ''/orders?limit=10'', ''/orders/events?limit=10'']"

section \<open>Virtual users\<close>

text \<open>\<open>False\<close>: out of fuel, in this loop or in that of an order.\<close>

fun runVU :: "('b) lenv_scheme \<Rightarrow> rat \<Rightarrow> nat \<Rightarrow> nat \<Rightarrow> string \<Rightarrow> string \<Rightarrow> bool lt" where
  "runVU env disputeRatio ofuel 0 target apiTarget = ret False"
| "runVU env disputeRatio ofuel (Suc fuel) target apiTarget =
     bnd (ask (lt_done env)) (\<lambda>stop.
     if stop then ret True
     else bnd (runOrderScenario env ofuel target) (\<lambda>(orderID, userID, st). case st of
         None \<Rightarrow> ret False
       | Some finalStatus \<Rightarrow>
           bnd (runReadQueries env apiTarget orderID) (\<lambda>_.
           bnd (if finalStatus = OrderSuccess
                then bnd (ask (lt_Float env)) (\<lambda>x. if x < disputeRatio then runDisputeScenario env target orderID userID else ret ())
                else ret ()) (\<lambda>_.
           runVU env disputeRatio ofuel fuel target apiTarget))))"

text \<open>
  The figures of the summary, before they are printed. The latencies are sorted first, without any there
  are no percentiles; without a request there is no rate. The elapsed time is positive and is rounded to
  milliseconds, halves up; the floating point quotients are exact here.
\<close>

record Summary =
  su_Duration :: time
  su_Total :: int64
  su_Rate :: "rat option"
  su_Orders :: int64
  su_Disputes :: int64
  su_Reads :: int64
  su_Success :: int64
  su_Errors :: int64
  su_ErrorPercent :: "rat option"
  su_Percentiles :: "(time \<times> time \<times> time) option"

definition percentile :: "nat \<Rightarrow> time list \<Rightarrow> time" where
  "percentile k latencies = latencies ! (length latencies * k div 100)"

definition round_millis :: "time \<Rightarrow> time" where
  "round_millis d = (d + 500000) div 1000000 * 1000000"

definition printSummary :: "Stats \<Rightarrow> time \<Rightarrow> Summary" where
  "printSummary s elapsed =
    (let latencies = sort (st_Latencies s) in
     \<lparr>su_Duration = round_millis elapsed,
      su_Total = st_Total s,
      su_Rate = (if 0 < sint (st_Total s) then Some (of_int (sint (st_Total s)) * 1000000000 / of_int elapsed) else None),
      su_Orders = st_Orders s,
      su_Disputes = st_Disputes s,
      su_Reads = st_Reads s,
      su_Success = st_Success s,
      su_Errors = st_Errors s,
      su_ErrorPercent = (if 0 < sint (st_Total s) then Some (of_int (sint (st_Errors s)) / of_int (sint (st_Total s)) * 100) else None),
      su_Percentiles = (if latencies = [] then None
        else Some (percentile 50 latencies, percentile 95 latencies, percentile 99 latencies))\<rparr>)"

section \<open>Statistics add up\<close>

text \<open>Every request is counted as a success or an error, and under one of the three kinds.\<close>

definition stats_ok :: "Stats \<Rightarrow> bool" where
  "stats_ok s \<longleftrightarrow> st_Total s = st_Success s + st_Errors s
     \<and> st_Total s = st_Orders s + st_Disputes s + st_Reads s
     \<and> st_Total s = of_nat (length (st_Latencies s))"

lemma no_stats_ok: "stats_ok no_stats"
  by (simp add: stats_ok_def no_stats_def)

lemma keeps_Record [keeps_intros]: "keeps_data stats_ok (Record_lt r)"
  unfolding keeps_def Record_lt_def Stats_Record_def stats_ok_def Let_def by (auto simp: algebra_simps)

lemma keeps_send [keeps_intros]:
  "keeps_data I (sendGET env target ep)" "keeps_data I (sendWebhook env target ep p)"
  "keeps_data I (sendOrderWebhook env target i u s now)" "keeps_data I (sendChargebackWebhook env target i u s res now due)"
  unfolding sendGET_def sendWebhook_def sendOrderWebhook_def sendChargebackWebhook_def timed_def
  by (intro keeps_intros)+

lemma keeps_order_loop: "keeps_data stats_ok (order_loop env target i u fuel s)"
  by (induction fuel arbitrary: s) (auto intro!: keeps_intros simp: pickNextStatus_def Let_def)

lemma keeps_read_all: "keeps_data stats_ok (read_all env target eps)"
  by (induction eps) (auto intro!: keeps_intros)

lemma keeps_runDisputeScenario: "keeps_data stats_ok (runDisputeScenario env target i u)"
  unfolding runDisputeScenario_def unless_stopped_def closing_webhook_def by (intro keeps_intros)

lemma stats_add_up:
  "keeps_data stats_ok (runVU env ratio ofuel fuel target apiTarget)"
  by (induction fuel) (auto intro!: keeps_intros keeps_order_loop keeps_read_all keeps_runDisputeScenario
    simp: runOrderScenario_def runReadQueries_def)

lemma percentile_in:
  assumes "xs \<noteq> []" and "k < 100"
  shows "length xs * k div 100 < length xs"
  using assms by (simp add: div_less_iff_less_mult)

lemma percentiles_ordered:
  assumes "su_Percentiles (printSummary s elapsed) = Some (p50, p95, p99)"
  shows "p50 \<le> p95 \<and> p95 \<le> p99 \<and> {p50, p95, p99} \<subseteq> set (st_Latencies s)"
proof -
  let ?l = "sort (st_Latencies s)"
  have ne: "?l \<noteq> []" and p: "p50 = percentile 50 ?l" "p95 = percentile 95 ?l" "p99 = percentile 99 ?l"
    using assms by (auto simp: printSummary_def Let_def split: if_splits)
  have mono: "percentile j ?l \<le> percentile k ?l" if "j \<le> k" "k < 100" for j k
    unfolding percentile_def using that percentile_in[OF ne, of k]
    by (intro sorted_nth_mono) (simp_all add: div_le_mono)
  have mem: "percentile k ?l \<in> set (st_Latencies s)" if "k < 100" for k
    unfolding percentile_def using nth_mem[OF percentile_in[OF ne that]] by simp
  show ?thesis using mono[of 50 95] mono[of 95 99] mem by (simp add: p)
qed

section \<open>Orders walk along the table\<close>

lemma orderTransitions_allowed: "s' \<in> set (orderTransitions s) \<Longrightarrow> CanBeUpdatedTo s s'"
  by (auto simp: orderTransitions_def CanBeUpdatedTo_def split: if_splits)

text \<open>Time stamps have whole seconds.\<close>

definition seconds_of :: "time \<Rightarrow> time" where "seconds_of t = t - t mod 1000000000"

lemma parse_seconds:
  assumes "0 \<le> year_of t" and "year_of t < 10000"
  shows "parse_RFC3339 (format_RFC3339 t) = Inr (seconds_of t)"
proof -
  have d: "seconds_of t div 1000000000 = t div 1000000000" "seconds_of t mod 1000000000 = 0"
    by (simp_all add: seconds_of_def minus_mod_eq_mult_div)
  then have "format_RFC3339Nano (seconds_of t) = format_RFC3339 t" by (simp add: format_RFC3339Nano_def format_RFC3339_def Let_def)
  moreover have "year_of (seconds_of t) = year_of t" by (simp add: year_of_def d)
  ultimately show ?thesis using instant_roundtrip[of "seconds_of t"] assms by simp
qed

lemma order_payload_read:
  assumes "0 \<le> year_of t" and "year_of t < 10000"
  shows "read_OrderUpdateRequest (order_payload e i u s t) = Inr \<lparr>our_ProviderEventID = e, our_OrderID = i, our_UserID = u,
    our_Status = s, our_UpdatedAt = seconds_of t, our_CreatedAt = seconds_of t, our_Meta = None\<rparr>"
  using parse_seconds[OF assms]
  by (simp add: read_OrderUpdateRequest_def order_payload_def fields_of_def str_field_def time_field_def opt_time_field_def map_field_def)

definition is_order_webhook :: "('b) lenv_scheme \<Rightarrow> string \<Rightarrow> string \<Rightarrow> string \<Rightarrow> json \<Rightarrow> bool" where
  "is_order_webhook env i u s p \<longleftrightarrow> (\<exists>e n. p = order_payload e i u s (clock env n))"

lemma sendOrderWebhook_run:
  "\<exists>r w1. sendOrderWebhook env target i u s (clock env n) w = (Inr r, w1) \<and> ticks w < ticks w1 \<and> data w1 = data w
    \<and> (\<exists>p. is_order_webhook env i u s p \<and> trace w1 = trace w @ [Posted (target @ orders_endpoint) p])"
  by (auto simp: sendOrderWebhook_def sendWebhook_def timed_def run_simps is_order_webhook_def split: sum.splits)

text \<open>\<open>rand.Intn(n)\<close> lies below \<open>n\<close>.\<close>

definition draws_below :: "('b) lenv_scheme \<Rightarrow> bool" where
  "draws_below env \<longleftrightarrow> (\<forall>n k. 0 < k \<longrightarrow> lt_Intn env n k < k)"

lemma order_loop_run:
  assumes "order_loop env target i u fuel cur w = (Inr st, w')" and draws: "draws_below env"
  shows "\<exists>ss ps. trace w' = trace w @ map (Posted (target @ orders_endpoint)) ps \<and> list_all2 (is_order_webhook env i u) ss ps
    \<and> successively CanBeUpdatedTo (cur # ss)"
  using assms(1)
proof (induction fuel arbitrary: cur w)
  case 0
  then show ?case by (intro exI[of _ "[]"]) (simp add: run_simps)
next
  case (Suc fuel)
  show ?case
  proof (cases "lt_done env (ticks w) \<or> orderTransitions cur = []")
    case True
    with Suc.prems have "trace w' = trace w"
      by (auto simp: run_simps pickNextStatus_def split: if_splits)
    then show ?thesis by (intro exI[of _ "[]"]) simp
  next
    case False
    define nxt where "nxt = orderTransitions cur ! lt_Intn env (Suc (ticks w)) (length (orderTransitions cur))"
    let ?v = "tick (tick w)"
    have pick: "pickNextStatus env cur (tick w) = (Inr nxt, ?v)"
      using False by (simp add: pickNextStatus_def run_simps nxt_def Let_def)
    obtain r w1 p where send: "sendOrderWebhook env target i u nxt (clock env (ticks ?v)) (tick ?v) = (Inr r, w1)"
      and p: "is_order_webhook env i u nxt p" "trace w1 = trace w @ [Posted (target @ orders_endpoint) p]"
      using sendOrderWebhook_run[of env target i u nxt "ticks ?v" "tick ?v"] by auto
    let ?w2 = "w1\<lparr>data := Stats_Record r (data w1)\<rparr>"
    show ?thesis
    proof (cases "nxt = ''''")
      case True
      with Suc.prems False pick have "trace w' = trace w" by (auto simp: run_simps)
      then show ?thesis by (intro exI[of _ "[]"]) simp
    next
      case ne: False
      have rest: "(if refused r then ret (Some cur) else if nxt = OrderSuccess \<or> nxt = OrderFailed then ret (Some nxt)
          else order_loop env target i u fuel nxt) ?w2 = (Inr st, w')"
        using Suc.prems False pick ne send by (simp add: run_simps Record_lt_def)
      have more: "\<exists>ss ps. trace w' = trace ?w2 @ map (Posted (target @ orders_endpoint)) ps
          \<and> list_all2 (is_order_webhook env i u) ss ps \<and> successively CanBeUpdatedTo (nxt # ss)"
      proof (cases "refused r \<or> nxt = OrderSuccess \<or> nxt = OrderFailed")
        case True
        with rest have "w' = ?w2" by (auto simp: run_simps split: if_splits)
        then show ?thesis by (intro exI[of _ "[]"]) simp
      next
        case False
        with rest show ?thesis by (intro Suc.IH) simp
      qed
      then obtain ss ps where more: "trace w' = trace w1 @ map (Posted (target @ orders_endpoint)) ps"
        "list_all2 (is_order_webhook env i u) ss ps" "successively CanBeUpdatedTo (nxt # ss)" by auto
      have "nxt \<in> set (orderTransitions cur)"
        unfolding nxt_def using False draws by (intro nth_mem) (simp add: draws_below_def)
      then have "CanBeUpdatedTo cur nxt" by (rule orderTransitions_allowed)
      with more p show ?thesis
        by (intro exI[of _ "nxt # ss"] exI[of _ "p # ps"]) simp
    qed
  qed
qed

text \<open>
  Every webhook that the scenario of an order sends is read by ingest as an update of that order,
  and the statuses it sends start with \<open>created\<close> and move along the table of paymanager.
\<close>

theorem load_orders_follow_table:
  assumes "runOrderScenario env fuel target w = (Inr (i, u, st), w')" and "draws_below env"
    and "\<And>n. 0 \<le> year_of (clock env n) \<and> year_of (clock env n) < 10000"
  shows "\<exists>ss ps. trace w' = trace w @ map (Posted (target @ orders_endpoint)) ps
    \<and> successively CanBeUpdatedTo (OrderCreated # ss)
    \<and> list_all2 (\<lambda>s p. \<exists>e t. read_OrderUpdateRequest p = Inr \<lparr>our_ProviderEventID = e, our_OrderID = i, our_UserID = u,
        our_Status = s, our_UpdatedAt = t, our_CreatedAt = t, our_Meta = None\<rparr>) (OrderCreated # ss) ps"
proof -
  let ?post = "map (Posted (target @ orders_endpoint))" and ?i = "fresh env (ticks w)" and ?u = "fresh env (Suc (ticks w))"
  let ?w1 = "tick (tick (tick w))"
  obtain r w2 p where send: "sendOrderWebhook env target ?i ?u OrderCreated (clock env (Suc (Suc (ticks w)))) ?w1 = (Inr r, w2)"
    and p: "is_order_webhook env ?i ?u OrderCreated p" "trace w2 = trace w @ [Posted (target @ orders_endpoint) p]"
    using sendOrderWebhook_run[of env target ?i ?u OrderCreated "Suc (Suc (ticks w))" ?w1] by auto
  let ?w3 = "w2\<lparr>data := Stats_Record r (data w2)\<rparr>"
  have iu: "i = ?i" "u = ?u" and rest: "if refused r then w' = ?w3
      else \<exists>st'. order_loop env target ?i ?u fuel OrderCreated ?w3 = (Inr st', w')"
    using assms(1) send by (auto simp: runOrderScenario_def run_simps Record_lt_def split: if_splits prod.splits sum.splits)
  have "\<exists>ss ps. trace w' = trace ?w3 @ ?post ps \<and> list_all2 (is_order_webhook env ?i ?u) ss ps
      \<and> successively CanBeUpdatedTo (OrderCreated # ss)"
  proof (cases "refused r")
    case True
    with rest show ?thesis by (intro exI[of _ "[]"]) simp
  next
    case False
    with rest obtain st' where "order_loop env target ?i ?u fuel OrderCreated ?w3 = (Inr st', w')" by auto
    from order_loop_run[OF this assms(2)] show ?thesis by simp
  qed
  then obtain ss ps where run: "trace w' = trace ?w3 @ ?post ps" "list_all2 (is_order_webhook env ?i ?u) ss ps"
    "successively CanBeUpdatedTo (OrderCreated # ss)" by blast
  have read: "\<exists>e t. read_OrderUpdateRequest q = Inr \<lparr>our_ProviderEventID = e, our_OrderID = i, our_UserID = u,
        our_Status = s, our_UpdatedAt = t, our_CreatedAt = t, our_Meta = None\<rparr>" if "is_order_webhook env ?i ?u s q" for s q
    using that order_payload_read assms(3) unfolding iu is_order_webhook_def by blast
  show ?thesis
    using run p read by (intro exI[of _ ss] exI[of _ "p # ps"]) (auto elim: list_all2_mono)
qed

section \<open>Users stop\<close>

text \<open>A program that returns a value, and does not set the clock back.\<close>

definition returns :: "'a lt \<Rightarrow> bool" where
  "returns m \<longleftrightarrow> (\<forall>w. \<exists>x w'. m w = (Inr x, w') \<and> ticks w \<le> ticks w')"

lemma returnsE:
  assumes "returns m"
  obtains x w' where "m w = (Inr x, w')" and "ticks w \<le> ticks w'"
  using assms unfolding returns_def by blast

lemma returns_bnd:
  assumes "returns m" and "\<And>x. returns (f x)"
  shows "returns (bnd m f)"
proof (unfold returns_def, rule allI)
  fix w
  obtain x w1 where m: "m w = (Inr x, w1)" "ticks w \<le> ticks w1" using assms(1) by (rule returnsE)
  obtain y w2 where "f x w1 = (Inr y, w2)" "ticks w1 \<le> ticks w2" using assms(2) by (rule returnsE)
  with m show "\<exists>y w'. bnd m f w = (Inr y, w') \<and> ticks w \<le> ticks w'" by (auto simp: run_simps)
qed

lemma returns_basic: "returns (Pair (Inr x))" "returns (ret x)" "returns (ask g)" "returns (emit e)" "returns (Record_lt r)" "returns (attempt (call h))"
  by (simp_all add: returns_def run_simps Record_lt_def)

lemma returns_if: "returns m \<Longrightarrow> returns n \<Longrightarrow> returns (if b then m else n)"
  by simp

lemma returns_timed: "returns (timed env ep (bnd (emit e) (\<lambda>_. call h)))"
  by (auto simp: returns_def timed_def run_simps split: sum.splits)

lemma returns_send:
  "returns (sendGET env target ep)" "returns (sendOrderWebhook env target i u s now)"
  "returns (sendChargebackWebhook env target i u s res now due)"
  unfolding sendGET_def sendOrderWebhook_def sendChargebackWebhook_def sendWebhook_def
  by (intro returns_bnd returns_basic returns_timed)+

lemma returns_pick: "returns (pickNextStatus env cur)"
  unfolding pickNextStatus_def Let_def by (intro returns_if returns_bnd returns_basic)

lemma returns_reads: "returns (runReadQueries env target i)"
proof -
  have "returns (read_all env target eps)" for eps
    by (induction eps) (auto intro!: returns_bnd returns_basic returns_if returns_send)
  then show ?thesis unfolding runReadQueries_def .
qed

lemma returns_dispute: "returns (runDisputeScenario env target i u)"
  unfolding runDisputeScenario_def unless_stopped_def closing_webhook_def
  by (intro returns_bnd returns_basic returns_if returns_send)

lemma order_loop_ends:
  assumes "\<And>n. N \<le> n \<Longrightarrow> lt_done env n" and "N < fuel + ticks w" and "0 < fuel"
  shows "\<exists>st w'. order_loop env target i u fuel cur w = (Inr (Some st), w') \<and> ticks w \<le> ticks w'"
  using assms(2,3)
proof (induction fuel arbitrary: cur w)
  case (Suc fuel)
  show ?case
  proof (cases "lt_done env (ticks w)")
    case True
    then show ?thesis by (simp add: run_simps)
  next
    case False
    with assms(1) have before: "ticks w < N" by (meson not_le)
    obtain nxt w1 where pick: "pickNextStatus env cur (tick w) = (Inr nxt, w1)" "Suc (ticks w) \<le> ticks w1"
      using returnsE[OF returns_pick, of env cur "tick w"] by auto
    obtain r w2 where send: "sendOrderWebhook env target i u nxt (clock env (ticks w1)) (tick w1) = (Inr r, w2)" "Suc (ticks w1) \<le> ticks w2"
      using returnsE[OF returns_send(2), of env target i u nxt "clock env (ticks w1)" "tick w1"] by auto
    let ?w3 = "w2\<lparr>data := Stats_Record r (data w2)\<rparr>"
    have "\<exists>st w'. order_loop env target i u fuel nxt ?w3 = (Inr (Some st), w') \<and> ticks ?w3 \<le> ticks w'"
      using Suc.prems before pick(2) send(2) by (intro Suc.IH) simp_all
    with False pick send show ?thesis by (auto simp: run_simps Record_lt_def split: if_splits)
  qed
qed simp

text \<open>A virtual user stops once the context has ended; as much fuel as the clock had to run is enough.\<close>

theorem load_user_stops:
  assumes "\<And>n. N \<le> n \<Longrightarrow> lt_done env n" and "N < ofuel" and "N < fuel + ticks w" and "0 < fuel"
  shows "\<exists>w'. runVU env ratio ofuel fuel target apiTarget w = (Inr True, w')"
  using assms(3,4)
proof (induction fuel arbitrary: w)
  case (Suc fuel)
  show ?case
  proof (cases "lt_done env (ticks w)")
    case True
    then show ?thesis by (simp add: run_simps)
  next
    case False
    with assms(1) have before: "ticks w < N" by (meson not_le)
    have order: "\<exists>i u st w1. runOrderScenario env ofuel target (tick w) = (Inr (i, u, Some st), w1) \<and> ticks (tick w) \<le> ticks w1"
    proof -
      let ?v = "tick (tick (tick (tick w)))" and ?i = "fresh env (ticks (tick w))" and ?u = "fresh env (ticks (tick (tick w)))"
      let ?now = "clock env (ticks (tick (tick (tick w))))"
      obtain r w2 where send: "sendOrderWebhook env target ?i ?u OrderCreated ?now ?v = (Inr r, w2)" "ticks ?v \<le> ticks w2"
        by (rule returnsE[OF returns_send(2)])
      let ?w3 = "w2\<lparr>data := Stats_Record r (data w2)\<rparr>"
      obtain st w4 where "order_loop env target ?i ?u ofuel OrderCreated ?w3 = (Inr (Some st), w4)" "ticks ?w3 \<le> ticks w4"
        using order_loop_ends[of N env ofuel ?w3 target ?i ?u OrderCreated] assms(1,2) by auto
      with send show ?thesis by (auto simp: runOrderScenario_def run_simps Record_lt_def)
    qed
    then obtain i u st w1 where o1: "runOrderScenario env ofuel target (tick w) = (Inr (i, u, Some st), w1)" "Suc (ticks w) \<le> ticks w1" by auto
    obtain x w2 where r2: "runReadQueries env apiTarget i w1 = (Inr x, w2)" "ticks w1 \<le> ticks w2"
      by (rule returnsE[OF returns_reads])
    let ?d = "if st = OrderSuccess
      then bnd (ask (lt_Float env)) (\<lambda>x. if x < ratio then runDisputeScenario env target i u else ret ()) else ret ()"
    have "returns ?d" by (intro returns_if returns_bnd returns_basic returns_dispute)
    then obtain y w3 where d: "?d w2 = (Inr y, w3)" "ticks w2 \<le> ticks w3" by (rule returnsE)
    have "\<exists>w'. runVU env ratio ofuel fuel target apiTarget w3 = (Inr True, w')"
      using Suc.prems before o1(2) r2(2) d(2) by (intro Suc.IH) simp_all
    moreover have "runVU env ratio ofuel (Suc fuel) target apiTarget w = runVU env ratio ofuel fuel target apiTarget w3"
      using False o1(1) r2(1) d(1) by (simp add: run_simps)
    ultimately show ?thesis by simp
  qed
qed simp

end
