(* ===== verification/Spec2Isabelle.thy ===== *)
theory Spec2Isabelle
  imports GoTimeFacts SgScenarios SgControllers SgApp PmPaymentFacts PmOrderFacts PmOrderApi PmDisputeFacts
    PmDisputeApi PmApp IngestFacts IngestApp CdcFacts PmWorkerFacts AnalyticsFacts WebhookPath LoadTest
begin

text \<open>
  A verification library for the distributed payment manager: five Go services and the packages
  that they share. This theory imports all others; it holds no definitions.

  \<^bold>\<open>The program.\<close> Under \<open>src/services\<close>:
    \<^item> \<open>silvergate\<close>, a payment provider: authorisation, capture, void and refund of transactions over a
      mock bank, a catalogue of products, and purchases of them. It reports results to a callback URL.
    \<^item> \<open>ingest\<close> takes those webhooks, and webhooks on orders and chargebacks, and passes them on in one
      of three modes: to Kafka, to paymanager over HTTP, or through an inbox table and a worker.
    \<^item> \<open>paymanager\<close> keeps payments, orders and disputes, asks silvergate for money movements, and takes
      the webhooks from its internal HTTP routes or from Kafka. Every change is also a row of the
      table \<open>events\<close>.
    \<^item> \<open>cdc\<close> follows the logical replication of that table and publishes its rows to Kafka.
    \<^item> \<open>analytics\<close> reads them from Kafka into an OpenSearch index.
  Under \<open>src/pkg\<close> are the packages for PostgreSQL, Kafka, messaging, correlation identifiers, logging,
  health checks and metrics.

  \<^bold>\<open>The shape of the model.\<close> A Go function is a program, a function from a world to an error or a
  value and the next world (\<open>Prelude\<close>). A world (\<open>Postgres\<close>) holds the rows of a service, whether
  a transaction is open and whether it has failed, a clock that counts the questions put to the
  environment, and the trace of effects: requests, Kafka messages, goroutines started, log records,
  lines on the standard output. A message to Kafka and an acknowledgement to the replication server are in
  the trace together with the answer, so that what was tried and what was taken are not confused.
  The environment is a record of functions of the clock: faults of the database and of
  commits, \<open>time.Now\<close>, \<open>uuid.New\<close>, what the bank, the provider, the broker answer. Theorems are about
  every environment unless they say what they need of it (\<open>healthy\<close>: the database has no faults).
  Errors are values of \<open>goerr\<close> (\<open>Errors\<close>) with sentinels, wrapping and \<open>errors.Is\<close>. Tables are
  lists of rows under a schema of checks and unique indexes taken from the migrations. Amounts are
  64-bit words with their wrap-around; a \<open>float64\<close> is a rational, rounded where the code's result depends on
  it (\<open>PmPayment\<close>, the capture); an instant is an \<open>int\<close> of nanoseconds.

  \<^bold>\<open>Theories and sources.\<close>
    \<^item> Go and its libraries: \<open>GoStd\<close> (decimal numbers, RFC 3339, JSON documents), \<open>GoTime\<close> and
      \<open>GoTimeFacts\<close> (the calendar; an instant is read back as written), \<open>GoDuration\<close>, \<open>GoBase64\<close>, \<open>GoJson\<close> and
      \<open>GoJsonFacts\<close> (the text of JSON; documents of ASCII strings and integers are read back as written),
      \<open>Http\<close> (replies and what handlers read of a request).
    \<^item> \<open>src/pkg\<close>: \<open>Postgres\<close> and \<open>PgPool\<close> (\<open>postgres\<close>), \<open>Messaging\<close> and \<open>Consumer\<close> (\<open>messaging\<close>, \<open>kafka\<close>,
      \<open>correlation\<close>), \<open>Health\<close> (\<open>health\<close>), \<open>GinEngine\<close> (\<open>logger\<close>, \<open>metrics/middleware.go\<close>).
    \<^item> Contracts, as locales: \<open>StatusMachine\<close> (a rank that every change of status increases; interpreted on
      transactions, payments and orders), \<open>Keyset\<close> (paging behind a cursor; products and events),
      \<open>IdempotentLog\<close> (a log with an idempotency key; the event store, the two event sinks, the
      inbox), \<open>redelivery\<close> in \<open>Messaging\<close> and \<open>guarded_redelivery\<close> in \<open>Consumer\<close> (a handler whose
      accepted messages stay settled; the payment webhooks).
    \<^item> silvergate: \<open>SgTransaction\<close>, \<open>SgDatabase\<close>, \<open>SgWebhook\<close>, \<open>SgService\<close> (package \<open>transaction\<close> with its
      repository, acquirer and webhook sender), \<open>SgProduct\<close>, \<open>SgProductRepo\<close>, \<open>SgPurchase\<close>,
      \<open>SgControllers\<close> (controllers and \<open>router.go\<close>), \<open>SgApp\<close> (\<open>app.go\<close>, \<open>config\<close>). \<open>SgLedger\<close> is the step relation of
      the service, \<open>SgScenarios\<close> an executable scheduler for it and the properties of its runs.
    \<^item> paymanager: \<open>PmDatabase\<close>, \<open>EventStore\<close>, \<open>EventSink\<close>, \<open>Cursors\<close>, \<open>SilvergateClient\<close>, then for payments, orders
      and disputes the model (\<open>PmPayment\<close>, \<open>PmOrder\<close>, \<open>PmDispute\<close>), the controllers (\<open>...Api\<close>) and the
      properties (\<open>...Facts\<close>, \<open>PmPaymentLedger\<close>); \<open>PmWorkers\<close> and \<open>PmWorkerFacts\<close> (\<open>workers.go\<close>), \<open>PmApp\<close> (\<open>app.go\<close>,
      \<open>router.go\<close>, \<open>internal_router.go\<close>, \<open>config\<close>).
    \<^item> ingest: \<open>Ingest\<close> and \<open>IngestFacts\<close>, \<open>IngestApp\<close> (\<open>app.go\<close>, \<open>router.go\<close>, \<open>config\<close>). cdc: \<open>Cdc\<close>, \<open>CdcFacts\<close>.
      analytics: \<open>Analytics\<close>, \<open>AnalyticsFacts\<close>. \<open>WebhookPath\<close> joins silvergate, ingest and paymanager.
    \<^item> \<open>LoadTest\<close>: the virtual users of \<open>src/loadtest\<close>; what they send is read by ingest and follows the
      table of paymanager's orders.
  Definitions have the names of the functions they translate, with the package before or after where two
  packages share a name. Fields of records have the prefix of their type (\<open>tx_\<close>, \<open>py_\<close>, \<open>od_\<close>).

  \<^bold>\<open>What is shown.\<close>
    \<^item> Money. In every reachable state of silvergate the refunds of a transaction stay within its
      authorised amount, and the reserved amount is what the refunds add up to; paymanager's refunded amount is
      the sum of the refund webhooks it accepted, each refund once, although webhooks arrive any
      number of times and in any order. A refund is asked for only within the balance that was read.
    \<^item> Status machines. Transactions, payments, orders and disputes move along their tables, keep
      their final states, and keep the dates and amounts that belong to a status; transactions and disputes keep
      their terms.
    \<^item> Delivery. The inbox keeps what it accepted, hands a message to one worker at a time, bounds
      retries, and refines an abstract queue; paymanager's worker settles every payment webhook or has it taken
      into the dead letters, and loses one only when the broker refuses its dead letter; Kafka has taken the rows
      of a prefix of the log in order, column by column, and cdc reports no position ahead of them; the index
      of analytics is the table \<open>events\<close>. A refund reported by silvergate arrives, or is in the dead
      letters, or its dead letter was refused.
    \<^item> Listing. Following the cursors of products and events, request after request, lists every row
      once.
    \<^item> Purchases, product updates, evidence, health checks, correlation identifiers, the routes
      that read. Where the code does not do what it means to, the theorem or lemma states what it does.

  \<^bold>\<open>Steps, bounds, fuel.\<close> Systems are inductive step relations over the operations of a service
  in any order (\<open>sg_step\<close>, \<open>pay_step\<close>, \<open>order_step\<close>, \<open>dispute_step\<close>, \<open>inbox_step\<close>). A request, a
  goroutine or a transaction is one step; what concurrent transactions do to each other is a fault
  (a serialization failure) or an older row read from the replica. Retries recurse over the attempts that
  are left, consumers over the list of what they are given, the inbox worker over the number of its ticks, and
  paging over a number of pages that one more than the number of rows always suffices for. The loops of a
  virtual user have fuel; as much as the clock has to run until the context ends suffices. All
  other recursions terminate by a measure; nothing is left partial.

  \<^bold>\<open>Arguments of the model.\<close> What is not in the repository is an argument with what is documented of it as a
  hypothesis where it is needed: gin's binding and validation, \<open>uuid.Parse\<close>, pgxpool, goose, the
  decoding of the replication protocol by pglogrepl, Kafka, OpenSearch, \<open>math/rand\<close>, the page of
  prometheus. JSON keys are matched as they are written (Go also accepts other cases).

  \<^bold>\<open>Not modelled.\<close> Listening, signals and shutdown of the services; panics, and with them
  \<open>gin.Recovery\<close> and the recovery in \<open>Runner.Start\<close>; time-outs, but as errors of the environment;
  commits whose outcome the driver does not know (here an error of \<open>Commit\<close> means that nothing was written);
  errors of \<open>json.Marshal\<close> on the types of the repository and of \<open>http.NewRequestWithContext\<close> on a malformed base URL
  (\<open>sendRequest\<close> of ingest starts where the request is built); of the log records, all but those of the
  middlewares and of the Kafka publisher of ingest; the line that \<open>InTransaction\<close> prints when a rollback fails;
  how the steps of two consumers interleave; lengths of columns, collation of identifiers, rounding of
  \<open>DECIMAL\<close> beyond its range, partitions; attributes and groups of child loggers; the declarations of metrics;
  the runner of migrations, which only calls goose; the flags and the signal of \<open>loadtest\<close>; \<open>testinfra\<close>, tests and generated
  mocks, which are no part of the services.
\<close>

end
